(* ===== verification/Prelude.thy ===== *)
theory Prelude
  imports Main "HOL-Library.Word" "HOL-Library.Code_Target_Nat"
begin

text \<open>
  Shared vocabulary of the development: the machine types of the Rust sources, fallible
  computations (Rust's Result and the question-mark operator), 64-bit arithmetic with its
  wrap-around and saturation written out, little- and big-endian integer encodings, and the
  list facts the components use.

  Unsigned 32- and 64-bit integers are natural numbers; every operation that can leave the range
  is one of the functions below, so wrap-around (the release profile does not check overflow) and
  saturation are visible in the definitions. Bytes are 8-bit words.
\<close>

named_theorems result_simps \<open>evaluation rules of the fallible-computation combinators\<close>
named_theorems u64_defs \<open>definitions of the 64-bit operations\<close>

type_synonym u8 = "8 word"
type_synonym bytes = "u8 list"
type_synonym u32 = nat
type_synonym u64 = nat
type_synonym usize = nat
type_synonym ('e, 'a) result = "'e + 'a"


section \<open>Fallible computations\<close>

text \<open>The question-mark operator: the first error ends the computation.\<close>

primrec bindE :: "('e, 'a) result \<Rightarrow> ('a \<Rightarrow> ('e, 'b) result) \<Rightarrow> ('e, 'b) result" where
  "bindE (Inl e) f = Inl e"
| "bindE (Inr x) f = f x"

text \<open>The conversion the question-mark operator applies to the error (Result::map\_err).\<close>

primrec map_err :: "('e \<Rightarrow> 'f) \<Rightarrow> ('e, 'a) result \<Rightarrow> ('f, 'a) result" where
  "map_err h (Inl e) = Inl (h e)"
| "map_err h (Inr x) = Inr x"

text \<open>Option::ok\_or.\<close>

definition ok_or :: "'e \<Rightarrow> 'a option \<Rightarrow> ('e, 'a) result" where
  "ok_or e x = (case x of None \<Rightarrow> Inl e | Some y \<Rightarrow> Inr y)"

text \<open>An early return: \<^verbatim>\<open>if b { return Err(e) }\<close>.\<close>

definition failIf :: "bool \<Rightarrow> 'e \<Rightarrow> ('e, unit) result" where
  "failIf b e = (if b then Inl e else Inr ())"

text \<open>A loop over a list whose body may fail, collecting the results.\<close>

primrec mapE :: "('a \<Rightarrow> ('e, 'b) result) \<Rightarrow> 'a list \<Rightarrow> ('e, 'b list) result" where
  "mapE f [] = Inr []"
| "mapE f (x # xs) = bindE (f x) (\<lambda>y. bindE (mapE f xs) (\<lambda>ys. Inr (y # ys)))"

text \<open>A loop over a list that threads a state through a fallible body.\<close>

primrec foldE :: "('a \<Rightarrow> 's \<Rightarrow> ('e, 's) result) \<Rightarrow> 'a list \<Rightarrow> 's \<Rightarrow> ('e, 's) result" where
  "foldE f [] s = Inr s"
| "foldE f (x # xs) s = bindE (f x s) (foldE f xs)"

definition is_ok :: "('e, 'a) result \<Rightarrow> bool" where
  "is_ok r = (case r of Inl _ \<Rightarrow> False | Inr _ \<Rightarrow> True)"

lemma is_ok_simps [simp]: "is_ok (Inr x)" "\<not> is_ok (Inl e)"
  by (simp_all add: is_ok_def)

lemma is_okE: "is_ok r \<Longrightarrow> (\<And>x. r = Inr x \<Longrightarrow> P) \<Longrightarrow> P"
  by (cases r) auto

lemma bindE_Inr_iff [result_simps]:
  "bindE m f = Inr y \<longleftrightarrow> (\<exists>x. m = Inr x \<and> f x = Inr y)"
  by (cases m) auto

lemma bindE_Inl_iff [result_simps]:
  "bindE m f = Inl e \<longleftrightarrow> m = Inl e \<or> (\<exists>x. m = Inr x \<and> f x = Inl e)"
  by (cases m) auto

lemma bindE_split:
  "P (bindE m f) \<longleftrightarrow> (\<forall>e. m = Inl e \<longrightarrow> P (Inl e)) \<and> (\<forall>x. m = Inr x \<longrightarrow> P (f x))"
  by (cases m) auto

lemma bindE_assoc: "bindE (bindE m f) g = bindE m (\<lambda>x. bindE (f x) g)"
  by (cases m) simp_all

lemma map_err_Inr_iff [result_simps]: "map_err h m = Inr x \<longleftrightarrow> m = Inr x"
  by (cases m) auto

lemma map_err_Inl_iff [result_simps]: "map_err h m = Inl e \<longleftrightarrow> (\<exists>e'. m = Inl e' \<and> h e' = e)"
  by (cases m) auto

lemma ok_or_Inr_iff [result_simps]: "ok_or e x = Inr y \<longleftrightarrow> x = Some y"
  by (auto simp: ok_or_def split: option.splits)

lemma ok_or_Inl_iff [result_simps]: "ok_or e x = Inl e' \<longleftrightarrow> x = None \<and> e' = e"
  by (auto simp: ok_or_def split: option.splits)

lemma ok_or_simps [simp]: "ok_or e (Some y) = Inr y" "ok_or e None = Inl e"
  by (simp_all add: ok_or_def)

lemma failIf_Inr_iff [result_simps]: "failIf b e = Inr u \<longleftrightarrow> \<not> b"
  by (auto simp: failIf_def)

lemma failIf_Inl_iff [result_simps]: "failIf b e = Inl e' \<longleftrightarrow> b \<and> e' = e"
  by (auto simp: failIf_def)

lemma failIf_simps [simp]: "failIf True e = Inl e" "failIf False e = Inr ()"
  by (simp_all add: failIf_def)

lemma mapE_Inr_length: "mapE f xs = Inr ys \<Longrightarrow> length ys = length xs"
  by (induction xs arbitrary: ys) (auto simp: result_simps)

lemma mapE_Inr_nth: "mapE f xs = Inr ys \<Longrightarrow> i < length xs \<Longrightarrow> f (xs ! i) = Inr (ys ! i)"
  by (induction xs arbitrary: ys i) (auto simp: result_simps nth_Cons split: nat.splits)

lemma mapE_all_Inr: "(\<And>x. x \<in> set xs \<Longrightarrow> f x = Inr (g x)) \<Longrightarrow> mapE f xs = Inr (map g xs)"
  by (induction xs) auto

lemma mapE_Inr_iff: "mapE f xs = Inr ys \<longleftrightarrow> list_all2 (\<lambda>x y. f x = Inr y) xs ys"
  by (induction xs arbitrary: ys) (auto simp: result_simps list_all2_Cons1)

lemma foldE_append: "foldE f (xs @ ys) s = bindE (foldE f xs s) (foldE f ys)"
  by (induction xs arbitrary: s) (auto split: bindE_split)

lemma foldE_invariant:
  assumes "foldE f xs s = Inr t" and "P s"
    and "\<And>x s s'. x \<in> set xs \<Longrightarrow> P s \<Longrightarrow> f x s = Inr s' \<Longrightarrow> P s'"
  shows "P t"
  using assms by (induction xs arbitrary: s) (auto simp: result_simps)


section \<open>64-bit arithmetic\<close>

definition u64_max :: u64 where
  "u64_max = 18446744073709551615"

definition u32_max :: u32 where
  "u32_max = 4294967295"

text \<open>Plain addition and subtraction, which wrap around in the release profile.\<close>

definition u64_add :: "u64 \<Rightarrow> u64 \<Rightarrow> u64" where
  "u64_add a b = (a + b) mod 18446744073709551616"

definition u64_sub :: "u64 \<Rightarrow> u64 \<Rightarrow> u64" where
  "u64_sub a b = (a + (18446744073709551616 - b)) mod 18446744073709551616"

definition u32_add :: "u32 \<Rightarrow> u32 \<Rightarrow> u32" where
  "u32_add a b = (a + b) mod 4294967296"

text \<open>saturating\_add, saturating\_sub and saturating\_mul.\<close>

definition sat_add64 :: "u64 \<Rightarrow> u64 \<Rightarrow> u64" where
  "sat_add64 a b = min (a + b) u64_max"

definition sat_sub :: "nat \<Rightarrow> nat \<Rightarrow> nat" where
  "sat_sub a b = a - b"

definition sat_mul64 :: "u64 \<Rightarrow> u64 \<Rightarrow> u64" where
  "sat_mul64 a b = min (a * b) u64_max"

text \<open>The casts to signed integers, which keep the low bits.\<close>

definition as_i32 :: "int \<Rightarrow> int" where
  "as_i32 x = (x + 2147483648) mod 4294967296 - 2147483648"

definition as_i64 :: "int \<Rightarrow> int" where
  "as_i64 x = (x + 9223372036854775808) mod 18446744073709551616 - 9223372036854775808"

text \<open>checked\_sub and checked\_add.\<close>

definition checked_sub :: "nat \<Rightarrow> nat \<Rightarrow> nat option" where
  "checked_sub a b = (if b \<le> a then Some (a - b) else None)"

definition checked_add64 :: "u64 \<Rightarrow> u64 \<Rightarrow> u64 option" where
  "checked_add64 a b = (if a + b \<le> u64_max then Some (a + b) else None)"

lemmas u64_all_defs [u64_defs] =
  u64_max_def u32_max_def u64_add_def u64_sub_def u32_add_def sat_add64_def sat_sub_def
  sat_mul64_def checked_sub_def checked_add64_def

lemma u64_add_exact: "a + b \<le> u64_max \<Longrightarrow> u64_add a b = a + b"
  by (simp add: u64_add_def u64_max_def)

lemma u64_add_Suc [simp]: "h < u64_max \<Longrightarrow> u64_add h (Suc 0) = Suc h"
  using u64_add_exact [of h 1] by simp

lemma u64_sub_exact: "b \<le> a \<Longrightarrow> a \<le> u64_max \<Longrightarrow> u64_sub a b = a - b"
proof -
  assume h: "b \<le> a" "a \<le> u64_max"
  have eq: "a + (18446744073709551616 - b) = (a - b) + 18446744073709551616"
    using h by (simp add: u64_max_def)
  have "u64_sub a b = (a - b) mod 18446744073709551616"
    unfolding u64_sub_def eq by (rule mod_add_self2)
  then show ?thesis
    using h by (simp add: u64_max_def)
qed

lemma as_i32_exact: "-2147483648 \<le> x \<Longrightarrow> x < 2147483648 \<Longrightarrow> as_i32 x = x"
  by (simp add: as_i32_def)

lemma as_i64_exact: "-9223372036854775808 \<le> x \<Longrightarrow> x < 9223372036854775808 \<Longrightarrow> as_i64 x = x"
  by (simp add: as_i64_def)

lemma sat_add64_exact: "a + b \<le> u64_max \<Longrightarrow> sat_add64 a b = a + b"
  by (simp add: sat_add64_def)


section \<open>Integer encodings\<close>

text \<open>to\_le\_bytes, from\_le\_bytes and to\_be\_bytes at a width of \<^term>\<open>n\<close> bytes.\<close>

primrec le_bytes :: "nat \<Rightarrow> nat \<Rightarrow> bytes" where
  "le_bytes 0 x = []"
| "le_bytes (Suc n) x = of_nat x # le_bytes n (x div 256)"

primrec of_le_bytes :: "bytes \<Rightarrow> nat" where
  "of_le_bytes [] = 0"
| "of_le_bytes (b # bs) = unat b + 256 * of_le_bytes bs"

definition be_bytes :: "nat \<Rightarrow> nat \<Rightarrow> bytes" where
  "be_bytes n x = rev (le_bytes n x)"

lemma length_le_bytes [simp]: "length (le_bytes n x) = n"
  by (induction n arbitrary: x) auto

lemma length_be_bytes [simp]: "length (be_bytes n x) = n"
  by (simp add: be_bytes_def)

lemma unat_u8_bound: "unat (b :: u8) < 256"
  using unsigned_less [of b, where 'a = nat] by simp

lemma of_le_bytes_bound: "of_le_bytes bs < 256 ^ length bs"
proof (induction bs)
  case (Cons b bs)
  have "unat b < 256" by (rule unat_u8_bound)
  with Cons show ?case by simp
qed simp

lemma of_le_bytes_le_bytes: "of_le_bytes (le_bytes n x) = x mod 256 ^ n"
proof (induction n arbitrary: x)
  case (Suc n)
  have "x mod 256 ^ Suc n = x mod 256 + 256 * (x div 256 mod 256 ^ n)"
    by (simp add: mod_mult2_eq)
  with Suc show ?case by (simp add: unat_of_nat)
qed simp

lemma le_bytes_of_le_bytes: "le_bytes (length bs) (of_le_bytes bs) = bs"
proof (induction bs)
  case (Cons b bs)
  have b: "unat b < 256" by (rule unat_u8_bound)
  have "(unat b + 256 * of_le_bytes bs) div 256 = of_le_bytes bs"
    using b by simp
  moreover have "(of_nat (unat b + 256 * of_le_bytes bs) :: u8) = b"
  proof -
    have "(256 :: u8) = 0" by simp
    then show ?thesis by (simp only: of_nat_add of_nat_mult of_nat_numeral) simp
  qed
  ultimately show ?case using Cons by simp
qed simp

lemma le_bytes_inject:
  "x < 256 ^ n \<Longrightarrow> y < 256 ^ n \<Longrightarrow> le_bytes n x = le_bytes n y \<Longrightarrow> x = y"
  by (metis of_le_bytes_le_bytes mod_less)

lemma of_le_bytes_u64 [simp]: "x \<le> u64_max \<Longrightarrow> of_le_bytes (le_bytes 8 x) = x"
  by (simp add: of_le_bytes_le_bytes u64_max_def)

lemma of_le_bytes_u32 [simp]: "x \<le> u32_max \<Longrightarrow> of_le_bytes (le_bytes 4 x) = x"
  by (simp add: of_le_bytes_le_bytes u32_max_def)


section \<open>Lists\<close>

text \<open>The heights \<^term>\<open>h\<close>, \<^term>\<open>h + 1\<close>, ... of a run of \<^term>\<open>n\<close> consecutive blocks.\<close>

definition heights_from :: "u64 \<Rightarrow> nat \<Rightarrow> u64 list" where
  "heights_from h n = [h..<h + n]"

lemma heights_from_simps [simp]:
  "heights_from h 0 = []" "heights_from h (Suc n) = h # heights_from (Suc h) n"
  by (simp_all add: heights_from_def upt_conv_Cons)

lemma length_heights_from [simp]: "length (heights_from h n) = n"
  by (simp add: heights_from_def)

lemma set_heights_from [simp]: "set (heights_from h n) = {h..<h + n}"
  by (simp add: heights_from_def)

lemma heights_from_append: "heights_from h (m + n) = heights_from h m @ heights_from (h + m) n"
  using upt_add_eq_append [of h "h + m" n] by (simp add: heights_from_def add.assoc)

lemma nth_heights_from [simp]: "i < n \<Longrightarrow> heights_from h n ! i = h + i"
  by (simp add: heights_from_def)

lemma strict_sorted_length:
  assumes "sorted_wrt (<) (x # xs :: nat list)"
  shows "x \<le> last (x # xs) \<and> length (x # xs) \<le> Suc (last (x # xs) - x) \<and>
    (length (x # xs) = Suc (last (x # xs) - x) \<longrightarrow> x # xs = [x..<Suc (last (x # xs))])"
  using assms
proof (induction xs arbitrary: x)
  case (Cons y ys)
  define l where "l = last (y # ys)"
  have "x < y" using Cons.prems by simp
  moreover have IH: "y \<le> l" "length (y # ys) \<le> Suc (l - y)"
    "length (y # ys) = Suc (l - y) \<Longrightarrow> y # ys = [y..<Suc l]"
    using Cons.IH [of y] Cons.prems unfolding l_def by simp_all
  moreover have "last (x # y # ys) = l" by (simp add: l_def)
  moreover have "x # y # ys = [x..<Suc l]" if "length (x # y # ys) = Suc (l - x)"
  proof -
    have "y = Suc x" "length (y # ys) = Suc (l - y)"
      using that \<open>x < y\<close> IH(1,2) by simp_all
    then show ?thesis using IH(1,3) by (simp add: upt_conv_Cons del: upt_Suc)
  qed
  ultimately show ?case by simp
qed simp

lemma strict_sorted_contiguous:
  assumes "sorted_wrt (<) (xs :: nat list)" and "xs \<noteq> []"
  shows "length xs = Suc (last xs - hd xs) \<longleftrightarrow> xs = [hd xs..<Suc (last xs)]"
proof
  assume len: "length xs = Suc (last xs - hd xs)"
  obtain y ys where xs: "xs = y # ys" using assms(2) by (cases xs) auto
  show "xs = [hd xs..<Suc (last xs)]"
    using strict_sorted_length [of y ys] assms(1) len unfolding xs list.sel by blast
next
  assume eq: "xs = [hd xs..<Suc (last xs)]"
  have "hd xs \<le> last xs"
    using assms strict_sorted_length [of "hd xs" "tl xs"] by (cases xs) auto
  moreover have "length xs = Suc (last xs) - hd xs"
    using arg_cong [OF eq, of length] by (simp only: length_upt)
  ultimately show "length xs = Suc (last xs - hd xs)" by simp
qed

text \<open>slice::chunks: consecutive pieces of at most \<^term>\<open>n\<close> elements.\<close>

function chunks_of :: "nat \<Rightarrow> 'a list \<Rightarrow> 'a list list" where
  "chunks_of n xs = (if xs = [] \<or> n = 0 then [] else take n xs # chunks_of n (drop n xs))"
  by pat_completeness auto
termination
  by (relation "measure (\<lambda>(_, xs). length xs)") auto

declare chunks_of.simps [simp del]

lemma concat_chunks: "n \<noteq> 0 \<Longrightarrow> concat (chunks_of n xs) = xs"
proof (induction n xs rule: chunks_of.induct)
  case (1 n xs)
  then show ?case by (subst chunks_of.simps) auto
qed

lemma chunks_of_length: "c \<in> set (chunks_of n xs) \<Longrightarrow> c \<noteq> [] \<and> length c \<le> n"
proof (induction n xs rule: chunks_of.induct)
  case (1 n xs)
  then show ?case by (subst (asm) (2) chunks_of.simps) (auto split: if_splits)
qed

lemma list_all2_partner: "list_all2 P xs ys \<Longrightarrow> x \<in> set xs \<Longrightarrow> \<exists>y \<in> set ys. P x y"
  by (induction rule: list_all2_induct) auto

end
