(* ===== verification/Compact_Formats.thy ===== *)
theory Compact_Formats
  imports Prelude
begin

text \<open>
  The protobuf messages of proto/compact_formats.proto as records with the schema's fields, in the
  schema's order. The Rust structs are generated from that schema at build time; the sources build
  and read them field by field.
\<close>

record compact_sapling_spend =
  nf :: bytes

record compact_sapling_output =
  cmu :: bytes
  so_ephemeral_key :: bytes
  so_ciphertext :: bytes

record compact_orchard_action =
  nullifier :: bytes
  cmx :: bytes
  oa_ephemeral_key :: bytes
  oa_ciphertext :: bytes

record compact_tx_in =
  prevout_txid :: bytes
  prevout_index :: u32

record tx_out =
  txo_value :: u64
  script_pub_key :: bytes

record compact_tx =
  tx_index :: u64
  txid :: bytes
  fee :: u32
  spends :: "compact_sapling_spend list"
  outputs :: "compact_sapling_output list"
  actions :: "compact_orchard_action list"
  ironwood_actions :: "compact_orchard_action list"
  vin :: "compact_tx_in list"
  vout :: "tx_out list"

record chain_metadata =
  sapling_commitment_tree_size :: u32
  orchard_commitment_tree_size :: u32
  ironwood_commitment_tree_size :: u32

record compact_block =
  cb_height :: u64
  cb_hash :: bytes
  cb_prev_hash :: bytes
  cb_time :: u32
  cb_header :: bytes
  cb_vtx :: "compact_tx list"
  cb_chain_metadata :: "chain_metadata option"

text \<open>
  The note commitments a block adds to each pool's tree: the outputs and actions its transactions
  carry.
\<close>

definition block_sapling_outputs :: "compact_block \<Rightarrow> nat" where
  "block_sapling_outputs b = sum_list (map (\<lambda>tx. length (outputs tx)) (cb_vtx b))"

definition block_orchard_actions :: "compact_block \<Rightarrow> nat" where
  "block_orchard_actions b = sum_list (map (\<lambda>tx. length (actions tx)) (cb_vtx b))"

definition block_ironwood_actions :: "compact_block \<Rightarrow> nat" where
  "block_ironwood_actions b = sum_list (map (\<lambda>tx. length (ironwood_actions tx)) (cb_vtx b))"

text \<open>Two blocks connect when the later one names the earlier one as its predecessor.\<close>

definition links :: "compact_block \<Rightarrow> compact_block \<Rightarrow> bool" where
  "links earlier later \<longleftrightarrow> cb_prev_hash later = cb_hash earlier"

text \<open>A list of blocks that forms a chain: consecutive heights, each block linked to the one before.\<close>

fun chained :: "compact_block list \<Rightarrow> bool" where
  "chained (a # b # bs) \<longleftrightarrow> cb_height b = Suc (cb_height a) \<and> links a b \<and> chained (b # bs)"
| "chained _ \<longleftrightarrow> True"

lemma chained_append:
  "chained (xs @ ys) \<longleftrightarrow> chained xs \<and> chained ys \<and>
     (xs \<noteq> [] \<and> ys \<noteq> [] \<longrightarrow> cb_height (hd ys) = Suc (cb_height (last xs)) \<and> links (last xs) (hd ys))"
proof (induction xs)
  case (Cons x xs)
  then show ?case by (cases xs; cases ys) auto
qed simp

lemma chained_snoc:
  "chained (xs @ [b]) \<longleftrightarrow>
     chained xs \<and> (xs \<noteq> [] \<longrightarrow> cb_height b = Suc (cb_height (last xs)) \<and> links (last xs) b)"
  by (auto simp: chained_append)

lemma chained_takeD: "chained xs \<Longrightarrow> chained (take n xs)"
  by (metis append_take_drop_id chained_append)

lemma chained_dropD: "chained xs \<Longrightarrow> chained (drop n xs)"
  by (metis append_take_drop_id chained_append)

lemma chained_heights:
  "chained xs \<Longrightarrow> xs \<noteq> [] \<Longrightarrow> map cb_height xs = heights_from (cb_height (hd xs)) (length xs)"
  by (induction xs rule: chained.induct) auto

lemma chained_nth:
  "chained xs \<Longrightarrow> Suc i < length xs \<Longrightarrow> links (xs ! i) (xs ! Suc i) \<and>
     cb_height (xs ! Suc i) = Suc (cb_height (xs ! i))"
proof (induction xs arbitrary: i rule: chained.induct)
  case (1 a b bs)
  then show ?case by (cases i) auto
qed auto

end
