(* ===== verification/Encoding.thy ===== *)
theory Encoding
  imports Prelude
begin

text \<open>
  src/encoding.rs: conversions between display order (big-endian hex, as the node reports hashes
  and txids) and wire order (little-endian bytes, as protobuf carries them).

  The hex crate is not part of the repository: its two functions are the fields of the record
  \<^verbatim>\<open>hex_ext\<close>, an argument of every definition that uses them. What the sources rely on is the
  locale \<^verbatim>\<open>hex_contract\<close>: decoding an encoding gives the bytes back, and an encoding has two
  characters per byte.
\<close>

text \<open>The documented error type of hex::decode.\<close>

datatype hex_error =
    InvalidHexCharacter char nat
  | OddLength
  | InvalidStringLength

record hex_ext =
  hex_encode :: "bytes \<Rightarrow> string"
  hex_decode :: "string \<Rightarrow> (hex_error, bytes) result"

definition display_hex_to_wire :: "'x hex_ext_scheme \<Rightarrow> string \<Rightarrow> (hex_error, bytes) result" where
  "display_hex_to_wire X hex = bindE (hex_decode X hex) (\<lambda>bytes. Inr (rev bytes))"

definition wire_to_display_bytes :: "bytes \<Rightarrow> bytes" where
  "wire_to_display_bytes bytes = rev bytes"

definition wire_to_display_hex :: "'x hex_ext_scheme \<Rightarrow> bytes \<Rightarrow> string" where
  "wire_to_display_hex X bytes = hex_encode X (wire_to_display_bytes bytes)"

text \<open>
  The contract of the hex crate: a total encoder, a decoder that accepts every encoding and
  undoes it, and a decoder that only accepts two characters per byte.
\<close>

locale hex_contract =
  fixes X :: "'x hex_ext_scheme"
  assumes hex_decode_encode: "hex_decode X (hex_encode X bs) = Inr bs"
    and hex_encode_length: "length (hex_encode X bs) = 2 * length bs"
    and hex_decode_length: "hex_decode X s = Inr bs \<Longrightarrow> length s = 2 * length bs"
begin

lemma hex_encode_inj: "hex_encode X a = hex_encode X b \<longleftrightarrow> a = b"
  by (metis hex_decode_encode sum.inject(2))

lemma display_wire_roundtrip: "display_hex_to_wire X (wire_to_display_hex X bs) = Inr bs"
  by (simp add: display_hex_to_wire_def wire_to_display_hex_def wire_to_display_bytes_def
      hex_decode_encode)

lemma wire_to_display_hex_inj: "wire_to_display_hex X a = wire_to_display_hex X b \<longleftrightarrow> a = b"
  by (metis display_wire_roundtrip sum.inject(2))

lemma wire_to_display_hex_length: "length (wire_to_display_hex X bs) = 2 * length bs"
  by (simp add: wire_to_display_hex_def wire_to_display_bytes_def hex_encode_length)

lemma display_hex_to_wire_length:
  "display_hex_to_wire X s = Inr bs \<Longrightarrow> length s = 2 * length bs"
  by (auto simp: display_hex_to_wire_def result_simps dest: hex_decode_length)

end

lemma wire_to_display_bytes_involution [simp]:
  "wire_to_display_bytes (wire_to_display_bytes bs) = bs"
  by (simp add: wire_to_display_bytes_def)


section \<open>A reference hex codec\<close>

text \<open>
  Lower-case hexadecimal, as the crate documents it: the instance of the contract that closed
  examples use.
\<close>

definition hex_digit :: "nat \<Rightarrow> char" where
  "hex_digit n = (if n < 10 then char_of (48 + n) else char_of (87 + n))"

definition hex_value :: "char \<Rightarrow> nat option" where
  "hex_value c =
     (let k = of_char c in
      if 48 \<le> k \<and> k \<le> 57 then Some (k - 48)
      else if 97 \<le> k \<and> k \<le> 102 then Some (k - 87)
      else if 65 \<le> k \<and> k \<le> 70 then Some (k - 55)
      else None)"

fun ref_hex_encode :: "bytes \<Rightarrow> string" where
  "ref_hex_encode [] = []"
| "ref_hex_encode (b # bs) =
     hex_digit (unat b div 16) # hex_digit (unat b mod 16) # ref_hex_encode bs"

fun ref_hex_decode :: "string \<Rightarrow> (hex_error, bytes) result" where
  "ref_hex_decode [] = Inr []"
| "ref_hex_decode [c] = Inl OddLength"
| "ref_hex_decode (c # d # cs) =
     (case (hex_value c, hex_value d) of
        (Some h, Some l) \<Rightarrow> bindE (ref_hex_decode cs) (\<lambda>bs. Inr (of_nat (16 * h + l) # bs))
      | (None, _) \<Rightarrow> Inl (InvalidHexCharacter c 0)
      | (_, None) \<Rightarrow> Inl (InvalidHexCharacter d 1))"

definition ref_hex :: hex_ext where
  "ref_hex = \<lparr>hex_encode = ref_hex_encode, hex_decode = ref_hex_decode\<rparr>"

lemma hex_value_digit [simp]: "n < 16 \<Longrightarrow> hex_value (hex_digit n) = Some n"
  by (auto simp: hex_value_def hex_digit_def)

lemma ref_hex_decode_encode: "ref_hex_decode (ref_hex_encode bs) = Inr bs"
proof (induction bs)
  case (Cons b bs)
  have "unat b div 16 < 16"
    using unat_u8_bound [of b] by simp
  moreover have "(of_nat (16 * (unat b div 16) + unat b mod 16) :: u8) = b"
    by (simp only: mult_div_mod_eq) simp
  ultimately show ?case using Cons by simp
qed simp

lemma ref_hex_encode_length: "length (ref_hex_encode bs) = 2 * length bs"
  by (induction bs) auto

lemma ref_hex_decode_length: "ref_hex_decode s = Inr bs \<Longrightarrow> length s = 2 * length bs"
  by (induction s arbitrary: bs rule: ref_hex_decode.induct)
    (auto simp: result_simps split: option.splits)

interpretation rh: hex_contract ref_hex
  by unfold_locales
    (simp_all add: ref_hex_def ref_hex_decode_encode ref_hex_encode_length ref_hex_decode_length)

end
