(* ===== verification/Grpc_Status.thy ===== *)
theory Grpc_Status
  imports Encoding
begin

text \<open>
  The gRPC status a handler ends with: tonic's code and the message the handler formats. A message
  is the source's format string with its arguments, so that two statuses are equal exactly when the
  client sees the same code and text.
\<close>

datatype grpc_code =
    InvalidArgument
  | NotFound
  | ResourceExhausted
  | FailedPrecondition
  | Aborted
  | OutOfRange
  | Unimplemented
  | Internal
  | Unavailable
  | DeadlineExceeded

text \<open>An argument of a format string; \<^verbatim>\<open>Msg\<close> is one that is itself formatted, the Display of an error.\<close>

datatype msg_arg = Num nat | Sgn int | Str string | Chr char | Msg string "msg_arg list"

text \<open>The documented Display of the hex crate's errors.\<close>

fun hex_error_msg :: "hex_error \<Rightarrow> msg_arg" where
  "hex_error_msg (InvalidHexCharacter c index) = Msg ''Invalid character {:?} at position {}'' [Chr c, Num index]"
| "hex_error_msg OddLength = Msg ''Odd number of digits'' []"
| "hex_error_msg InvalidStringLength = Msg ''Invalid string length'' []"

record status =
  st_code :: grpc_code
  st_format :: string
  st_args :: "msg_arg list"

definition mk_status :: "grpc_code \<Rightarrow> string \<Rightarrow> msg_arg list \<Rightarrow> status" where
  "mk_status c f args = \<lparr>st_code = c, st_format = f, st_args = args\<rparr>"

lemma mk_status_sel [simp]:
  "st_code (mk_status c f args) = c" "st_format (mk_status c f args) = f"
  "st_args (mk_status c f args) = args"
  by (simp_all add: mk_status_def)

lemma mk_status_inject [simp]:
  "mk_status c f a = mk_status c' f' a' \<longleftrightarrow> c = c' \<and> f = f' \<and> a = a'"
  by (simp add: mk_status_def)

end
