(* ===== verification/Pool_Filter.thy ===== *)
theory Pool_Filter
  imports Compact_Formats Grpc_Status
begin

text \<open>
  src/filter.rs: pruning a compact block or transaction to the requested value pools, and reducing
  it to nullifiers. A pool filter arrives as a list of protobuf enum numbers (open proto3 enum, so
  any integer may appear).
\<close>

section \<open>Resolving a request's pools\<close>

definition Transparent :: int where "Transparent = 1"
definition Sapling :: int where "Sapling = 2"
definition Orchard :: int where "Orchard = 3"
definition Ironwood :: int where "Ironwood = 4"
definition Invalid :: int where "Invalid = 0"

lemmas pool_type_defs = Transparent_def Sapling_def Orchard_def Ironwood_def Invalid_def

record pools =
  p_transparent :: bool
  p_sapling :: bool
  p_orchard :: bool
  p_ironwood :: bool

definition resolve :: "int list \<Rightarrow> bool \<Rightarrow> bool \<Rightarrow> pools" where
  "resolve pool_types transparent defaults_to_shielded =
     \<lparr>p_transparent = transparent,
      p_sapling = (defaults_to_shielded \<or> Sapling \<in> set pool_types),
      p_orchard = (defaults_to_shielded \<or> Orchard \<in> set pool_types),
      p_ironwood = (defaults_to_shielded \<or> Ironwood \<in> set pool_types)\<rparr>"

definition from_pool_types :: "int list \<Rightarrow> pools" where
  "from_pool_types pool_types =
     resolve pool_types (Transparent \<in> set pool_types) (pool_types = [])"

definition from_pool_types_dropping_transparent :: "int list \<Rightarrow> pools" where
  "from_pool_types_dropping_transparent pool_types =
     (let names_only_transparent = list_all (\<lambda>pool_type. pool_type = Transparent) pool_types in
      resolve pool_types False names_only_transparent)"

definition MAX_POOL_TYPES :: usize where
  "MAX_POOL_TYPES = 16"

definition validate_pool_types :: "int list \<Rightarrow> (status, unit) result" where
  "validate_pool_types pool_types =
     bindE (failIf (length pool_types > MAX_POOL_TYPES)
              (mk_status ResourceExhausted ''more than {} pool types requested'' [Num MAX_POOL_TYPES])) (\<lambda>_.
     failIf (Invalid \<in> set pool_types)
       (mk_status InvalidArgument ''invalid pool type requested'' []))"


section \<open>Pruning\<close>

definition filter_tx_to_pools :: "compact_tx \<Rightarrow> pools \<Rightarrow> compact_tx" where
  "filter_tx_to_pools tx pools =
     (let tx1 = (if \<not> p_sapling pools then tx\<lparr>spends := [], outputs := []\<rparr> else tx);
          tx2 = (if \<not> p_orchard pools then tx1\<lparr>actions := []\<rparr> else tx1);
          tx3 = (if \<not> p_ironwood pools then tx2\<lparr>ironwood_actions := []\<rparr> else tx2)
      in if \<not> p_transparent pools then tx3\<lparr>vin := [], vout := []\<rparr> else tx3)"

definition tx_has_components :: "compact_tx \<Rightarrow> bool" where
  "tx_has_components tx \<longleftrightarrow>
     spends tx \<noteq> [] \<or> outputs tx \<noteq> [] \<or> actions tx \<noteq> [] \<or> ironwood_actions tx \<noteq> [] \<or>
     vin tx \<noteq> [] \<or> vout tx \<noteq> []"

definition filter_block_to_pools :: "compact_block \<Rightarrow> pools \<Rightarrow> compact_block" where
  "filter_block_to_pools block pools =
     block\<lparr>cb_vtx := filter tx_has_components (map (\<lambda>tx. filter_tx_to_pools tx pools) (cb_vtx block))\<rparr>"

definition action_nullifier_only :: "compact_orchard_action \<Rightarrow> compact_orchard_action" where
  "action_nullifier_only action = action\<lparr>cmx := [], oa_ephemeral_key := [], oa_ciphertext := []\<rparr>"

definition nullifiers_only :: "compact_block \<Rightarrow> compact_block" where
  "nullifiers_only block =
     block\<lparr>cb_chain_metadata :=
             map_option (\<lambda>m. m\<lparr>sapling_commitment_tree_size := 0, orchard_commitment_tree_size := 0,
                              ironwood_commitment_tree_size := 0\<rparr>) (cb_chain_metadata block),
           cb_vtx :=
             map (\<lambda>tx. tx\<lparr>outputs := [], vin := [], vout := [],
                          actions := map action_nullifier_only (actions tx),
                          ironwood_actions := map action_nullifier_only (ironwood_actions tx)\<rparr>)
               (cb_vtx block)\<rparr>"

definition filter_block_to_pools_nullifiers_only :: "compact_block \<Rightarrow> pools \<Rightarrow> compact_block" where
  "filter_block_to_pools_nullifiers_only block pools = nullifiers_only (filter_block_to_pools block pools)"


section \<open>Lemmas\<close>

text \<open>The pools two filters keep together.\<close>

definition pools_meet :: "pools \<Rightarrow> pools \<Rightarrow> pools" where
  "pools_meet p q =
     \<lparr>p_transparent = (p_transparent p \<and> p_transparent q), p_sapling = (p_sapling p \<and> p_sapling q),
      p_orchard = (p_orchard p \<and> p_orchard q), p_ironwood = (p_ironwood p \<and> p_ironwood q)\<rparr>"

lemma filter_tx_sel [simp]:
  "tx_index (filter_tx_to_pools tx p) = tx_index tx" "txid (filter_tx_to_pools tx p) = txid tx"
  "fee (filter_tx_to_pools tx p) = fee tx"
  "spends (filter_tx_to_pools tx p) = (if p_sapling p then spends tx else [])"
  "outputs (filter_tx_to_pools tx p) = (if p_sapling p then outputs tx else [])"
  "actions (filter_tx_to_pools tx p) = (if p_orchard p then actions tx else [])"
  "ironwood_actions (filter_tx_to_pools tx p) = (if p_ironwood p then ironwood_actions tx else [])"
  "vin (filter_tx_to_pools tx p) = (if p_transparent p then vin tx else [])"
  "vout (filter_tx_to_pools tx p) = (if p_transparent p then vout tx else [])"
  by (simp_all add: filter_tx_to_pools_def Let_def)

lemma filter_tx_meet:
  "filter_tx_to_pools (filter_tx_to_pools tx p) q = filter_tx_to_pools tx (pools_meet p q)"
  by (simp add: filter_tx_to_pools_def pools_meet_def Let_def)

lemma filter_tx_mono:
  "tx_has_components (filter_tx_to_pools tx (pools_meet p q)) \<Longrightarrow> tx_has_components (filter_tx_to_pools tx p)"
  by (auto simp: tx_has_components_def pools_meet_def split: if_splits)

lemma filter_block_sel [simp]:
  "cb_height (filter_block_to_pools b p) = cb_height b" "cb_hash (filter_block_to_pools b p) = cb_hash b"
  "cb_prev_hash (filter_block_to_pools b p) = cb_prev_hash b"
  "cb_chain_metadata (filter_block_to_pools b p) = cb_chain_metadata b"
  by (simp_all add: filter_block_to_pools_def)

lemma filter_meet_list:
  "filter tx_has_components
     (map (\<lambda>tx. filter_tx_to_pools tx q)
       (filter tx_has_components (map (\<lambda>tx. filter_tx_to_pools tx p) txs))) =
   filter tx_has_components (map (\<lambda>tx. filter_tx_to_pools tx (pools_meet p q)) txs)"
  by (induction txs) (auto simp: filter_tx_meet dest: filter_tx_mono)


section \<open>Properties\<close>

text \<open>
  Dropping transparent is what it says: the pools kept are those of the same request with every
  transparent entry removed, so a request that names only transparent falls back to the shielded
  default.
\<close>

theorem dropping_transparent_eq:
  "from_pool_types_dropping_transparent pool_types =
     from_pool_types (filter (\<lambda>p. p \<noteq> Transparent) pool_types)"
proof -
  have "list_all (\<lambda>p. p = Transparent) pool_types \<longleftrightarrow> filter (\<lambda>p. p \<noteq> Transparent) pool_types = []"
    by (auto simp: list_all_iff filter_empty_conv)
  then show ?thesis
    by (auto simp: from_pool_types_dropping_transparent_def from_pool_types_def resolve_def
        pool_type_defs)
qed

text \<open>
  Pruning composes: filtering a block to one set of pools and then to another is filtering once
  to the pools both keep. In particular pruning is idempotent, and pruning further never brings a
  dropped transaction back.
\<close>

theorem filter_block_to_pools_compose:
  "filter_block_to_pools (filter_block_to_pools block p) q = filter_block_to_pools block (pools_meet p q)"
  by (simp add: filter_block_to_pools_def filter_meet_list)

text \<open>
  A pruned block keeps its identity and exactly the requested data: height, hash, previous hash,
  time and metadata are untouched; the surviving transactions are, in order, those with a component
  in a requested pool; each keeps its index, txid and fee, the whole of every requested pool and
  nothing of the others.
\<close>

theorem filter_block_to_pools_spec:
  "(let b' = filter_block_to_pools b p;
        kept = filter (\<lambda>tx. tx_has_components (filter_tx_to_pools tx p)) (cb_vtx b) in
    cb_height b' = cb_height b \<and> cb_hash b' = cb_hash b \<and> cb_prev_hash b' = cb_prev_hash b \<and>
    cb_time b' = cb_time b \<and> cb_header b' = cb_header b \<and> cb_chain_metadata b' = cb_chain_metadata b \<and>
    map tx_index (cb_vtx b') = map tx_index kept \<and> map txid (cb_vtx b') = map txid kept \<and>
    map spends (cb_vtx b') = map (\<lambda>tx. if p_sapling p then spends tx else []) kept \<and>
    map outputs (cb_vtx b') = map (\<lambda>tx. if p_sapling p then outputs tx else []) kept \<and>
    map actions (cb_vtx b') = map (\<lambda>tx. if p_orchard p then actions tx else []) kept \<and>
    map ironwood_actions (cb_vtx b') = map (\<lambda>tx. if p_ironwood p then ironwood_actions tx else []) kept \<and>
    map vin (cb_vtx b') = map (\<lambda>tx. if p_transparent p then vin tx else []) kept \<and>
    map vout (cb_vtx b') = map (\<lambda>tx. if p_transparent p then vout tx else []) kept \<and>
    list_all tx_has_components (cb_vtx b'))"
proof -
  have "filter tx_has_components (map (\<lambda>tx. filter_tx_to_pools tx p) xs) =
      map (\<lambda>tx. filter_tx_to_pools tx p) (filter (\<lambda>tx. tx_has_components (filter_tx_to_pools tx p)) xs)"
    for xs by (simp add: filter_map o_def)
  then show ?thesis
    by (simp add: filter_block_to_pools_def Let_def list_all_iff)
qed

text \<open>
  GetBlockRangeNullifiers keeps every nullifier a wallet scans for and no other note data: per
  surviving transaction the Sapling nullifiers and the nullifiers of the requested Orchard and
  Ironwood actions are those of the original block, while outputs, commitments, ciphertexts and
  transparent data are gone. The transactions that survive are decided before the reduction.
\<close>

theorem nullifiers_only_spec:
  "(let b' = filter_block_to_pools_nullifiers_only b p; f = filter_block_to_pools b p in
    length (cb_vtx b') = length (cb_vtx f) \<and>
    map txid (cb_vtx b') = map txid (cb_vtx f) \<and>
    map spends (cb_vtx b') = map spends (cb_vtx f) \<and>
    map (\<lambda>tx. map nullifier (actions tx)) (cb_vtx b') = map (\<lambda>tx. map nullifier (actions tx)) (cb_vtx f) \<and>
    map (\<lambda>tx. map nullifier (ironwood_actions tx)) (cb_vtx b') =
      map (\<lambda>tx. map nullifier (ironwood_actions tx)) (cb_vtx f) \<and>
    list_all (\<lambda>tx. outputs tx = [] \<and> vin tx = [] \<and> vout tx = [] \<and>
      list_all (\<lambda>a. cmx a = [] \<and> oa_ephemeral_key a = [] \<and> oa_ciphertext a = [])
        (actions tx @ ironwood_actions tx)) (cb_vtx b'))"
  by (auto simp: filter_block_to_pools_nullifiers_only_def nullifiers_only_def
      action_nullifier_only_def Let_def list_all_iff o_def)

end
