(* ===== verification/Redb.thy ===== *)
theory Redb
  imports Prelude
begin

text \<open>
  The interface of the redb store the block cache is built on. redb is not part of the repository,
  so a table is an unknown type \<^typ>\<open>'t\<close> with the record \<^verbatim>\<open>table_ops\<close> of the calls the sources make
  on it. What they rely on is the locale \<^verbatim>\<open>ordered_table\<close>: a table is observed by iterating it, keys
  come in strictly ascending order, and every other call is described by its effect on that
  iteration.

  Every call of the real store may fail. A fault plan says which calls of one cache operation fail:
  it maps a call to \<^const>\<open>None\<close>, or to the text of the error it returns.
\<close>

record ('k, 'v, 't) table_ops =
  tbl_empty :: 't
  tbl_iter :: "'t \<Rightarrow> ('k \<times> 'v) list"
  tbl_get :: "'t \<Rightarrow> 'k \<Rightarrow> 'v option"
  tbl_first :: "'t \<Rightarrow> ('k \<times> 'v) option"
  tbl_last :: "'t \<Rightarrow> ('k \<times> 'v) option"
  tbl_len :: "'t \<Rightarrow> nat"
  tbl_range :: "'t \<Rightarrow> 'k \<Rightarrow> 'k \<Rightarrow> ('k \<times> 'v) list"
  tbl_insert :: "'t \<Rightarrow> 'k \<Rightarrow> 'v \<Rightarrow> 't"
  tbl_retain :: "'t \<Rightarrow> ('k \<Rightarrow> 'v \<Rightarrow> bool) \<Rightarrow> 't"

datatype redb_call =
    CreateDatabase
  | BeginRead
  | BeginWrite
  | OpenBlocks
  | OpenMeta
  | TableRead
  | TableGet nat
  | TableNext nat
  | TableInsert nat
  | MetaInsert
  | TableRetain
  | MetaRetain
  | CommitTxn

type_synonym faults = "redb_call \<Rightarrow> string option"

definition no_faults :: faults where
  "no_faults = (\<lambda>_. None)"

locale ordered_table =
  fixes T :: "('k :: linorder, 'v, 't) table_ops"
  assumes iter_empty: "tbl_iter T (tbl_empty T) = []"
    and iter_sorted: "sorted_wrt (<) (map fst (tbl_iter T t))"
    and get_iter: "tbl_get T t k = map_of (tbl_iter T t) k"
    and first_iter: "tbl_first T t = (case tbl_iter T t of [] \<Rightarrow> None | e # _ \<Rightarrow> Some e)"
    and last_iter: "tbl_last T t = (if tbl_iter T t = [] then None else Some (last (tbl_iter T t)))"
    and len_iter: "tbl_len T t = length (tbl_iter T t)"
    and range_iter: "tbl_range T t lo hi = filter (\<lambda>e. lo \<le> fst e \<and> fst e \<le> hi) (tbl_iter T t)"
    and insert_iter:
      "tbl_iter T (tbl_insert T t k v) =
         filter (\<lambda>e. fst e < k) (tbl_iter T t) @ [(k, v)] @ filter (\<lambda>e. k < fst e) (tbl_iter T t)"
    and retain_iter: "tbl_iter T (tbl_retain T t keep) = filter (\<lambda>e. keep (fst e) (snd e)) (tbl_iter T t)"
begin

lemma iter_distinct: "distinct (map fst (tbl_iter T t))"
  using iter_sorted [of t] by (simp add: strict_sorted_iff)

text \<open>Inserting above every key appends.\<close>

lemma insert_above:
  assumes "\<And>e. e \<in> set (tbl_iter T t) \<Longrightarrow> fst e < k"
  shows "tbl_iter T (tbl_insert T t k v) = tbl_iter T t @ [(k, v)]"
proof -
  have "filter (\<lambda>e. fst e < k) (tbl_iter T t) = tbl_iter T t"
    using assms by (simp add: filter_id_conv)
  moreover have "filter (\<lambda>e. k < fst e) (tbl_iter T t) = []"
    using assms by (fastforce simp: filter_empty_conv)
  ultimately show ?thesis by (simp add: insert_iter)
qed

lemma get_insert: "tbl_get T (tbl_insert T t k v) j = (if j = k then Some v else tbl_get T t j)"
proof -
  have lo: "map_of (filter (\<lambda>e. fst e < k) xs) i = (if i < k then map_of xs i else None)"
    and hi: "map_of (filter (\<lambda>e. k < fst e) xs) i = (if k < i then map_of xs i else None)"
    for xs :: "('k \<times> 'v) list" and i
    by (induction xs) auto
  show ?thesis
    by (cases j k rule: linorder_cases)
      (auto simp: get_iter insert_iter lo hi map_add_def split: option.splits)
qed

lemma get_retain:
  "tbl_get T (tbl_retain T t keep) k =
     (case tbl_get T t k of None \<Rightarrow> None | Some v \<Rightarrow> if keep k v then Some v else None)"
proof -
  have "distinct (map fst xs) \<Longrightarrow> map_of (filter (\<lambda>e. keep (fst e) (snd e)) xs) k =
      (case map_of xs k of None \<Rightarrow> None | Some v \<Rightarrow> if keep k v then Some v else None)"
    for xs :: "('k \<times> 'v) list"
    by (induction xs) (auto split: option.splits simp: map_of_eq_None_iff intro: rev_image_eqI)
  then show ?thesis
    by (simp add: get_iter retain_iter iter_distinct)
qed

lemma last_key_max:
  "tbl_iter T t \<noteq> [] \<Longrightarrow> e \<in> set (tbl_iter T t) \<Longrightarrow> fst e \<le> fst (last (tbl_iter T t))"
proof -
  assume ne: "tbl_iter T t \<noteq> []" and e: "e \<in> set (tbl_iter T t)"
  have "sorted (map fst (tbl_iter T t))"
    using iter_sorted strict_sorted_imp_sorted by blast
  moreover have "fst (last (tbl_iter T t)) = last (map fst (tbl_iter T t))"
    using ne by (simp add: last_map)
  moreover have "x \<le> last xs" if "sorted xs" "x \<in> set xs" for x :: 'k and xs
    using that by (induction xs) auto
  ultimately show ?thesis using e by auto
qed

end


section \<open>A reference ordered table\<close>

text \<open>
  Strictly sorted association lists: the instance closed examples run on.
\<close>

typedef (overloaded) ('k, 'v) otable =
    "{xs :: ('k :: linorder \<times> 'v) list. sorted_wrt (<) (map fst xs)}"
  morphisms entries_of Abs_otable
  by (rule exI [of _ "[]"]) simp

setup_lifting type_definition_otable

lemma entries_sorted: "sorted_wrt (<) (map fst (entries_of t))"
  using entries_of by blast

lift_definition ot_empty :: "('k :: linorder, 'v) otable" is "[]"
  by simp

definition alist_insert :: "('k :: linorder \<times> 'v) list \<Rightarrow> 'k \<Rightarrow> 'v \<Rightarrow> ('k \<times> 'v) list" where
  "alist_insert xs k v = filter (\<lambda>e. fst e < k) xs @ [(k, v)] @ filter (\<lambda>e. k < fst e) xs"

lemma sorted_filter_keys:
  "sorted_wrt (<) (map fst xs) \<Longrightarrow> sorted_wrt (<) (map fst (filter p xs))"
  by (induction xs) auto

lift_definition ot_insert :: "('k :: linorder, 'v) otable \<Rightarrow> 'k \<Rightarrow> 'v \<Rightarrow> ('k, 'v) otable"
  is alist_insert
  by (auto simp: alist_insert_def sorted_wrt_append sorted_filter_keys)

lift_definition ot_retain :: "('k :: linorder, 'v) otable \<Rightarrow> ('k \<Rightarrow> 'v \<Rightarrow> bool) \<Rightarrow> ('k, 'v) otable"
  is "\<lambda>xs keep. filter (\<lambda>e. keep (fst e) (snd e)) xs"
  by (rule sorted_filter_keys)

definition ot_ops :: "('k :: linorder, 'v, ('k, 'v) otable) table_ops" where
  "ot_ops =
     \<lparr>tbl_empty = ot_empty,
      tbl_iter = entries_of,
      tbl_get = (\<lambda>t. map_of (entries_of t)),
      tbl_first = (\<lambda>t. case entries_of t of [] \<Rightarrow> None | e # _ \<Rightarrow> Some e),
      tbl_last = (\<lambda>t. if entries_of t = [] then None else Some (last (entries_of t))),
      tbl_len = (\<lambda>t. length (entries_of t)),
      tbl_range = (\<lambda>t lo hi. filter (\<lambda>e. lo \<le> fst e \<and> fst e \<le> hi) (entries_of t)),
      tbl_insert = ot_insert,
      tbl_retain = ot_retain\<rparr>"

interpretation ot: ordered_table "ot_ops :: ('k :: linorder, 'v, ('k, 'v) otable) table_ops"
  by unfold_locales
    (simp_all add: ot_ops_def entries_sorted ot_empty.rep_eq ot_insert.rep_eq ot_retain.rep_eq
      alist_insert_def)

end
