(* ===== verification/Cache.thy ===== *)
theory Cache
  imports Compact_Formats Redb "HOL-Library.List_Lexorder" "HOL-Library.Char_ord"
begin

text \<open>
  src/cache.rs: the on-disk store of compact blocks, keyed by height, with a small META table beside
  it. The two tables of the redb database are the fields of the record \<^verbatim>\<open>db\<close>; the store's calls and
  the protobuf codec of the stored blocks (generated by prost from the schema) are the record
  \<^verbatim>\<open>cache_ext\<close>. Operations that write return the database after their commit; an error returns no
  database, since the transaction is dropped and the committed one stays.
\<close>

section \<open>Epochs\<close>

text \<open>The three epoch functions of src/snapshot/format.rs the cache depends on.\<close>

definition EPOCH_SIZE :: u64 where
  "EPOCH_SIZE = 10000"

definition epoch_index :: "u64 \<Rightarrow> u64" where
  "epoch_index height = height div EPOCH_SIZE"

definition epoch_first_height :: "u64 \<Rightarrow> u64" where
  "epoch_first_height index = sat_mul64 index EPOCH_SIZE"

definition epoch_last_height :: "u64 \<Rightarrow> u64" where
  "epoch_last_height index = sat_add64 (epoch_first_height index) (EPOCH_SIZE - 1)"


section \<open>META keys\<close>

text \<open>
  Decimal digits at a fixed width (Rust's \<^verbatim>\<open>{:020}\<close>, which fits every u64 exactly) and u64 parsing
  (an optional plus sign, at least one digit, no overflow).
\<close>

definition dec_digit :: "nat \<Rightarrow> char" where
  "dec_digit n = char_of (48 + n)"

primrec dec_pad :: "nat \<Rightarrow> nat \<Rightarrow> string" where
  "dec_pad 0 x = []"
| "dec_pad (Suc n) x = dec_digit (x div 10 ^ n mod 10) # dec_pad n (x mod 10 ^ n)"

definition dec_value :: "char \<Rightarrow> nat option" where
  "dec_value c = (let k = of_char c in if 48 \<le> k \<and> k \<le> 57 then Some (k - 48) else None)"

fun parse_digits :: "nat \<Rightarrow> string \<Rightarrow> nat option" where
  "parse_digits acc [] = Some acc"
| "parse_digits acc (c # cs) =
     (case dec_value c of None \<Rightarrow> None | Some d \<Rightarrow> parse_digits (10 * acc + d) cs)"

definition parse_u64 :: "string \<Rightarrow> u64 option" where
  "parse_u64 s =
     (let digits = (case s of c # cs \<Rightarrow> if c = CHR ''+'' then cs else s | [] \<Rightarrow> []) in
      if digits = [] then None
      else (case parse_digits 0 digits of
              None \<Rightarrow> None
            | Some v \<Rightarrow> if v \<le> u64_max then Some v else None))"

definition EPOCH_DIGEST_PREFIX :: string where
  "EPOCH_DIGEST_PREFIX = ''epoch_digest/''"

definition SNAPSHOT_BASE_HEIGHT :: string where
  "SNAPSHOT_BASE_HEIGHT = ''snapshot_base_height''"

definition epoch_digest_key :: "u64 \<Rightarrow> string" where
  "epoch_digest_key index = EPOCH_DIGEST_PREFIX @ dec_pad 20 index"

definition strip_prefix :: "string \<Rightarrow> string \<Rightarrow> string option" where
  "strip_prefix p s = (if take (length p) s = p then Some (drop (length p) s) else None)"

definition epoch_digest_index :: "string \<Rightarrow> u64 option" where
  "epoch_digest_index key =
     (case strip_prefix EPOCH_DIGEST_PREFIX key of None \<Rightarrow> None | Some rest \<Rightarrow> parse_u64 rest)"


section \<open>Errors\<close>

text \<open>prost's decode error, of which only its text is used.\<close>

datatype decode_error = DecodeError string

text \<open>The inconsistency a Corruption error describes, one constructor per message of the source.\<close>

datatype corruption =
    HeightKeyMismatch u64 u64
  | NonMonotonicAppend u64 u64
  | NotConsecutive u64 u64
  | BadBaseHeight
  | NoFirstEntry
  | NoLastEntry
  | TipUndecodable decode_error
  | TipHeightMismatch u64 u64
  | GapDetected u64 u64 u64

datatype cache_error =
    Database string
  | Transaction string
  | Table string
  | Storage string
  | Commit string
  | Decode decode_error
  | Corruption u64 corruption

text \<open>Which error a failing store call surfaces as.\<close>

fun redb_error_of :: "redb_call \<Rightarrow> string \<Rightarrow> cache_error" where
  "redb_error_of CreateDatabase d = Database d"
| "redb_error_of BeginRead d = Transaction d"
| "redb_error_of BeginWrite d = Transaction d"
| "redb_error_of OpenBlocks d = Table d"
| "redb_error_of OpenMeta d = Table d"
| "redb_error_of CommitTxn d = Commit d"
| "redb_error_of _ d = Storage d"

definition redb_try :: "faults \<Rightarrow> redb_call \<Rightarrow> (cache_error, unit) result" where
  "redb_try flt c = (case flt c of None \<Rightarrow> Inr () | Some d \<Rightarrow> Inl (redb_error_of c d))"

definition read_blocks :: "faults \<Rightarrow> (cache_error, unit) result" where
  "read_blocks flt = bindE (redb_try flt BeginRead) (\<lambda>_. redb_try flt OpenBlocks)"

definition read_meta :: "faults \<Rightarrow> (cache_error, unit) result" where
  "read_meta flt = bindE (redb_try flt BeginRead) (\<lambda>_. redb_try flt OpenMeta)"


section \<open>The store\<close>

record ('b, 'm) db =
  db_blocks :: 'b
  db_meta :: 'm

record ('b, 'm) cache_ext =
  blocks_ops :: "(u64, bytes, 'b) table_ops"
  meta_ops :: "(string, bytes, 'm) table_ops"
  block_encode :: "compact_block \<Rightarrow> bytes"
  block_decode :: "bytes \<Rightarrow> (decode_error, compact_block) result"
  stored_hash_decode :: "bytes \<Rightarrow> (decode_error, bytes) result"

record cached_chunk =
  chunk_blocks :: "(u64 \<times> bytes) list"
  covered :: "u64 \<times> u64"

definition decode_base_height :: "bytes option \<Rightarrow> (cache_error, u64 option) result" where
  "decode_base_height value =
     (case value of
        None \<Rightarrow> Inr None
      | Some bytes \<Rightarrow>
          if length bytes = 8 then Inr (Some (of_le_bytes bytes))
          else Inl (Corruption 0 BadBaseHeight))"

text \<open>Opening creates the tables the file does not hold yet.\<close>

definition cache_open ::
    "('b, 'm) cache_ext \<Rightarrow> faults \<Rightarrow> 'b option \<Rightarrow> 'm option \<Rightarrow> (cache_error, ('b, 'm) db) result" where
  "cache_open E flt stored_blocks stored_meta =
     bindE (redb_try flt CreateDatabase) (\<lambda>_.
     bindE (redb_try flt BeginWrite) (\<lambda>_.
     bindE (redb_try flt OpenBlocks) (\<lambda>_.
     bindE (redb_try flt OpenMeta) (\<lambda>_.
     bindE (redb_try flt CommitTxn) (\<lambda>_.
       Inr \<lparr>db_blocks = (case stored_blocks of None \<Rightarrow> tbl_empty (blocks_ops E) | Some t \<Rightarrow> t),
            db_meta = (case stored_meta of None \<Rightarrow> tbl_empty (meta_ops E) | Some t \<Rightarrow> t)\<rparr>)))))"

text \<open>
  The append loop: \<^verbatim>\<open>tip\<close> is the tip before the transaction, \<^verbatim>\<open>expected\<close> the height the next block
  must have once one was written.
\<close>

primrec append_loop ::
    "('b, 'm) cache_ext \<Rightarrow> faults \<Rightarrow> u64 option \<Rightarrow> (cache_error, compact_block) result list
      \<Rightarrow> u64 option \<Rightarrow> bool \<Rightarrow> 'b \<Rightarrow> (cache_error, bool \<times> 'b) result" where
  "append_loop E flt tip [] expected appended table = Inr (appended, table)"
| "append_loop E flt tip (item # items) expected appended table =
     bindE item (\<lambda>block.
     bindE
       (case expected of
          None \<Rightarrow>
            (case tip of
               None \<Rightarrow> Inr ()
             | Some tip \<Rightarrow>
                 failIf (cb_height block \<noteq> u64_add tip 1)
                   (Corruption (cb_height block) (NonMonotonicAppend tip (cb_height block))))
        | Some expected \<Rightarrow>
            failIf (cb_height block \<noteq> expected)
              (Corruption expected (NotConsecutive expected (cb_height block)))) (\<lambda>_.
     bindE (redb_try flt (TableInsert (cb_height block))) (\<lambda>_.
       append_loop E flt tip items (Some (u64_add (cb_height block) 1)) True
         (tbl_insert (blocks_ops E) table (cb_height block) (block_encode E block)))))"

definition cache_append ::
    "('b, 'm) cache_ext \<Rightarrow> faults \<Rightarrow> ('b, 'm) db \<Rightarrow> (cache_error, compact_block) result list
      \<Rightarrow> u64 option \<Rightarrow> (cache_error, ('b, 'm) db) result" where
  "cache_append E flt db items snapshot_base =
     bindE (redb_try flt BeginWrite) (\<lambda>_.
     bindE (redb_try flt OpenBlocks) (\<lambda>_.
     bindE (redb_try flt TableRead) (\<lambda>_.
       let tip = map_option fst (tbl_last (blocks_ops E) (db_blocks db)) in
     bindE (append_loop E flt tip items None False (db_blocks db)) (\<lambda>(appended, table).
     bindE
       (case (snapshot_base, appended) of
          (Some base, True) \<Rightarrow>
            bindE (redb_try flt OpenMeta) (\<lambda>_.
            bindE (redb_try flt MetaInsert) (\<lambda>_.
              Inr (tbl_insert (meta_ops E) (db_meta db) SNAPSHOT_BASE_HEIGHT (le_bytes 8 base))))
        | _ \<Rightarrow> Inr (db_meta db)) (\<lambda>meta.
     if \<not> appended then Inr db
     else bindE (redb_try flt CommitTxn) (\<lambda>_. Inr \<lparr>db_blocks = table, db_meta = meta\<rparr>))))))"

definition add_batch ::
    "('b, 'm) cache_ext \<Rightarrow> faults \<Rightarrow> ('b, 'm) db \<Rightarrow> compact_block list \<Rightarrow> (cache_error, ('b, 'm) db) result" where
  "add_batch E flt db blocks = cache_append E flt db (map Inr blocks) None"

definition cache_add ::
    "('b, 'm) cache_ext \<Rightarrow> faults \<Rightarrow> ('b, 'm) db \<Rightarrow> u64 \<Rightarrow> compact_block \<Rightarrow> (cache_error, ('b, 'm) db) result" where
  "cache_add E flt db height block =
     bindE (failIf (cb_height block \<noteq> height)
              (Corruption height (HeightKeyMismatch (cb_height block) height))) (\<lambda>_.
       add_batch E flt db [block])"

definition add_decoded_batch ::
    "('b, 'm) cache_ext \<Rightarrow> faults \<Rightarrow> ('b, 'm) db \<Rightarrow> (cache_error, compact_block) result list
      \<Rightarrow> u64 option \<Rightarrow> (cache_error, ('b, 'm) db) result" where
  "add_decoded_batch E flt db items snapshot_base = cache_append E flt db items snapshot_base"

definition snapshot_base_height ::
    "('b, 'm) cache_ext \<Rightarrow> faults \<Rightarrow> ('b, 'm) db \<Rightarrow> (cache_error, u64 option) result" where
  "snapshot_base_height E flt db =
     bindE (read_meta flt) (\<lambda>_.
     bindE (redb_try flt TableRead) (\<lambda>_.
       decode_base_height (tbl_get (meta_ops E) (db_meta db) SNAPSHOT_BASE_HEIGHT)))"

definition cache_get ::
    "('b, 'm) cache_ext \<Rightarrow> faults \<Rightarrow> ('b, 'm) db \<Rightarrow> u64 \<Rightarrow> (cache_error, compact_block option) result" where
  "cache_get E flt db height =
     bindE (read_blocks flt) (\<lambda>_.
     bindE (redb_try flt (TableGet height)) (\<lambda>_.
       case tbl_get (blocks_ops E) (db_blocks db) height of
         Some bytes \<Rightarrow> bindE (map_err Decode (block_decode E bytes)) (\<lambda>b. Inr (Some b))
       | None \<Rightarrow> Inr None))"

text \<open>The hashes found, in the order asked for (the source keys them by height).\<close>

definition hashes_at ::
    "('b, 'm) cache_ext \<Rightarrow> faults \<Rightarrow> ('b, 'm) db \<Rightarrow> u64 list \<Rightarrow> (cache_error, (u64 \<times> bytes) list) result" where
  "hashes_at E flt db heights =
     bindE (read_blocks flt) (\<lambda>_.
       foldE (\<lambda>height hashes.
           bindE (redb_try flt (TableGet height)) (\<lambda>_.
             case tbl_get (blocks_ops E) (db_blocks db) height of
               Some bytes \<Rightarrow>
                 bindE (map_err Decode (stored_hash_decode E bytes)) (\<lambda>h. Inr (hashes @ [(height, h)]))
             | None \<Rightarrow> Inr hashes))
         heights [])"

text \<open>
  Visiting the stored values of a range in ascending order. The visitor threads a state and may
  fail with an error type that can carry a cache error.
\<close>

definition for_each_raw ::
    "('b, 'm) cache_ext \<Rightarrow> faults \<Rightarrow> ('b, 'm) db \<Rightarrow> u64 \<Rightarrow> u64 \<Rightarrow> (cache_error \<Rightarrow> 'e)
      \<Rightarrow> (u64 \<Rightarrow> bytes \<Rightarrow> 's \<Rightarrow> ('e, 's) result) \<Rightarrow> 's \<Rightarrow> ('e, 's) result" where
  "for_each_raw E flt db lo hi conv visit s =
     bindE (map_err conv (read_blocks flt)) (\<lambda>_.
     bindE (map_err conv (redb_try flt TableRead)) (\<lambda>_.
       foldE (\<lambda>(height, value) s.
           bindE (map_err conv (redb_try flt (TableNext height))) (\<lambda>_. visit height value s))
         (tbl_range (blocks_ops E) (db_blocks db) lo hi) s))"

text \<open>The budget loop of read_chunk over the entries in the direction of the read.\<close>

primrec chunk_loop ::
    "faults \<Rightarrow> usize \<Rightarrow> (u64 \<times> bytes) list \<Rightarrow> (u64 \<times> bytes) list \<Rightarrow> nat
      \<Rightarrow> (cache_error, (u64 \<times> bytes) list \<times> u64 option) result" where
  "chunk_loop flt max_bytes [] blocks held_bytes = Inr (blocks, None)"
| "chunk_loop flt max_bytes (e # es) blocks held_bytes =
     bindE (redb_try flt (TableNext (fst e))) (\<lambda>_.
       if blocks \<noteq> [] \<and> held_bytes + length (snd e) > max_bytes then Inr (blocks, Some (fst e))
       else chunk_loop flt max_bytes es (blocks @ [e]) (held_bytes + length (snd e)))"

definition read_chunk ::
    "('b, 'm) cache_ext \<Rightarrow> faults \<Rightarrow> ('b, 'm) db \<Rightarrow> u64 \<Rightarrow> u64 \<Rightarrow> bool \<Rightarrow> usize
      \<Rightarrow> (cache_error, cached_chunk) result" where
  "read_chunk E flt db low high descending max_bytes =
     bindE (read_blocks flt) (\<lambda>_.
     bindE (redb_try flt TableRead) (\<lambda>_.
       let entries = tbl_range (blocks_ops E) (db_blocks db) low high in
     bindE (chunk_loop flt max_bytes (if descending then rev entries else entries) [] 0)
       (\<lambda>(blocks, stopped_before).
         Inr \<lparr>chunk_blocks = blocks,
              covered =
                (case stopped_before of
                   Some height \<Rightarrow>
                     if descending then (sat_add64 height 1, high) else (low, sat_sub height 1)
                 | None \<Rightarrow> (low, high))\<rparr>)))"

definition cache_range ::
    "('b, 'm) cache_ext \<Rightarrow> faults \<Rightarrow> ('b, 'm) db \<Rightarrow> (cache_error, (u64 \<times> u64) option) result" where
  "cache_range E flt db =
     bindE (read_blocks flt) (\<lambda>_.
     bindE (redb_try flt TableRead) (\<lambda>_.
       case (tbl_first (blocks_ops E) (db_blocks db), tbl_last (blocks_ops E) (db_blocks db)) of
         (Some (low, _), Some (high, _)) \<Rightarrow> Inr (Some (low, high))
       | _ \<Rightarrow> Inr None))"

definition latest_height ::
    "('b, 'm) cache_ext \<Rightarrow> faults \<Rightarrow> ('b, 'm) db \<Rightarrow> (cache_error, u64 option) result" where
  "latest_height E flt db =
     bindE (read_blocks flt) (\<lambda>_.
     bindE (redb_try flt TableRead) (\<lambda>_.
       Inr (map_option fst (tbl_last (blocks_ops E) (db_blocks db)))))"

definition latest_hash ::
    "('b, 'm) cache_ext \<Rightarrow> faults \<Rightarrow> ('b, 'm) db \<Rightarrow> (cache_error, bytes option) result" where
  "latest_hash E flt db =
     bindE (read_blocks flt) (\<lambda>_.
     bindE (redb_try flt TableRead) (\<lambda>_.
       case tbl_last (blocks_ops E) (db_blocks db) of
         Some (_, value) \<Rightarrow> bindE (map_err Decode (block_decode E value)) (\<lambda>b. Inr (Some (cb_hash b)))
       | None \<Rightarrow> Inr None))"

definition remove_from ::
    "('b, 'm) cache_ext \<Rightarrow> faults \<Rightarrow> ('b, 'm) db \<Rightarrow> u64 \<Rightarrow> (cache_error, ('b, 'm) db) result" where
  "remove_from E flt db height =
     (let dropped_epoch = epoch_index height in
     bindE (redb_try flt BeginWrite) (\<lambda>_.
     bindE (redb_try flt OpenBlocks) (\<lambda>_.
     bindE (redb_try flt TableRetain) (\<lambda>_.
       let blocks = tbl_retain (blocks_ops E) (db_blocks db) (\<lambda>cached _. cached < height) in
     bindE (redb_try flt OpenMeta) (\<lambda>_.
     bindE (redb_try flt TableRead) (\<lambda>_.
     bindE (decode_base_height (tbl_get (meta_ops E) (db_meta db) SNAPSHOT_BASE_HEIGHT)) (\<lambda>base.
       let drops_the_base = (case base of None \<Rightarrow> False | Some base \<Rightarrow> height \<le> base) in
     bindE (redb_try flt MetaRetain) (\<lambda>_.
       let meta =
         tbl_retain (meta_ops E) (db_meta db) (\<lambda>key _.
           if key = SNAPSHOT_BASE_HEIGHT then \<not> drops_the_base
           else (case epoch_digest_index key of None \<Rightarrow> True | Some index \<Rightarrow> index < dropped_epoch)) in
     bindE (redb_try flt CommitTxn) (\<lambda>_.
       Inr \<lparr>db_blocks = blocks, db_meta = meta\<rparr>)))))))))"

definition reorg ::
    "('b, 'm) cache_ext \<Rightarrow> faults \<Rightarrow> ('b, 'm) db \<Rightarrow> u64 \<Rightarrow> (cache_error, ('b, 'm) db) result" where
  "reorg E flt db height = remove_from E flt db (sat_add64 height 1)"

definition truncate_from ::
    "('b, 'm) cache_ext \<Rightarrow> faults \<Rightarrow> ('b, 'm) db \<Rightarrow> u64 \<Rightarrow> (cache_error, ('b, 'm) db) result" where
  "truncate_from E flt db height = remove_from E flt db height"

definition epoch_digest ::
    "('b, 'm) cache_ext \<Rightarrow> faults \<Rightarrow> ('b, 'm) db \<Rightarrow> u64 \<Rightarrow> (cache_error, bytes option) result" where
  "epoch_digest E flt db index =
     bindE (read_meta flt) (\<lambda>_.
     bindE (redb_try flt TableRead) (\<lambda>_.
       Inr (tbl_get (meta_ops E) (db_meta db) (epoch_digest_key index))))"

definition set_epoch_digest ::
    "('b, 'm) cache_ext \<Rightarrow> faults \<Rightarrow> ('b, 'm) db \<Rightarrow> u64 \<Rightarrow> bytes \<Rightarrow> (cache_error, ('b, 'm) db) result" where
  "set_epoch_digest E flt db index value =
     bindE (redb_try flt BeginWrite) (\<lambda>_.
     bindE (redb_try flt OpenMeta) (\<lambda>_.
     bindE (redb_try flt MetaInsert) (\<lambda>_.
     bindE (redb_try flt CommitTxn) (\<lambda>_.
       Inr (db\<lparr>db_meta := tbl_insert (meta_ops E) (db_meta db) (epoch_digest_key index) value\<rparr>)))))"

text \<open>The rows of META have text keys: the iterator's fault is named by the position of the row.\<close>

definition epoch_digests ::
    "('b, 'm) cache_ext \<Rightarrow> faults \<Rightarrow> ('b, 'm) db \<Rightarrow> (cache_error, (u64 \<times> bytes) list) result" where
  "epoch_digests E flt db =
     bindE (read_meta flt) (\<lambda>_.
     bindE (redb_try flt TableRead) (\<lambda>_.
       foldE (\<lambda>(k, key, value) rows.
           bindE (redb_try flt (TableNext k)) (\<lambda>_.
             Inr (case epoch_digest_index key of None \<Rightarrow> rows | Some index \<Rightarrow> rows @ [(index, value)])))
         (enumerate 0 (tbl_iter (meta_ops E) (db_meta db))) []))"

definition validate_light ::
    "('b, 'm) cache_ext \<Rightarrow> faults \<Rightarrow> ('b, 'm) db \<Rightarrow> (cache_error, unit) result" where
  "validate_light E flt db =
     bindE (read_blocks flt) (\<lambda>_.
     bindE (redb_try flt TableRead) (\<lambda>_.
       let len = tbl_len (blocks_ops E) (db_blocks db) in
       if len = 0 then Inr ()
       else
     bindE (ok_or (Corruption 0 NoFirstEntry)
              (map_option fst (tbl_first (blocks_ops E) (db_blocks db)))) (\<lambda>low.
     bindE (ok_or (Corruption 0 NoLastEntry) (tbl_last (blocks_ops E) (db_blocks db)))
       (\<lambda>(high, high_value).
     bindE (map_err (\<lambda>error. Corruption high (TipUndecodable error)) (block_decode E high_value)) (\<lambda>tip.
     bindE (failIf (cb_height tip \<noteq> high) (Corruption high (TipHeightMismatch (cb_height tip) high))) (\<lambda>_.
       let expected = u64_add (high - low) 1 in
       failIf (len \<noteq> expected) (Corruption high (GapDetected len low high))))))))"

text \<open>The scan for the lowest missing height.\<close>

primrec scan_missing ::
    "('b, 'm) cache_ext \<Rightarrow> faults \<Rightarrow> 'b \<Rightarrow> u64 list \<Rightarrow> (cache_error, u64 option) result" where
  "scan_missing E flt table [] = Inr None"
| "scan_missing E flt table (height # hs) =
     bindE (redb_try flt (TableGet height)) (\<lambda>_.
       if tbl_get (blocks_ops E) table height = None then Inr (Some height)
       else scan_missing E flt table hs)"

definition good_at :: "('b, 'm) cache_ext \<Rightarrow> 'b \<Rightarrow> u64 \<Rightarrow> bool" where
  "good_at E table height =
     (case tbl_get (blocks_ops E) table height of
        Some value \<Rightarrow> (case block_decode E value of Inl _ \<Rightarrow> False | Inr b \<Rightarrow> cb_height b = height)
      | None \<Rightarrow> False)"

text \<open>
  The walk down from the tip, over the heights from \<^verbatim>\<open>high\<close> down to \<^verbatim>\<open>low\<close>; running off the end
  means that even the lowest block is corrupt.
\<close>

primrec walk_down ::
    "('b, 'm) cache_ext \<Rightarrow> faults \<Rightarrow> 'b \<Rightarrow> u64 \<Rightarrow> u64 \<Rightarrow> u64 list \<Rightarrow> (cache_error, u64 option) result" where
  "walk_down E flt table low high [] = Inr (Some low)"
| "walk_down E flt table low high (height # hs) =
     bindE (redb_try flt (TableGet height)) (\<lambda>_.
       if good_at E table height then
         Inr (if height < high then Some (u64_add height 1) else None)
       else walk_down E flt table low high hs)"

definition lowest_corrupt_height ::
    "('b, 'm) cache_ext \<Rightarrow> faults \<Rightarrow> ('b, 'm) db \<Rightarrow> (cache_error, u64 option) result" where
  "lowest_corrupt_height E flt db =
     bindE (read_blocks flt) (\<lambda>_.
     bindE (redb_try flt TableRead) (\<lambda>_.
       let table = db_blocks db; len = tbl_len (blocks_ops E) table in
       if len = 0 then Inr None
       else
         case (tbl_first (blocks_ops E) table, tbl_last (blocks_ops E) table) of
           (Some (low, _), Some (high, _)) \<Rightarrow>
             bindE (if len \<noteq> u64_add (high - low) 1
                    then scan_missing E flt table [low..<Suc high] else Inr None) (\<lambda>missing.
               case missing of
                 Some height \<Rightarrow> Inr (Some height)
               | None \<Rightarrow> walk_down E flt table low high (rev [low..<Suc high]))
         | _ \<Rightarrow> Inr None))"


section \<open>What a table stores\<close>

text \<open>
  The abstract view of the cache is the list of blocks it holds: a run of consecutive heights. The
  relation \<^verbatim>\<open>stores\<close> ties a table to that list. The last height stays below the largest u64, so that
  the height after the tip exists.
\<close>

fun contiguous :: "compact_block list \<Rightarrow> bool" where
  "contiguous (a # b # bs) \<longleftrightarrow> cb_height b = Suc (cb_height a) \<and> contiguous (b # bs)"
| "contiguous _ \<longleftrightarrow> True"

definition decodes_to :: "('b, 'm) cache_ext \<Rightarrow> u64 \<times> bytes \<Rightarrow> compact_block \<Rightarrow> bool" where
  "decodes_to E e b \<longleftrightarrow> block_decode E (snd e) = Inr b \<and> cb_height b = fst e"

definition stores :: "('b, 'm) cache_ext \<Rightarrow> 'b \<Rightarrow> compact_block list \<Rightarrow> bool" where
  "stores E table bs \<longleftrightarrow>
     list_all2 (decodes_to E) (tbl_iter (blocks_ops E) table) bs \<and> contiguous bs \<and>
     (\<forall>b \<in> set bs. cb_height b < u64_max)"

lemma decodes_heights: "list_all2 (decodes_to E) es bs \<Longrightarrow> map cb_height bs = map fst es"
  by (induction rule: list_all2_induct) (auto simp: decodes_to_def)

lemma contiguous_append:
  "contiguous (xs @ ys) \<longleftrightarrow> contiguous xs \<and> contiguous ys \<and>
     (xs \<noteq> [] \<and> ys \<noteq> [] \<longrightarrow> cb_height (hd ys) = Suc (cb_height (last xs)))"
proof (induction xs)
  case (Cons x xs)
  then show ?case by (cases xs; cases ys) auto
qed simp

lemma contiguous_snoc:
  "contiguous (bs @ [b]) \<longleftrightarrow> contiguous bs \<and> (bs \<noteq> [] \<longrightarrow> cb_height b = Suc (cb_height (last bs)))"
  by (auto simp: contiguous_append)

lemma contiguous_heights:
  "contiguous bs \<Longrightarrow> map cb_height bs = heights_from (cb_height (hd bs)) (length bs)"
  by (induction bs rule: contiguous.induct) auto

lemma contiguous_take: "contiguous bs \<Longrightarrow> contiguous (take n bs)"
  by (metis append_take_drop_id contiguous_append)

lemma chained_contiguous: "chained bs \<Longrightarrow> contiguous bs"
  by (induction bs rule: chained.induct) auto

lemma contiguous_nth: "contiguous bs \<Longrightarrow> i < length bs \<Longrightarrow> cb_height (bs ! i) = cb_height (hd bs) + i"
  using contiguous_heights by (metis nth_heights_from nth_map)

lemma contiguous_last:
  "contiguous bs \<Longrightarrow> bs \<noteq> [] \<Longrightarrow> cb_height (last bs) = cb_height (hd bs) + (length bs - 1)"
  using contiguous_nth [of bs "length bs - 1"] by (simp add: last_conv_nth)

lemma contiguous_holds:
  assumes "contiguous bs" and "bs \<noteq> []" and "cb_height (hd bs) \<le> h" and "h \<le> cb_height (last bs)"
  shows "\<exists>b \<in> set bs. cb_height b = h"
proof -
  have "h - cb_height (hd bs) < length bs" using assms contiguous_last [OF assms(1,2)] by (cases bs) auto
  from contiguous_nth [OF assms(1) this] nth_mem [OF this] show ?thesis using assms(3) by auto
qed

lemma contiguous_first: "contiguous bs \<Longrightarrow> b \<in> set bs \<Longrightarrow> cb_height (hd bs) \<le> cb_height b"
  by (metis contiguous_nth in_set_conv_nth le_add1)

lemma contiguous_sorted: "contiguous bs \<Longrightarrow> sorted_wrt (<) (map cb_height bs)"
  by (simp add: contiguous_heights heights_from_def)

text \<open>Dropping the blocks from a height on leaves a prefix.\<close>

lemma contiguous_filter_below:
  assumes "contiguous bs"
  shows "filter (\<lambda>b. cb_height b < h) bs = takeWhile (\<lambda>b. cb_height b < h) bs"
proof -
  have "filter (\<lambda>b. cb_height b < h) xs = takeWhile (\<lambda>b. cb_height b < h) xs"
    if "sorted_wrt (\<lambda>a b. cb_height b < h \<longrightarrow> cb_height a < h) xs" for xs :: "compact_block list"
    using that by (induction xs) (auto simp: filter_empty_conv)
  moreover have "sorted_wrt (\<lambda>a b. cb_height b < h \<longrightarrow> cb_height a < h) bs"
    using contiguous_sorted [OF assms] unfolding sorted_wrt_map
    by (rule sorted_wrt_mono_rel [rotated]) auto
  ultimately show ?thesis .
qed


text \<open>The stored bytes a chunk holds.\<close>

definition chunk_bytes :: "(u64 \<times> bytes) list \<Rightarrow> nat" where
  "chunk_bytes blocks = sum_list (map (\<lambda>e. length (snd e)) blocks)"

lemma chunk_bytes_simps [simp]:
  "chunk_bytes [] = 0" "chunk_bytes (e # es) = length (snd e) + chunk_bytes es"
  "chunk_bytes (xs @ ys) = chunk_bytes xs + chunk_bytes ys"
  by (simp_all add: chunk_bytes_def)


section \<open>The contract of the store and codec\<close>

text \<open>
  Both tables are ordered tables, decoding a stored encoding gives the block back, and reading only
  the hash field of a stored block gives that block's hash (prost skips the fields a message does
  not declare).
\<close>

locale cache_contract =
  fixes E :: "('b, 'm) cache_ext"
  assumes blocks_table: "ordered_table (blocks_ops E)"
    and meta_table: "ordered_table (meta_ops E)"
    and decode_encode: "block_decode E (block_encode E b) = Inr b"
    and stored_hash: "block_decode E bs = Inr b \<Longrightarrow> stored_hash_decode E bs = Inr (cb_hash b)"

sublocale cache_contract \<subseteq> blk: ordered_table "blocks_ops E"
  by (rule blocks_table)

sublocale cache_contract \<subseteq> mta: ordered_table "meta_ops E"
  by (rule meta_table)

context cache_contract
begin

lemma stores_keys:
  "stores E table bs \<Longrightarrow> map fst (tbl_iter (blocks_ops E) table) = map cb_height bs"
  unfolding stores_def by (metis decodes_heights)

lemma stores_Nil_iff: "stores E table bs \<Longrightarrow> tbl_iter (blocks_ops E) table = [] \<longleftrightarrow> bs = []"
  unfolding stores_def by auto

lemma list_all2_last:
  "list_all2 P xs ys \<Longrightarrow> xs \<noteq> [] \<Longrightarrow> ys \<noteq> [] \<and> P (last xs) (last ys)"
  by (induction rule: list_all2_induct) auto

lemma stores_last:
  "stores E table bs \<Longrightarrow>
     (case tbl_last (blocks_ops E) table of
        None \<Rightarrow> bs = []
      | Some e \<Rightarrow> bs \<noteq> [] \<and> fst e = cb_height (last bs) \<and> block_decode E (snd e) = Inr (last bs))"
  unfolding stores_def
  by (auto simp: blk.last_iter decodes_to_def dest: list_all2_last)

lemma stores_first:
  "stores E table bs \<Longrightarrow>
     map_option fst (tbl_first (blocks_ops E) table) = (if bs = [] then None else Some (cb_height (hd bs)))"
  unfolding stores_def
  by (auto simp: blk.first_iter decodes_to_def list_all2_Cons1 split: list.splits)

lemma stores_get:
  assumes "stores E table bs"
  shows "case tbl_get (blocks_ops E) table h of
      None \<Rightarrow> find (\<lambda>b. cb_height b = h) bs = None
    | Some v \<Rightarrow> \<exists>b. find (\<lambda>b. cb_height b = h) bs = Some b \<and> block_decode E v = Inr b"
proof -
  have "list_all2 (decodes_to E) es cs \<Longrightarrow>
      (case map_of es h of
         None \<Rightarrow> find (\<lambda>b. cb_height b = h) cs = None
       | Some v \<Rightarrow> \<exists>b. find (\<lambda>b. cb_height b = h) cs = Some b \<and> block_decode E v = Inr b)" for es cs
    by (induction es cs rule: list_all2_induct) (auto simp: decodes_to_def split: option.splits)
  then show ?thesis
    using assms by (simp add: stores_def blk.get_iter)
qed

lemma latest_height_eq:
  "stores E (db_blocks d) bs \<Longrightarrow>
     latest_height E flt d = bindE (read_blocks flt) (\<lambda>_. bindE (redb_try flt TableRead) (\<lambda>_.
       Inr (if bs = [] then None else Some (cb_height (last bs)))))"
  using stores_last [of "db_blocks d" bs]
  by (auto simp: latest_height_def split: option.splits)

lemma latest_hash_eq:
  "stores E (db_blocks d) bs \<Longrightarrow>
     latest_hash E flt d = bindE (read_blocks flt) (\<lambda>_. bindE (redb_try flt TableRead) (\<lambda>_.
       Inr (if bs = [] then None else Some (cb_hash (last bs)))))"
  using stores_last [of "db_blocks d" bs]
  by (auto simp: latest_hash_def split: option.splits)

lemma cache_get_eq:
  "stores E (db_blocks d) bs \<Longrightarrow>
     cache_get E flt d h = bindE (read_blocks flt) (\<lambda>_. bindE (redb_try flt (TableGet h)) (\<lambda>_.
       Inr (find (\<lambda>b. cb_height b = h) bs)))"
  using stores_get [of "db_blocks d" bs h]
  by (auto simp: cache_get_def split: option.splits)

lemma cache_range_eq:
  "stores E (db_blocks d) bs \<Longrightarrow>
     cache_range E flt d = bindE (read_blocks flt) (\<lambda>_. bindE (redb_try flt TableRead) (\<lambda>_.
       Inr (if bs = [] then None else Some (cb_height (hd bs), cb_height (last bs)))))"
  using stores_last [of "db_blocks d" bs] stores_first [of "db_blocks d" bs]
  by (auto simp: cache_range_def split: option.splits if_splits)

text \<open>Appending above the tip extends the stored list.\<close>

lemma stores_insert:
  assumes "stores E table bs" and "cb_height b < u64_max"
    and "bs \<noteq> [] \<Longrightarrow> cb_height b = Suc (cb_height (last bs))"
  shows "stores E (tbl_insert (blocks_ops E) table (cb_height b) (block_encode E b)) (bs @ [b])"
proof -
  have "fst e < cb_height b" if e: "e \<in> set (tbl_iter (blocks_ops E) table)" for e
  proof -
    have ne: "tbl_iter (blocks_ops E) table \<noteq> []" using e by auto
    then have "bs \<noteq> []" using stores_Nil_iff [OF assms(1)] by simp
    moreover have "fst e \<le> fst (last (tbl_iter (blocks_ops E) table))"
      by (rule blk.last_key_max [OF ne e])
    moreover have "fst (last (tbl_iter (blocks_ops E) table)) = cb_height (last bs)"
      using stores_last [OF assms(1)] ne by (simp add: blk.last_iter)
    ultimately show ?thesis using assms(3) by simp
  qed
  then have "tbl_iter (blocks_ops E) (tbl_insert (blocks_ops E) table (cb_height b) (block_encode E b)) =
      tbl_iter (blocks_ops E) table @ [(cb_height b, block_encode E b)]"
    by (rule blk.insert_above)
  then show ?thesis
    using assms by (auto simp: stores_def contiguous_snoc decodes_to_def decode_encode
        intro: list_all2_appendI)
qed

lemma append_loop_stores:
  assumes "append_loop E flt tip items expected appended table = Inr (appended', table')"
    and "stores E table bs"
    and "\<forall>b. Inr b \<in> set items \<longrightarrow> cb_height b < u64_max"
    and "case expected of
           None \<Rightarrow> tip = (if bs = [] then None else Some (cb_height (last bs))) \<and> \<not> appended
         | Some e \<Rightarrow> bs \<noteq> [] \<and> e = Suc (cb_height (last bs)) \<and> appended"
  shows "\<exists>new. items = map Inr new \<and> stores E table' (bs @ new) \<and> appended' = (appended \<or> new \<noteq> [])"
  using assms
proof (induction items arbitrary: expected appended table bs)
  case (Cons item items)
  from Cons.prems(1) obtain b where item: "item = Inr b" by (auto simp: result_simps)
  have max: "cb_height b < u64_max" using Cons.prems(3) item by auto
  have tip_ok: "u64_add (cb_height (last bs)) 1 = Suc (cb_height (last bs))" if "bs \<noteq> []"
    using Cons.prems(2) that by (simp add: stores_def)
  have step: "bs \<noteq> [] \<Longrightarrow> cb_height b = Suc (cb_height (last bs))"
    using Cons.prems(1,4) tip_ok unfolding item
    by (auto simp: result_simps split: option.splits if_splits)
  let ?table = "tbl_insert (blocks_ops E) table (cb_height b) (block_encode E b)"
  have "append_loop E flt tip items (Some (u64_add (cb_height b) 1)) True ?table = Inr (appended', table')"
    using Cons.prems(1) unfolding item by (auto simp: result_simps)
  moreover have "stores E ?table (bs @ [b])"
    by (rule stores_insert [OF Cons.prems(2) max step])
  moreover have "u64_add (cb_height b) 1 = Suc (cb_height b)"
    using max by simp
  ultimately have "\<exists>new. items = map Inr new \<and> stores E table' ((bs @ [b]) @ new) \<and>
      appended' = (True \<or> new \<noteq> [])"
    using Cons.prems(3) by (intro Cons.IH) auto
  then obtain new where "items = map Inr new" "stores E table' (bs @ b # new)" "appended'"
    by auto
  then show ?case using item by (intro exI [of _ "b # new"]) simp
qed auto

lemma append_stores:
  assumes "cache_append E flt d items base = Inr d'" and "stores E (db_blocks d) bs"
    and "\<forall>b. Inr b \<in> set items \<longrightarrow> cb_height b < u64_max"
  shows "\<exists>new. items = map Inr new \<and> stores E (db_blocks d') (bs @ new)"
proof -
  have tip: "map_option fst (tbl_last (blocks_ops E) (db_blocks d)) =
      (if bs = [] then None else Some (cb_height (last bs)))"
    using stores_last [OF assms(2)] by (auto split: option.splits)
  from assms(1) obtain appended table where
    loop: "append_loop E flt (map_option fst (tbl_last (blocks_ops E) (db_blocks d))) items None False
        (db_blocks d) = Inr (appended, table)"
    and res: "if appended then db_blocks d' = table else d' = d"
    by (auto simp: cache_append_def Let_def result_simps split: if_splits)
  from append_loop_stores [OF loop assms(2,3)] tip obtain new where
    "items = map Inr new" "stores E table (bs @ new)" "appended = (new \<noteq> [])"
    by auto
  with res assms(2) show ?thesis by (cases "new = []") auto
qed

text \<open>Truncation keeps the blocks below the height.\<close>

lemma list_all2_filter_keys:
  "list_all2 (decodes_to E) es bs \<Longrightarrow>
     list_all2 (decodes_to E) (filter (\<lambda>e. fst e < h) es) (filter (\<lambda>b. cb_height b < h) bs)"
  by (induction rule: list_all2_induct) (auto simp: decodes_to_def)

lemma stores_retain:
  assumes "stores E table bs"
  shows "stores E (tbl_retain (blocks_ops E) table (\<lambda>cached _. cached < h))
    (takeWhile (\<lambda>b. cb_height b < h) bs)"
proof -
  have "contiguous bs" using assms by (simp add: stores_def)
  moreover have "contiguous (takeWhile (\<lambda>b. cb_height b < h) bs)"
    by (subst takeWhile_eq_take) (rule contiguous_take [OF \<open>contiguous bs\<close>])
  ultimately show ?thesis
    using assms list_all2_filter_keys
    by (auto simp: stores_def blk.retain_iter contiguous_filter_below [symmetric])
qed

lemma remove_from_stores:
  "remove_from E flt d h = Inr d' \<Longrightarrow> stores E (db_blocks d) bs \<Longrightarrow>
     stores E (db_blocks d') (takeWhile (\<lambda>b. cb_height b < h) bs)"
  using stores_retain by (auto simp: remove_from_def Let_def result_simps)

lemma remove_from_meta:
  assumes "remove_from E flt d h = Inr d'"
    and "decode_base_height (tbl_get (meta_ops E) (db_meta d) SNAPSHOT_BASE_HEIGHT) = Inr base"
  shows "tbl_get (meta_ops E) (db_meta d') key =
    (if key = SNAPSHOT_BASE_HEIGHT
     then (case base of Some b \<Rightarrow> if h \<le> b then None else tbl_get (meta_ops E) (db_meta d) key
           | None \<Rightarrow> tbl_get (meta_ops E) (db_meta d) key)
     else (case epoch_digest_index key of
             None \<Rightarrow> tbl_get (meta_ops E) (db_meta d) key
           | Some i \<Rightarrow> if i < epoch_index h then tbl_get (meta_ops E) (db_meta d) key else None))"
  using assms by (auto simp: remove_from_def Let_def result_simps mta.get_retain split: option.splits)

text \<open>The raw keys after a truncation, whatever the values are.\<close>

lemma remove_from_iter:
  "remove_from E flt d h = Inr d' \<Longrightarrow>
     tbl_iter (blocks_ops E) (db_blocks d') = filter (\<lambda>e. fst e < h) (tbl_iter (blocks_ops E) (db_blocks d))"
  by (auto simp: remove_from_def Let_def result_simps blk.retain_iter)


text \<open>The budget loop keeps a prefix of the entries it walks.\<close>

lemma chunk_loop_prefix:
  assumes "chunk_loop flt max_bytes es blocks held = Inr (blocks', stop)"
    and "held = chunk_bytes blocks"
    and "held \<le> max_bytes \<or> length blocks \<le> 1"
  shows "\<exists>taken rest. es = taken @ rest \<and> blocks' = blocks @ taken \<and>
    stop = (case rest of [] \<Rightarrow> None | e # _ \<Rightarrow> Some (fst e)) \<and>
    (rest \<noteq> [] \<longrightarrow> blocks' \<noteq> [] \<and> chunk_bytes blocks' + length (snd (hd rest)) > max_bytes) \<and>
    (chunk_bytes blocks' \<le> max_bytes \<or> length blocks' \<le> 1)"
  using assms
proof (induction es arbitrary: blocks held)
  case (Cons e es)
  show ?case
  proof (cases "blocks \<noteq> [] \<and> held + length (snd e) > max_bytes")
    case True
    with Cons.prems show ?thesis
      by (intro exI [of _ "[]"] exI [of _ "e # es"]) (auto simp: result_simps)
  next
    case False
    with Cons.prems(1) have loop: "chunk_loop flt max_bytes es (blocks @ [e]) (held + length (snd e)) =
        Inr (blocks', stop)"
      by (auto simp: result_simps split: if_splits)
    have "held + length (snd e) = chunk_bytes (blocks @ [e])"
      using Cons.prems(2) by simp
    moreover have "held + length (snd e) \<le> max_bytes \<or> length (blocks @ [e]) \<le> 1"
      using False by auto
    ultimately obtain taken rest where IH: "es = taken @ rest" "blocks' = (blocks @ [e]) @ taken"
      "stop = (case rest of [] \<Rightarrow> None | e # _ \<Rightarrow> Some (fst e))"
      "rest \<noteq> [] \<longrightarrow> blocks' \<noteq> [] \<and> chunk_bytes blocks' + length (snd (hd rest)) > max_bytes"
      "chunk_bytes blocks' \<le> max_bytes \<or> length blocks' \<le> 1"
      using Cons.IH [OF loop] by blast
    show ?thesis
      by (rule exI [of _ "e # taken"], rule exI [of _ rest]) (use IH in simp)
  qed
qed auto

end

end
