(* ===== verification/Cache_Laws.thy ===== *)
theory Cache_Laws
  imports Cache
begin

text \<open>
  Laws of the block cache: META keys, the coverage of a chunked read, acceptance of appends, the
  open-time check and the localization of corruption, and the invariant that snapshot metadata never
  outlives the blocks it describes.
\<close>

section \<open>META keys\<close>

lemma dec_value_digit [simp]: "d < 10 \<Longrightarrow> dec_value (dec_digit d) = Some d"
  by (auto simp: dec_value_def dec_digit_def)

lemma dec_digit_less: "a < 10 \<Longrightarrow> b < 10 \<Longrightarrow> dec_digit a < dec_digit b \<longleftrightarrow> a < b"
  by (simp add: dec_digit_def less_char_def)

lemma dec_digit_eq: "a < 10 \<Longrightarrow> b < 10 \<Longrightarrow> dec_digit a = dec_digit b \<longleftrightarrow> a = b"
  by (metis dec_value_digit option.inject)

lemma parse_digits_dec_pad: "parse_digits acc (dec_pad n x) = Some (acc * 10 ^ n + x mod 10 ^ n)"
proof (induction n arbitrary: acc x)
  case (Suc n)
  have "x mod 10 ^ Suc n = x div 10 ^ n mod 10 * 10 ^ n + x mod 10 ^ n"
    using mod_mult2_eq [of x "10 ^ n" 10] by (simp add: mult.commute)
  with Suc show ?case by (simp add: algebra_simps)
qed simp

lemma length_dec_pad [simp]: "length (dec_pad n x) = n"
  by (induction n arbitrary: x) auto

lemma dec_pad_less:
  "x < 10 ^ n \<Longrightarrow> y < 10 ^ n \<Longrightarrow> dec_pad n x < dec_pad n y \<longleftrightarrow> x < y"
proof (induction n arbitrary: x y)
  case (Suc n)
  let ?dx = "x div 10 ^ n" and ?dy = "y div 10 ^ n" and ?rx = "x mod 10 ^ n" and ?ry = "y mod 10 ^ n"
  have d: "?dx < 10" "?dy < 10"
    using Suc.prems by (simp_all add: less_mult_imp_div_less)
  have r: "?rx < 10 ^ n" "?ry < 10 ^ n" by simp_all
  have xy: "x = ?dx * 10 ^ n + ?rx" "y = ?dy * 10 ^ n + ?ry"
    by (simp_all only: div_mult_mod_eq)
  have step: "a * 10 ^ n + c < b * 10 ^ n + e" if "a < b" "c < 10 ^ n" for a b c e :: nat
  proof -
    have "Suc a * 10 ^ n \<le> b * 10 ^ n" using that(1) by (intro mult_le_mono1) simp
    then show ?thesis using that(2) by simp
  qed
  have "x < y \<longleftrightarrow> ?dx < ?dy \<or> ?dx = ?dy \<and> ?rx < ?ry"
  proof (cases ?dx ?dy rule: linorder_cases)
    case less
    then show ?thesis using step [OF less r(1), of ?ry] xy by simp
  next
    case equal
    then show ?thesis using xy by (metis add_less_cancel_left less_irrefl)
  next
    case greater
    then show ?thesis using step [OF greater r(2), of ?rx] xy by simp
  qed
  then show ?case
    using d Suc.IH [OF r] by (auto simp: dec_digit_less dec_digit_eq)
qed simp

lemma u64_digits: "i \<le> u64_max \<Longrightarrow> i < 10 ^ 20"
  by (simp add: u64_max_def)

lemma epoch_digest_index_key:
  assumes "i \<le> u64_max"
  shows "epoch_digest_index (epoch_digest_key i) = Some i"
proof -
  have "parse_digits 0 (dec_pad 20 i) = Some i"
    using u64_digits [OF assms] by (simp add: parse_digits_dec_pad)
  moreover obtain d ds where "dec_pad 20 i = d # ds" "d \<noteq> CHR ''+''"
  proof -
    have "dec_pad (Suc 19) i = dec_digit (i div 10 ^ 19 mod 10) # dec_pad 19 (i mod 10 ^ 19)"
      by (rule dec_pad.simps)
    moreover have "dec_value (dec_digit d) \<noteq> dec_value (CHR ''+'')" if "d < 10" for d
      using that by (simp add: dec_value_def [of "CHR ''+''"])
    then have "dec_digit (d mod 10) \<noteq> CHR ''+''" for d
      by (metis mod_less_divisor zero_less_numeral)
    ultimately show ?thesis using that by simp
  qed
  ultimately show ?thesis
    using assms by (simp add: epoch_digest_index_def epoch_digest_key_def strip_prefix_def parse_u64_def)
qed

lemma append_less_append: "(p @ xs < p @ ys) \<longleftrightarrow> xs < (ys :: string)"
  by (induction p) auto

lemma epoch_digest_key_less:
  "i \<le> u64_max \<Longrightarrow> j \<le> u64_max \<Longrightarrow> epoch_digest_key i < epoch_digest_key j \<longleftrightarrow> i < j"
  using dec_pad_less [OF u64_digits u64_digits, of i j]
  by (simp only: epoch_digest_key_def append_less_append)

lemma epoch_digest_key_not_base: "epoch_digest_key i \<noteq> SNAPSHOT_BASE_HEIGHT"
  by (simp add: epoch_digest_key_def EPOCH_DIGEST_PREFIX_def SNAPSHOT_BASE_HEIGHT_def)


section \<open>Epoch bounds\<close>

lemma epoch_bounds:
  assumes "h \<le> u64_max"
  shows "epoch_first_height (epoch_index h) \<le> h" and "h \<le> epoch_last_height (epoch_index h)"
  using assms
  by (auto simp: epoch_first_height_def epoch_last_height_def epoch_index_def EPOCH_SIZE_def
      sat_mul64_def sat_add64_def min_def)

lemma epoch_last_mono: "i \<le> j \<Longrightarrow> epoch_last_height i \<le> epoch_last_height j"
  by (simp add: epoch_last_height_def epoch_first_height_def EPOCH_SIZE_def sat_mul64_def sat_add64_def min_def)

lemma epoch_last_below:
  assumes "i < epoch_index h" and "h \<le> u64_max"
  shows "epoch_last_height i < h"
proof -
  have "(i + 1) * 10000 \<le> h"
    using assms(1) by (simp add: epoch_index_def EPOCH_SIZE_def less_eq_div_iff_mult_less_eq Suc_le_eq)
  then show ?thesis
    using assms(2)
    by (auto simp: epoch_last_height_def epoch_first_height_def EPOCH_SIZE_def sat_mul64_def
        sat_add64_def min_def)
qed


text \<open>No height between the first and the last one is missing.\<close>

definition gapless :: "('b, 'm) cache_ext \<Rightarrow> 'b \<Rightarrow> bool" where
  "gapless E t \<longleftrightarrow> (let es = tbl_iter (blocks_ops E) t in
     es = [] \<or> map fst es = [fst (hd es)..<Suc (fst (last es))])"


section \<open>Chunked reads\<close>

lemma sorted_split_below:
  assumes "sorted_wrt (<) (map fst (taken @ r # rest))" and "taken \<noteq> []"
  shows "filter (\<lambda>e. fst e \<le> fst r - 1) (taken @ r # rest) = (taken :: (nat \<times> 'v) list)"
proof -
  have below: "\<forall>e \<in> set taken. fst e < fst r" and above: "\<forall>e \<in> set rest. fst r < fst e"
    using assms(1) by (auto simp: sorted_wrt_append)
  moreover have "0 < fst r" using below assms(2) by (cases taken) auto
  ultimately have "filter (\<lambda>e. fst e \<le> fst r - 1) taken = taken"
    "filter (\<lambda>e. fst e \<le> fst r - 1) (r # rest) = []"
    by (auto simp: filter_id_conv filter_empty_conv)
  then show ?thesis by simp
qed

lemma sorted_split_above:
  assumes "sorted_wrt (<) (map fst (rest @ r # taken))"
  shows "filter (\<lambda>e. Suc (fst r) \<le> fst e) (rest @ r # taken) = (taken :: (nat \<times> 'v) list)"
proof -
  have "\<forall>e \<in> set taken. fst r < fst e" "\<forall>e \<in> set rest. fst e < fst r"
    using assms by (auto simp: sorted_wrt_append)
  then have "filter (\<lambda>e. Suc (fst r) \<le> fst e) taken = taken"
    "filter (\<lambda>e. Suc (fst r) \<le> fst e) (rest @ [r]) = []"
    by (auto simp: filter_id_conv filter_empty_conv)
  then show ?thesis by simp
qed

context cache_contract
begin

lemma range_sorted: "sorted_wrt (<) (map fst (tbl_range (blocks_ops E) t lo hi))"
  unfolding blk.range_iter by (rule sorted_filter_keys [OF blk.iter_sorted])

lemma range_sub_low:
  "low \<le> lo \<Longrightarrow> filter (\<lambda>e. lo \<le> fst e) (tbl_range (blocks_ops E) t low high) =
     tbl_range (blocks_ops E) t lo high"
  unfolding blk.range_iter filter_filter by (rule filter_cong) auto

lemma range_sub_high:
  "hi \<le> high \<Longrightarrow> filter (\<lambda>e. fst e \<le> hi) (tbl_range (blocks_ops E) t low high) =
     tbl_range (blocks_ops E) t low hi"
  unfolding blk.range_iter filter_filter by (rule filter_cong) auto

lemma read_chunk_covers:
  assumes "read_chunk E flt d low high descending max_bytes = Inr c"
    and "low \<le> high" and "high \<le> u64_max"
  shows "low \<le> fst (covered c) \<and> fst (covered c) \<le> snd (covered c) \<and> snd (covered c) \<le> high \<and>
    (if descending then snd (covered c) = high else fst (covered c) = low) \<and>
    chunk_blocks c =
      (let es = tbl_range (blocks_ops E) (db_blocks d) (fst (covered c)) (snd (covered c)) in
       if descending then rev es else es) \<and>
    (chunk_bytes (chunk_blocks c) \<le> max_bytes \<or> length (chunk_blocks c) \<le> 1) \<and>
    (chunk_blocks c = [] \<longrightarrow> covered c = (low, high))"
proof -
  define es where "es = tbl_range (blocks_ops E) (db_blocks d) low high"
  define ds where "ds = (if descending then rev es else es)"
  from assms(1) obtain blocks stop where loop: "chunk_loop flt max_bytes ds [] 0 = Inr (blocks, stop)"
    and c: "c = \<lparr>chunk_blocks = blocks, covered =
      (case stop of
         Some height \<Rightarrow> if descending then (sat_add64 height 1, high) else (low, sat_sub height 1)
       | None \<Rightarrow> (low, high))\<rparr>"
    unfolding read_chunk_def Let_def bindE_Inr_iff ds_def es_def by auto
  from chunk_loop_prefix [OF loop] obtain rest where split: "ds = blocks @ rest"
    and stop: "stop = (case rest of [] \<Rightarrow> None | e # _ \<Rightarrow> Some (fst e))"
    and ne: "rest \<noteq> [] \<Longrightarrow> blocks \<noteq> []"
    and budget: "chunk_bytes blocks \<le> max_bytes \<or> length blocks \<le> 1"
    by auto
  have sorted: "sorted_wrt (<) (map fst es)" unfolding es_def by (rule range_sorted)
  have in_range: "low \<le> fst e \<and> fst e \<le> high" if "e \<in> set ds" for e
    using that by (auto simp: ds_def es_def blk.range_iter split: if_splits)
  show ?thesis
  proof (cases rest)
    case Nil
    then show ?thesis
      using c stop split budget assms(2) by (auto simp: ds_def es_def)
  next
    case (Cons r rest')
    then have "blocks \<noteq> []" using ne by simp
    then obtain b where b: "b \<in> set blocks" by (cases blocks) auto
    show ?thesis
    proof (cases descending)
      case True
      then have "rev (rev es) = rev (blocks @ r # rest')"
        using split Cons by (simp only: ds_def if_True)
      then have es: "es = rev rest' @ r # rev blocks" by simp
      have "fst r < fst b" "fst b \<le> high" "low \<le> fst r"
        using sorted b in_range split Cons unfolding es by (auto simp: sorted_wrt_append)
      moreover have "filter (\<lambda>e. Suc (fst r) \<le> fst e) es = rev blocks"
        unfolding es by (rule sorted_split_above) (use sorted es in simp)
      then have "tbl_range (blocks_ops E) (db_blocks d) (Suc (fst r)) high = rev blocks"
        using range_sub_low [of low "Suc (fst r)" "db_blocks d" high] \<open>low \<le> fst r\<close>
        by (simp add: es_def)
      ultimately show ?thesis
        using True c stop Cons budget assms(3) \<open>blocks \<noteq> []\<close> by (simp add: sat_add64_exact)
    next
      case False
      then have es: "es = blocks @ r # rest'" using split Cons by (simp add: ds_def)
      have "fst b < fst r" "low \<le> fst b" "fst r \<le> high"
        using sorted b in_range split Cons unfolding es by (auto simp: sorted_wrt_append)
      moreover have "filter (\<lambda>e. fst e \<le> fst r - 1) es = blocks"
        unfolding es by (rule sorted_split_below) (use sorted es \<open>blocks \<noteq> []\<close> in simp_all)
      then have "tbl_range (blocks_ops E) (db_blocks d) low (fst r - 1) = blocks"
        using range_sub_high [of "fst r - 1" high "db_blocks d" low] \<open>fst r \<le> high\<close>
        by (simp add: es_def)
      moreover have "low \<le> fst r - 1" "fst r - 1 \<le> high"
        using \<open>low \<le> fst b\<close> \<open>fst b < fst r\<close> \<open>fst r \<le> high\<close> by linarith+
      ultimately show ?thesis
        using False c stop Cons budget \<open>blocks \<noteq> []\<close> by (simp add: sat_sub_def)
    qed
  qed
qed

text \<open>Without faults, a consecutive batch that continues the tip is accepted.\<close>

lemma append_loop_accepts:
  assumes "contiguous (bs @ new)" and "\<forall>b \<in> set (bs @ new). cb_height b < u64_max"
    and "case expected of
           None \<Rightarrow> tip = (if bs = [] then None else Some (cb_height (last bs)))
         | Some e \<Rightarrow> bs \<noteq> [] \<and> e = Suc (cb_height (last bs))"
  shows "\<exists>table'. append_loop E no_faults tip (map Inr new) expected appended table =
    Inr (appended \<or> new \<noteq> [], table')"
  using assms
proof (induction new arbitrary: bs expected appended table)
  case (Cons b new)
  let ?table = "tbl_insert (blocks_ops E) table (cb_height b) (block_encode E b)"
  have b: "bs \<noteq> [] \<Longrightarrow> cb_height b = Suc (cb_height (last bs))" "cb_height b < u64_max"
    using Cons.prems(1,2) by (auto simp: contiguous_append)
  have "\<exists>table'. append_loop E no_faults tip (map Inr new) (Some (Suc (cb_height b))) True ?table =
      Inr (True \<or> new \<noteq> [], table')"
    using Cons.prems(1,2) by (intro Cons.IH [of "bs @ [b]"]) auto
  moreover have "bs \<noteq> [] \<Longrightarrow> cb_height (last bs) < u64_max" using Cons.prems(2) by simp
  ultimately show ?case
    using b Cons.prems(3)
    by (auto simp: redb_try_def no_faults_def split: option.splits if_splits)
qed simp

lemma append_accepts:
  assumes "stores E (db_blocks d) bs" and "contiguous new"
    and "\<forall>b \<in> set new. cb_height b < u64_max"
    and "bs = [] \<or> new = [] \<or> cb_height (hd new) = Suc (cb_height (last bs))"
  shows "\<exists>d'. cache_append E no_faults d (map Inr new) base = Inr d' \<and> stores E (db_blocks d') (bs @ new) \<and>
    (base = None \<longrightarrow> db_meta d' = db_meta d)"
proof -
  have tip: "map_option fst (tbl_last (blocks_ops E) (db_blocks d)) =
      (if bs = [] then None else Some (cb_height (last bs)))"
    using stores_last [OF assms(1)] by (auto split: option.splits)
  have "contiguous (bs @ new)" "\<forall>b \<in> set (bs @ new). cb_height b < u64_max"
    using assms by (auto simp: contiguous_append stores_def)
  from append_loop_accepts [OF this, where expected = None and appended = False and
      table = "db_blocks d" and tip = "map_option fst (tbl_last (blocks_ops E) (db_blocks d))"] tip
  obtain table' where
    "append_loop E no_faults (map_option fst (tbl_last (blocks_ops E) (db_blocks d))) (map Inr new) None
      False (db_blocks d) = Inr (new \<noteq> [], table')"
    by auto
  then have "\<exists>d'. cache_append E no_faults d (map Inr new) base = Inr d' \<and> (base = None \<longrightarrow> db_meta d' = db_meta d)"
    by (auto simp: cache_append_def redb_try_def no_faults_def split: option.splits bool.splits)
  moreover have "stores E (db_blocks d') (bs @ new)" if "cache_append E no_faults d (map Inr new) base = Inr d'" for d'
    using append_stores [OF that assms(1)] assms(3)
    by (auto simp: inj_map_eq_map [of Inr] inj_on_def)
  ultimately show ?thesis by blast
qed

lemma add_batch_accepts:
  assumes "stores E (db_blocks d) bs" and "contiguous new"
    and "\<forall>b \<in> set new. cb_height b < u64_max"
    and "bs = [] \<or> new = [] \<or> cb_height (hd new) = Suc (cb_height (last bs))"
  shows "\<exists>d'. add_batch E no_faults d new = Inr d' \<and> stores E (db_blocks d') (bs @ new) \<and>
    db_meta d' = db_meta d"
  using append_accepts [OF assms, of None] by (simp add: add_batch_def)

text \<open>A batch that does not continue the tip is refused, whatever else happens.\<close>

lemma add_batch_rejects:
  assumes "stores E (db_blocks d) bs" and "bs \<noteq> []" and "cb_height b \<noteq> Suc (cb_height (last bs))"
  shows "\<exists>e. add_batch E flt d (b # new) = Inl e"
proof -
  obtain v where "tbl_last (blocks_ops E) (db_blocks d) = Some (cb_height (last bs), v)"
    using stores_last [OF assms(1)] assms(2) by (auto split: option.splits)
  moreover have "cb_height (last bs) < u64_max" using assms(1,2) by (simp add: stores_def)
  ultimately have "add_batch E flt d (b # new) \<noteq> Inr d'" for d'
    using assms(3) by (auto simp: add_batch_def cache_append_def result_simps)
  then show ?thesis by (cases "add_batch E flt d (b # new)") auto
qed


text \<open>The open-time check accepts every healthy cache, and what it accepts has no gap.\<close>

lemma iter_contiguous_iff:
  assumes "tbl_iter (blocks_ops E) t \<noteq> []"
  shows "length (tbl_iter (blocks_ops E) t) =
      Suc (fst (last (tbl_iter (blocks_ops E) t)) - fst (hd (tbl_iter (blocks_ops E) t))) \<longleftrightarrow>
    map fst (tbl_iter (blocks_ops E) t) =
      [fst (hd (tbl_iter (blocks_ops E) t))..<Suc (fst (last (tbl_iter (blocks_ops E) t)))]"
  using strict_sorted_contiguous [OF blk.iter_sorted] assms by (simp add: last_map hd_map del: upt_Suc)

lemma validate_light_ok_iff:
  assumes "\<forall>e \<in> set (tbl_iter (blocks_ops E) (db_blocks d)). fst e < u64_max"
  shows "validate_light E no_faults d = Inr () \<longleftrightarrow>
    (let es = tbl_iter (blocks_ops E) (db_blocks d) in
     es = [] \<or> map fst es = [fst (hd es)..<Suc (fst (last es))] \<and>
       good_at E (db_blocks d) (fst (last es)))"
proof (cases "tbl_iter (blocks_ops E) (db_blocks d) = []")
  case True
  then show ?thesis
    by (simp add: validate_light_def read_blocks_def redb_try_def no_faults_def blk.len_iter Let_def)
next
  case False
  define es where "es = tbl_iter (blocks_ops E) (db_blocks d)"
  obtain k v where l: "last es = (k, v)" by (cases "last es")
  obtain k' v' es' where h: "es = (k', v') # es'"
    using False by (cases es) (auto simp: es_def)
  have mem: "(k, v) \<in> set es" using l False by (metis es_def last_in_set)
  then have get: "tbl_get (blocks_ops E) (db_blocks d) k = Some v"
    using blk.iter_distinct [of "db_blocks d"] by (simp add: blk.get_iter es_def)
  have bound: "u64_add (k - k') 1 = Suc (k - k')"
    using assms mem by (intro u64_add_Suc [unfolded One_nat_def [symmetric]]) (auto simp: es_def)
  have firsts: "tbl_first (blocks_ops E) (db_blocks d) = Some (k', v')"
    "tbl_last (blocks_ops E) (db_blocks d) = Some (k, v)"
    "tbl_len (blocks_ops E) (db_blocks d) = length es" "length es \<noteq> 0"
    using h l False by (simp_all add: blk.first_iter blk.last_iter blk.len_iter es_def)
  have "validate_light E no_faults d = Inr () \<longleftrightarrow>
      (\<exists>b. block_decode E v = Inr b \<and> cb_height b = k) \<and> length es = Suc (k - k')"
    using firsts bound
    by (auto simp: validate_light_def read_blocks_def redb_try_def no_faults_def result_simps Let_def)
  also have "length es = Suc (k - k') \<longleftrightarrow> map fst es = [k'..<Suc k]"
    using iter_contiguous_iff [OF False] l h unfolding es_def [symmetric] by (simp del: upt_Suc)
  also have "(\<exists>b. block_decode E v = Inr b \<and> cb_height b = k) \<longleftrightarrow> good_at E (db_blocks d) k"
    using get by (auto simp: good_at_def split: sum.splits)
  finally show ?thesis
    unfolding es_def [symmetric] Let_def using l h by (auto simp del: upt_Suc)
qed

lemma validate_light_stores:
  assumes "stores E (db_blocks d) bs"
  shows "validate_light E no_faults d = Inr ()"
proof -
  define es where "es = tbl_iter (blocks_ops E) (db_blocks d)"
  have keys: "map fst es = map cb_height bs"
    using stores_keys [OF assms] by (simp add: es_def)
  have "\<forall>k \<in> set (map fst es). k < u64_max"
    unfolding keys using assms by (auto simp: stores_def)
  moreover have "map fst es = [fst (hd es)..<Suc (fst (last es))] \<and> good_at E (db_blocks d) (fst (last es))"
    if "es \<noteq> []"
  proof -
    have ne: "bs \<noteq> []" using that keys by auto
    have hd: "fst (hd es) = cb_height (hd bs)" and last: "fst (last es) = cb_height (last bs)"
      using that ne keys by (metis hd_map, metis last_map)
    have "contiguous bs" using assms by (simp add: stores_def)
    have "Suc (cb_height (last bs)) = cb_height (hd bs) + length bs"
      using contiguous_last [OF \<open>contiguous bs\<close> ne] ne by (cases bs) auto
    then have "map fst es = [fst (hd es)..<Suc (fst (last es))]"
      using contiguous_heights [OF \<open>contiguous bs\<close>] keys hd last
      by (simp add: heights_from_def del: upt_Suc)
    moreover have "tbl_get (blocks_ops E) (db_blocks d) (fst (last es)) = Some (snd (last es))"
      using that blk.iter_distinct [of "db_blocks d"]
      by (auto simp: blk.get_iter es_def intro: map_of_is_SomeI)
    moreover have "block_decode E (snd (last es)) = Inr (last bs)"
      using stores_last [OF assms] that by (simp add: blk.last_iter es_def)
    ultimately show ?thesis using last by (simp add: good_at_def)
  qed
  ultimately show ?thesis
    by (subst validate_light_ok_iff) (auto simp: es_def Let_def)
qed


text \<open>
  The two searches of the localization: the lowest missing height, and the block after the last good
  one counted from the tip.
\<close>

lemma scan_missing_find:
  "scan_missing E no_faults t hs = Inr (find (\<lambda>h. tbl_get (blocks_ops E) t h = None) hs)"
  by (induction hs) (auto simp: redb_try_def no_faults_def)

lemma walk_down_find:
  "walk_down E no_faults t low high hs =
     Inr (case find (good_at E t) hs of
            None \<Rightarrow> Some low
          | Some h \<Rightarrow> if h < high then Some (u64_add h 1) else None)"
  by (induction hs) (auto simp: redb_try_def no_faults_def)

lemma find_upt:
  "find P [a..<b] = Some x \<longleftrightarrow> a \<le> x \<and> x < b \<and> P x \<and> (\<forall>y. a \<le> y \<and> y < x \<longrightarrow> \<not> P y)"
proof (induction "b - a" arbitrary: a)
  case (Suc n)
  then have "[a..<b] = a # [Suc a..<b]" "n = b - Suc a" by (simp_all add: upt_conv_Cons)
  moreover have "(\<forall>y. a \<le> y \<and> y < x \<longrightarrow> \<not> P y) \<longleftrightarrow> (\<forall>y. Suc a \<le> y \<and> y < x \<longrightarrow> \<not> P y) \<and> (a < x \<longrightarrow> \<not> P a)"
    using le_eq_less_or_eq [of a] Suc_le_eq [of a] by auto
  ultimately show ?case using Suc.hyps(1) [of "Suc a"] Suc.hyps(2)
    by (cases "x = a") auto
qed simp

lemma find_rev_upt:
  "find P (rev [a..<b]) = Some x \<longleftrightarrow> a \<le> x \<and> x < b \<and> P x \<and> (\<forall>y. x < y \<and> y < b \<longrightarrow> \<not> P y)"
proof (induction b)
  case (Suc b)
  then show ?case by (auto simp: less_Suc_eq)
qed simp

lemma map_fst_key_get:
  "h \<in> set (map fst (tbl_iter (blocks_ops E) t)) \<longleftrightarrow> tbl_get (blocks_ops E) t h \<noteq> None"
  by (simp add: blk.get_iter map_of_eq_None_iff del: not_None_eq)

lemma keys_between:
  assumes "h \<in> set (map fst (tbl_iter (blocks_ops E) t))"
  shows "fst (hd (tbl_iter (blocks_ops E) t)) \<le> h" and "h \<le> fst (last (tbl_iter (blocks_ops E) t))"
proof -
  have ne: "tbl_iter (blocks_ops E) t \<noteq> []" using assms by auto
  show "h \<le> fst (last (tbl_iter (blocks_ops E) t))"
    using assms blk.last_key_max [OF ne] by auto
  have "x \<le> h" if "sorted_wrt (<) (x # xs)" "h \<in> set (x # xs)" for x xs
    using that by auto
  then show "fst (hd (tbl_iter (blocks_ops E) t)) \<le> h"
    using blk.iter_sorted [of t] assms ne by (cases "tbl_iter (blocks_ops E) t") auto
qed

lemma lowest_corrupt_unfold:
  assumes "tbl_iter (blocks_ops E) (db_blocks d) = es" and "es \<noteq> []"
    and "\<forall>e \<in> set es. fst e < u64_max" and "fst (hd es) = low" and "fst (last es) = high"
  shows "lowest_corrupt_height E no_faults d =
    (case (if gapless E (db_blocks d) then None
           else find (\<lambda>h. tbl_get (blocks_ops E) (db_blocks d) h = None) [low..<Suc high]) of
       Some h \<Rightarrow> Inr (Some h)
     | None \<Rightarrow> Inr (case find (good_at E (db_blocks d)) (rev [low..<Suc high]) of
                     None \<Rightarrow> Some low
                   | Some h \<Rightarrow> if h < high then Some (Suc h) else None))"
proof -
  obtain v where l: "last es = (high, v)" using assms(5) by (cases "last es") auto
  obtain v' es' where h: "es = (low, v') # es'" using assms(2,4) by (cases es) auto
  have "high < u64_max" using assms(2,3) l by (metis fst_conv last_in_set)
  then have "u64_add (high - low) 1 = Suc (high - low)" by simp
  moreover have "tbl_first (blocks_ops E) (db_blocks d) = Some (low, v')"
    "tbl_last (blocks_ops E) (db_blocks d) = Some (high, v)"
    "tbl_len (blocks_ops E) (db_blocks d) = length es"
    using h l assms(1,2) by (simp_all add: blk.first_iter blk.last_iter blk.len_iter)
  moreover have "length es = Suc (high - low) \<longleftrightarrow> gapless E (db_blocks d)"
    using iter_contiguous_iff [of "db_blocks d"] assms(2,4,5) unfolding gapless_def Let_def assms(1)
    by simp
  moreover have "h < high \<Longrightarrow> u64_add h 1 = Suc h" for h using \<open>high < u64_max\<close> by simp
  ultimately show ?thesis
    using assms(2)
    by (simp add: lowest_corrupt_height_def read_blocks_def redb_try_def no_faults_def Let_def
        scan_missing_find walk_down_find [unfolded no_faults_def]
        scan_missing_find [unfolded no_faults_def] del: upt_Suc split: option.splits)
qed

lemma good_at_key: "good_at E t h \<Longrightarrow> h \<in> set (map fst (tbl_iter (blocks_ops E) t))"
  unfolding map_fst_key_get by (auto simp: good_at_def split: option.splits)

lemma gapless_mem:
  assumes "gapless E t" and "tbl_iter (blocks_ops E) t \<noteq> []"
  shows "set (map fst (tbl_iter (blocks_ops E) t)) =
    {fst (hd (tbl_iter (blocks_ops E) t))..fst (last (tbl_iter (blocks_ops E) t))}"
proof -
  have "set (map fst (tbl_iter (blocks_ops E) t)) =
      set [fst (hd (tbl_iter (blocks_ops E) t))..<Suc (fst (last (tbl_iter (blocks_ops E) t)))]"
    using assms unfolding gapless_def Let_def by metis
  then show ?thesis by (simp only: set_upt atLeastLessThanSuc_atLeastAtMost)
qed

lemma hd_le_last:
  "tbl_iter (blocks_ops E) t \<noteq> [] \<Longrightarrow>
     fst (hd (tbl_iter (blocks_ops E) t)) \<le> fst (last (tbl_iter (blocks_ops E) t))"
  by (rule keys_between(2)) simp

text \<open>A table with a gap misses a height with everything below it present.\<close>

lemma gap_found:
  assumes "\<not> gapless E t" and "tbl_iter (blocks_ops E) t = es"
    and "fst (hd es) = low" and "fst (last es) = high"
  shows "\<exists>h. find (\<lambda>h. tbl_get (blocks_ops E) t h = None) [low..<Suc high] = Some h \<and> low < h \<and> h < high"
proof -
  have ne: "es \<noteq> []" using assms(1,2) by (auto simp: gapless_def)
  have eqset: "set (map fst es) = set [low..<Suc high] \<Longrightarrow> False"
  proof -
    assume "set (map fst es) = set [low..<Suc high]"
    moreover have "sorted (map fst es)" "distinct (map fst es)"
      using blk.iter_sorted [of t] by (simp_all add: assms(2) strict_sorted_iff)
    ultimately have "map fst es = [low..<Suc high]"
      by (intro sorted_distinct_set_unique) (simp_all del: upt_Suc)
    then show False using assms ne by (auto simp: gapless_def Let_def)
  qed
  have "set (map fst es) \<subseteq> set [low..<Suc high]"
    using keys_between [of _ t] assms(2-4) by (fastforce simp del: upt_Suc)
  then obtain h where "h \<in> set [low..<Suc high]" "h \<notin> set (map fst es)"
    using eqset by blast
  then obtain m where m: "find (\<lambda>h. tbl_get (blocks_ops E) t h = None) [low..<Suc high] = Some m"
    using map_fst_key_get [of h t] assms(2)
    by (cases "find (\<lambda>h. tbl_get (blocks_ops E) t h = None) [low..<Suc high]")
      (auto simp: find_None_iff simp del: upt_Suc)
  then have "low \<le> m" "m < Suc high" "tbl_get (blocks_ops E) t m = None"
    unfolding find_upt by simp_all
  moreover have "low \<in> set (map fst es)" "high \<in> set (map fst es)"
    using ne assms(3,4) by auto
  then have "m \<noteq> low" "m \<noteq> high"
    using map_fst_key_get [of m t] \<open>tbl_get (blocks_ops E) t m = None\<close> assms(2) by auto
  ultimately show ?thesis using m by auto
qed

text \<open>The localization reports nothing exactly when the open-time check passes.\<close>

lemma lowest_corrupt_none_iff:
  assumes "\<forall>e \<in> set (tbl_iter (blocks_ops E) (db_blocks d)). fst e < u64_max"
  shows "lowest_corrupt_height E no_faults d = Inr None \<longleftrightarrow> validate_light E no_faults d = Inr ()"
proof (cases "tbl_iter (blocks_ops E) (db_blocks d) = []")
  case True
  then show ?thesis
    by (simp add: validate_light_def lowest_corrupt_height_def read_blocks_def redb_try_def no_faults_def
        blk.len_iter Let_def)
next
  case False
  define es where "es = tbl_iter (blocks_ops E) (db_blocks d)"
  define low where "low = fst (hd es)"
  define high where "high = fst (last es)"
  have valid: "validate_light E no_faults d = Inr () \<longleftrightarrow>
      gapless E (db_blocks d) \<and> good_at E (db_blocks d) high"
    using validate_light_ok_iff [OF assms] False
    by (simp add: gapless_def Let_def high_def es_def del: upt_Suc)
  have unfold: "lowest_corrupt_height E no_faults d =
    (case (if gapless E (db_blocks d) then None
           else find (\<lambda>h. tbl_get (blocks_ops E) (db_blocks d) h = None) [low..<Suc high]) of
       Some h \<Rightarrow> Inr (Some h)
     | None \<Rightarrow> Inr (case find (good_at E (db_blocks d)) (rev [low..<Suc high]) of
                     None \<Rightarrow> Some low
                   | Some h \<Rightarrow> if h < high then Some (Suc h) else None))"
    by (rule lowest_corrupt_unfold [of d es]) (use False assms in \<open>simp_all add: es_def low_def high_def\<close>)
  have "low \<le> high" using hd_le_last [OF False] by (simp add: low_def high_def es_def)
  show ?thesis
  proof (cases "gapless E (db_blocks d)")
    case False
    then show ?thesis
      using gap_found [OF False, of es low high] unfold valid
      by (auto simp: es_def low_def high_def simp del: upt_Suc)
  next
    case True
    have "rev [low..<Suc high] = high # rev [low..<high]" using \<open>low \<le> high\<close> by simp
    moreover have "g < high" if "find (good_at E (db_blocks d)) (rev [low..<high]) = Some g" for g
      using that unfolding find_rev_upt by simp
    ultimately show ?thesis
      using True unfold valid by (auto simp del: upt_Suc split: option.splits)
  qed
qed

text \<open>
  Truncating at the reported height: a round after which the table has no gap, and a second one after
  which the check passes.
\<close>

lemma good_at_retain:
  assumes "remove_from E flt d h = Inr d'" and "k < h"
  shows "good_at E (db_blocks d') k = good_at E (db_blocks d) k"
proof -
  have "tbl_get (blocks_ops E) (db_blocks d') k = tbl_get (blocks_ops E) (db_blocks d) k"
    using assms by (auto simp: remove_from_def Let_def result_simps blk.get_retain split: option.splits)
  then show ?thesis by (simp add: good_at_def)
qed

lemma filter_below_upt:
  "a \<le> h \<Longrightarrow> h \<le> b \<Longrightarrow> filter (\<lambda>x. x < h) [a..<b] = [a..<h]"
proof -
  assume "a \<le> h" "h \<le> b"
  then have "[a..<b] = [a..<h] @ [h..<b]" by (metis le_Suc_ex upt_add_eq_append)
  then show ?thesis by (auto simp: filter_empty_conv)
qed

lemma filter_map_fst: "map fst (filter (\<lambda>e. fst e < h) es) = filter (\<lambda>x. x < h) (map fst es)"
  by (induction es) auto

lemma gapless_keysI:
  "map fst (tbl_iter (blocks_ops E) t) = [a..<b] \<Longrightarrow> gapless E t"
proof (cases "a < b")
  case True
  assume keys: "map fst (tbl_iter (blocks_ops E) t) = [a..<b]"
  have ne: "tbl_iter (blocks_ops E) t \<noteq> []" using arg_cong [OF keys, of length] True by auto
  have "fst (hd (tbl_iter (blocks_ops E) t)) = a" "fst (last (tbl_iter (blocks_ops E) t)) = b - 1"
    using arg_cong [OF keys, of hd] arg_cong [OF keys, of last] ne True by (simp_all add: hd_map last_map)
  then show ?thesis using keys True by (simp add: gapless_def Let_def del: upt_Suc)
qed (simp add: gapless_def)

lemma truncated_keys:
  assumes "remove_from E flt d h = Inr d'"
    and "\<forall>k. low \<le> k \<and> k < h \<longrightarrow> k \<in> set (map fst (tbl_iter (blocks_ops E) (db_blocks d)))"
    and "\<forall>k \<in> set (map fst (tbl_iter (blocks_ops E) (db_blocks d))). low \<le> k"
  shows "map fst (tbl_iter (blocks_ops E) (db_blocks d')) = [low..<h]"
proof (rule sorted_distinct_set_unique)
  show "sorted (map fst (tbl_iter (blocks_ops E) (db_blocks d')))"
    "distinct (map fst (tbl_iter (blocks_ops E) (db_blocks d')))"
    using blk.iter_sorted [of "db_blocks d'"] by (simp_all add: strict_sorted_iff)
  have "set (map fst (tbl_iter (blocks_ops E) (db_blocks d'))) =
      {k \<in> set (map fst (tbl_iter (blocks_ops E) (db_blocks d))). k < h}"
    unfolding remove_from_iter [OF assms(1)] by auto
  also have "... = {low..<h}" using assms(2,3) by auto
  finally show "set (map fst (tbl_iter (blocks_ops E) (db_blocks d'))) = set [low..<h]" by simp
qed simp_all

lemma recovery_round:
  assumes "\<forall>e \<in> set (tbl_iter (blocks_ops E) (db_blocks d)). fst e < u64_max"
    and "lowest_corrupt_height E no_faults d = Inr (Some h)"
    and "remove_from E flt d h = Inr d'"
  shows "gapless E (db_blocks d') \<and>
    (gapless E (db_blocks d) \<longrightarrow> validate_light E no_faults d' = Inr ())"
proof (cases "tbl_iter (blocks_ops E) (db_blocks d) = []")
  case True
  then show ?thesis
    using assms(2) by (simp add: lowest_corrupt_height_def read_blocks_def redb_try_def no_faults_def
        blk.len_iter Let_def)
next
  case False
  define es where "es = tbl_iter (blocks_ops E) (db_blocks d)"
  define low where "low = fst (hd es)"
  define high where "high = fst (last es)"
  note unfold = lowest_corrupt_unfold [OF es_def [symmetric] _ _ low_def [symmetric] high_def [symmetric]]
  have lows: "\<forall>k \<in> set (map fst es). low \<le> k"
    using keys_between(1) by (auto simp: es_def low_def)
  have small: "\<forall>e \<in> set (tbl_iter (blocks_ops E) (db_blocks d')). fst e < u64_max"
    using assms(1) unfolding remove_from_iter [OF assms(3)] by simp
  show ?thesis
  proof (cases "gapless E (db_blocks d)")
    case gap: False
    obtain m where "find (\<lambda>h. tbl_get (blocks_ops E) (db_blocks d) h = None) [low..<Suc high] = Some m"
      using gap_found [OF gap, of es low high] by (auto simp: es_def low_def high_def)
    then have "find (\<lambda>h. tbl_get (blocks_ops E) (db_blocks d) h = None) [low..<Suc high] = Some h"
      using unfold assms(1,2) False gap by (simp add: es_def del: upt_Suc)
    then have "\<forall>k. low \<le> k \<and> k < h \<longrightarrow> k \<in> set (map fst (tbl_iter (blocks_ops E) (db_blocks d)))"
      unfolding find_upt map_fst_key_get by blast
    from truncated_keys [OF assms(3) this] lows gap show ?thesis
      by (auto simp: es_def intro: gapless_keysI)
  next
    case True
    have mem: "set (map fst es) = {low..high}"
      using gapless_mem [OF True False] by (simp add: es_def low_def high_def)
    let ?found = "find (good_at E (db_blocks d)) (rev [low..<Suc high])"
    have found: "(case ?found of None \<Rightarrow> Some low | Some g \<Rightarrow> if g < high then Some (Suc g) else None) = Some h"
      using unfold assms(1,2) False True by (simp add: es_def del: upt_Suc)
    then have h: "?found = None \<and> h = low \<or>
        (\<exists>g. ?found = Some g \<and> low \<le> g \<and> g < high \<and> h = Suc g \<and> good_at E (db_blocks d) g)"
      by (auto simp: find_rev_upt split: option.splits if_splits simp del: upt_Suc)
    then have "\<forall>k. low \<le> k \<and> k < h \<longrightarrow> k \<in> set (map fst (tbl_iter (blocks_ops E) (db_blocks d)))"
      using mem by (auto simp: es_def)
    then have keys: "map fst (tbl_iter (blocks_ops E) (db_blocks d')) = [low..<h]"
      by (rule truncated_keys [OF assms(3)]) (use lows in \<open>simp add: es_def\<close>)
    then have gapless': "gapless E (db_blocks d')" by (rule gapless_keysI)
    have "good_at E (db_blocks d') (fst (last (tbl_iter (blocks_ops E) (db_blocks d'))))"
      if ne: "tbl_iter (blocks_ops E) (db_blocks d') \<noteq> []"
    proof -
      have "low < h" using ne keys by (cases "low < h") simp_all
      then obtain g where g: "h = Suc g" "low \<le> g" "good_at E (db_blocks d) g" using h by auto
      have "fst (last (tbl_iter (blocks_ops E) (db_blocks d'))) = g"
        using arg_cong [OF keys, of last] ne g(1,2) by (simp add: last_map)
      then show ?thesis using good_at_retain [OF assms(3), of g] g by simp
    qed
    then show ?thesis
      using gapless' validate_light_ok_iff [OF small] by (auto simp: gapless_def Let_def)
  qed
qed

end

end
