(* ===== verification/Cache_Ref.thy ===== *)
theory Cache_Ref
  imports Cache
begin

text \<open>
  A reference instance of the cache's external code: sorted association lists as tables and a
  length-prefixed binary codec of compact blocks. It shows that the contract of the store can be met
  and gives closed examples something to run on; nothing of the model depends on it.
\<close>

section \<open>Codecs\<close>

text \<open>A codec writes a value so that it can be read back in front of anything.\<close>

locale codec =
  fixes put :: "'a \<Rightarrow> bytes" and get :: "bytes \<Rightarrow> ('a \<times> bytes) option"
  assumes get_put: "get (put x @ rest) = Some (x, rest)"

text \<open>Base-128 integers, least significant group first.\<close>

fun put_nat :: "nat \<Rightarrow> bytes" where
  "put_nat n = (if n < 128 then [of_nat n] else of_nat (128 + n mod 128) # put_nat (n div 128))"

declare put_nat.simps [simp del]

fun get_nat :: "bytes \<Rightarrow> (nat \<times> bytes) option" where
  "get_nat [] = None"
| "get_nat (b # bs) =
     (if unat b < 128 then Some (unat b, bs)
      else map_option (\<lambda>(n, rest). (unat b - 128 + 128 * n, rest)) (get_nat bs))"

interpretation nat_codec: codec put_nat get_nat
proof
  fix n :: nat and rest
  show "get_nat (put_nat n @ rest) = Some (n, rest)"
  proof (induction n rule: put_nat.induct)
    case (1 n)
    have "unat (of_nat (128 + n mod 128) :: u8) = 128 + n mod 128"
      by (simp add: unat_of_nat del: of_nat_add)
    then show ?case
      using 1 by (subst put_nat.simps) (auto simp: unat_of_nat simp del: of_nat_add)
  qed
qed

definition put_bytes :: "bytes \<Rightarrow> bytes" where
  "put_bytes bs = put_nat (length bs) @ bs"

definition get_bytes :: "bytes \<Rightarrow> (bytes \<times> bytes) option" where
  "get_bytes bs =
     (case get_nat bs of
        None \<Rightarrow> None
      | Some (n, rest) \<Rightarrow> if n \<le> length rest then Some (take n rest, drop n rest) else None)"

interpretation bytes_codec: codec put_bytes get_bytes
  by unfold_locales (simp add: put_bytes_def get_bytes_def nat_codec.get_put)

definition put_pair :: "('a \<Rightarrow> bytes) \<Rightarrow> ('b \<Rightarrow> bytes) \<Rightarrow> 'a \<times> 'b \<Rightarrow> bytes" where
  "put_pair p q x = p (fst x) @ q (snd x)"

definition get_pair ::
    "(bytes \<Rightarrow> ('a \<times> bytes) option) \<Rightarrow> (bytes \<Rightarrow> ('b \<times> bytes) option) \<Rightarrow> bytes \<Rightarrow> (('a \<times> 'b) \<times> bytes) option" where
  "get_pair g h bs =
     (case g bs of
        None \<Rightarrow> None
      | Some (a, rest) \<Rightarrow> (case h rest of None \<Rightarrow> None | Some (b, rest) \<Rightarrow> Some ((a, b), rest)))"

lemma codec_pair: "codec p g \<Longrightarrow> codec q h \<Longrightarrow> codec (put_pair p q) (get_pair g h)"
  by (auto simp: codec_def put_pair_def get_pair_def)

fun get_times :: "(bytes \<Rightarrow> ('a \<times> bytes) option) \<Rightarrow> nat \<Rightarrow> bytes \<Rightarrow> ('a list \<times> bytes) option" where
  "get_times g 0 bs = Some ([], bs)"
| "get_times g (Suc n) bs =
     (case g bs of
        None \<Rightarrow> None
      | Some (a, rest) \<Rightarrow> map_option (\<lambda>(as, rest). (a # as, rest)) (get_times g n rest))"

definition put_list :: "('a \<Rightarrow> bytes) \<Rightarrow> 'a list \<Rightarrow> bytes" where
  "put_list p xs = put_nat (length xs) @ concat (map p xs)"

definition get_list :: "(bytes \<Rightarrow> ('a \<times> bytes) option) \<Rightarrow> bytes \<Rightarrow> ('a list \<times> bytes) option" where
  "get_list g bs = (case get_nat bs of None \<Rightarrow> None | Some (n, rest) \<Rightarrow> get_times g n rest)"

lemma codec_list:
  assumes "codec p g"
  shows "codec (put_list p) (get_list g)"
proof -
  have "get_times g (length xs) (concat (map p xs) @ rest) = Some (xs, rest)" for xs rest
    by (induction xs) (auto simp: codec.get_put [OF assms])
  then show ?thesis by (simp add: codec_def put_list_def get_list_def nat_codec.get_put)
qed

text \<open>A record is written as the nested pair of its fields.\<close>

definition put_via :: "('a \<Rightarrow> 'b) \<Rightarrow> ('b \<Rightarrow> bytes) \<Rightarrow> 'a \<Rightarrow> bytes" where
  "put_via f p x = p (f x)"

definition get_via :: "('b \<Rightarrow> 'a) \<Rightarrow> (bytes \<Rightarrow> ('b \<times> bytes) option) \<Rightarrow> bytes \<Rightarrow> ('a \<times> bytes) option" where
  "get_via f g bs = map_option (\<lambda>(b, rest). (f b, rest)) (g bs)"

lemma codec_via: "codec p g \<Longrightarrow> (\<And>x. f' (f x) = x) \<Longrightarrow> codec (put_via f p) (get_via f' g)"
  by (auto simp: codec_def put_via_def get_via_def)

lemmas codec_intros = codec_pair codec_list codec_via nat_codec.codec_axioms bytes_codec.codec_axioms


section \<open>Compact blocks\<close>

definition put_action :: "compact_orchard_action \<Rightarrow> bytes" where
  "put_action = put_via (\<lambda>a. (nullifier a, cmx a, oa_ephemeral_key a, oa_ciphertext a))
     (put_pair put_bytes (put_pair put_bytes (put_pair put_bytes put_bytes)))"

definition get_action :: "bytes \<Rightarrow> (compact_orchard_action \<times> bytes) option" where
  "get_action = get_via (\<lambda>(n, c, e, t).
       \<lparr>nullifier = n, cmx = c, oa_ephemeral_key = e, oa_ciphertext = t\<rparr>)
     (get_pair get_bytes (get_pair get_bytes (get_pair get_bytes get_bytes)))"

interpretation action_codec: codec put_action get_action
  unfolding put_action_def get_action_def by (intro codec_intros) simp

definition put_output :: "compact_sapling_output \<Rightarrow> bytes" where
  "put_output = put_via (\<lambda>out. (cmu out, so_ephemeral_key out, so_ciphertext out))
     (put_pair put_bytes (put_pair put_bytes put_bytes))"

definition get_output :: "bytes \<Rightarrow> (compact_sapling_output \<times> bytes) option" where
  "get_output = get_via (\<lambda>(c, e, t). \<lparr>cmu = c, so_ephemeral_key = e, so_ciphertext = t\<rparr>)
     (get_pair get_bytes (get_pair get_bytes get_bytes))"

interpretation output_codec: codec put_output get_output
  unfolding put_output_def get_output_def by (intro codec_intros) simp

definition put_spend :: "compact_sapling_spend \<Rightarrow> bytes" where
  "put_spend = put_via nf put_bytes"

definition get_spend :: "bytes \<Rightarrow> (compact_sapling_spend \<times> bytes) option" where
  "get_spend = get_via (\<lambda>n. \<lparr>nf = n\<rparr>) get_bytes"

interpretation spend_codec: codec put_spend get_spend
  unfolding put_spend_def get_spend_def by (intro codec_intros) simp

definition put_tx_in :: "compact_tx_in \<Rightarrow> bytes" where
  "put_tx_in = put_via (\<lambda>i. (prevout_txid i, prevout_index i)) (put_pair put_bytes put_nat)"

definition get_tx_in :: "bytes \<Rightarrow> (compact_tx_in \<times> bytes) option" where
  "get_tx_in = get_via (\<lambda>(t, i). \<lparr>prevout_txid = t, prevout_index = i\<rparr>) (get_pair get_bytes get_nat)"

interpretation tx_in_codec: codec put_tx_in get_tx_in
  unfolding put_tx_in_def get_tx_in_def by (intro codec_intros) simp

definition put_tx_out :: "tx_out \<Rightarrow> bytes" where
  "put_tx_out = put_via (\<lambda>t. (txo_value t, script_pub_key t)) (put_pair put_nat put_bytes)"

definition get_tx_out :: "bytes \<Rightarrow> (tx_out \<times> bytes) option" where
  "get_tx_out = get_via (\<lambda>(v, s). \<lparr>txo_value = v, script_pub_key = s\<rparr>) (get_pair get_nat get_bytes)"

interpretation tx_out_codec: codec put_tx_out get_tx_out
  unfolding put_tx_out_def get_tx_out_def by (intro codec_intros) simp

definition put_tx :: "compact_tx \<Rightarrow> bytes" where
  "put_tx = put_via (\<lambda>t. (tx_index t, txid t, fee t, spends t, outputs t, actions t, ironwood_actions t,
       vin t, vout t))
     (put_pair put_nat (put_pair put_bytes (put_pair put_nat (put_pair (put_list put_spend)
       (put_pair (put_list put_output) (put_pair (put_list put_action) (put_pair (put_list put_action)
       (put_pair (put_list put_tx_in) (put_list put_tx_out)))))))))"

definition get_tx :: "bytes \<Rightarrow> (compact_tx \<times> bytes) option" where
  "get_tx = get_via (\<lambda>(i, t, f, s, out, a, w, vi, vo).
       \<lparr>tx_index = i, txid = t, fee = f, spends = s, outputs = out, actions = a, ironwood_actions = w,
        vin = vi, vout = vo\<rparr>)
     (get_pair get_nat (get_pair get_bytes (get_pair get_nat (get_pair (get_list get_spend)
       (get_pair (get_list get_output) (get_pair (get_list get_action) (get_pair (get_list get_action)
       (get_pair (get_list get_tx_in) (get_list get_tx_out)))))))))"

interpretation tx_codec: codec put_tx get_tx
  unfolding put_tx_def get_tx_def
  by (intro codec_intros spend_codec.codec_axioms output_codec.codec_axioms action_codec.codec_axioms
      tx_in_codec.codec_axioms tx_out_codec.codec_axioms) simp

definition put_metadata :: "chain_metadata \<Rightarrow> bytes" where
  "put_metadata = put_via (\<lambda>m. (sapling_commitment_tree_size m, orchard_commitment_tree_size m,
       ironwood_commitment_tree_size m)) (put_pair put_nat (put_pair put_nat put_nat))"

definition get_metadata :: "bytes \<Rightarrow> (chain_metadata \<times> bytes) option" where
  "get_metadata = get_via (\<lambda>(s, a, w).
       \<lparr>sapling_commitment_tree_size = s, orchard_commitment_tree_size = a,
        ironwood_commitment_tree_size = w\<rparr>)
     (get_pair get_nat (get_pair get_nat get_nat))"

interpretation metadata_codec: codec put_metadata get_metadata
  unfolding put_metadata_def get_metadata_def by (intro codec_intros) simp

text \<open>An optional field is a list of at most one value.\<close>

definition put_block :: "compact_block \<Rightarrow> bytes" where
  "put_block = put_via (\<lambda>b. (cb_height b, cb_hash b, cb_prev_hash b, cb_time b, cb_header b, cb_vtx b,
       (case cb_chain_metadata b of None \<Rightarrow> [] | Some m \<Rightarrow> [m])))
     (put_pair put_nat (put_pair put_bytes (put_pair put_bytes (put_pair put_nat (put_pair put_bytes
       (put_pair (put_list put_tx) (put_list put_metadata)))))))"

definition get_cblock :: "bytes \<Rightarrow> (compact_block \<times> bytes) option" where
  "get_cblock = get_via (\<lambda>(h, hash, prev, t, hdr, txs, ms).
       \<lparr>cb_height = h, cb_hash = hash, cb_prev_hash = prev, cb_time = t, cb_header = hdr, cb_vtx = txs,
        cb_chain_metadata = (case ms of [] \<Rightarrow> None | m # _ \<Rightarrow> Some m)\<rparr>)
     (get_pair get_nat (get_pair get_bytes (get_pair get_bytes (get_pair get_nat (get_pair get_bytes
       (get_pair (get_list get_tx) (get_list get_metadata)))))))"

interpretation block_codec: codec put_block get_cblock
  unfolding put_block_def get_cblock_def
  by (intro codec_intros tx_codec.codec_axioms metadata_codec.codec_axioms) (simp split: option.splits)


section \<open>The instance\<close>

definition ref_decode :: "bytes \<Rightarrow> (decode_error, compact_block) result" where
  "ref_decode bs = (case get_cblock bs of Some (b, []) \<Rightarrow> Inr b | _ \<Rightarrow> Inl (DecodeError ''malformed''))"

definition ref_cache :: "((u64, bytes) otable, (string, bytes) otable) cache_ext" where
  "ref_cache =
     \<lparr>blocks_ops = ot_ops, meta_ops = ot_ops, block_encode = put_block, block_decode = ref_decode,
      stored_hash_decode = (\<lambda>bs. bindE (ref_decode bs) (\<lambda>b. Inr (cb_hash b)))\<rparr>"

lemma ref_decode_encode: "ref_decode (put_block b) = Inr b"
  using block_codec.get_put [of b "[]"] by (simp add: ref_decode_def)

interpretation rc: cache_contract ref_cache
  by (rule cache_contract.intro) (simp_all add: ref_cache_def ot.ordered_table_axioms ref_decode_encode)

text \<open>A database that holds the given blocks, and the empty one.\<close>

definition ref_empty :: "((u64, bytes) otable, (string, bytes) otable) db" where
  "ref_empty = \<lparr>db_blocks = ot_empty, db_meta = ot_empty\<rparr>"

definition ref_db :: "compact_block list \<Rightarrow> ((u64, bytes) otable, (string, bytes) otable) db" where
  "ref_db bs = \<lparr>db_blocks = fold (\<lambda>b t. ot_insert t (cb_height b) (put_block b)) bs ot_empty,
     db_meta = ot_empty\<rparr>"

lemma ref_empty_stores: "stores ref_cache (db_blocks ref_empty) []"
  by (simp add: stores_def ref_empty_def ref_cache_def ot_ops_def ot_empty.rep_eq)

lemma ref_db_stores:
  assumes "contiguous bs" and "\<forall>b \<in> set bs. cb_height b < u64_max"
  shows "stores ref_cache (db_blocks (ref_db bs)) bs"
  using assms
proof (induction bs rule: rev_induct)
  case Nil
  then show ?case using ref_empty_stores by (simp add: ref_db_def ref_empty_def)
next
  case (snoc b bs)
  then have "stores ref_cache (db_blocks (ref_db bs)) bs" by (simp add: contiguous_snoc)
  from rc.stores_insert [OF this, of b] snoc.prems show ?case
    by (simp add: contiguous_snoc ref_db_def ref_cache_def ot_ops_def)
qed

text \<open>A block of the given height, hash and predecessor, with no transactions.\<close>

definition ref_block :: "u64 \<Rightarrow> bytes \<Rightarrow> bytes \<Rightarrow> compact_block" where
  "ref_block h hash prev =
     \<lparr>cb_height = h, cb_hash = hash, cb_prev_hash = prev, cb_time = 0, cb_header = [], cb_vtx = [],
      cb_chain_metadata = None\<rparr>"

lemma ref_block_sel [simp]:
  "cb_height (ref_block h hash prev) = h" "cb_hash (ref_block h hash prev) = hash"
  "cb_prev_hash (ref_block h hash prev) = prev" "cb_vtx (ref_block h hash prev) = []"
  "cb_chain_metadata (ref_block h hash prev) = None"
  by (simp_all add: ref_block_def)

end
