(* ===== verification/Cache_Props.thy ===== *)
theory Cache_Props
  imports Cache_Laws Cache_Ref
begin

text \<open>
  The properties of the block cache, stated over every store and codec that meet the contract:
  appending refines list concatenation, truncation refines taking a prefix and drops exactly the
  snapshot metadata of the blocks it removes, chunked reads cover a stated part of the range within
  their budget, and the integrity check agrees with the localization of corruption.
\<close>

lemma epoch_index_less_iff:
  assumes "h \<le> u64_max"
  shows "i < epoch_index h \<longleftrightarrow> epoch_last_height i < h"
proof
  assume "epoch_last_height i < h"
  then have "(i + 1) * 10000 \<le> h"
    using assms
    by (auto simp: epoch_last_height_def epoch_first_height_def EPOCH_SIZE_def sat_mul64_def
        sat_add64_def min_def split: if_splits)
  then show "i < epoch_index h"
    by (simp add: epoch_index_def EPOCH_SIZE_def less_eq_div_iff_mult_less_eq Suc_le_eq [symmetric])
qed (simp add: epoch_last_below assms)

lemma tbl_get_meta_digest:
  "epoch_digest E no_faults d i = Inr (tbl_get (meta_ops E) (db_meta d) (epoch_digest_key i))"
  by (simp add: epoch_digest_def read_meta_def redb_try_def no_faults_def)

lemma snapshot_base_get:
  "snapshot_base_height E no_faults d =
     decode_base_height (tbl_get (meta_ops E) (db_meta d) SNAPSHOT_BASE_HEIGHT)"
  by (simp add: snapshot_base_height_def read_meta_def redb_try_def no_faults_def)

lemma remove_from_base_decodes:
  "remove_from E flt d h = Inr d' \<Longrightarrow>
     \<exists>base. decode_base_height (tbl_get (meta_ops E) (db_meta d) SNAPSHOT_BASE_HEIGHT) = Inr base"
  by (auto simp: remove_from_def Let_def result_simps)

lemma add_batch_meta: "add_batch E flt d new = Inr d' \<Longrightarrow> db_meta d' = db_meta d"
  by (auto simp: add_batch_def cache_append_def Let_def result_simps split: if_splits)


lemma base_no_digest: "epoch_digest_index SNAPSHOT_BASE_HEIGHT = None"
  by code_simp

lemma map_filter_Cons:
  "List.map_filter f (x # xs) = (case f x of None \<Rightarrow> [] | Some y \<Rightarrow> [y]) @ List.map_filter f xs"
  by (simp add: List.map_filter_def split: option.splits)

lemma digest_rows_bound:
  assumes "\<forall>e \<in> set rows. fst e = SNAPSHOT_BASE_HEIGHT \<or> (\<exists>i \<le> u64_max. fst e = epoch_digest_key i)"
    and "(i, v) \<in> set (List.map_filter
      (\<lambda>(key, value). map_option (\<lambda>index. (index, value)) (epoch_digest_index key)) rows)"
  shows "i \<le> u64_max"
proof -
  from assms(2) obtain key where key: "(key, v) \<in> set rows" "epoch_digest_index key = Some i"
    by (auto simp: List.map_filter_def)
  then obtain j where "j \<le> u64_max" "key = epoch_digest_key j"
    using assms(1) base_no_digest by fastforce
  then show ?thesis using key(2) epoch_digest_index_key by simp
qed

lemma digest_rows_mem:
  assumes "\<forall>e \<in> set rows. fst e = SNAPSHOT_BASE_HEIGHT \<or> (\<exists>i \<le> u64_max. fst e = epoch_digest_key i)"
    and "i \<le> u64_max"
  shows "(i, v) \<in> set (List.map_filter
      (\<lambda>(key, value). map_option (\<lambda>index. (index, value)) (epoch_digest_index key)) rows) \<longleftrightarrow>
    (epoch_digest_key i, v) \<in> set rows"
  using assms(1)
proof (induction rows)
  case (Cons e rows)
  obtain k w where e: "e = (k, w)" by (cases e)
  consider "k = SNAPSHOT_BASE_HEIGHT" | j where "j \<le> u64_max" "k = epoch_digest_key j"
    using Cons.prems e by auto
  then show ?case
  proof cases
    case 1
    then show ?thesis
      using Cons e epoch_digest_key_not_base [of i] by (auto simp: map_filter_Cons base_no_digest)
  next
    case 2
    then have "epoch_digest_key i = k \<longleftrightarrow> i = j"
      using assms(2) epoch_digest_index_key by (metis option.inject)
    then show ?thesis
      using Cons e 2 epoch_digest_index_key [OF 2(1)] by (auto simp: map_filter_Cons)
  qed
qed (simp add: List.map_filter_def)

lemma digest_rows_sorted:
  assumes "sorted_wrt (<) (map fst rows)"
    and "\<forall>e \<in> set rows. fst e = SNAPSHOT_BASE_HEIGHT \<or> (\<exists>i \<le> u64_max. fst e = epoch_digest_key i)"
  shows "sorted_wrt (<) (map fst (List.map_filter
      (\<lambda>(key, value). map_option (\<lambda>index. (index, value)) (epoch_digest_index key)) rows))"
  using assms
proof (induction rows)
  case (Cons e rows)
  obtain k w where e: "e = (k, w)" by (cases e)
  let ?ds = "List.map_filter
      (\<lambda>(key, value). map_option (\<lambda>index. (index, value)) (epoch_digest_index key)) rows"
  have IH: "sorted_wrt (<) (map fst ?ds)" using Cons by simp
  consider "k = SNAPSHOT_BASE_HEIGHT" | j where "j \<le> u64_max" "k = epoch_digest_key j"
    using Cons.prems e by auto
  then show ?case
  proof cases
    case 1
    then show ?thesis using IH e by (simp add: map_filter_Cons base_no_digest)
  next
    case 2
    have "j < i" if iv: "(i, v) \<in> set ?ds" for i v
    proof -
      from iv obtain key where key: "(key, v) \<in> set rows" "epoch_digest_index key = Some i"
        by (auto simp: List.map_filter_def)
      then obtain i' where i': "i' \<le> u64_max" "key = epoch_digest_key i'"
        using Cons.prems(2) base_no_digest by fastforce
      then have "i' = i" using key(2) epoch_digest_index_key by simp
      moreover have "k < key" using Cons.prems(1) e key(1) by auto
      ultimately show ?thesis using 2 i' epoch_digest_key_less by simp
    qed
    then show ?thesis
      using IH e epoch_digest_index_key [OF 2(1)] 2 by (auto simp: map_filter_Cons)
  qed
qed (simp add: List.map_filter_def)


section \<open>Properties\<close>

text \<open>
  C6: appending a batch refines list concatenation. On a healthy cache that holds the blocks \<^term>\<open>bs\<close>,
  a fault-free append of \<^term>\<open>new\<close> succeeds exactly when the batch has consecutive heights and
  continues the tip, and whenever an append succeeds, under any plan of store failures, the cache
  then holds exactly \<^term>\<open>bs @ new\<close> and the metadata is untouched.
\<close>

theorem add_batch_refines:
  assumes "cache_contract E" and "stores E (db_blocks d) bs"
    and "\<forall>b \<in> set new. cb_height b < u64_max"
  shows "(is_ok (add_batch E no_faults d new) \<longleftrightarrow> contiguous (bs @ new)) \<and>
    (\<forall>flt d'. add_batch E flt d new = Inr d' \<longrightarrow>
       stores E (db_blocks d') (bs @ new) \<and> db_meta d' = db_meta d)"
proof -
  have result: "stores E (db_blocks d') (bs @ new) \<and> db_meta d' = db_meta d"
    if "add_batch E flt d new = Inr d'" for flt d'
    using cache_contract.append_stores [OF assms(1) that [unfolded add_batch_def] assms(2)] assms(3)
      add_batch_meta [OF that] by (auto simp: inj_map_eq_map [of Inr] inj_on_def)
  moreover have "is_ok (add_batch E no_faults d new)" if "contiguous (bs @ new)"
    using cache_contract.add_batch_accepts [OF assms(1,2) _ assms(3)] that
    by (auto simp: contiguous_append)
  moreover have "contiguous (bs @ new)" if "add_batch E no_faults d new = Inr d'" for d'
    using result [OF that] by (simp add: stores_def)
  ultimately show ?thesis by (auto simp: is_ok_def split: sum.splits)
qed

theorem add_batch_refines_witness:
  "(is_ok (add_batch ref_cache no_faults (ref_db [ref_block 7 [1] [0]]) [ref_block 8 [2] [1]]) \<longleftrightarrow> True) \<and>
   \<not> is_ok (add_batch ref_cache no_faults (ref_db [ref_block 7 [1] [0]]) [ref_block 9 [2] [1]])"
  using add_batch_refines [OF rc.cache_contract_axioms ref_db_stores,
      of "[ref_block 7 [1] [0]]" "[ref_block 8 [2] [1]]"]
    add_batch_refines [OF rc.cache_contract_axioms ref_db_stores,
      of "[ref_block 7 [1] [0]]" "[ref_block 9 [2] [1]]"]
  by (simp add: u64_max_def)

text \<open>
  C7: truncation refines taking a prefix. A successful \<^const>\<open>remove_from\<close> at height \<^term>\<open>h\<close> leaves
  exactly the blocks below \<^term>\<open>h\<close>; of the epoch digests exactly those of the epochs that end below
  \<^term>\<open>h\<close> stay, unchanged, and the snapshot base height is kept exactly when it is below \<^term>\<open>h\<close>.
\<close>

theorem remove_from_refines:
  assumes "cache_contract E" and "stores E (db_blocks d) bs" and "h \<le> u64_max"
    and "remove_from E flt d h = Inr d'"
  shows "stores E (db_blocks d') (takeWhile (\<lambda>b. cb_height b < h) bs) \<and>
    (\<forall>i. i \<le> u64_max \<longrightarrow> epoch_digest E no_faults d' i =
       (if epoch_last_height i < h then epoch_digest E no_faults d i else Inr None)) \<and>
    (\<exists>base. snapshot_base_height E no_faults d = Inr base \<and>
       snapshot_base_height E no_faults d' =
         Inr (case base of None \<Rightarrow> None | Some b \<Rightarrow> if b < h then Some b else None))"
proof (intro conjI allI impI)
  show "stores E (db_blocks d') (takeWhile (\<lambda>b. cb_height b < h) bs)"
    by (rule cache_contract.remove_from_stores [OF assms(1,4,2)])
  from remove_from_base_decodes [OF assms(4)] obtain base where
    base: "decode_base_height (tbl_get (meta_ops E) (db_meta d) SNAPSHOT_BASE_HEIGHT) = Inr base" by blast
  note meta = cache_contract.remove_from_meta [OF assms(1,4) base]
  show "epoch_digest E no_faults d' i =
      (if epoch_last_height i < h then epoch_digest E no_faults d i else Inr None)" if "i \<le> u64_max" for i
    using meta [of "epoch_digest_key i"] epoch_digest_index_key [OF that] epoch_digest_key_not_base [of i]
      epoch_index_less_iff [OF assms(3), of i]
    by (simp add: tbl_get_meta_digest)
  show "\<exists>base. snapshot_base_height E no_faults d = Inr base \<and>
       snapshot_base_height E no_faults d' =
         Inr (case base of None \<Rightarrow> None | Some b \<Rightarrow> if b < h then Some b else None)"
    using base meta [of SNAPSHOT_BASE_HEIGHT]
    by (auto simp: snapshot_base_get decode_base_height_def split: option.splits if_splits)
qed

theorem remove_from_refines_witness:
  "\<exists>d'. remove_from ref_cache no_faults (ref_db [ref_block 7 [1] [0], ref_block 8 [2] [1]]) 8 = Inr d' \<and>
     stores ref_cache (db_blocks d') [ref_block 7 [1] [0]]"
proof -
  define d where "d = ref_db [ref_block 7 [1] [0], ref_block 8 [2] [1]]"
  have d: "stores ref_cache (db_blocks d) [ref_block 7 [1] [0], ref_block 8 [2] [1]]"
    unfolding d_def by (rule ref_db_stores) (simp_all add: u64_max_def)
  have "db_meta d = ot_empty" by (simp add: d_def ref_db_def)
  then have "is_ok (remove_from ref_cache no_faults d 8)"
    by (simp add: remove_from_def redb_try_def no_faults_def Let_def decode_base_height_def ref_cache_def
        ot_ops_def ot_empty.rep_eq)
  then obtain d' where ok: "remove_from ref_cache no_faults d 8 = Inr d'"
    by (auto simp: is_ok_def split: sum.splits)
  from remove_from_refines [OF rc.cache_contract_axioms d _ ok] show ?thesis
    using ok by (auto simp: u64_max_def d_def)
qed

text \<open>
  C11: a chunked read tells the truth about what it covers. Whatever the budget and the direction,
  the covered interval lies in the requested one and starts at the end the read starts from, the
  returned blocks are exactly the stored entries of the covered interval in the read's order, they
  exceed the byte budget only when a single block does, and an empty chunk means that the whole
  requested interval is empty (so a reader that asks again for the rest always progresses).
\<close>

theorem read_chunk_sound:
  assumes "cache_contract E" and "low \<le> high" and "high \<le> u64_max"
    and "read_chunk E flt d low high descending max_bytes = Inr c"
  shows "low \<le> fst (covered c) \<and> fst (covered c) \<le> snd (covered c) \<and> snd (covered c) \<le> high \<and>
    (if descending then snd (covered c) = high else fst (covered c) = low) \<and>
    chunk_blocks c =
      (let es = tbl_range (blocks_ops E) (db_blocks d) (fst (covered c)) (snd (covered c)) in
       if descending then rev es else es) \<and>
    (chunk_bytes (chunk_blocks c) \<le> max_bytes \<or> length (chunk_blocks c) \<le> 1) \<and>
    (chunk_blocks c = [] \<longrightarrow> covered c = (low, high))"
  by (rule cache_contract.read_chunk_covers [OF assms(1,4,2,3)])

lemma ref_db_two_entries:
  "entries_of (db_blocks (ref_db [ref_block 7 [1] [0], ref_block 8 [2] [1]])) =
     [(7, put_block (ref_block 7 [1] [0])), (8, put_block (ref_block 8 [2] [1]))]"
  by (simp add: ref_db_def ot_insert.rep_eq ot_empty.rep_eq alist_insert_def)

theorem read_chunk_sound_witness:
  "\<exists>c. read_chunk ref_cache no_faults (ref_db [ref_block 7 [1] [0], ref_block 8 [2] [1]]) 5 9 True 1 =
     Inr c \<and> covered c = (8, 9) \<and> length (chunk_blocks c) = 1 \<and> fst (covered c) \<le> snd (covered c)"
proof -
  define d where "d = ref_db [ref_block 7 [1] [0], ref_block 8 [2] [1]]"
  have es: "tbl_range (blocks_ops ref_cache) (db_blocks d) 5 9 =
      [(7, put_block (ref_block 7 [1] [0])), (8, put_block (ref_block 8 [2] [1]))]"
    by (simp add: d_def ref_db_two_entries ref_cache_def ot_ops_def)
  have "length (put_block (ref_block 7 [1] [0])) = 9" "length (put_block (ref_block 8 [2] [1])) = 9"
    by code_simp+
  then obtain c where c: "read_chunk ref_cache no_faults d 5 9 True 1 = Inr c"
    and "covered c = (8, 9)" "length (chunk_blocks c) = 1"
    using es by (auto simp: read_chunk_def Let_def read_blocks_def redb_try_def no_faults_def sat_add64_def
        u64_max_def)
  with read_chunk_sound [OF rc.cache_contract_axioms _ _ c] show ?thesis
    by (auto simp: d_def u64_max_def)
qed

text \<open>
  The open-time check and the localization agree. On a store whose calls do not fail and whose
  keys are below the largest u64 (whatever bytes the entries hold), the scan for the lowest corrupt
  height reports nothing exactly when the check passes, and the check passes exactly when the cache is
  empty or its heights have no gap and the tip decodes to a block of the tip's height.
\<close>

theorem integrity_check_agrees:
  assumes "cache_contract E" and "\<forall>e \<in> set (tbl_iter (blocks_ops E) (db_blocks d)). fst e < u64_max"
  shows "(lowest_corrupt_height E no_faults d = Inr None \<longleftrightarrow> validate_light E no_faults d = Inr ()) \<and>
    (validate_light E no_faults d = Inr () \<longleftrightarrow>
       (let es = tbl_iter (blocks_ops E) (db_blocks d) in
        es = [] \<or> map fst es = [fst (hd es)..<Suc (fst (last es))] \<and>
          good_at E (db_blocks d) (fst (last es))))"
  using cache_contract.lowest_corrupt_none_iff [OF assms] cache_contract.validate_light_ok_iff [OF assms]
  by blast

theorem integrity_check_agrees_witness:
  "validate_light ref_cache no_faults (ref_db [ref_block 7 [1] [0], ref_block 8 [2] [1]]) = Inr () \<and>
   lowest_corrupt_height ref_cache no_faults (ref_db [ref_block 7 [1] [0], ref_block 8 [2] [1]]) = Inr None"
proof -
  define d where "d = ref_db [ref_block 7 [1] [0], ref_block 8 [2] [1]]"
  have es: "tbl_iter (blocks_ops ref_cache) (db_blocks d) =
      [(7, put_block (ref_block 7 [1] [0])), (8, put_block (ref_block 8 [2] [1]))]"
    by (simp add: d_def ref_db_two_entries ref_cache_def ot_ops_def)
  have "tbl_get (blocks_ops ref_cache) (db_blocks d) 8 = Some (put_block (ref_block 8 [2] [1]))"
    by (simp add: rc.blk.get_iter es)
  then have "good_at ref_cache (db_blocks d) 8"
    by (simp add: good_at_def ref_cache_def ref_decode_encode)
  moreover have "[7..<Suc 8] = [7, 8 :: nat]" by (simp add: upt_rec)
  ultimately show ?thesis
    using integrity_check_agrees [OF rc.cache_contract_axioms, of d] es
    by (simp add: d_def u64_max_def)
qed

lemma digest_rows_fold:
  "foldE (\<lambda>(k, key, value) rows.
       bindE (redb_try no_faults (TableNext k)) (\<lambda>_.
         Inr (case epoch_digest_index key of None \<Rightarrow> rows | Some index \<Rightarrow> rows @ [(index, value)])))
     (enumerate n es) acc =
   Inr (acc @ List.map_filter (\<lambda>(key, value). map_option (\<lambda>index. (index, value)) (epoch_digest_index key)) es)"
  by (induction es arbitrary: n acc)
    (auto simp: redb_try_def no_faults_def List.map_filter_def split: option.splits)

text \<open>
  The digest listing. Over a META table that holds nothing but the snapshot base and digest rows,
  \<^const>\<open>epoch_digests\<close> returns every stored digest exactly once, in ascending epoch order: the
  fixed-width decimal keys sort as the numbers do.
\<close>

theorem epoch_digests_listing:
  assumes "cache_contract E"
    and "\<forall>e \<in> set (tbl_iter (meta_ops E) (db_meta d)).
           fst e = SNAPSHOT_BASE_HEIGHT \<or> (\<exists>i \<le> u64_max. fst e = epoch_digest_key i)"
  shows "\<exists>ds. epoch_digests E no_faults d = Inr ds \<and> sorted_wrt (<) (map fst ds) \<and> (\<forall>e \<in> set ds. fst e \<le> u64_max) \<and>
    (\<forall>i v. i \<le> u64_max \<longrightarrow> ((i, v) \<in> set ds \<longleftrightarrow> epoch_digest E no_faults d i = Inr (Some v)))"
proof -
  define rows where "rows = tbl_iter (meta_ops E) (db_meta d)"
  define ds where "ds = List.map_filter
      (\<lambda>(key, value). map_option (\<lambda>index. (index, value)) (epoch_digest_index key)) rows"
  have mta: "ordered_table (meta_ops E)" using assms(1) by (simp add: cache_contract_def)
  have rows: "\<forall>e \<in> set rows. fst e = SNAPSHOT_BASE_HEIGHT \<or> (\<exists>i \<le> u64_max. fst e = epoch_digest_key i)"
    using assms(2) by (simp add: rows_def)
  have "sorted_wrt (<) (map fst rows)"
    unfolding rows_def by (rule ordered_table.iter_sorted [OF mta])
  then have "sorted_wrt (<) (map fst ds)"
    unfolding ds_def using rows by (rule digest_rows_sorted)
  moreover have "epoch_digests E no_faults d = Inr ds"
    using digest_rows_fold [of 0 "tbl_iter (meta_ops E) (db_meta d)" "[]"]
    by (simp add: epoch_digests_def read_meta_def redb_try_def no_faults_def ds_def rows_def)
  moreover have "\<forall>e \<in> set ds. fst e \<le> u64_max"
    using digest_rows_bound [OF rows] unfolding ds_def by (metis prod.collapse)
  moreover have "(i, v) \<in> set ds \<longleftrightarrow> (epoch_digest_key i, v) \<in> set rows" if "i \<le> u64_max" for i v
    unfolding ds_def by (rule digest_rows_mem [OF rows that])
  moreover have "(epoch_digest_key i, v) \<in> set rows \<longleftrightarrow> epoch_digest E no_faults d i = Inr (Some v)" for i v
    using ordered_table.iter_distinct [OF mta, of "db_meta d"]
    by (simp add: tbl_get_meta_digest ordered_table.get_iter [OF mta] rows_def)
  ultimately show ?thesis by blast
qed

theorem epoch_digests_listing_witness:
  "\<exists>ds. epoch_digests ref_cache no_faults (ref_empty\<lparr>db_meta := ot_insert ot_empty (epoch_digest_key 3) [1]\<rparr>)
     = Inr ds \<and> (3, [1]) \<in> set ds"
proof -
  define d where "d = ref_empty\<lparr>db_meta := ot_insert ot_empty (epoch_digest_key 3) [1]\<rparr>"
  have rows: "tbl_iter (meta_ops ref_cache) (db_meta d) = [(epoch_digest_key 3, [1])]"
    by (simp add: d_def ref_cache_def ot_ops_def ot_insert.rep_eq ot_empty.rep_eq alist_insert_def)
  then have "\<forall>e \<in> set (tbl_iter (meta_ops ref_cache) (db_meta d)).
      fst e = SNAPSHOT_BASE_HEIGHT \<or> (\<exists>i \<le> u64_max. fst e = epoch_digest_key i)"
    by (auto simp: u64_max_def intro: exI [of _ 3])
  from epoch_digests_listing [OF rc.cache_contract_axioms this] obtain ds where
    "epoch_digests ref_cache no_faults d = Inr ds"
    "(3, [1]) \<in> set ds \<longleftrightarrow> epoch_digest ref_cache no_faults d 3 = Inr (Some [1])"
    by (auto simp: u64_max_def)
  moreover have "epoch_digest ref_cache no_faults d 3 = Inr (Some [1])"
    by (simp add: tbl_get_meta_digest rc.mta.get_iter rows)
  ultimately show ?thesis by (simp add: d_def)
qed

end
