(* ===== verification/Compact.thy ===== *)
theory Compact
  imports Encoding Compact_Formats
begin

text \<open>
  src/compact.rs: parsing a raw Zcash block into its compact form.

  The parser reads the fixed header by hand and delegates the rest to third-party code, which is
  the record \<^verbatim>\<open>parse_ext\<close>: SHA-256 (sha2), the CompactSize reader (zcash_encoding) and the
  transaction reader (zcash_primitives). A reader takes the bytes from the cursor on and returns the
  value read with the number of bytes consumed; the cursor of the sources is a position in the
  buffer. A transaction is the record of what its accessors return.
\<close>

section \<open>What the third-party readers return\<close>

record sapling_spend =
  spend_nullifier :: bytes

record sapling_output =
  output_cmu :: bytes
  output_ephemeral_key :: bytes
  output_enc_ciphertext :: bytes

record orchard_action =
  action_nullifier :: bytes
  action_cmx :: bytes
  note_epk_bytes :: bytes
  note_enc_ciphertext :: bytes

record transparent_in =
  in_prevout_hash :: bytes
  in_prevout_n :: u32
  in_script_sig :: bytes

record transparent_out =
  out_value :: u64
  out_script_pubkey :: bytes

record transaction =
  tx_txid :: bytes
  transparent_bundle :: "(transparent_in list \<times> transparent_out list) option"
  sapling_bundle :: "(sapling_spend list \<times> sapling_output list) option"
  orchard_bundle :: "orchard_action list option"
  ironwood_bundle :: "orchard_action list option"

text \<open>std::io::Error, of which the sources only keep that it happened.\<close>

datatype io_error = IoError string

record parse_ext = hex_ext +
  sha256 :: "bytes \<Rightarrow> bytes"
  compact_size_read :: "bytes \<Rightarrow> (io_error, nat \<times> nat) result"
  transaction_read :: "bytes \<Rightarrow> (io_error, transaction \<times> nat) result"


section \<open>Errors and constants\<close>

datatype parse_error =
    Truncated
  | Io io_error
  | NoHeight
  | TrailingData

definition HEADER_PREFIX_LEN :: usize where
  "HEADER_PREFIX_LEN = 140"

definition COMPACT_CIPHERTEXT_LEN :: usize where
  "COMPACT_CIPHERTEXT_LEN = 52"

definition OP_0 :: u8 where "OP_0 = 0x00"
definition OP_1 :: u8 where "OP_1 = 0x51"
definition OP_16 :: u8 where "OP_16 = 0x60"

definition GENESIS_TARGET_DIFFICULTY :: u64 where
  "GENESIS_TARGET_DIFFICULTY = 520617983"


section \<open>Heights and compact transactions\<close>

definition sha256d :: "'x parse_ext_scheme \<Rightarrow> bytes \<Rightarrow> bytes" where
  "sha256d X data = sha256 X (sha256 X data)"

text \<open>
  The BIP34 height push of a script: an empty push, a small-integer opcode, or the length of the
  little-endian push that follows. A push shorter than eight bytes is zero-extended.
\<close>

definition script_height :: "bytes \<Rightarrow> (parse_error, u64) result" where
  "script_height script =
     (case script of
        [] \<Rightarrow> Inl NoHeight
      | first # rest \<Rightarrow>
          bindE
            (if first = OP_0 then Inr 0
             else if OP_1 \<le> first \<and> first \<le> OP_16 then Inr (unat (first - (OP_1 - 1)))
             else
               (let n = unat first in
                if n > 8 \<or> length script < 1 + n then Inl NoHeight
                else Inr (of_le_bytes (take n rest @ replicate (8 - n) 0))))
            (\<lambda>height. Inr (if height = GENESIS_TARGET_DIFFICULTY then 0 else height)))"

definition coinbase_height :: "transaction \<Rightarrow> (parse_error, u64) result" where
  "coinbase_height tx =
     bindE (ok_or NoHeight (transparent_bundle tx)) (\<lambda>bundle.
     bindE (ok_or NoHeight (case fst bundle of [] \<Rightarrow> None | i # _ \<Rightarrow> Some i)) (\<lambda>input.
       script_height (in_script_sig input)))"

definition compact_spend :: "sapling_spend \<Rightarrow> compact_sapling_spend" where
  "compact_spend spend = \<lparr>nf = spend_nullifier spend\<rparr>"

definition compact_output :: "sapling_output \<Rightarrow> compact_sapling_output" where
  "compact_output output =
     \<lparr>cmu = output_cmu output,
      so_ephemeral_key = output_ephemeral_key output,
      so_ciphertext = take COMPACT_CIPHERTEXT_LEN (output_enc_ciphertext output)\<rparr>"

definition compact_action :: "orchard_action \<Rightarrow> compact_orchard_action" where
  "compact_action action =
     \<lparr>nullifier = action_nullifier action,
      cmx = action_cmx action,
      oa_ephemeral_key = note_epk_bytes action,
      oa_ciphertext = take COMPACT_CIPHERTEXT_LEN (note_enc_ciphertext action)\<rparr>"

definition to_compact_tx :: "u64 \<Rightarrow> transaction \<Rightarrow> bool \<Rightarrow> compact_tx" where
  "to_compact_tx index tx is_coinbase =
     \<lparr>tx_index = index,
      txid = tx_txid tx,
      fee = 0,
      spends = (case sapling_bundle tx of None \<Rightarrow> [] | Some (ss, _) \<Rightarrow> map compact_spend ss),
      outputs = (case sapling_bundle tx of None \<Rightarrow> [] | Some (_, os) \<Rightarrow> map compact_output os),
      actions = (case orchard_bundle tx of None \<Rightarrow> [] | Some as \<Rightarrow> map compact_action as),
      ironwood_actions = (case ironwood_bundle tx of None \<Rightarrow> [] | Some as \<Rightarrow> map compact_action as),
      vin =
        (case transparent_bundle tx of
           None \<Rightarrow> []
         | Some (ins, _) \<Rightarrow>
             if is_coinbase then []
             else map (\<lambda>i. \<lparr>prevout_txid = in_prevout_hash i, prevout_index = in_prevout_n i\<rparr>) ins),
      vout =
        (case transparent_bundle tx of
           None \<Rightarrow> []
         | Some (_, outs) \<Rightarrow>
             map (\<lambda>out. \<lparr>txo_value = out_value out, script_pub_key = out_script_pubkey out\<rparr>) outs)\<rparr>"


section \<open>Blocks\<close>

text \<open>
  The end of the header: the fixed prefix, the length prefix of the equihash solution, and the
  solution.
\<close>

definition header_end :: "'x parse_ext_scheme \<Rightarrow> bytes \<Rightarrow> (parse_error, usize) result" where
  "header_end X raw =
     bindE (failIf (length raw < HEADER_PREFIX_LEN) Truncated) (\<lambda>_.
     bindE (map_err Io (compact_size_read X (drop HEADER_PREFIX_LEN raw))) (\<lambda>(solution_len, position).
       let end = HEADER_PREFIX_LEN + position + solution_len in
       bindE (failIf (length raw < end) Truncated) (\<lambda>_. Inr end)))"

text \<open>
  The transaction loop of to_compact_block: \<^verbatim>\<open>body\<close> is the buffer after the header, the cursor is
  a position in it, and the height is taken from the transaction at index 0.
\<close>

primrec compact_txs ::
    "'x parse_ext_scheme \<Rightarrow> bytes \<Rightarrow> nat \<Rightarrow> nat \<Rightarrow> usize \<Rightarrow> u64 option \<Rightarrow> compact_tx list
      \<Rightarrow> (parse_error, u64 option \<times> compact_tx list \<times> usize) result" where
  "compact_txs X body 0 index pos height vtx = Inr (height, vtx, pos)"
| "compact_txs X body (Suc n) index pos height vtx =
     bindE (map_err Io (transaction_read X (drop pos body))) (\<lambda>(tx, len).
     bindE (if index = 0 then bindE (coinbase_height tx) (\<lambda>h. Inr (Some h)) else Inr height)
       (\<lambda>height'.
         compact_txs X body n (Suc index) (pos + len) height'
           (vtx @ [to_compact_tx index tx (index = 0)])))"

definition to_compact_block ::
    "'x parse_ext_scheme \<Rightarrow> bytes \<Rightarrow> (parse_error, compact_block) result" where
  "to_compact_block X raw =
     bindE (header_end X raw) (\<lambda>end.
       let prev_hash = take 32 (drop 4 raw);
           time = of_le_bytes (take 4 (drop 100 raw));
           hash = sha256d X (take end raw);
           body = drop end raw in
       bindE (map_err Io (compact_size_read X body)) (\<lambda>(tx_count, position).
       bindE (compact_txs X body tx_count 0 position None []) (\<lambda>(height, vtx, pos).
       bindE (failIf (end + pos \<noteq> length raw) TrailingData) (\<lambda>_.
       bindE (ok_or NoHeight height) (\<lambda>height.
         Inr \<lparr>cb_height = height,
              cb_hash = hash,
              cb_prev_hash = prev_hash,
              cb_time = time,
              cb_header = [],
              cb_vtx = vtx,
              cb_chain_metadata =
                Some \<lparr>sapling_commitment_tree_size = 0, orchard_commitment_tree_size = 0,
                      ironwood_commitment_tree_size = 0\<rparr>\<rparr>)))))"

definition compact_tx_from_raw ::
    "'x parse_ext_scheme \<Rightarrow> u64 \<Rightarrow> bytes \<Rightarrow> (parse_error, compact_tx) result" where
  "compact_tx_from_raw X index raw =
     bindE (map_err Io (transaction_read X raw)) (\<lambda>(tx, _). Inr (to_compact_tx index tx False))"

text \<open>The transaction loop of split_block, which keeps each transaction's bytes.\<close>

primrec split_txs ::
    "'x parse_ext_scheme \<Rightarrow> bytes \<Rightarrow> nat \<Rightarrow> usize \<Rightarrow> bytes list
      \<Rightarrow> (parse_error, bytes list \<times> usize) result" where
  "split_txs X body 0 pos txs = Inr (txs, pos)"
| "split_txs X body (Suc n) pos txs =
     bindE (map_err Io (transaction_read X (drop pos body))) (\<lambda>(_, len).
       split_txs X body n (pos + len) (txs @ [take len (drop pos body)]))"

text \<open>split\_block finds the end of the header with lines of its own.\<close>

definition split_header_end :: "'x parse_ext_scheme \<Rightarrow> bytes \<Rightarrow> (parse_error, usize) result" where
  "split_header_end X raw =
     bindE (failIf (length raw < HEADER_PREFIX_LEN) Truncated) (\<lambda>_.
     bindE (map_err Io (compact_size_read X (drop HEADER_PREFIX_LEN raw))) (\<lambda>(solution_len, position).
       let end = HEADER_PREFIX_LEN + position + solution_len in
       bindE (failIf (length raw < end) Truncated) (\<lambda>_. Inr end)))"

definition split_block ::
    "'x parse_ext_scheme \<Rightarrow> bytes \<Rightarrow> (parse_error, bytes \<times> bytes list) result" where
  "split_block X raw =
     bindE (split_header_end X raw) (\<lambda>end.
       let body = drop end raw in
       bindE (map_err Io (compact_size_read X body)) (\<lambda>(tx_count, position).
       bindE (split_txs X body tx_count position []) (\<lambda>(txs, pos).
       bindE (failIf (end + pos \<noteq> length raw) TrailingData) (\<lambda>_.
         Inr (take end raw, txs)))))"

text \<open>The bytes write_compact_size appends to its buffer.\<close>

definition compact_size_bytes :: "u64 \<Rightarrow> bytes" where
  "compact_size_bytes value =
     (if value < 253 then [of_nat value]
      else if value \<le> 65535 then 253 # le_bytes 2 value
      else if value \<le> u32_max then 254 # le_bytes 4 value
      else 255 # le_bytes 8 value)"

definition write_compact_size :: "bytes \<Rightarrow> u64 \<Rightarrow> bytes" where
  "write_compact_size buf value = buf @ compact_size_bytes value"

definition coinbase_height_from_raw ::
    "'x parse_ext_scheme \<Rightarrow> bytes \<Rightarrow> (parse_error, u64) result" where
  "coinbase_height_from_raw X raw_tx =
     bindE (map_err Io (transaction_read X raw_tx)) (\<lambda>(tx, _). coinbase_height tx)"

definition bundle_len :: "'a list option \<Rightarrow> u32" where
  "bundle_len b = (case b of None \<Rightarrow> 0 | Some xs \<Rightarrow> length xs mod 4294967296)"

definition shielded_counts ::
    "'x parse_ext_scheme \<Rightarrow> bytes \<Rightarrow> (parse_error, u32 \<times> u32 \<times> u32) result" where
  "shielded_counts X raw_tx =
     bindE (map_err Io (transaction_read X raw_tx)) (\<lambda>(tx, _).
       Inr (bundle_len (map_option snd (sapling_bundle tx)),
            bundle_len (orchard_bundle tx),
            bundle_len (ironwood_bundle tx)))"

definition txid_display :: "'x parse_ext_scheme \<Rightarrow> bytes \<Rightarrow> (parse_error, string) result" where
  "txid_display X raw_tx =
     bindE (map_err Io (transaction_read X raw_tx)) (\<lambda>(tx, _).
       Inr (wire_to_display_hex X (tx_txid tx)))"


section \<open>The contract of the third-party readers\<close>

text \<open>
  What the parser relies on. SHA-256 gives 32 bytes. The CompactSize reader accepts exactly the
  canonical encodings of values up to its documented maximum. The transaction reader consumes at
  least four bytes (a version field), never past the end of the buffer, and what it returns depends
  on the consumed bytes only.
\<close>

definition MAX_COMPACT_SIZE :: nat where
  "MAX_COMPACT_SIZE = 33554432"

locale parse_contract = hex_contract X
  for X :: "'x parse_ext_scheme" +
  assumes sha256_length: "length (sha256 X bs) = 32"
    and compact_size_read_exact:
      "compact_size_read X bs = Inr (v, n) \<Longrightarrow>
         v \<le> MAX_COMPACT_SIZE \<and> n = length (compact_size_bytes v) \<and>
         n \<le> length bs \<and> take n bs = compact_size_bytes v"
    and compact_size_read_bytes:
      "v \<le> MAX_COMPACT_SIZE \<Longrightarrow>
         compact_size_read X (compact_size_bytes v @ rest) = Inr (v, length (compact_size_bytes v))"
    and transaction_read_consumes:
      "transaction_read X bs = Inr (tx, n) \<Longrightarrow> 4 \<le> n \<and> n \<le> length bs"
    and transaction_read_prefix:
      "transaction_read X bs = Inr (tx, n) \<Longrightarrow> transaction_read X (take n bs @ rest) = Inr (tx, n)"
begin

lemma sha256d_length: "length (sha256d X data) = 32"
  by (simp add: sha256d_def sha256_length)

lemma transaction_read_take:
  "transaction_read X bs = Inr (tx, n) \<Longrightarrow> transaction_read X (take n bs) = Inr (tx, n)"
  using transaction_read_prefix [of bs tx n "[]"] by simp

lemma split_header_end_eq [simp]: "split_header_end X raw = header_end X raw"
  by (simp add: header_end_def split_header_end_def)

lemma header_end_bounds:
  "header_end X raw = Inr e \<Longrightarrow> HEADER_PREFIX_LEN \<le> e \<and> e \<le> length raw"
  by (auto simp: header_end_def Let_def result_simps)

text \<open>The loop's slices are exactly the bytes it consumed, and each re-reads to its transaction.\<close>

lemma split_txs_append:
  assumes "split_txs X body n pos txs = Inr (txs', pos')" and "pos \<le> length body"
  shows "\<exists>new. txs' = txs @ new \<and> length new = n \<and> pos' \<le> length body \<and>
    pos \<le> pos' \<and> take (pos' - pos) (drop pos body) = concat new \<and>
    (\<forall>t \<in> set new. \<exists>tx. transaction_read X t = Inr (tx, length t))"
  using assms
proof (induction n arbitrary: pos txs)
  case (Suc n)
  from Suc.prems(1) obtain tx len where read: "transaction_read X (drop pos body) = Inr (tx, len)"
    and rest: "split_txs X body n (pos + len) (txs @ [take len (drop pos body)]) = Inr (txs', pos')"
    by (auto simp: result_simps)
  have len: "len \<le> length (drop pos body)"
    using transaction_read_consumes [OF read] by simp
  with Suc.prems(2) have "pos + len \<le> length body" by simp
  from Suc.IH [OF rest this] obtain new where new:
    "txs' = (txs @ [take len (drop pos body)]) @ new" "length new = n" "pos' \<le> length body"
    "pos + len \<le> pos'" "take (pos' - (pos + len)) (drop (pos + len) body) = concat new"
    "\<forall>t \<in> set new. \<exists>tx. transaction_read X t = Inr (tx, length t)"
    by blast
  let ?t = "take len (drop pos body)"
  have "length ?t = len" using len by simp
  then have t: "transaction_read X ?t = Inr (tx, length ?t)"
    using transaction_read_take [OF read] by simp
  have "pos' - pos = len + (pos' - (pos + len))" using new(4) by simp
  then have "take (pos' - pos) (drop pos body) = ?t @ concat new"
    using new(5) by (simp add: take_add add.commute)
  with new t show ?case
    by (intro exI [of _ "?t # new"]) auto
qed auto

lemma split_block_concat:
  assumes "split_block X raw = Inr (header, txs)"
  shows "raw = header @ compact_size_bytes (length txs) @ concat txs"
    and "header_end X raw = Inr (length header)"
    and "\<forall>t \<in> set txs. \<exists>tx. transaction_read X t = Inr (tx, length t)"
proof -
  from assms obtain e c p pos where e: "header_end X raw = Inr e"
    and c: "compact_size_read X (drop e raw) = Inr (c, p)"
    and loop: "split_txs X (drop e raw) c p [] = Inr (txs, pos)"
    and all: "e + pos = length raw" and header: "header = take e raw"
    by (auto simp: split_block_def Let_def result_simps)
  have p: "p \<le> length (drop e raw)" "take p (drop e raw) = compact_size_bytes c"
    using compact_size_read_exact [OF c] by auto
  from split_txs_append [OF loop p(1)] have new: "length txs = c" "p \<le> pos"
    "take (pos - p) (drop p (drop e raw)) = concat txs"
    "\<forall>t \<in> set txs. \<exists>tx. transaction_read X t = Inr (tx, length t)"
    by auto
  have "drop e raw = take p (drop e raw) @ drop p (drop e raw)"
    by (rule append_take_drop_id [symmetric])
  also have "drop p (drop e raw) = take (pos - p) (drop p (drop e raw))"
    using all new(2) header_end_bounds [OF e] by simp
  finally have "drop e raw = compact_size_bytes (length txs) @ concat txs"
    by (simp only: p(2) new(1,3))
  then show "raw = header @ compact_size_bytes (length txs) @ concat txs"
    using append_take_drop_id [of e raw] header by simp
  show "header_end X raw = Inr (length header)"
    using e header header_end_bounds [OF e] by simp
  show "\<forall>t \<in> set txs. \<exists>tx. transaction_read X t = Inr (tx, length t)"
    by (rule new(4))
qed

text \<open>Conversely, a header followed by a counted list of readable transactions splits back.\<close>

lemma split_txs_concat:
  assumes "\<forall>t \<in> set new. \<exists>tx. transaction_read X t = Inr (tx, length t)"
    and "drop pos body = concat new @ rest"
  shows "split_txs X body (length new) pos txs = Inr (txs @ new, pos + length (concat new))"
  using assms
proof (induction new arbitrary: pos txs)
  case (Cons t new)
  from Cons.prems(1) obtain tx where tx: "transaction_read X t = Inr (tx, length t)" by auto
  have "transaction_read X (drop pos body) = Inr (tx, length t)"
    using transaction_read_prefix [OF tx, of "concat new @ rest"] Cons.prems(2) by simp
  moreover have "drop (pos + length t) body = concat new @ rest"
    using Cons.prems(2) by (metis add.commute append.assoc append_eq_conv_conj concat.simps(2) drop_drop)
  moreover have "take (length t) (drop pos body) = t"
    using Cons.prems(2) by simp
  ultimately show ?case
    using Cons.IH [of "pos + length t" "txs @ [t]"] Cons.prems(1) by (simp add: add.assoc)
qed simp

lemma split_block_of_parts:
  assumes "\<forall>t \<in> set txs. \<exists>tx. transaction_read X t = Inr (tx, length t)"
    and "length txs \<le> MAX_COMPACT_SIZE"
    and "header_end X (header @ compact_size_bytes (length txs) @ concat txs) = Inr (length header)"
  shows "split_block X (header @ compact_size_bytes (length txs) @ concat txs) = Inr (header, txs)"
proof -
  let ?body = "compact_size_bytes (length txs) @ concat txs"
  have "compact_size_read X ?body = Inr (length txs, length (compact_size_bytes (length txs)))"
    by (rule compact_size_read_bytes [OF assms(2)])
  moreover have "split_txs X ?body (length txs) (length (compact_size_bytes (length txs))) [] =
      Inr (txs, length ?body)"
    using split_txs_concat [OF assms(1), of "length (compact_size_bytes (length txs))" ?body "[]" "[]"]
    by simp
  ultimately show ?thesis
    using assms(3) by (simp add: split_block_def)
qed

text \<open>
  The two parsers walk a block the same way: what to_compact_block accepts, split_block accepts,
  and the compact transactions are those of the slices.
\<close>

lemma compact_txs_split:
  assumes "compact_txs X body n index pos height vtx = Inr (height', vtx', pos')"
    and "pos \<le> length body"
  shows "\<exists>new. split_txs X body n pos txs = Inr (txs @ new, pos') \<and> length new = n \<and>
    (\<exists>cs. vtx' = vtx @ cs \<and> length cs = n \<and>
      (\<forall>i < n. \<exists>tx. transaction_read X (new ! i) = Inr (tx, length (new ! i)) \<and>
         cs ! i = to_compact_tx (index + i) tx (index + i = 0))) \<and>
    (if index = 0 \<and> n \<noteq> 0
     then \<exists>tx h. transaction_read X (new ! 0) = Inr (tx, length (new ! 0)) \<and>
       coinbase_height tx = Inr h \<and> height' = Some h
     else height' = height)"
  using assms
proof (induction n arbitrary: index pos height vtx txs)
  case (Suc n)
  from Suc.prems(1) obtain tx len height1 where
    read: "transaction_read X (drop pos body) = Inr (tx, len)"
    and h: "(if index = 0 then bindE (coinbase_height tx) (\<lambda>h. Inr (Some h)) else Inr height) = Inr height1"
    and rest: "compact_txs X body n (Suc index) (pos + len) height1
      (vtx @ [to_compact_tx index tx (index = 0)]) = Inr (height', vtx', pos')"
    by (auto simp: result_simps)
  let ?t = "take len (drop pos body)"
  have len: "len \<le> length (drop pos body)" using transaction_read_consumes [OF read] by simp
  then have t: "transaction_read X ?t = Inr (tx, length ?t)"
    using transaction_read_take [OF read] by simp
  from len Suc.prems(2) have "pos + len \<le> length body" by simp
  from Suc.IH [OF rest this, of "txs @ [?t]"] obtain new cs where IH:
    "split_txs X body n (pos + len) (txs @ [?t]) = Inr ((txs @ [?t]) @ new, pos')" "length new = n"
    "vtx' = (vtx @ [to_compact_tx index tx (index = 0)]) @ cs" "length cs = n"
    "\<forall>i < n. \<exists>tx. transaction_read X (new ! i) = Inr (tx, length (new ! i)) \<and>
       cs ! i = to_compact_tx (Suc index + i) tx (Suc index + i = 0)" "height' = height1"
    by auto
  let ?c = "to_compact_tx index tx (index = 0)"
  have "split_txs X body (Suc n) pos txs = Inr (txs @ ?t # new, pos')"
    using read IH(1) by simp
  moreover have "\<forall>i < Suc n. \<exists>tx. transaction_read X ((?t # new) ! i) = Inr (tx, length ((?t # new) ! i)) \<and>
       (?c # cs) ! i = to_compact_tx (index + i) tx (index + i = 0)"
    using t IH(5) by (auto simp: nth_Cons less_Suc_eq_0_disj)
  moreover have "if index = 0 \<and> Suc n \<noteq> 0
     then \<exists>tx h. transaction_read X ((?t # new) ! 0) = Inr (tx, length ((?t # new) ! 0)) \<and>
       coinbase_height tx = Inr h \<and> height' = Some h
     else height' = height"
    using t h IH(6) by (auto simp: result_simps split: if_splits)
  ultimately show ?case
    using IH(2,3,4) by (intro exI [of _ "?t # new"]) (auto intro!: exI [of _ "?c # cs"])
qed auto

lemma to_compact_block_split:
  assumes "to_compact_block X raw = Inr b"
  shows "\<exists>header txs. split_block X raw = Inr (header, txs) \<and>
    cb_hash b = sha256d X header \<and>
    cb_prev_hash b = take 32 (drop 4 header) \<and>
    length (cb_vtx b) = length txs \<and> txs \<noteq> [] \<and>
    coinbase_height_from_raw X (txs ! 0) = Inr (cb_height b) \<and>
    (\<forall>i < length txs. \<exists>tx. transaction_read X (txs ! i) = Inr (tx, length (txs ! i)) \<and>
       cb_vtx b ! i = to_compact_tx i tx (i = 0))"
proof -
  from assms obtain e c p vtx pos h where e: "header_end X raw = Inr e"
    and c: "compact_size_read X (drop e raw) = Inr (c, p)"
    and loop: "compact_txs X (drop e raw) c 0 p None [] = Inr (Some h, vtx, pos)"
    and all: "e + pos = length raw"
    and b: "cb_hash b = sha256d X (take e raw)" "cb_prev_hash b = take 32 (drop 4 raw)"
      "cb_vtx b = vtx" "cb_height b = h"
    by (auto simp: to_compact_block_def Let_def result_simps)
  have p: "p \<le> length (drop e raw)" using compact_size_read_exact [OF c] by auto
  from compact_txs_split [OF loop p, of "[]"] obtain txs where
    txs: "split_txs X (drop e raw) c p [] = Inr (txs, pos)" "length txs = c" "length vtx = c"
      "\<forall>i < c. \<exists>tx. transaction_read X (txs ! i) = Inr (tx, length (txs ! i)) \<and>
         vtx ! i = to_compact_tx i tx (i = 0)"
    and h: "if c \<noteq> 0
     then \<exists>tx h'. transaction_read X (txs ! 0) = Inr (tx, length (txs ! 0)) \<and>
       coinbase_height tx = Inr h' \<and> Some h = Some h' else Some h = None"
    by auto
  have "HEADER_PREFIX_LEN \<le> e" using header_end_bounds [OF e] by simp
  then have "take 32 (drop 4 (take e raw)) = take 32 (drop 4 raw)"
    by (simp add: HEADER_PREFIX_LEN_def drop_take)
  moreover have "split_block X raw = Inr (take e raw, txs)"
    using e c txs(1) all by (simp add: split_block_def)
  moreover have "c \<noteq> 0" and "coinbase_height_from_raw X (txs ! 0) = Inr h"
    using h by (auto simp: coinbase_height_from_raw_def split: if_splits)
  ultimately show ?thesis
    using b txs by (intro exI [of _ "take e raw"] exI [of _ txs]) auto
qed

end


section \<open>Height pushes and size prefixes\<close>

lemma of_le_bytes_append: "of_le_bytes (xs @ ys) = of_le_bytes xs + 256 ^ length xs * of_le_bytes ys"
  by (induction xs) (auto simp: algebra_simps)

lemma of_le_bytes_zeros [simp]: "of_le_bytes (replicate n 0) = 0"
  by (induction n) auto

lemma script_height_push:
  assumes "n \<le> 8" and "n \<noteq> 0" and "h < 256 ^ n"
  shows "script_height (of_nat n # le_bytes n h @ rest) =
    Inr (if h = GENESIS_TARGET_DIFFICULTY then 0 else h)"
proof -
  have n: "unat (of_nat n :: u8) = n" using assms(1) by (simp add: unat_of_nat)
  have "(of_nat n :: u8) \<noteq> OP_0"
    using assms(2) n by (auto simp: OP_0_def)
  moreover have "\<not> OP_1 \<le> (of_nat n :: u8)"
    using assms(1) n by (simp add: OP_1_def word_le_nat_alt)
  moreover have "of_le_bytes (le_bytes n h @ replicate (8 - n) 0) = h"
    using assms(3) by (simp add: of_le_bytes_append of_le_bytes_le_bytes)
  ultimately show ?thesis
    using assms(1) n by (simp add: script_height_def Let_def)
qed

lemma script_height_small:
  assumes "1 \<le> h" and "h \<le> 16"
  shows "script_height (of_nat (80 + h) # rest) = Inr h"
proof -
  have u: "unat (of_nat (80 + h) :: u8) = 80 + h"
    using assms by (simp only: unat_of_nat) simp
  have "(of_nat (80 + h) :: u8) \<noteq> OP_0" using u assms by (auto simp: OP_0_def)
  moreover have "OP_1 \<le> (of_nat (80 + h) :: u8)" "(of_nat (80 + h) :: u8) \<le> OP_16"
    using u assms by (simp_all only: OP_1_def OP_16_def word_le_nat_alt) simp_all
  moreover have "unat (of_nat (80 + h) - (OP_1 - 1) :: u8) = h"
  proof -
    have "(of_nat (80 + h) - (OP_1 - 1) :: u8) = of_nat h" by (simp add: OP_1_def)
    then show ?thesis using assms by (simp add: unat_of_nat)
  qed
  moreover have "h \<noteq> GENESIS_TARGET_DIFFICULTY"
    using assms by (simp add: GENESIS_TARGET_DIFFICULTY_def)
  ultimately show ?thesis by (simp add: script_height_def)
qed

lemma script_height_bound: "script_height script = Inr h \<Longrightarrow> h \<le> u64_max"
proof -
  assume h: "script_height script = Inr h"
  have "unat (b :: u8) \<le> u64_max" for b
    using unat_u8_bound [of b] by (simp add: u64_max_def)
  moreover have "of_le_bytes (take n rest @ replicate (8 - n) 0) \<le> u64_max" if "n \<le> 8" for n rest
  proof -
    have "length (take n rest @ replicate (8 - n) (0 :: u8)) \<le> 8" using that by simp
    then have "(256 :: nat) ^ length (take n rest @ replicate (8 - n) (0 :: u8)) \<le> 256 ^ 8"
      by (rule power_increasing) simp
    then have "of_le_bytes (take n rest @ replicate (8 - n) 0) < 256 ^ 8"
      using of_le_bytes_bound order_less_le_trans by blast
    then show ?thesis by (simp add: u64_max_def)
  qed
  ultimately show ?thesis
    using h by (auto simp: script_height_def Let_def result_simps split: list.splits if_splits)
qed


section \<open>A reference instance of the readers\<close>

text \<open>
  Closed examples instantiate the third-party readers with these: a canonical CompactSize reader, a
  length-prefixed transaction whose payload is the coinbase script and whose prefix carries the
  shielded counts, and a 32-byte digest.
\<close>

definition ref_compact_size_read :: "bytes \<Rightarrow> (io_error, nat \<times> nat) result" where
  "ref_compact_size_read bs =
     (case bs of
        [] \<Rightarrow> Inl (IoError ''eof'')
      | b # rest \<Rightarrow>
          if b < 253 then Inr (unat b, 1)
          else
            (let n = (if b = 253 then 2 else if b = 254 then 4 else 8);
                 v = of_le_bytes (take n rest)
             in if length rest < n then Inl (IoError ''eof'')
                else if compact_size_bytes v \<noteq> b # take n rest then Inl (IoError ''non-canonical'')
                else if v > MAX_COMPACT_SIZE then Inl (IoError ''too large'')
                else Inr (v, Suc n)))"

definition ref_note :: sapling_output where
  "ref_note = \<lparr>output_cmu = [], output_ephemeral_key = [], output_enc_ciphertext = []\<rparr>"

definition ref_action :: orchard_action where
  "ref_action =
     \<lparr>action_nullifier = [], action_cmx = [], note_epk_bytes = [], note_enc_ciphertext = []\<rparr>"

fun ref_transaction_read :: "bytes \<Rightarrow> (io_error, transaction \<times> nat) result" where
  "ref_transaction_read (n # s # a # i # rest) =
     (if length rest < unat n then Inl (IoError ''eof'')
      else
        (let payload = take (unat n) rest in
         Inr (\<lparr>tx_txid = take 32 (payload @ replicate 32 0),
               transparent_bundle =
                 Some ([\<lparr>in_prevout_hash = replicate 32 0, in_prevout_n = u32_max,
                         in_script_sig = payload\<rparr>], []),
               sapling_bundle = Some ([], replicate (unat s) ref_note),
               orchard_bundle = Some (replicate (unat a) ref_action),
               ironwood_bundle = Some (replicate (unat i) ref_action)\<rparr>, 4 + unat n)))"
| "ref_transaction_read _ = Inl (IoError ''eof'')"

definition ref_sha256 :: "bytes \<Rightarrow> bytes" where
  "ref_sha256 bs = take 32 (rev bs @ replicate 32 0)"

definition ref_parse :: parse_ext where
  "ref_parse =
     \<lparr>hex_encode = ref_hex_encode, hex_decode = ref_hex_decode, sha256 = ref_sha256,
      compact_size_read = ref_compact_size_read, transaction_read = ref_transaction_read\<rparr>"

lemma compact_size_bytes_cases:
  assumes "v \<le> u64_max"
  obtains (small) "v < 253" "compact_size_bytes v = [of_nat v]"
  | (medium) "253 \<le> v" "v \<le> 65535" "compact_size_bytes v = 253 # le_bytes 2 v"
  | (large) "65536 \<le> v" "v \<le> u32_max" "compact_size_bytes v = 254 # le_bytes 4 v"
  | (huge) "u32_max < v" "compact_size_bytes v = 255 # le_bytes 8 v"
proof -
  consider "v < 253" | "253 \<le> v" "v \<le> 65535" | "65536 \<le> v" "v \<le> u32_max" | "u32_max < v"
    by linarith
  then show thesis
    by cases (use that in \<open>auto simp: compact_size_bytes_def u32_max_def\<close>)
qed

lemma ref_compact_size_read_exact:
  assumes "ref_compact_size_read bs = Inr (v, n)"
  shows "v \<le> MAX_COMPACT_SIZE \<and> n = length (compact_size_bytes v) \<and>
    n \<le> length bs \<and> take n bs = compact_size_bytes v"
proof (cases bs)
  case (Cons b rest)
  show ?thesis
  proof (cases "b < 253")
    case True
    then have "unat b < 253" by (simp add: word_less_nat_alt)
    then show ?thesis
      using assms Cons True
      by (auto simp: ref_compact_size_read_def compact_size_bytes_def MAX_COMPACT_SIZE_def)
  next
    case False
    define k :: nat where "k = (if b = 253 then 2 else if b = 254 then 4 else 8)"
    have "v = of_le_bytes (take k rest)" "k \<le> length rest" "compact_size_bytes v = b # take k rest"
      "v \<le> MAX_COMPACT_SIZE" "n = Suc k"
      using assms False unfolding Cons ref_compact_size_read_def k_def [symmetric]
      by (auto simp: Let_def k_def [symmetric] split: if_splits)
    then show ?thesis using Cons by simp
  qed
qed (use assms in \<open>simp add: ref_compact_size_read_def\<close>)

lemma ref_compact_size_read_bytes:
  assumes "v \<le> MAX_COMPACT_SIZE"
  shows "ref_compact_size_read (compact_size_bytes v @ rest) = Inr (v, length (compact_size_bytes v))"
proof -
  have bound: "v \<le> u64_max" "v \<le> u32_max"
    using assms by (simp_all add: MAX_COMPACT_SIZE_def u64_max_def u32_max_def)
  show ?thesis
    using bound(1)
  proof (cases rule: compact_size_bytes_cases)
    case small
    then have "unat (of_nat v :: u8) = v" by (simp add: unat_of_nat)
    moreover from this small have "(of_nat v :: u8) < 253" by (simp add: word_less_nat_alt)
    ultimately show ?thesis using small by (simp add: ref_compact_size_read_def)
  next
    case medium
    then have "of_le_bytes (le_bytes 2 v) = v" by (simp add: of_le_bytes_le_bytes)
    with medium assms show ?thesis by (simp add: ref_compact_size_read_def)
  next
    case large
    then have "of_le_bytes (le_bytes 4 v) = v" by simp
    with large assms show ?thesis by (simp add: ref_compact_size_read_def)
  next
    case huge
    with bound show ?thesis by simp
  qed
qed

lemma ref_transaction_read_consumes:
  "ref_transaction_read bs = Inr (tx, n) \<Longrightarrow> 4 \<le> n \<and> n \<le> length bs"
  by (induction bs rule: ref_transaction_read.induct) (auto simp: Let_def split: if_splits)

lemma take_four_more: "take (4 + k) (a # b # c # d # rest) = a # b # c # d # take k rest"
  by (simp add: eval_nat_numeral)

lemma ref_transaction_read_prefix:
  "ref_transaction_read bs = Inr (tx, n) \<Longrightarrow> ref_transaction_read (take n bs @ rest) = Inr (tx, n)"
  by (induction bs rule: ref_transaction_read.induct)
    (auto simp: Let_def take_four_more split: if_splits)

interpretation rp: parse_contract ref_parse
proof unfold_locales
  show "length (sha256 ref_parse bs) = 32" for bs
    by (simp add: ref_parse_def ref_sha256_def)
qed (simp_all add: ref_parse_def ref_hex_decode_encode ref_hex_encode_length
    ref_hex_decode_length ref_compact_size_read_exact ref_compact_size_read_bytes
    ref_transaction_read_consumes ref_transaction_read_prefix)


section \<open>Properties\<close>

text \<open>A minimal block: a zeroed header, an empty solution, and one transaction pushing height 42.\<close>

definition ref_raw_block :: bytes where
  "ref_raw_block = replicate 140 0 @ [0, 1, 2, 1, 0, 0, 1, 42]"

lemma split_block_ref_raw_block:
  "split_block ref_parse ref_raw_block = Inr (replicate 140 0 @ [0], [[2, 1, 0, 0, 1, 42]])"
  by code_simp

text \<open>
  C9. split_block is the inverse of serialization. It accepts a raw block exactly when the block is
  a header (ending where the solution length says), the canonical count of its transactions, and
  the transactions themselves, each of which re-parses on its own; and it returns those parts.
\<close>

theorem split_block_inverse:
  assumes "parse_contract X"
  shows "split_block X raw = Inr (header, txs) \<longleftrightarrow>
    raw = header @ compact_size_bytes (length txs) @ concat txs \<and>
    header_end X raw = Inr (length header) \<and>
    length txs \<le> MAX_COMPACT_SIZE \<and>
    (\<forall>t \<in> set txs. \<exists>tx. transaction_read X t = Inr (tx, length t))"
proof -
  have "length txs \<le> MAX_COMPACT_SIZE" if "split_block X raw = Inr (header, txs)"
    using that parse_contract.split_txs_append [OF assms]
      parse_contract.compact_size_read_exact [OF assms]
    by (fastforce simp: split_block_def Let_def result_simps)
  then show ?thesis
    using parse_contract.split_block_concat [OF assms]
      parse_contract.split_block_of_parts [OF assms] by blast
qed

theorem split_block_inverse_witness:
  "parse_contract ref_parse \<and>
   ref_raw_block = (replicate 140 0 @ [0]) @ compact_size_bytes (length [[2, 1, 0, 0, 1, 42 :: u8]]) @
     concat [[2, 1, 0, 0, 1, 42]]"
  using split_block_inverse [OF rp.parse_contract_axioms, THEN iffD1, OF split_block_ref_raw_block]
    rp.parse_contract_axioms by blast

text \<open>
  C10. The two block parsers agree. Whatever to_compact_block accepts, split_block accepts with the
  same transactions: the hash is the double SHA-256 of the split header, the previous hash is header
  bytes 4 to 36, the height is the coinbase's, and compact transaction \<^term>\<open>i\<close> is the compact form
  of slice \<^term>\<open>i\<close>, with only the first treated as a coinbase.
\<close>

theorem to_compact_block_agrees:
  assumes "parse_contract X" and "to_compact_block X raw = Inr b"
  shows "\<exists>header txs. split_block X raw = Inr (header, txs) \<and>
    cb_hash b = sha256d X header \<and>
    cb_prev_hash b = take 32 (drop 4 header) \<and>
    length (cb_vtx b) = length txs \<and> txs \<noteq> [] \<and>
    coinbase_height_from_raw X (txs ! 0) = Inr (cb_height b) \<and>
    (\<forall>i < length txs. \<exists>tx. transaction_read X (txs ! i) = Inr (tx, length (txs ! i)) \<and>
       cb_vtx b ! i = to_compact_tx i tx (i = 0))"
  by (rule parse_contract.to_compact_block_split [OF assms])

theorem to_compact_block_agrees_witness:
  "\<exists>b header txs. to_compact_block ref_parse ref_raw_block = Inr b \<and> cb_height b = 42 \<and>
     split_block ref_parse ref_raw_block = Inr (header, txs) \<and> cb_hash b = sha256d ref_parse header"
proof -
  have "map_err (\<lambda>_. ()) (bindE (to_compact_block ref_parse ref_raw_block) (\<lambda>b. Inr (cb_height b))) =
      Inr 42"
    by code_simp
  then obtain b where b: "to_compact_block ref_parse ref_raw_block = Inr b" "cb_height b = 42"
    by (auto simp: result_simps)
  show ?thesis
    using to_compact_block_agrees [OF rp.parse_contract_axioms b(1)] b by blast
qed

text \<open>
  The height push round-trips. A height from 17 up to what eight bytes hold, pushed little-endian
  with its length as BIP34 asks, is read back unchanged, except the genesis target difficulty,
  which is read as height 0.
\<close>

theorem coinbase_height_roundtrip:
  assumes "n \<le> 8" and "n \<noteq> 0" and "h < 256 ^ n"
    and "transparent_bundle tx = Some (input # ins, outs)"
    and "in_script_sig input = of_nat n # le_bytes n h @ rest"
  shows "coinbase_height tx = Inr (if h = GENESIS_TARGET_DIFFICULTY then 0 else h)"
  using script_height_push [OF assms(1-3)] assms(4,5) by (simp add: coinbase_height_def)

definition ref_coinbase :: transaction where
  "ref_coinbase =
     \<lparr>tx_txid = [], transparent_bundle =
        Some ([\<lparr>in_prevout_hash = [], in_prevout_n = 0,
                in_script_sig = [3, 0xD1, 0x2C, 0x0C, 0xFF]\<rparr>], []),
      sapling_bundle = None, orchard_bundle = None, ironwood_bundle = None\<rparr>"

theorem coinbase_height_roundtrip_witness: "coinbase_height ref_coinbase = Inr 797905"
proof -
  have "le_bytes 3 797905 = [0xD1, 0x2C, 0x0C :: u8]" by code_simp
  then show ?thesis
    using coinbase_height_roundtrip [of 3 797905 ref_coinbase
        "\<lparr>in_prevout_hash = [], in_prevout_n = 0, in_script_sig = [3, 0xD1, 0x2C, 0x0C, 0xFF]\<rparr>"
        "[]" "[]" "[0xFF]"]
    by (simp add: ref_coinbase_def GENESIS_TARGET_DIFFICULTY_def)
qed

end
