(* ===== verification/Node_Rpc.thy ===== *)
theory Node_Rpc
  imports Encoding
begin

text \<open>
  src/node/types.rs and the NodeRpc trait of src/node/mod.rs: the typed replies of the backend node
  and the surface through which the service, the ingestor and the fetch logic reach it. The node is a
  separate program, so it is an argument: a record with one function per trait method, giving the
  reply to each call. A reply may be an error at any time; nothing is assumed of a node beyond what a
  theorem states.
\<close>

section \<open>Replies\<close>

record get_info =
  gi_build :: string
  gi_subversion :: string

record upgrade =
  up_name :: string
  up_activationheight :: u64
  up_status :: string

record get_blockchain_info =
  gbi_chain :: string
  gbi_blocks :: u64
  gbi_bestblockhash :: string
  gbi_estimatedheight :: u64
  gbi_consensus_chaintip :: string
  gbi_upgrades :: "(string \<times> upgrade) list"

record trees =
  tr_sapling :: u32
  tr_orchard :: u32
  tr_ironwood :: u32

record get_block_verbose =
  gbv_hash :: string
  gbv_tx :: "string list"
  gbv_trees :: trees

record get_raw_transaction =
  grt_hex :: string
  grt_height :: int

record get_tree_state =
  gts_hash :: string
  gts_height :: u64
  gts_time :: u32
  gts_sapling :: string
  gts_orchard :: string
  gts_ironwood :: string

record get_address_balance =
  gab_balance :: int

record address_utxo =
  au_address :: string
  au_txid :: string
  au_output_index :: int
  au_script :: string
  au_satoshis :: u64
  au_height :: u64

record subtree =
  sub_root :: string
  sub_end_height :: u64

section \<open>Errors\<close>

text \<open>tokio's JoinError: a task that panicked or was cancelled, with its text.\<close>

datatype join_error = JoinPanic string | JoinCancelled string

fun is_panic :: "join_error \<Rightarrow> bool" where
  "is_panic (JoinPanic _) = True"
| "is_panic (JoinCancelled _) = False"

datatype node_error =
    Http string
  | Rpc int string
  | NodeDecode string
  | Hex hex_error
  | ResponseTooLarge u64
  | EmptyResult
  | Overloaded string
  | TaskError join_error
  | State string


section \<open>The node's surface\<close>

record node_rpc =
  rpc_get_info :: "(node_error, get_info) result"
  rpc_get_blockchain_info :: "(node_error, get_blockchain_info) result"
  rpc_get_block_verbose :: "u64 \<Rightarrow> (node_error, get_block_verbose) result"
  rpc_get_block_count :: "(node_error, u64) result"
  rpc_get_block_hash :: "u64 \<Rightarrow> (node_error, string) result"
  rpc_get_block_hashes :: "u64 list \<Rightarrow> (node_error, string list) result"
  rpc_get_block_raw :: "string \<Rightarrow> (node_error, bytes) result"
  rpc_get_raw_transaction :: "string \<Rightarrow> (node_error, get_raw_transaction) result"
  rpc_send_raw_transaction :: "string \<Rightarrow> (node_error, string) result"
  rpc_get_treestate :: "string \<Rightarrow> (node_error, get_tree_state) result"
  rpc_get_address_balance :: "string list \<Rightarrow> (node_error, get_address_balance) result"
  rpc_get_address_utxos :: "string list \<Rightarrow> (node_error, address_utxo list) result"
  rpc_get_address_txids :: "string list \<Rightarrow> u64 \<Rightarrow> u64 \<Rightarrow> (node_error, string list) result"
  rpc_get_subtrees :: "string \<Rightarrow> u32 \<Rightarrow> u32 \<Rightarrow> (node_error, subtree list) result"
  rpc_get_raw_mempool :: "(node_error, string list) result"

text \<open>The trait's default for a batch of block hashes: one lookup per height, in order.\<close>

definition default_get_block_hashes ::
    "(u64 \<Rightarrow> (node_error, string) result) \<Rightarrow> u64 list \<Rightarrow> (node_error, string list) result" where
  "default_get_block_hashes get_block_hash heights =
     foldE (\<lambda>height hashes. bindE (get_block_hash height) (\<lambda>h. Inr (hashes @ [h]))) heights []"

lemma default_get_block_hashes_order:
  assumes "default_get_block_hashes f heights = Inr hashes"
  shows "list_all2 (\<lambda>h s. f h = Inr s) heights hashes"
proof -
  have "foldE (\<lambda>height hashes. bindE (f height) (\<lambda>h. Inr (hashes @ [h]))) heights acc = Inr out \<Longrightarrow>
      \<exists>new. out = acc @ new \<and> list_all2 (\<lambda>h s. f h = Inr s) heights new" for acc out
  proof (induction heights arbitrary: acc)
    case (Cons h hs)
    then obtain s where "f h = Inr s"
      "foldE (\<lambda>height hashes. bindE (f height) (\<lambda>h. Inr (hashes @ [h]))) hs (acc @ [s]) = Inr out"
      by (auto simp: result_simps)
    with Cons.IH [of "acc @ [s]"] show ?case by (auto intro: exI [of _ "s # _"])
  qed simp
  from this [of "[]"] assms show ?thesis by (simp add: default_get_block_hashes_def)
qed

text \<open>A node that answers nothing, the base closed examples update.\<close>

definition dead_node :: node_rpc where
  "dead_node =
     \<lparr>rpc_get_info = Inl EmptyResult,
      rpc_get_blockchain_info = Inl EmptyResult,
      rpc_get_block_verbose = (\<lambda>_. Inl EmptyResult),
      rpc_get_block_count = Inl EmptyResult,
      rpc_get_block_hash = (\<lambda>_. Inl EmptyResult),
      rpc_get_block_hashes = (\<lambda>_. Inl EmptyResult),
      rpc_get_block_raw = (\<lambda>_. Inl EmptyResult),
      rpc_get_raw_transaction = (\<lambda>_. Inl EmptyResult),
      rpc_send_raw_transaction = (\<lambda>_. Inl EmptyResult),
      rpc_get_treestate = (\<lambda>_. Inl EmptyResult),
      rpc_get_address_balance = (\<lambda>_. Inl EmptyResult),
      rpc_get_address_utxos = (\<lambda>_. Inl EmptyResult),
      rpc_get_address_txids = (\<lambda>_ _ _. Inl EmptyResult),
      rpc_get_subtrees = (\<lambda>_ _ _. Inl EmptyResult),
      rpc_get_raw_mempool = Inl EmptyResult\<rparr>"

text \<open>The node gave \<^term>\<open>s\<close> as the hash at height \<^term>\<open>h\<close>.\<close>

definition node_says :: "node_rpc \<Rightarrow> u64 \<Rightarrow> string \<Rightarrow> bool" where
  "node_says node h s \<longleftrightarrow>
     (\<exists>batch hashes i. rpc_get_block_hashes node batch = Inr hashes \<and> length hashes = length batch \<and>
        i < length batch \<and> batch ! i = h \<and> hashes ! i = s)"

lemma node_saysI:
  "rpc_get_block_hashes node batch = Inr hashes \<Longrightarrow> length hashes = length batch \<Longrightarrow> (h, s) \<in> set (zip batch hashes) \<Longrightarrow>
     node_says node h s"
  by (auto simp: node_says_def set_zip)

end
