(* ===== verification/Fetch.thy ===== *)
theory Fetch
  imports Compact Node_Rpc
begin

text \<open>
  src/fetch.rs: fetching one block from the node and assembling its compact form, with the checks
  that tie the bytes to the height and hash they were asked by and the txids to the node's list.
  The parse runs on a blocking task, which can fail on its own: \<^verbatim>\<open>parse_task\<close> gives its failure.
\<close>

datatype fetch_error =
    FetchNode node_error
  | FetchParse parse_error
  | UnexpectedHeight u64 u64
  | HashMismatch string string
  | TxidMismatch u64 usize string string
  | TxCountMismatch u64 usize usize
  | ParseTask join_error
  | WindowClosed string

text \<open>The txid cross-check loop, from index \<^verbatim>\<open>index\<close> on.\<close>

fun check_txids ::
    "'x parse_ext_scheme \<Rightarrow> u64 \<Rightarrow> usize \<Rightarrow> compact_tx list \<Rightarrow> string list \<Rightarrow> (fetch_error, unit) result" where
  "check_txids X height index (tx # txs) (node_txid # node_txids) =
     (let computed = wire_to_display_hex X (txid tx) in
      bindE (failIf (computed \<noteq> node_txid) (TxidMismatch height index node_txid computed)) (\<lambda>_.
        check_txids X height (Suc index) txs node_txids))"
| "check_txids X height index _ _ = Inr ()"

definition compact_block_fetch ::
    "'x parse_ext_scheme \<Rightarrow> join_error option \<Rightarrow> node_rpc \<Rightarrow> u64 \<Rightarrow> (fetch_error, compact_block) result" where
  "compact_block_fetch X parse_task node height =
     bindE (map_err FetchNode (rpc_get_block_verbose node height)) (\<lambda>verbose.
     bindE (map_err FetchNode (rpc_get_block_raw node (gbv_hash verbose))) (\<lambda>raw.
     bindE (case parse_task of None \<Rightarrow> Inr () | Some e \<Rightarrow> Inl (ParseTask e)) (\<lambda>_.
     bindE (map_err FetchParse (to_compact_block X raw)) (\<lambda>block.
     bindE (failIf (cb_height block \<noteq> height) (UnexpectedHeight height (cb_height block))) (\<lambda>_.
       let computed_hash = wire_to_display_hex X (cb_hash block) in
     bindE (failIf (computed_hash \<noteq> gbv_hash verbose) (HashMismatch (gbv_hash verbose) computed_hash)) (\<lambda>_.
     bindE
       (if gbv_tx verbose \<noteq> [] then
          bindE (failIf (length (gbv_tx verbose) \<noteq> length (cb_vtx block))
                   (TxCountMismatch height (length (gbv_tx verbose)) (length (cb_vtx block)))) (\<lambda>_.
            check_txids X height 0 (cb_vtx block) (gbv_tx verbose))
        else Inr ()) (\<lambda>_.
       Inr (block\<lparr>cb_chain_metadata :=
         map_option (\<lambda>meta. meta\<lparr>
             sapling_commitment_tree_size := tr_sapling (gbv_trees verbose),
             orchard_commitment_tree_size := tr_orchard (gbv_trees verbose),
             ironwood_commitment_tree_size := tr_ironwood (gbv_trees verbose)\<rparr>)
           (cb_chain_metadata block)\<rparr>))))))))"

lemma check_txids_ok_iff:
  "length txs = length ids \<Longrightarrow>
     check_txids X height index txs ids = Inr () \<longleftrightarrow> map (\<lambda>tx. wire_to_display_hex X (txid tx)) txs = ids"
  by (induction txs ids arbitrary: index rule: list_induct2) (auto simp: result_simps Let_def)

lemma to_compact_block_metadata:
  "to_compact_block X raw = Inr b \<Longrightarrow> cb_chain_metadata b =
     Some \<lparr>sapling_commitment_tree_size = 0, orchard_commitment_tree_size = 0, ironwood_commitment_tree_size = 0\<rparr>"
  by (auto simp: to_compact_block_def result_simps Let_def)

lemma fetch_height:
  "compact_block_fetch X parse_task node height = Inr b \<Longrightarrow> cb_height b = height"
  by (auto simp: compact_block_fetch_def result_simps Let_def split: if_splits option.splits)


section \<open>Properties\<close>

text \<open>
  C8: a fetched block is the block the node names. Whenever the fetch succeeds, the block has the
  requested height, its hash is the one the node reported for that height, the hash is the double
  SHA-256 of the header of the bytes the node served, every txid agrees with the node's list when the
  node gives one, the tree sizes are the node's, and everything else is what the parser read.
\<close>

theorem fetch_sound:
  assumes "parse_contract X" and "compact_block_fetch X parse_task node height = Inr b"
  shows "\<exists>verbose raw parsed header txs.
    rpc_get_block_verbose node height = Inr verbose \<and>
    rpc_get_block_raw node (gbv_hash verbose) = Inr raw \<and>
    to_compact_block X raw = Inr parsed \<and>
    split_block X raw = Inr (header, txs) \<and>
    cb_height b = height \<and>
    cb_hash b = sha256d X header \<and>
    display_hex_to_wire X (gbv_hash verbose) = Inr (cb_hash b) \<and>
    (gbv_tx verbose \<noteq> [] \<longrightarrow> map (\<lambda>tx. wire_to_display_hex X (txid tx)) (cb_vtx b) = gbv_tx verbose) \<and>
    b = parsed\<lparr>cb_chain_metadata := Some
      \<lparr>sapling_commitment_tree_size = tr_sapling (gbv_trees verbose),
       orchard_commitment_tree_size = tr_orchard (gbv_trees verbose),
       ironwood_commitment_tree_size = tr_ironwood (gbv_trees verbose)\<rparr>\<rparr>"
proof -
  from assms(2) obtain verbose raw parsed where
    v: "rpc_get_block_verbose node height = Inr verbose"
    and r: "rpc_get_block_raw node (gbv_hash verbose) = Inr raw"
    and p: "to_compact_block X raw = Inr parsed"
    and h: "cb_height parsed = height"
    and hash: "wire_to_display_hex X (cb_hash parsed) = gbv_hash verbose"
    and ids: "gbv_tx verbose \<noteq> [] \<longrightarrow> length (gbv_tx verbose) = length (cb_vtx parsed) \<and>
        check_txids X height 0 (cb_vtx parsed) (gbv_tx verbose) = Inr ()"
    and b: "b = parsed\<lparr>cb_chain_metadata :=
        map_option (\<lambda>meta. meta\<lparr>
          sapling_commitment_tree_size := tr_sapling (gbv_trees verbose),
          orchard_commitment_tree_size := tr_orchard (gbv_trees verbose),
          ironwood_commitment_tree_size := tr_ironwood (gbv_trees verbose)\<rparr>)
        (cb_chain_metadata parsed)\<rparr>"
    by (auto simp: compact_block_fetch_def result_simps Let_def split: if_splits option.splits)
  obtain header txs where "split_block X raw = Inr (header, txs)" "cb_hash parsed = sha256d X header"
    using parse_contract.to_compact_block_split [OF assms(1) p] by blast
  moreover have "display_hex_to_wire X (gbv_hash verbose) = Inr (cb_hash parsed)"
    using hash parse_contract.axioms(1) [OF assms(1)] hex_contract.display_wire_roundtrip by metis
  moreover note to_compact_block_metadata [OF p]
  ultimately show ?thesis
    using v r p h b ids check_txids_ok_iff [of "cb_vtx parsed" "gbv_tx verbose" X height 0]
    by (intro exI [of _ verbose] exI [of _ raw] exI [of _ parsed] exI [of _ header] exI [of _ txs]) auto
qed

text \<open>A node that serves the one reference block, at height 42.\<close>

definition ref_verbose :: get_block_verbose where
  "ref_verbose =
     \<lparr>gbv_hash = wire_to_display_hex ref_parse (sha256d ref_parse (replicate 140 0 @ [0])),
      gbv_tx = [], gbv_trees = \<lparr>tr_sapling = 3, tr_orchard = 2, tr_ironwood = 1\<rparr>\<rparr>"

definition ref_node :: node_rpc where
  "ref_node = dead_node\<lparr>
     rpc_get_blockchain_info := Inr
       \<lparr>gbi_chain = ''main'', gbi_blocks = 42, gbi_bestblockhash = gbv_hash ref_verbose,
        gbi_estimatedheight = 42, gbi_consensus_chaintip = '''', gbi_upgrades = []\<rparr>,
     rpc_get_block_verbose := (\<lambda>h. if h = 42 then Inr ref_verbose else Inl EmptyResult),
     rpc_get_block_raw := (\<lambda>s. if s = gbv_hash ref_verbose then Inr ref_raw_block else Inl EmptyResult)\<rparr>"

lemma ref_node_fetch: "is_ok (compact_block_fetch ref_parse None ref_node 42)"
  by code_simp

theorem fetch_sound_witness:
  "\<exists>b. compact_block_fetch ref_parse None ref_node 42 = Inr b \<and> cb_height b = 42"
proof -
  obtain b where b: "compact_block_fetch ref_parse None ref_node 42 = Inr b"
    using ref_node_fetch by (auto simp: is_ok_def split: sum.splits)
  with fetch_sound [OF rp.parse_contract_axioms b] show ?thesis by auto
qed

end
