(* ===== verification/Repair.thy ===== *)
theory Repair
  imports Prelude
begin

text \<open>
  src/repair.rs: the slot through which the read path tells the ingestor the lowest cached height it
  suspects of belonging to an abandoned fork. The atomic is its value; each method is one atomic
  read-modify-write, so an interleaving of tasks is a sequence of these calls.
\<close>

definition NOTHING :: u64 where
  "NOTHING = u64_max"

type_synonym repair_signal = u64

definition signal_new :: repair_signal where
  "signal_new = NOTHING"

definition signal_report :: "repair_signal \<Rightarrow> u64 \<Rightarrow> repair_signal" where
  "signal_report lowest height = min lowest height"

definition signal_take :: "repair_signal \<Rightarrow> u64 option \<times> repair_signal" where
  "signal_take lowest = (if lowest = NOTHING then None else Some lowest, NOTHING)"

text \<open>Reports since the slot was last cleared: it holds their minimum.\<close>

lemma fold_report: "fold (\<lambda>h s. signal_report s h) hs s = Min (insert s (set hs))"
proof (induction hs arbitrary: s)
  case (Cons h hs)
  then show ?case
    by (cases "hs = []") (auto simp: signal_report_def min.commute min.left_commute min.assoc insert_commute)
qed simp

lemma take_after_reports:
  assumes "\<forall>h \<in> set hs. h < u64_max"
  shows "signal_take (fold (\<lambda>h s. signal_report s h) hs signal_new) =
    (if hs = [] then None else Some (Min (set hs)), NOTHING)"
proof (cases "hs = []")
  case False
  then have "Min (set hs) < u64_max" using assms by simp
  moreover have "fold (\<lambda>h s. signal_report s h) hs signal_new = min NOTHING (Min (set hs))"
    using False by (simp add: fold_report signal_new_def)
  ultimately show ?thesis using False by (simp add: signal_take_def NOTHING_def)
qed (simp add: signal_take_def signal_new_def)

end
