(* ===== verification/Ingestor.thy ===== *)
theory Ingestor
  imports Cache_Laws Cache_Ref Fetch Repair
begin

text \<open>
  src/ingestor.rs: the background task that follows the node's chain. One pass of its loop is
  \<^verbatim>\<open>run_iteration\<close>: act on a reported discontinuity within the repair budget, run one step (roll back
  one block on a reorg, or fetch a window and append its chained prefix), recover from corruption, and
  say how long to sleep. The node's replies, the outcome of every spawned task, the clock and the
  store's failures are arguments of the pass.
\<close>

section \<open>The repair budget\<close>

text \<open>Instants are milliseconds.\<close>

definition MAX_CONSECUTIVE_RECOVERIES :: u32 where
  "MAX_CONSECUTIVE_RECOVERIES = 5"

definition MAX_REPAIRS_PER_WINDOW :: u32 where
  "MAX_REPAIRS_PER_WINDOW = 5"

definition REPAIR_WINDOW :: nat where
  "REPAIR_WINDOW = 600000"

record repair_budget =
  spent :: u32
  window_started :: nat
  refusal_logged :: bool

definition budget_new :: "nat \<Rightarrow> repair_budget" where
  "budget_new now = \<lparr>spent = 0, window_started = now, refusal_logged = False\<rparr>"

definition try_spend :: "repair_budget \<Rightarrow> nat \<Rightarrow> bool \<times> repair_budget" where
  "try_spend budget now =
     (let b = (if sat_sub now (window_started budget) \<ge> REPAIR_WINDOW then budget_new now else budget) in
      if spent b \<ge> MAX_REPAIRS_PER_WINDOW then (False, b)
      else (True, b\<lparr>spent := u32_add (spent b) 1\<rparr>))"

definition first_refusal_of_window :: "repair_budget \<Rightarrow> bool \<times> repair_budget" where
  "first_refusal_of_window budget = (\<not> refusal_logged budget, budget\<lparr>refusal_logged := True\<rparr>)"


section \<open>Rolling back\<close>

definition reorg_to_floor ::
    "('b, 'm) cache_ext \<Rightarrow> faults \<Rightarrow> faults \<Rightarrow> ('b, 'm) db \<Rightarrow> u64 \<Rightarrow> u64 \<Rightarrow> (cache_error, ('b, 'm) db) result" where
  "reorg_to_floor E flt_tip flt_write db target start_height =
     bindE (latest_height E flt_tip db) (\<lambda>latest.
       let would_not_lower_tip = (case latest of Some tip \<Rightarrow> target \<ge> tip | None \<Rightarrow> True) in
       if target < start_height \<or> would_not_lower_tip then truncate_from E flt_write db 0
       else reorg E flt_write db target)"

definition recover ::
    "('b, 'm) cache_ext \<Rightarrow> faults \<Rightarrow> faults \<Rightarrow> ('b, 'm) db \<Rightarrow> (cache_error, ('b, 'm) db) result" where
  "recover E flt_scan flt_write db =
     bindE (lowest_corrupt_height E flt_scan db) (\<lambda>corrupt.
       case corrupt of
         Some corrupt \<Rightarrow> reorg E flt_write db (sat_sub corrupt 1)
       | None \<Rightarrow> Inr db)"

record repair_faults =
  rf_range :: faults
  rf_tip :: faults
  rf_write :: faults

definition repair_reported ::
    "('b, 'm) cache_ext \<Rightarrow> repair_faults \<Rightarrow> ('b, 'm) db \<Rightarrow> u64 \<Rightarrow> u64 \<Rightarrow> repair_signal \<Rightarrow> repair_budget \<Rightarrow> nat
      \<Rightarrow> ('b, 'm) db \<times> repair_signal \<times> repair_budget" where
  "repair_reported E flts db height start_height repair budget now =
     (let proceed =
        (case cache_range E (rf_range flts) db of
           Inr (Some (base, tip)) \<Rightarrow> base \<le> height \<and> height \<le> tip
         | _ \<Rightarrow> False) in
      if \<not> proceed then (db, repair, budget)
      else
        let (allowed, budget) = try_spend budget now in
        if \<not> allowed then (db, signal_report repair height, snd (first_refusal_of_window budget))
        else
          (case reorg_to_floor E (rf_tip flts) (rf_write flts) db (sat_sub height 1) start_height of
             Inr db' \<Rightarrow> (db', repair, budget)
           | Inl _ \<Rightarrow> (db, repair, budget)))"


section \<open>Errors of a step\<close>

datatype step_error =
    StepNode node_error
  | StepFetch fetch_error
  | StepCache cache_error
  | StepEncoding hex_error
  | FetchTask join_error

definition is_corruption :: "step_error \<Rightarrow> bool" where
  "is_corruption e =
     (case e of
        StepCache (Corruption _ _) \<Rightarrow> True
      | StepCache (Decode _) \<Rightarrow> True
      | _ \<Rightarrow> False)"

definition should_recover :: "step_error \<Rightarrow> u32 \<Rightarrow> bool" where
  "should_recover error consecutive_recoveries \<longleftrightarrow>
     is_corruption error \<and> consecutive_recoveries < MAX_CONSECUTIVE_RECOVERIES"


section \<open>Fetching a window\<close>

text \<open>
  How a spawned fetch task ends: it runs (its blocking parse may still fail), finds the semaphore
  closed, or dies. The tasks end in the order \<^verbatim>\<open>join_order\<close> gives; the concurrency bound only
  restricts which orders occur.
\<close>

datatype task_end =
    TaskRan "join_error option"
  | TaskClosed string
  | TaskDied join_error

record task_env =
  task_ends :: "u64 \<Rightarrow> task_end"
  join_order :: "u64 list \<Rightarrow> u64 list"

primrec collect_window ::
    "'x parse_ext_scheme \<Rightarrow> node_rpc \<Rightarrow> task_env \<Rightarrow> u64 list
      \<Rightarrow> (u64 \<times> (fetch_error, compact_block) result) list \<Rightarrow> join_error option
      \<Rightarrow> (u64 \<times> (fetch_error, compact_block) result) list \<times> join_error option" where
  "collect_window X node env [] results panicked = (results, panicked)"
| "collect_window X node env (height # joined) results panicked =
     (case task_ends env height of
        TaskRan parse_task \<Rightarrow>
          collect_window X node env joined
            (alist_insert results height (compact_block_fetch X parse_task node height)) panicked
      | TaskClosed closed \<Rightarrow>
          collect_window X node env joined
            (alist_insert results height (Inl (WindowClosed closed))) panicked
      | TaskDied join_error \<Rightarrow>
          if is_panic join_error then
            collect_window X node env joined results
              (case panicked of None \<Rightarrow> Some join_error | Some first \<Rightarrow> Some first)
          else collect_window X node env joined results panicked)"

definition fetch_window ::
    "'x parse_ext_scheme \<Rightarrow> node_rpc \<Rightarrow> task_env \<Rightarrow> u64 list
      \<Rightarrow> (u64 \<times> (fetch_error, compact_block) result) list \<times> join_error option" where
  "fetch_window X node env heights = collect_window X node env (join_order env heights) [] None"


section \<open>One step\<close>

datatype progress = Advanced | Idle

record ingest_config =
  window :: usize
  concurrency :: usize

record step_faults =
  sf_tip :: faults
  sf_hash :: faults
  sf_get :: faults
  sf_floor_tip :: faults
  sf_floor_write :: faults
  sf_prev :: faults
  sf_add :: faults

text \<open>The first half of a step: compare tips, and either return or go on at the next height.\<close>

datatype 'd decision = Return progress 'd | FetchFrom u64

definition step_decide ::
    "('b, 'm) cache_ext \<Rightarrow> 'x parse_ext_scheme \<Rightarrow> step_faults \<Rightarrow> get_blockchain_info \<Rightarrow> ('b, 'm) db \<Rightarrow> u64
      \<Rightarrow> (step_error, ('b, 'm) db decision) result" where
  "step_decide E X flts info db start_height =
     (let tip_height = gbi_blocks info;
          floor = (\<lambda>target. map_err StepCache
            (reorg_to_floor E (sf_floor_tip flts) (sf_floor_write flts) db target start_height)) in
     bindE (map_err StepCache (latest_height E (sf_tip flts) db)) (\<lambda>latest.
       case latest of
         None \<Rightarrow> Inr (FetchFrom start_height)
       | Some cached_tip \<Rightarrow>
           if cached_tip = tip_height then
             bindE (map_err StepEncoding (display_hex_to_wire X (gbi_bestblockhash info))) (\<lambda>tip_hash.
             bindE (map_err StepCache (latest_hash E (sf_hash flts) db)) (\<lambda>hash.
               if hash = Some tip_hash then Inr (Return Idle db)
               else bindE (floor (sat_sub cached_tip 1)) (\<lambda>db'. Inr (Return Advanced db'))))
           else if cached_tip > tip_height then
             bindE (map_err StepEncoding (display_hex_to_wire X (gbi_bestblockhash info))) (\<lambda>tip_hash.
             bindE (map_err StepCache (cache_get E (sf_get flts) db tip_height)) (\<lambda>cached.
               case cached of
                 Some cached \<Rightarrow>
                   if cb_hash cached = tip_hash then Inr (Return Idle db)
                   else bindE (floor (sat_sub cached_tip 1)) (\<lambda>db'. Inr (Return Advanced db'))
               | None \<Rightarrow> Inr (Return Idle db)))
           else Inr (FetchFrom (u64_add cached_tip 1))))"

text \<open>
  The loop that keeps the longest chained prefix of the window. It ends with a reorg of the cached
  tip, or with the batch to append and the failure that cut it short, if one did.
\<close>

datatype prefix_end = PrefixReorg | Prefix "compact_block list" "fetch_error option"

fun chained_prefix ::
    "u64 \<Rightarrow> (u64 \<times> (fetch_error, compact_block) result) list \<Rightarrow> bytes option \<Rightarrow> compact_block list
      \<Rightarrow> prefix_end" where
  "chained_prefix expected_height [] prev_hash batch = Prefix batch None"
| "chained_prefix expected_height ((height, result) # results) prev_hash batch =
     (if height \<noteq> expected_height then Prefix batch None
      else
        case result of
          Inl error \<Rightarrow> Prefix batch (Some error)
        | Inr block \<Rightarrow>
            if (case prev_hash of None \<Rightarrow> False | Some prev \<Rightarrow> prev \<noteq> cb_prev_hash block) then
              (if batch = [] then PrefixReorg else Prefix batch None)
            else
              chained_prefix (u64_add expected_height 1) results (Some (cb_hash block)) (batch @ [block]))"

definition step_window ::
    "('b, 'm) cache_ext \<Rightarrow> 'x parse_ext_scheme \<Rightarrow> step_faults \<Rightarrow> node_rpc \<Rightarrow> task_env \<Rightarrow> ('b, 'm) db \<Rightarrow> u64
      \<Rightarrow> ingest_config \<Rightarrow> u64 \<Rightarrow> u64 \<Rightarrow> (step_error, progress \<times> ('b, 'm) db) result" where
  "step_window E X flts node env db start_height config tip_height next =
     (let last_height = min tip_height (sat_add64 next (sat_sub (window config) 1));
          (results, panicked) = fetch_window X node env [next..<Suc last_height] in
     bindE (map_err StepCache (latest_hash E (sf_prev flts) db)) (\<lambda>prev_hash.
       case chained_prefix next results prev_hash [] of
         PrefixReorg \<Rightarrow>
           bindE (map_err StepCache
                    (reorg_to_floor E (sf_floor_tip flts) (sf_floor_write flts) db (sat_sub next 2)
                       start_height)) (\<lambda>db'.
             Inr (Advanced, db'))
       | Prefix batch failure \<Rightarrow>
           bindE (if batch = [] then Inr db
                  else map_err StepCache (add_batch E (sf_add flts) db batch)) (\<lambda>db'.
             case (case failure of
                     Some error \<Rightarrow> Some (StepFetch error)
                   | None \<Rightarrow> map_option FetchTask panicked) of
               Some error \<Rightarrow> if batch = [] then Inl error else Inr (Advanced, db')
             | None \<Rightarrow> Inr (Advanced, db'))))"

definition step ::
    "('b, 'm) cache_ext \<Rightarrow> 'x parse_ext_scheme \<Rightarrow> step_faults \<Rightarrow> node_rpc \<Rightarrow> task_env \<Rightarrow> ('b, 'm) db \<Rightarrow> u64
      \<Rightarrow> ingest_config \<Rightarrow> (step_error, progress \<times> ('b, 'm) db) result" where
  "step E X flts node env db start_height config =
     bindE (map_err StepNode (rpc_get_blockchain_info node)) (\<lambda>info.
     bindE (step_decide E X flts info db start_height) (\<lambda>decision.
       case decision of
         Return p db' \<Rightarrow> Inr (p, db')
       | FetchFrom next \<Rightarrow>
           if next > gbi_blocks info then Inr (Idle, db)
           else step_window E X flts node env db start_height config (gbi_blocks info) next))"


section \<open>The loop\<close>

record ('b, 'm) ingestor =
  in_db :: "('b, 'm) db"
  in_signal :: repair_signal
  in_recoveries :: u32
  in_budget :: repair_budget

record pass_io =
  io_now :: nat
  io_node :: node_rpc
  io_env :: task_env
  io_step :: step_faults
  io_repair :: repair_faults
  io_scan :: faults
  io_recover :: faults

datatype sleep = NoSleep | IdlePoll | ErrorBackoff

definition run_iteration ::
    "('b, 'm) cache_ext \<Rightarrow> 'x parse_ext_scheme \<Rightarrow> u64 \<Rightarrow> ingest_config \<Rightarrow> pass_io \<Rightarrow> ('b, 'm) ingestor
      \<Rightarrow> ('b, 'm) ingestor \<times> sleep" where
  "run_iteration E X start_height config io st =
     (let (taken, signal) = signal_take (in_signal st);
          (db, signal, budget) =
            (case taken of
               None \<Rightarrow> (in_db st, signal, in_budget st)
             | Some height \<Rightarrow>
                 repair_reported E (io_repair io) (in_db st) height start_height signal (in_budget st)
                   (io_now io));
          st = st\<lparr>in_db := db, in_signal := signal, in_budget := budget\<rparr> in
      case step E X (io_step io) (io_node io) (io_env io) db start_height config of
        Inr (Advanced, db') \<Rightarrow> (st\<lparr>in_db := db', in_recoveries := 0\<rparr>, NoSleep)
      | Inr (Idle, db') \<Rightarrow> (st\<lparr>in_db := db', in_recoveries := 0\<rparr>, IdlePoll)
      | Inl error \<Rightarrow>
          if should_recover error (in_recoveries st) then
            (case recover E (io_scan io) (io_recover io) db of
               Inr db' \<Rightarrow> (st\<lparr>in_db := db', in_recoveries := u32_add (in_recoveries st) 1\<rparr>, NoSleep)
             | Inl _ \<Rightarrow> (st\<lparr>in_recoveries := u32_add (in_recoveries st) 1\<rparr>, ErrorBackoff))
          else (st\<lparr>in_recoveries := 0\<rparr>, ErrorBackoff))"

end
