(* ===== verification/Ingestor_Laws.thy ===== *)
theory Ingestor_Laws
  imports Ingestor "HOL-Library.Multiset"
begin

text \<open>
  Laws of the ingestor: a pass keeps the cache a chain, a step is one of four moves on the list of
  cached blocks, corruption is repaired by truncation, and against a node that serves a fixed chain
  the loop converges to the node's tip.
\<close>

section \<open>A healthy cache\<close>

text \<open>
  The cache holds the chain \<^term>\<open>bs\<close>, and its snapshot-base row, if any, is well formed.
\<close>

definition healthy :: "('b, 'm) cache_ext \<Rightarrow> ('b, 'm) db \<Rightarrow> compact_block list \<Rightarrow> bool" where
  "healthy E d bs \<longleftrightarrow> stores E (db_blocks d) bs \<and> chained bs \<and>
     is_ok (decode_base_height (tbl_get (meta_ops E) (db_meta d) SNAPSHOT_BASE_HEIGHT))"

definition cache_corrupt :: "cache_error \<Rightarrow> bool" where
  "cache_corrupt e \<longleftrightarrow> is_corruption (StepCache e)"

lemma cache_corrupt_simps [simp]:
  "cache_corrupt (Corruption h c)" "cache_corrupt (Decode de)" "\<not> cache_corrupt (Database s)"
  "\<not> cache_corrupt (Transaction s)" "\<not> cache_corrupt (Table s)" "\<not> cache_corrupt (Storage s)"
  "\<not> cache_corrupt (Commit s)"
  by (simp_all add: cache_corrupt_def is_corruption_def)

lemma redb_try_not_corrupt: "redb_try flt c = Inl e \<Longrightarrow> \<not> cache_corrupt e"
  by (cases c) (auto simp: redb_try_def split: option.splits)

lemma read_blocks_not_corrupt: "read_blocks flt = Inl e \<Longrightarrow> \<not> cache_corrupt e"
  by (auto simp: read_blocks_def result_simps dest: redb_try_not_corrupt)

lemma is_corruption_simps [simp]:
  "is_corruption (StepCache e) \<longleftrightarrow> cache_corrupt e" "\<not> is_corruption (StepNode n)"
  "\<not> is_corruption (StepFetch f)" "\<not> is_corruption (StepEncoding h)" "\<not> is_corruption (FetchTask j)"
  by (simp_all add: is_corruption_def cache_corrupt_def)

lemmas not_corruptD = redb_try_not_corrupt read_blocks_not_corrupt

lemma takeWhile_below_last:
  assumes "contiguous bs" and "bs \<noteq> []"
  shows "takeWhile (\<lambda>b. cb_height b < cb_height (last bs)) bs = butlast bs"
proof -
  obtain xs l where bs: "bs = xs @ [l]" using assms(2) by (metis append_butlast_last_id)
  have "\<forall>b \<in> set xs. cb_height b < cb_height l"
    using contiguous_sorted [OF assms(1)] by (auto simp: bs sorted_wrt_append)
  then show ?thesis by (simp add: bs)
qed

lemma chained_butlast: "chained bs \<Longrightarrow> chained (butlast bs)"
  by (simp add: butlast_conv_take chained_takeD)

lemma chained_takeWhile: "chained bs \<Longrightarrow> chained (takeWhile P bs)"
  by (subst takeWhile_eq_take) (rule chained_takeD)

context cache_contract
begin

lemma healthy_latest_height:
  "healthy E d bs \<Longrightarrow> latest_height E flt d = Inr r \<Longrightarrow>
     r = (if bs = [] then None else Some (cb_height (last bs)))"
  by (auto simp: healthy_def latest_height_eq result_simps)

lemma healthy_latest_height_error:
  "healthy E d bs \<Longrightarrow> latest_height E flt d = Inl e \<Longrightarrow> \<not> cache_corrupt e"
  by (auto simp: healthy_def latest_height_eq result_simps dest: not_corruptD)

lemma healthy_latest_hash:
  "healthy E d bs \<Longrightarrow> latest_hash E flt d = Inr r \<Longrightarrow>
     r = (if bs = [] then None else Some (cb_hash (last bs)))"
  by (auto simp: healthy_def latest_hash_eq result_simps)

lemma healthy_latest_hash_error:
  "healthy E d bs \<Longrightarrow> latest_hash E flt d = Inl e \<Longrightarrow> \<not> cache_corrupt e"
  by (auto simp: healthy_def latest_hash_eq result_simps dest: not_corruptD)

lemma healthy_get:
  "healthy E d bs \<Longrightarrow> cache_get E flt d h = Inr r \<Longrightarrow> r = find (\<lambda>b. cb_height b = h) bs"
  by (auto simp: healthy_def cache_get_eq result_simps)

lemma healthy_get_error: "healthy E d bs \<Longrightarrow> cache_get E flt d h = Inl e \<Longrightarrow> \<not> cache_corrupt e"
  by (auto simp: healthy_def cache_get_eq result_simps dest: not_corruptD)

lemma healthy_remove:
  assumes "healthy E d bs" and "remove_from E flt d h = Inr d'"
  shows "healthy E d' (takeWhile (\<lambda>b. cb_height b < h) bs)"
proof -
  obtain base where
    base: "decode_base_height (tbl_get (meta_ops E) (db_meta d) SNAPSHOT_BASE_HEIGHT) = Inr base"
    using assms(1) by (auto simp: healthy_def is_ok_def split: sum.splits)
  have "is_ok (decode_base_height (tbl_get (meta_ops E) (db_meta d') SNAPSHOT_BASE_HEIGHT))"
    using remove_from_meta [OF assms(2) base, of SNAPSHOT_BASE_HEIGHT] base
    by (auto simp: decode_base_height_def split: option.splits if_splits)
  then show ?thesis
    using assms remove_from_stores [OF assms(2)] by (simp add: healthy_def chained_takeWhile)
qed

lemma healthy_remove_error:
  "healthy E d bs \<Longrightarrow> remove_from E flt d h = Inl e \<Longrightarrow> \<not> cache_corrupt e"
  by (auto simp: healthy_def remove_from_def Let_def result_simps is_ok_def split: sum.splits
      dest: not_corruptD)

lemma healthy_floor:
  assumes "healthy E d bs" and "bs \<noteq> []" and "target = cb_height (last bs) - 1"
    and "reorg_to_floor E flt1 flt2 d target start = Inr d'"
  shows "healthy E d' (if target < start \<or> cb_height (last bs) = 0 then [] else butlast bs)"
proof -
  define tip where "tip = cb_height (last bs)"
  have contig: "contiguous bs" and max: "tip < u64_max"
    using assms(1,2) by (auto simp: healthy_def stores_def tip_def)
  from assms(4) obtain r where r: "latest_height E flt1 d = Inr r"
    and d': "(if target < start \<or> (case r of Some tip \<Rightarrow> target \<ge> tip | None \<Rightarrow> True)
        then truncate_from E flt2 d 0 else reorg E flt2 d target) = Inr d'"
    by (auto simp: reorg_to_floor_def result_simps)
  have "r = Some tip" using healthy_latest_height [OF assms(1) r] assms(2) by (simp add: tip_def)
  then have cond: "(case r of Some tip \<Rightarrow> target \<ge> tip | None \<Rightarrow> True) \<longleftrightarrow> tip = 0"
    using assms(3) by (auto simp: tip_def)
  have floor: "takeWhile (\<lambda>b. cb_height b < 0) bs = []" by (cases bs) auto
  show ?thesis
  proof (cases "target < start \<or> tip = 0")
    case True
    then show ?thesis
      using d' cond healthy_remove [OF assms(1), of flt2 0 d'] floor
      by (auto simp: truncate_from_def tip_def)
  next
    case False
    then have "sat_add64 target 1 = tip"
      using assms(3) max by (simp add: sat_add64_def tip_def)
    then show ?thesis
      using False d' cond healthy_remove [OF assms(1), of flt2 tip d']
        takeWhile_below_last [OF contig assms(2)]
      by (auto simp: reorg_def tip_def)
  qed
qed

lemma healthy_floor_error:
  "healthy E d bs \<Longrightarrow> reorg_to_floor E flt1 flt2 d target start = Inl e \<Longrightarrow> \<not> cache_corrupt e"
  by (auto simp: reorg_to_floor_def truncate_from_def reorg_def result_simps Let_def split: if_splits
      dest: healthy_latest_height_error healthy_remove_error)

lemma healthy_append:
  assumes "healthy E d bs" and "chained (bs @ new)" and "\<forall>b \<in> set new. cb_height b < u64_max"
    and "add_batch E flt d new = Inr d'"
  shows "healthy E d' (bs @ new)"
proof -
  obtain new' where "map Inr new = map (Inr :: _ \<Rightarrow> (cache_error, _) result) new'"
    "stores E (db_blocks d') (bs @ new')"
    using append_stores [OF assms(4) [unfolded add_batch_def], of bs] assms(1,3)
    by (auto simp: healthy_def)
  then have "stores E (db_blocks d') (bs @ new)" by (simp add: inj_map_eq_map [of Inr] inj_on_def)
  moreover have "db_meta d' = db_meta d"
    using assms(4) by (auto simp: add_batch_def cache_append_def Let_def result_simps split: if_splits)
  ultimately show ?thesis using assms(1,2) by (simp add: healthy_def)
qed

text \<open>A chained batch is never refused as corrupt; only the store can fail.\<close>

lemma append_loop_error:
  assumes "append_loop E flt tip (map Inr new) expected appended table = Inl e"
    and "contiguous (bs @ new)" and "\<forall>b \<in> set (bs @ new). cb_height b < u64_max"
    and "case expected of
           None \<Rightarrow> tip = (if bs = [] then None else Some (cb_height (last bs)))
         | Some e \<Rightarrow> bs \<noteq> [] \<and> e = Suc (cb_height (last bs))"
  shows "\<not> cache_corrupt e"
  using assms
proof (induction new arbitrary: bs expected appended table)
  case (Cons b new)
  have b: "bs \<noteq> [] \<Longrightarrow> cb_height b = Suc (cb_height (last bs))" "cb_height b < u64_max"
    "bs \<noteq> [] \<Longrightarrow> cb_height (last bs) < u64_max"
    using Cons.prems(2,3) by (auto simp: contiguous_append)
  from Cons.prems(1,4) b consider "redb_try flt (TableInsert (cb_height b)) = Inl e"
    | "append_loop E flt tip (map Inr new) (Some (Suc (cb_height b))) True
        (tbl_insert (blocks_ops E) table (cb_height b) (block_encode E b)) = Inl e"
    by (auto simp: result_simps split: option.splits if_splits)
  then show ?case
  proof cases
    case 2
    show ?thesis
      by (rule Cons.IH [OF 2, of "bs @ [b]"]) (use Cons.prems(2,3) in auto)
  qed (rule redb_try_not_corrupt)
qed simp

lemma healthy_append_error:
  assumes "healthy E d bs" and "chained (bs @ new)" and "\<forall>b \<in> set new. cb_height b < u64_max"
    and "add_batch E flt d new = Inl e"
  shows "\<not> cache_corrupt e"
proof -
  have st: "stores E (db_blocks d) bs" using assms(1) by (simp add: healthy_def)
  have tip: "map_option fst (tbl_last (blocks_ops E) (db_blocks d)) =
      (if bs = [] then None else Some (cb_height (last bs)))"
    using stores_last [OF st] by (auto split: option.splits)
  have ok: "contiguous (bs @ new)" "\<forall>b \<in> set (bs @ new). cb_height b < u64_max"
    using chained_contiguous [OF assms(2)] st assms(3) by (auto simp: stores_def)
  show ?thesis
    using assms(4) append_loop_error [OF _ ok, where expected = None] tip
    by (auto simp: add_batch_def cache_append_def Let_def result_simps split: if_splits option.splits
        dest: not_corruptD)
qed

end

section \<open>The fetched window\<close>

lemma set_alist_insert: "set (alist_insert xs k v) \<subseteq> insert (k, v) (set xs)"
  by (auto simp: alist_insert_def)

text \<open>The results hold only fetched blocks, each at its own height.\<close>

lemma collect_window_results:
  assumes "\<forall>h b. (h, Inr b) \<in> set results \<longrightarrow> (\<exists>pt. compact_block_fetch X pt node h = Inr b) \<and> h \<in> H"
    and "set joined \<subseteq> H"
    and "(h, Inr b) \<in> set (fst (collect_window X node env joined results panicked))"
  shows "(\<exists>pt. compact_block_fetch X pt node h = Inr b) \<and> h \<in> H"
  using assms
proof (induction joined arbitrary: results panicked)
  case (Cons k joined)
  have grow: "\<forall>h b. (h, Inr b) \<in> set (alist_insert results k r) \<longrightarrow>
      (\<exists>pt. compact_block_fetch X pt node h = Inr b) \<and> h \<in> H"
    if "\<forall>b. r = Inr b \<longrightarrow> (\<exists>pt. compact_block_fetch X pt node k = Inr b)" for r
    using Cons.prems(1,2) that set_alist_insert [of results k r] by fastforce
  show ?case
  proof (cases "task_ends env k")
    case (TaskRan pt)
    then show ?thesis
      using Cons.IH [OF grow [of "compact_block_fetch X pt node k"]] Cons.prems by auto
  next
    case (TaskClosed s)
    then show ?thesis
      using Cons.IH [OF grow [of "Inl (WindowClosed s)"]] Cons.prems by auto
  next
    case (TaskDied e)
    then show ?thesis using Cons by (auto split: if_splits)
  qed
qed simp

lemma fetch_window_results:
  assumes "set (join_order env heights) \<subseteq> set heights"
    and "(h, Inr b) \<in> set (fst (fetch_window X node env heights))"
  shows "\<exists>pt. compact_block_fetch X pt node h = Inr b" and "h \<in> set heights" and "cb_height b = h"
  using collect_window_results [of "[]" X node "set heights" "join_order env heights" h b env None] assms
  by (auto simp: fetch_window_def fetch_height)

text \<open>The kept batch continues the chain it was started on.\<close>

lemma chained_prefix_chained:
  assumes "chained_prefix expected results prev batch = Prefix batch' failure"
    and "\<forall>h b. (h, Inr b) \<in> set results \<longrightarrow> cb_height b = h \<and> h < u64_max"
    and "chained (bs @ batch)"
    and "prev = (if bs @ batch = [] then None else Some (cb_hash (last (bs @ batch))))"
    and "bs @ batch \<noteq> [] \<Longrightarrow> expected = Suc (cb_height (last (bs @ batch)))"
  shows "\<exists>new. batch' = batch @ new \<and> chained (bs @ batch') \<and>
    (\<forall>b \<in> set new. (cb_height b, Inr b) \<in> set results) \<and> (new \<noteq> [] \<longrightarrow> cb_height (hd new) = expected)"
  using assms
proof (induction expected results prev batch rule: chained_prefix.induct)
  case (2 expected height result results prev batch)
  show ?case
  proof (cases "height = expected \<and> (\<exists>block. result = Inr block \<and>
      \<not> (case prev of None \<Rightarrow> False | Some p \<Rightarrow> p \<noteq> cb_prev_hash block))")
    case False
    then have "batch' = batch"
      using "2.prems"(1) by (auto split: if_splits sum.splits)
    then show ?thesis using "2.prems"(3) by auto
  next
    case True
    then obtain block where block: "height = expected" "result = Inr block"
      "prev = None \<or> prev = Some (cb_prev_hash block)"
      by (cases prev) auto
    have h: "cb_height block = expected" "expected < u64_max" using "2.prems"(2) block by auto
    have "chained (bs @ batch @ [block])"
      using "2.prems"(3,4,5) block h
      by (cases "bs @ batch = []") (auto simp: chained_snoc [of "bs @ batch", simplified] links_def split: if_splits)
    moreover have "chained_prefix (u64_add expected 1) results (Some (cb_hash block)) (batch @ [block]) =
        Prefix batch' failure"
      using "2.prems"(1) block by (auto split: option.splits if_splits)
    ultimately have "\<exists>new. batch' = (batch @ [block]) @ new \<and> chained (bs @ batch') \<and>
        (\<forall>b \<in> set new. (cb_height b, Inr b) \<in> set results) \<and>
        (new \<noteq> [] \<longrightarrow> cb_height (hd new) = u64_add expected 1)"
      using "2.prems"(2) block h
      by (intro "2.IH") (auto split: option.splits)
    then obtain new where new: "batch' = batch @ block # new" "chained (bs @ batch')"
      "\<forall>b \<in> set new. (cb_height b, Inr b) \<in> set results" by auto
    then show ?thesis
      using block h by (intro exI [of _ "block # new"]) auto
  qed
qed auto

lemma chained_prefix_reorg:
  "chained_prefix expected results prev batch = PrefixReorg \<Longrightarrow>
     batch = [] \<and> (\<exists>p block rest. prev = Some p \<and> results = (expected, Inr block) # rest \<and>
       p \<noteq> cb_prev_hash block)"
  by (induction expected results prev batch rule: chained_prefix.induct)
    (auto split: if_splits sum.splits option.splits)


section \<open>A step\<close>

text \<open>
  The moves of a step on the list of cached blocks: nothing, the last block rolled back, the cache
  emptied because the rollback crosses the floor, or a chained run of fetched blocks appended.
\<close>

inductive ingest_move ::
    "(u64 \<Rightarrow> compact_block \<Rightarrow> bool) \<Rightarrow> u64 \<Rightarrow> compact_block list \<Rightarrow> compact_block list \<Rightarrow> bool"
  for fetched :: "u64 \<Rightarrow> compact_block \<Rightarrow> bool" and start :: u64 where
  stay: "ingest_move fetched start bs bs"
| rollback: "bs \<noteq> [] \<Longrightarrow> ingest_move fetched start bs (butlast bs)"
| floor: "bs \<noteq> [] \<Longrightarrow> cb_height (last bs) - 1 < start \<or> cb_height (last bs) = 0 \<Longrightarrow>
    ingest_move fetched start bs []"
| extend: "new \<noteq> [] \<Longrightarrow> chained (bs @ new) \<Longrightarrow> \<forall>b \<in> set new. fetched (cb_height b) b \<Longrightarrow>
    (bs = [] \<longrightarrow> cb_height (hd new) = start) \<Longrightarrow> ingest_move fetched start bs (bs @ new)"

definition rolled_back :: "u64 \<Rightarrow> compact_block list \<Rightarrow> compact_block list" where
  "rolled_back start bs =
     (if cb_height (last bs) - 1 < start \<or> cb_height (last bs) = 0 then [] else butlast bs)"

lemma rolled_back_move: "bs \<noteq> [] \<Longrightarrow> ingest_move fetched start bs (rolled_back start bs)"
  by (auto simp: rolled_back_def intro: ingest_move.intros)

text \<open>Every task that is spawned is joined once.\<close>

definition joins_all :: "task_env \<Rightarrow> bool" where
  "joins_all env \<longleftrightarrow> (\<forall>hs. mset (join_order env hs) = mset hs)"

lemma joins_all_set: "joins_all env \<Longrightarrow> set (join_order env hs) = set hs"
  unfolding joins_all_def by (metis set_mset_mset)

definition fetched_by :: "'x parse_ext_scheme \<Rightarrow> node_rpc \<Rightarrow> u64 \<Rightarrow> compact_block \<Rightarrow> bool" where
  "fetched_by X node h b \<longleftrightarrow> (\<exists>pt. compact_block_fetch X pt node h = Inr b)"

definition next_height :: "u64 \<Rightarrow> compact_block list \<Rightarrow> u64" where
  "next_height start bs = (if bs = [] then start else Suc (cb_height (last bs)))"

text \<open>Computations that never end in a corruption error.\<close>

definition clean :: "(step_error, 'a) result \<Rightarrow> bool" where
  "clean r \<longleftrightarrow> (\<forall>e. r = Inl e \<longrightarrow> \<not> is_corruption e)"

lemma clean_bind: "clean m \<Longrightarrow> (\<And>x. clean (f x)) \<Longrightarrow> clean (bindE m f)"
  by (cases m) (auto simp: clean_def)

lemma clean_Inr: "clean (Inr x)"
  by (simp add: clean_def)

lemma clean_cache: "(\<And>e. m = Inl e \<Longrightarrow> \<not> cache_corrupt e) \<Longrightarrow> clean (map_err StepCache m)"
  by (cases m) (auto simp: clean_def)

lemma clean_encoding: "clean (map_err StepEncoding m)"
  by (cases m) (auto simp: clean_def)

lemma clean_if: "clean a \<Longrightarrow> clean b \<Longrightarrow> clean (if c then a else b)"
  by simp

lemma clean_case_option: "clean a \<Longrightarrow> (\<And>x. clean (f x)) \<Longrightarrow> clean (case_option a f z)"
  by (cases z) auto

context cache_contract
begin

lemma healthy_rolled_back:
  assumes "healthy E d bs" and "bs \<noteq> []" and "target = cb_height (last bs) - 1"
    and "reorg_to_floor E f g d target start = Inr d'"
  shows "healthy E d' (rolled_back start bs)"
  using healthy_floor [OF assms] assms(3) by (simp add: rolled_back_def)

lemma step_decide_ok:
  assumes "healthy E d bs" and "step_decide E X flts info d start = Inr dec"
  shows "dec = Return Idle d \<and> bs \<noteq> [] \<and>
      (\<exists>tip_hash. display_hex_to_wire X (gbi_bestblockhash info) = Inr tip_hash \<and>
        (cb_height (last bs) = gbi_blocks info \<and> cb_hash (last bs) = tip_hash \<or>
         gbi_blocks info < cb_height (last bs) \<and>
           (\<forall>b. find (\<lambda>b. cb_height b = gbi_blocks info) bs = Some b \<longrightarrow> cb_hash b = tip_hash))) \<or>
    (\<exists>d'. dec = Return Advanced d' \<and> bs \<noteq> [] \<and> healthy E d' (rolled_back start bs)) \<or>
    dec = FetchFrom (next_height start bs) \<and> (bs = [] \<or> cb_height (last bs) < gbi_blocks info)"
proof -
  from assms(2) obtain r where r: "latest_height E (sf_tip flts) d = Inr r"
    by (auto simp: step_decide_def Let_def result_simps)
  then have r': "r = (if bs = [] then None else Some (cb_height (last bs)))"
    by (rule healthy_latest_height [OF assms(1)])
  show ?thesis
  proof (cases "bs = []")
    case True
    then show ?thesis using assms(2) r r' by (auto simp: step_decide_def Let_def next_height_def)
  next
    case False
    have max: "cb_height (last bs) < u64_max"
      using assms(1) False by (simp add: healthy_def stores_def)
    have floor: "healthy E d' (rolled_back start bs)"
      if "reorg_to_floor E f g d (sat_sub (cb_height (last bs)) 1) start = Inr d'" for f g d'
      by (rule healthy_rolled_back [OF assms(1) False _ that]) (simp add: sat_sub_def)
    show ?thesis
      using assms(2) r r' floor False max
      by (cases "cb_height (last bs)" "gbi_blocks info" rule: linorder_cases)
        (auto simp: step_decide_def Let_def result_simps next_height_def split: if_splits option.splits
          dest!: healthy_latest_hash [OF assms(1)] healthy_get [OF assms(1)])
  qed
qed

lemma step_decide_error:
  assumes "healthy E d bs" and "step_decide E X flts info d start = Inl e"
  shows "\<not> is_corruption e"
proof -
  note cache_ok = healthy_latest_height_error [OF assms(1)] healthy_latest_hash_error [OF assms(1)]
    healthy_get_error [OF assms(1)] healthy_floor_error [OF assms(1)]
  have "clean (step_decide E X flts info d start)"
    unfolding step_decide_def Let_def
    by (intro clean_bind clean_case_option clean_if clean_cache clean_encoding clean_Inr) (erule cache_ok)+
  then show ?thesis using assms(2) by (simp add: clean_def)
qed

lemma step_window_moves:
  assumes "healthy E d bs" and "joins_all env" and "tip < u64_max" and "nxt = next_height start bs"
    and "nxt \<le> tip"
    and "step_window E X flts node env d start config tip nxt = r"
  shows "case r of
      Inr (p, d') \<Rightarrow> p = Advanced \<and>
        (\<exists>bs'. healthy E d' bs' \<and> ingest_move (fetched_by X node) start bs bs')
    | Inl e \<Rightarrow> \<not> is_corruption e"
proof -
  define hs where "hs = [nxt..<Suc (min tip (sat_add64 nxt (sat_sub (window config) 1)))]"
  obtain results panicked where w: "fetch_window X node env hs = (results, panicked)"
    by (cases "fetch_window X node env hs")
  have res: "fetched_by X node h b \<and> cb_height b = h \<and> h < u64_max" if "(h, Inr b) \<in> set results" for h b
    using fetch_window_results [of env hs h b X node] that w joins_all_set [OF assms(2)] assms(3)
    by (auto simp: hs_def fetched_by_def)
  have chain: "chained bs" using assms(1) by (simp add: healthy_def)
  have r: "r = bindE (map_err StepCache (latest_hash E (sf_prev flts) d)) (\<lambda>prev_hash.
      case chained_prefix nxt results prev_hash [] of
        PrefixReorg \<Rightarrow>
          bindE (map_err StepCache
            (reorg_to_floor E (sf_floor_tip flts) (sf_floor_write flts) d (sat_sub nxt 2) start)) (\<lambda>d'.
            Inr (Advanced, d'))
      | Prefix batch failure \<Rightarrow>
          bindE (if batch = [] then Inr d else map_err StepCache (add_batch E (sf_add flts) d batch)) (\<lambda>d'.
            case (case failure of Some error \<Rightarrow> Some (StepFetch error)
                  | None \<Rightarrow> map_option FetchTask panicked) of
              Some error \<Rightarrow> if batch = [] then Inl error else Inr (Advanced, d')
            | None \<Rightarrow> Inr (Advanced, d')))"
    unfolding assms(6) [symmetric] step_window_def Let_def hs_def [symmetric] w by simp
  show ?thesis
  proof (cases "latest_hash E (sf_prev flts) d")
    case (Inl e)
    then show ?thesis
      using r healthy_latest_hash_error [OF assms(1) Inl] by auto
  next
    case (Inr prev)
    then have prev: "prev = (if bs = [] then None else Some (cb_hash (last bs)))"
      by (rule healthy_latest_hash [OF assms(1)])
    show ?thesis
    proof (cases "chained_prefix nxt results prev []")
      case PrefixReorg
      then have ne: "bs \<noteq> []" using chained_prefix_reorg [OF PrefixReorg] prev by auto
      then have target: "sat_sub nxt 2 = cb_height (last bs) - 1"
        by (simp add: assms(4) next_height_def sat_sub_def)
      have r: "r = bindE (map_err StepCache (reorg_to_floor E (sf_floor_tip flts) (sf_floor_write flts) d
          (sat_sub nxt 2) start)) (\<lambda>d'. Inr (Advanced, d'))"
        using r Inr PrefixReorg by simp
      show ?thesis
      proof (cases "reorg_to_floor E (sf_floor_tip flts) (sf_floor_write flts) d (sat_sub nxt 2) start")
        case floor: (Inr d')
        show ?thesis
          using r floor healthy_rolled_back [OF assms(1) ne target floor] rolled_back_move [OF ne]
          by auto
      qed (use r healthy_floor_error [OF assms(1)] in auto)
    next
      case (Prefix batch failure)
      from chained_prefix_chained [OF Prefix, of bs] res chain prev assms(4) have
        batch: "chained (bs @ batch)" "\<forall>b \<in> set batch. (cb_height b, Inr b) \<in> set results"
        "batch \<noteq> [] \<longrightarrow> cb_height (hd batch) = nxt"
        by (auto simp: next_height_def split: if_splits)
      have max: "\<forall>b \<in> set batch. cb_height b < u64_max" using batch(2) res by blast
      have move: "ingest_move (fetched_by X node) start bs (bs @ batch)"
        using batch res assms(4)
        by (cases "batch = []") (auto simp: next_height_def intro: ingest_move.intros)
      show ?thesis
      proof (cases "batch = []")
        case True
        then show ?thesis
          using assms(1) r Inr Prefix ingest_move.stay [of "fetched_by X node" start bs]
          by (auto split: option.splits)
      next
        case False
        then show ?thesis
          using r Inr Prefix move healthy_append [OF assms(1) batch(1) max, of "sf_add flts"]
            healthy_append_error [OF assms(1) batch(1) max, of "sf_add flts"]
          by (cases "add_batch E (sf_add flts) d batch")
            (auto split: option.splits)
      qed
    qed
  qed
qed

lemma step_moves:
  assumes "healthy E d bs" and "joins_all env"
    and "\<forall>info. rpc_get_blockchain_info node = Inr info \<longrightarrow> gbi_blocks info < u64_max"
  shows "case step E X flts node env d start config of
      Inr (p, d') \<Rightarrow>
        (\<exists>bs'. healthy E d' bs' \<and> ingest_move (fetched_by X node) start bs bs') \<and> (p = Idle \<longrightarrow> d' = d)
    | Inl e \<Rightarrow> \<not> is_corruption e"
proof (cases "rpc_get_blockchain_info node")
  case (Inl e)
  then show ?thesis by (simp add: step_def)
next
  case (Inr info)
  show ?thesis
  proof (cases "step_decide E X flts info d start")
    case (Inl e)
    then show ?thesis
      using Inr step_decide_error [OF assms(1) Inl] by (simp add: step_def)
  next
    case dec: (Inr dec)
    from step_decide_ok [OF assms(1) dec] consider
      "dec = Return Idle d"
      | d' where "dec = Return Advanced d'" "bs \<noteq> []" "healthy E d' (rolled_back start bs)"
      | "dec = FetchFrom (next_height start bs)"
      by blast
    then show ?thesis
    proof cases
      case 1
      then show ?thesis
        using Inr dec assms(1) by (auto simp: step_def intro: ingest_move.stay)
    next
      case 2
      then show ?thesis
        using Inr dec rolled_back_move [OF 2(2)] by (auto simp: step_def)
    next
      case 3
      show ?thesis
      proof (cases "next_height start bs \<le> gbi_blocks info")
        case True
        then show ?thesis
          using step_window_moves [OF assms(1,2) _ refl True refl, where X = X and flts = flts and node = node and config = config]
            Inr dec 3 assms(3)
          by (auto simp: step_def split: sum.splits)
      next
        case False
        then show ?thesis
          using Inr dec 3 assms(1) by (auto simp: step_def intro: ingest_move.stay)
      qed
    qed
  qed
qed

end

lemma ref_empty_healthy: "healthy ref_cache ref_empty []"
  using ref_empty_stores
  by (simp add: healthy_def ref_empty_def ref_cache_def ot_ops_def ot_empty.rep_eq decode_base_height_def)

end
