(* ===== verification/Ingestor_Sync.thy ===== *)
theory Ingestor_Sync
  imports Ingestor_Laws
begin

text \<open>
  Convergence of the ingestor: against a node that keeps serving one chain, with no store failures
  and every fetch task running to its end, repeated steps reach the idle state at the node's tip, and
  the number of steps is bounded.
\<close>

section \<open>Fault-free operations\<close>

lemma redb_try_no_faults [simp]: "redb_try no_faults c = Inr ()"
  by (simp add: redb_try_def no_faults_def)

lemma read_blocks_no_faults [simp]: "read_blocks no_faults = Inr ()"
  by (simp add: read_blocks_def)

definition no_step_faults :: step_faults where
  "no_step_faults =
     \<lparr>sf_tip = no_faults, sf_hash = no_faults, sf_get = no_faults, sf_floor_tip = no_faults,
      sf_floor_write = no_faults, sf_prev = no_faults, sf_add = no_faults\<rparr>"

lemma no_step_faults_sel [simp]:
  "sf_tip no_step_faults = no_faults" "sf_hash no_step_faults = no_faults"
  "sf_get no_step_faults = no_faults" "sf_floor_tip no_step_faults = no_faults"
  "sf_floor_write no_step_faults = no_faults" "sf_prev no_step_faults = no_faults"
  "sf_add no_step_faults = no_faults"
  by (simp_all add: no_step_faults_def)

context cache_contract
begin

lemma remove_from_total: "healthy E d bs \<Longrightarrow> \<exists>d'. remove_from E no_faults d h = Inr d'"
  by (auto simp: healthy_def remove_from_def Let_def is_ok_def split: sum.splits)

lemma floor_total:
  assumes "healthy E d bs" and "bs \<noteq> []" and "target = cb_height (last bs) - 1"
  shows "\<exists>d'. reorg_to_floor E no_faults no_faults d target start = Inr d' \<and>
    healthy E d' (rolled_back start bs)"
proof -
  have "\<exists>d'. reorg_to_floor E no_faults no_faults d target start = Inr d'"
    using remove_from_total [OF assms(1)] assms(1)
    by (auto simp: reorg_to_floor_def truncate_from_def reorg_def healthy_def latest_height_eq Let_def)
  with healthy_rolled_back [OF assms] show ?thesis by blast
qed

lemma append_total:
  assumes "healthy E d bs" and "chained (bs @ new)" and "\<forall>b \<in> set new. cb_height b < u64_max"
  shows "\<exists>d'. add_batch E no_faults d new = Inr d' \<and> healthy E d' (bs @ new)"
proof -
  have "contiguous new" "bs = [] \<or> new = [] \<or> cb_height (hd new) = Suc (cb_height (last bs))"
    using chained_contiguous [OF assms(2)] by (auto simp: contiguous_append)
  then obtain d' where "add_batch E no_faults d new = Inr d'"
    using add_batch_accepts [of d bs new] assms(1,3) by (auto simp: healthy_def)
  with healthy_append [OF assms] show ?thesis by blast
qed

end


section \<open>A complete window\<close>

definition all_run :: "task_env \<Rightarrow> bool" where
  "all_run env \<longleftrightarrow> joins_all env \<and> (\<forall>h. task_ends env h = TaskRan None)"

lemma collect_all_run:
  assumes "\<forall>h. task_ends env h = TaskRan None"
  shows "collect_window X node env joined results panicked =
    (fold (\<lambda>h r. alist_insert r h (compact_block_fetch X None node h)) joined results, panicked)"
  using assms by (induction joined arbitrary: results) auto

lemma set_alist_insert_eq:
  "set (alist_insert xs k v) = insert (k, v) {e \<in> set xs. fst e \<noteq> (k :: 'k :: linorder)}"
  by (auto simp: alist_insert_def)

lemma sorted_alist_insert:
  "sorted_wrt (<) (map fst xs) \<Longrightarrow> sorted_wrt (<) (map fst (alist_insert xs k v))"
  by (auto simp: alist_insert_def sorted_wrt_append sorted_filter_keys)

lemma fold_insert_distinct:
  assumes "distinct hs" and "fst ` set r \<inter> set hs = {}" and "sorted_wrt (<) (map fst r)"
  shows "set (fold (\<lambda>h r. alist_insert r h (f h)) hs r) = set r \<union> (\<lambda>h. (h, f h)) ` set hs \<and>
    sorted_wrt (<) (map fst (fold (\<lambda>h r. alist_insert r h (f h)) hs r))"
  using assms
proof (induction hs arbitrary: r)
  case (Cons h hs)
  let ?r = "alist_insert r h (f h)"
  have set: "set ?r = insert (h, f h) (set r)"
    using Cons.prems(2) by (auto simp: set_alist_insert_eq)
  have "fst ` set ?r \<inter> set hs = {}" using Cons.prems(1,2) set by auto
  then show ?case
    using Cons.IH [of ?r] Cons.prems(1,3) sorted_alist_insert [of r h "f h"] set by auto
qed simp

lemma fetch_window_all:
  assumes "all_run env"
  shows "fetch_window X node env [n..<m] =
    (map (\<lambda>h. (h, compact_block_fetch X None node h)) [n..<m], None)"
proof -
  let ?f = "compact_block_fetch X None node"
  define rs where "rs = fold (\<lambda>h r. alist_insert r h (?f h)) (join_order env [n..<m]) []"
  have ms: "mset (join_order env [n..<m]) = mset [n..<m]" using assms by (simp add: all_run_def joins_all_def)
  have set: "set (join_order env [n..<m]) = set [n..<m]" using ms by (rule mset_eq_setD)
  have dist: "distinct (join_order env [n..<m])" using ms by (metis distinct_upt mset_eq_imp_distinct_iff)
  from fold_insert_distinct [OF dist, of "[]" ?f] set have
    rs: "set rs = (\<lambda>h. (h, ?f h)) ` {n..<m}" "sorted_wrt (<) (map fst rs)"
    by (auto simp: rs_def)
  have "map fst rs = [n..<m]"
    using rs by (intro sorted_distinct_set_unique) (auto simp: strict_sorted_iff image_image)
  moreover have "rs = map (\<lambda>h. (h, ?f h)) (map fst rs)"
    using rs(1) by (auto intro!: map_idI [symmetric])
  ultimately have "rs = map (\<lambda>h. (h, ?f h)) [n..<m]" by simp
  then show ?thesis
    using collect_all_run [of env X node "join_order env [n..<m]" "[]" None] assms
    by (simp add: fetch_window_def all_run_def rs_def)
qed

lemma chained_prefix_all:
  assumes "m \<le> u64_max" and "\<forall>h. n \<le> h \<and> Suc h < m \<longrightarrow> links (C h) (C (Suc h))"
    and "n < m \<longrightarrow> prev = None \<or> prev = Some (cb_prev_hash (C n))"
  shows "chained_prefix n (map (\<lambda>h. (h, Inr (C h))) [n..<m]) prev batch = Prefix (batch @ map C [n..<m]) None"
  using assms(2,3)
proof (induction "m - n" arbitrary: n prev batch)
  case (Suc k)
  then have n: "[n..<m] = n # [Suc n..<m]" "n < m" by (simp_all add: upt_conv_Cons)
  have "chained_prefix (Suc n) (map (\<lambda>h. (h, Inr (C h))) [Suc n..<m]) (Some (cb_hash (C n))) (batch @ [C n]) =
      Prefix ((batch @ [C n]) @ map C [Suc n..<m]) None"
    using Suc.hyps Suc.prems(1) by (intro Suc.hyps(1)) (auto simp: links_def)
  then show ?case using n Suc.prems(2) assms(1) by auto
qed simp


section \<open>Progress of one step\<close>

text \<open>The node's tip is \<^term>\<open>C tip\<close>, and it serves the linked blocks \<^term>\<open>C h\<close> from \<^term>\<open>start\<close> up.\<close>

definition serves ::
    "'x parse_ext_scheme \<Rightarrow> node_rpc \<Rightarrow> (u64 \<Rightarrow> compact_block) \<Rightarrow> u64 \<Rightarrow> u64 \<Rightarrow> bool" where
  "serves X node C start tip \<longleftrightarrow>
     (\<exists>info. rpc_get_blockchain_info node = Inr info \<and> gbi_blocks info = tip \<and>
        display_hex_to_wire X (gbi_bestblockhash info) = Inr (cb_hash (C tip))) \<and>
     (\<forall>h. start \<le> h \<and> h \<le> tip \<longrightarrow> compact_block_fetch X None node h = Inr (C h)) \<and>
     (\<forall>h. start \<le> h \<and> h < tip \<longrightarrow> links (C h) (C (Suc h)))"

text \<open>
  The interface through which the ingestor and the range methods rely on a node: it serves one chain. A
  backend provides it when its own state holds one.
\<close>

locale chain_node =
  fixes X :: "'x parse_ext_scheme" and node :: node_rpc and C :: "u64 \<Rightarrow> compact_block" and start tip :: u64
  assumes node_serves: "serves X node C start tip"
begin

lemma served:
  assumes "start \<le> h" and "h \<le> tip"
  shows "compact_block_fetch X None node h = Inr (C h)" and "cb_height (C h) = h"
proof -
  show fetched: "compact_block_fetch X None node h = Inr (C h)"
    using node_serves assms by (simp add: serves_def)
  show "cb_height (C h) = h" by (rule fetch_height [OF fetched])
qed

lemma served_links: "start \<le> h \<Longrightarrow> h < tip \<Longrightarrow> links (C h) (C (Suc h))"
  using node_serves by (simp add: serves_def)

lemma served_tip:
  obtains info where "rpc_get_blockchain_info node = Inr info" and "gbi_blocks info = tip"
    and "display_hex_to_wire X (gbi_bestblockhash info) = Inr (cb_hash (C tip))"
  using node_serves by (auto simp: serves_def)

end

text \<open>The cached tip is the node's block at its height.\<close>

definition synced :: "(u64 \<Rightarrow> compact_block) \<Rightarrow> u64 \<Rightarrow> compact_block list \<Rightarrow> bool" where
  "synced C tip bs \<longleftrightarrow> bs \<noteq> [] \<and> cb_height (last bs) \<le> tip \<and>
     cb_hash (last bs) = cb_hash (C (cb_height (last bs)))"

text \<open>How far a cache is from the node: what is left to fetch once on the node's chain, else what is
  left to roll back before that.\<close>

definition distance :: "(u64 \<Rightarrow> compact_block) \<Rightarrow> u64 \<Rightarrow> compact_block list \<Rightarrow> nat" where
  "distance C tip bs =
     (if synced C tip bs then tip - cb_height (last bs)
      else if bs = [] then tip + 1 else length bs + tip + 1)"

definition above_floor :: "u64 \<Rightarrow> compact_block list \<Rightarrow> bool" where
  "above_floor start bs \<longleftrightarrow> (bs \<noteq> [] \<longrightarrow> start \<le> cb_height (hd bs))"

text \<open>The cache starts at the floor.\<close>

definition rooted :: "u64 \<Rightarrow> compact_block list \<Rightarrow> bool" where
  "rooted start bs \<longleftrightarrow> bs = [] \<or> cb_height (hd bs) = start"

lemma rooted_rolled_back: "rooted start bs \<Longrightarrow> rooted start (rolled_back start bs)"
  by (cases bs rule: rev_cases) (auto simp: rooted_def rolled_back_def hd_append split: if_splits)

lemma distance_bound: "distance C tip bs \<le> length bs + tip + 1"
  by (auto simp: distance_def)

lemma rolled_back_props:
  assumes "bs \<noteq> []"
  shows "length (rolled_back start bs) < length bs"
    and "set (rolled_back start bs) \<subseteq> set bs"
    and "above_floor start bs \<Longrightarrow> above_floor start (rolled_back start bs)"
proof -
  show "length (rolled_back start bs) < length bs" using assms by (cases bs) (auto simp: rolled_back_def)
  show "set (rolled_back start bs) \<subseteq> set bs" by (auto simp: rolled_back_def dest: in_set_butlastD)
  show "above_floor start bs \<Longrightarrow> above_floor start (rolled_back start bs)"
    using assms by (cases bs) (auto simp: rolled_back_def above_floor_def)
qed

lemma rolled_back_closer:
  "bs \<noteq> [] \<Longrightarrow> \<not> synced C tip bs \<Longrightarrow> distance C tip (rolled_back start bs) < distance C tip bs"
  using rolled_back_props(1) [of bs start] distance_bound [of C tip "rolled_back start bs"]
  by (simp add: distance_def [of C tip bs])

lemma contiguous_hd_le_last: "contiguous bs \<Longrightarrow> bs \<noteq> [] \<Longrightarrow> cb_height (hd bs) \<le> cb_height (last bs)"
  using contiguous_last by fastforce

lemma chained_served:
  assumes "\<forall>h. n \<le> h \<and> h < m \<longrightarrow> cb_height (C h) = h" and "\<forall>h. n \<le> h \<and> Suc h < m \<longrightarrow> links (C h) (C (Suc h))"
  shows "chained (map C [n..<m])"
  using assms
proof (induction "m - n" arbitrary: n)
  case (Suc k)
  then have n: "[n..<m] = n # [Suc n..<m]" "n < m" by (simp_all add: upt_conv_Cons)
  moreover have "chained (map C [Suc n..<m])" using Suc by auto
  ultimately show ?case
    using Suc.prems by (cases "Suc n < m") (auto simp: upt_conv_Cons)
qed simp

text \<open>
  The outcome of a step on \<^term>\<open>bs\<close>: a healthy cache at or above the floor with no block from elsewhere,
  unchanged at or above the node's tip when idle, and otherwise strictly closer to the node.
\<close>

definition progressed ::
    "('b, 'm) cache_ext \<Rightarrow> (u64 \<Rightarrow> compact_block) \<Rightarrow> u64 \<Rightarrow> u64 \<Rightarrow> ('b, 'm) db \<Rightarrow> compact_block list \<Rightarrow> progress
      \<Rightarrow> ('b, 'm) db \<Rightarrow> compact_block list \<Rightarrow> bool" where
  "progressed E C start tip d bs p d' bs' \<longleftrightarrow>
     healthy E d' bs' \<and> above_floor start bs' \<and> (rooted start bs \<longrightarrow> rooted start bs') \<and>
     (\<forall>b \<in> set bs'. b \<in> set bs \<or> cb_height b \<le> tip \<and> b = C (cb_height b)) \<and>
     (if p = Idle
      then d' = d \<and> bs' = bs \<and> bs \<noteq> [] \<and>
        (cb_height (last bs) = tip \<and> cb_hash (last bs) = cb_hash (C tip) \<or> tip < cb_height (last bs))
      else distance C tip bs' < distance C tip bs)"

context cache_contract
begin

lemma window_appends:
  assumes h: "healthy E d bs" and env: "all_run env" and tip: "tip < u64_max"
    and s: "serves X node C start tip" and fl: "above_floor start bs"
    and n: "n = next_height start bs" "n \<le> tip"
    and link: "bs \<noteq> [] \<Longrightarrow> links (last bs) (C n)"
  shows "\<exists>d' bs'. step_window E X no_step_faults node env d start config tip n = Inr (Advanced, d') \<and>
    progressed E C start tip d bs Advanced d' bs'"
proof -
  define m where "m = Suc (min tip (sat_add64 n (sat_sub (window config) 1)))"
  have m: "n < m" "m \<le> Suc tip" using n(2) tip by (auto simp: m_def sat_add64_def)
  have lo: "start \<le> n"
    using fl contiguous_hd_le_last [of bs] h
    by (fastforce simp: n(1) next_height_def above_floor_def healthy_def stores_def)
  note node = chain_node.intro [OF s]
  have C: "compact_block_fetch X None node h = Inr (C h)" "cb_height (C h) = h" if "n \<le> h" "h < m" for h
    using that m lo by (auto intro: chain_node.served [OF node])
  have links: "\<forall>h. n \<le> h \<and> Suc h < m \<longrightarrow> links (C h) (C (Suc h))"
    using m lo by (auto intro: chain_node.served_links [OF node])
  have results: "fetch_window X node env [n..<m] = (map (\<lambda>h. (h, Inr (C h))) [n..<m], None)"
    using fetch_window_all [OF env, of X node n m] C by simp
  define prev where "prev = (if bs = [] then None else Some (cb_hash (last bs)))"
  have hash: "latest_hash E no_faults d = Inr prev"
    using h by (auto simp: healthy_def latest_hash_eq prev_def)
  have "n < m \<longrightarrow> prev = None \<or> prev = Some (cb_prev_hash (C n))"
    using link by (auto simp: prev_def links_def)
  then have prefix: "chained_prefix n (map (\<lambda>h. (h, Inr (C h))) [n..<m]) prev [] = Prefix (map C [n..<m]) None"
    using chained_prefix_all [of m n C prev "[]"] links m tip by simp
  define new where "new = map C [n..<m]"
  have new: "new \<noteq> []" "hd new = C n" "last new = C (m - 1)"
    "\<forall>b \<in> set new. cb_height b \<le> tip \<and> b = C (cb_height b)"
    using m C by (auto simp: new_def hd_map last_map)
  have "chained (bs @ new)"
    using chained_served [of n m C] C links h link new n m
    by (auto simp: chained_append healthy_def new_def next_height_def)
  then obtain d' where d': "add_batch E no_faults d new = Inr d'" "healthy E d' (bs @ new)"
    using append_total [OF h, of new] new(4) tip by fastforce
  have "step_window E X no_step_faults node env d start config tip n = Inr (Advanced, d')"
    using results hash prefix d' new(1)
    unfolding step_window_def Let_def m_def [symmetric] by (simp add: new_def [symmetric])
  moreover have "above_floor start (bs @ new)"
    using fl new lo C(2) [of n] m by (cases bs) (auto simp: above_floor_def)
  moreover have "rooted start bs \<longrightarrow> rooted start (bs @ new)"
    using new C(2) [of n] m n(1) by (cases bs) (auto simp: rooted_def next_height_def)
  moreover have "distance C tip (bs @ new) < distance C tip bs"
  proof -
    have "cb_height (last (bs @ new)) = m - 1" using new C(2) [of "m - 1"] m by simp
    moreover from this have "synced C tip (bs @ new)" using new m by (simp add: synced_def)
    moreover have "synced C tip bs \<Longrightarrow> n = Suc (cb_height (last bs))"
      by (simp add: synced_def n(1) next_height_def)
    ultimately show ?thesis using m n(2) by (auto simp: distance_def)
  qed
  ultimately show ?thesis
    using d'(2) new(4) unfolding progressed_def by (intro exI [of _ d'] exI [of _ "bs @ new"]) auto
qed

text \<open>A rollback of a cache that is not on the node's chain.\<close>

lemma rolls_back:
  assumes "healthy E d bs" and "above_floor start bs" and "bs \<noteq> []" and "\<not> synced C tip bs"
  obtains d' where "reorg_to_floor E no_faults no_faults d (cb_height (last bs) - 1) start = Inr d'"
    and "progressed E C start tip d bs Advanced d' (rolled_back start bs)"
proof -
  obtain d' where "reorg_to_floor E no_faults no_faults d (cb_height (last bs) - 1) start = Inr d'"
    "healthy E d' (rolled_back start bs)"
    using floor_total [OF assms(1,3) refl] by blast
  moreover from this have "progressed E C start tip d bs Advanced d' (rolled_back start bs)"
    using rolled_back_props [OF assms(3), of start] rolled_back_closer [OF assms(3,4)] rooted_rolled_back assms(2)
    by (auto simp: progressed_def)
  ultimately show thesis using that by blast
qed

lemma step_below:
  assumes h: "healthy E d bs" and env: "all_run env" and tip: "tip < u64_max" and s: "serves X node C start tip"
    and fl: "above_floor start bs" and below: "bs \<noteq> []" "cb_height (last bs) < tip"
  shows "\<exists>d' bs'. step_window E X no_step_faults node env d start config tip (Suc (cb_height (last bs))) = Inr (Advanced, d') \<and>
    progressed E C start tip d bs Advanced d' bs'"
proof (cases "links (last bs) (C (Suc (cb_height (last bs))))")
  case True
  then show ?thesis
    using window_appends [OF h env tip s fl, of "Suc (cb_height (last bs))" config] below by (simp add: next_height_def)
next
  case False
  let ?n = "Suc (cb_height (last bs))"
  have lo: "start \<le> cb_height (last bs)"
    using fl below contiguous_hd_le_last [of bs] h by (auto simp: above_floor_def healthy_def stores_def)
  then have "\<not> synced C tip bs" using False s below by (auto simp: synced_def serves_def links_def)
  from rolls_back [OF h fl below(1) this] obtain d' where
    d': "reorg_to_floor E no_faults no_faults d (cb_height (last bs) - 1) start = Inr d'"
    "progressed E C start tip d bs Advanced d' (rolled_back start bs)" by blast
  define m where "m = Suc (min tip (sat_add64 ?n (sat_sub (window config) 1)))"
  have m: "?n < m" using below tip by (auto simp: m_def sat_add64_def)
  have "compact_block_fetch X None node ?n = Inr (C ?n)"
    using lo below by (intro chain_node.served [OF chain_node.intro [OF s]]) simp_all
  then have "chained_prefix ?n (map (\<lambda>h. (h, compact_block_fetch X None node h)) [?n..<m])
      (Some (cb_hash (last bs))) [] = PrefixReorg"
    using m False by (simp add: upt_conv_Cons links_def)
  moreover have "latest_hash E no_faults d = Inr (Some (cb_hash (last bs)))"
    using h below by (auto simp: healthy_def latest_hash_eq)
  ultimately have "step_window E X no_step_faults node env d start config tip ?n = Inr (Advanced, d')"
    using below d' fetch_window_all [OF env, of X node ?n m]
    unfolding step_window_def Let_def m_def [symmetric] by (simp add: sat_sub_def)
  then show ?thesis using d'(2) by blast
qed

text \<open>Every step is idle, or strictly closer to the node.\<close>

lemma step_progress:
  assumes h: "healthy E d bs" and env: "all_run env" and tip: "start \<le> tip" "tip < u64_max"
    and s: "serves X node C start tip" and fl: "above_floor start bs"
  shows "\<exists>p d' bs'. step E X no_step_faults node env d start config = Inr (p, d') \<and> progressed E C start tip d bs p d' bs'"
proof -
  obtain info where info: "rpc_get_blockchain_info node = Inr info" "gbi_blocks info = tip"
    "display_hex_to_wire X (gbi_bestblockhash info) = Inr (cb_hash (C tip))"
    by (rule chain_node.served_tip [OF chain_node.intro [OF s]])
  have latest: "latest_height E no_faults d = Inr (if bs = [] then None else Some (cb_height (last bs)))"
    "latest_hash E no_faults d = Inr (if bs = [] then None else Some (cb_hash (last bs)))"
    "\<And>k. cache_get E no_faults d k = Inr (find (\<lambda>b. cb_height b = k) bs)"
    using h by (auto simp: healthy_def latest_height_eq latest_hash_eq cache_get_eq)
  have idle: "progressed E C start tip d bs Idle d bs" if "bs \<noteq> []"
    "cb_height (last bs) = tip \<and> cb_hash (last bs) = cb_hash (C tip) \<or> tip < cb_height (last bs)"
    using that h fl by (simp add: progressed_def)
  have rolling: "\<exists>p d' bs'. step E X no_step_faults node env d start config = Inr (p, d') \<and> progressed E C start tip d bs p d' bs'"
    if "bs \<noteq> []" "\<not> synced C tip bs"
      "\<And>d'. reorg_to_floor E no_faults no_faults d (cb_height (last bs) - 1) start = Inr d' \<Longrightarrow>
         step E X no_step_faults node env d start config = Inr (Advanced, d')"
    using rolls_back [OF h fl that(1,2)] that(3) by metis
  consider (none) "bs = []"
    | (same) "bs \<noteq> []" "cb_height (last bs) = tip"
    | (above) "bs \<noteq> []" "tip < cb_height (last bs)"
    | (below) "bs \<noteq> []" "cb_height (last bs) < tip"
    by linarith
  then show ?thesis
  proof cases
    case none
    then have "step E X no_step_faults node env d start config =
        step_window E X no_step_faults node env d start config tip start"
      using info latest tip by (simp add: step_def step_decide_def)
    then show ?thesis
      using window_appends [OF h env tip(2) s fl, of start config] none tip by (auto simp: next_height_def)
  next
    case same
    show ?thesis
    proof (cases "cb_hash (last bs) = cb_hash (C tip)")
      case True
      then show ?thesis using info latest same idle by (auto simp: step_def step_decide_def)
    next
      case False
      then show ?thesis using info latest same
        by (intro rolling) (auto simp: synced_def step_def step_decide_def sat_sub_def)
    qed
  next
    case above
    show ?thesis
    proof (cases "\<forall>b. find (\<lambda>b. cb_height b = tip) bs = Some b \<longrightarrow> cb_hash b = cb_hash (C tip)")
      case True
      then have "step E X no_step_faults node env d start config = Inr (Idle, d)"
        using info latest above by (auto simp: step_def step_decide_def split: option.splits)
      then show ?thesis using idle above by blast
    next
      case False
      then show ?thesis using info latest above
        by (intro rolling) (auto simp: synced_def step_def step_decide_def sat_sub_def)
    qed
  next
    case below
    then have "step E X no_step_faults node env d start config =
        step_window E X no_step_faults node env d start config tip (Suc (cb_height (last bs)))"
      using info latest tip by (simp add: step_def step_decide_def)
    then show ?thesis using step_below [OF h env tip(2) s fl below, of config] by auto
  qed
qed

end

end
