(* ===== verification/Ingestor_Props.thy ===== *)
theory Ingestor_Props
  imports Ingestor_Sync Cache_Props
begin

text \<open>
  The properties of the ingestor: refinement of a step by four moves on the cached chain, the
  invariant of every run, convergence to the node's tip, repair of a corrupt cache and its limit at
  height zero, and the rate limit on reported repairs.
\<close>

section \<open>Runs of the loop\<close>

text \<open>
  The system the loop lives in: passes of the ingestor, whatever the node, the tasks and the store do
  in them (the node's tip stays below the largest u64), interleaved with reports from the read path.
\<close>

inductive ingestor_run ::
    "('b, 'm) cache_ext \<Rightarrow> 'x parse_ext_scheme \<Rightarrow> u64 \<Rightarrow> ingest_config \<Rightarrow> ('b, 'm) ingestor \<Rightarrow> ('b, 'm) ingestor \<Rightarrow> bool"
  for E :: "('b, 'm) cache_ext" and X :: "'x parse_ext_scheme" and start :: u64 and config :: ingest_config
    and st0 :: "('b, 'm) ingestor" where
  start: "ingestor_run E X start config st0 st0"
| pass: "ingestor_run E X start config st0 st \<Longrightarrow> joins_all (io_env io) \<Longrightarrow>
    (\<forall>info. rpc_get_blockchain_info (io_node io) = Inr info \<longrightarrow> gbi_blocks info < u64_max) \<Longrightarrow>
    run_iteration E X start config io st = (st', sleep) \<Longrightarrow> ingestor_run E X start config st0 st'"
| report: "ingestor_run E X start config st0 st \<Longrightarrow>
    ingestor_run E X start config st0 (st\<lparr>in_signal := signal_report (in_signal st) h\<rparr>)"

context cache_contract
begin

lemma floor_prefix:
  assumes "healthy E d bs" and "reorg_to_floor E f g d target start = Inr d'"
  shows "\<exists>n. healthy E d' (take n bs)"
proof -
  from assms(2) obtain h where "remove_from E g d h = Inr d'"
    by (auto simp: reorg_to_floor_def truncate_from_def reorg_def result_simps Let_def split: if_splits)
  from healthy_remove [OF assms(1) this] show ?thesis
    by (metis takeWhile_eq_take)
qed

lemma repair_prefix:
  assumes "healthy E d bs" and "repair_reported E flts d height start sig budget now = (d', sig', budget')"
  shows "\<exists>n. healthy E d' (take n bs)"
proof -
  have "d' = d \<or> (\<exists>target. reorg_to_floor E (rf_tip flts) (rf_write flts) d target start = Inr d')"
    using assms(2) by (auto simp: repair_reported_def Let_def split: if_splits prod.splits sum.splits)
  then show ?thesis
    using floor_prefix [OF assms(1)] assms(1) by (metis order_refl take_all)
qed

lemma run_iteration_healthy:
  assumes "healthy E (in_db st) bs" and "joins_all (io_env io)"
    and "\<forall>info. rpc_get_blockchain_info (io_node io) = Inr info \<longrightarrow> gbi_blocks info < u64_max"
    and "run_iteration E X start config io st = (st', sleep)"
  shows "\<exists>bs'. healthy E (in_db st') bs' \<and> in_recoveries st' = 0"
proof -
  obtain taken sig where take: "signal_take (in_signal st) = (taken, sig)" by (cases "signal_take (in_signal st)")
  obtain d sig' budget where rep: "(case taken of
       None \<Rightarrow> (in_db st, sig, in_budget st)
     | Some height \<Rightarrow> repair_reported E (io_repair io) (in_db st) height start sig (in_budget st) (io_now io))
     = (d, sig', budget)"
    by (metis prod_cases3)
  obtain n where h: "healthy E d (take n bs)"
  proof (cases taken)
    case None
    then show ?thesis using rep assms(1) that [of "length bs"] by simp
  next
    case (Some height)
    then show ?thesis using rep repair_prefix [OF assms(1)] that by (metis option.simps(5))
  qed
  note moves = step_moves [OF h assms(2,3), where X = X and flts = "io_step io" and start = start and config = config]
  show ?thesis
  proof (cases "step E X (io_step io) (io_node io) (io_env io) d start config")
    case (Inl e)
    then have "\<not> should_recover e r" for r using moves by (simp add: should_recover_def)
    then show ?thesis
      using assms(4) take rep Inl h by (auto simp: run_iteration_def Let_def)
  next
    case (Inr r)
    obtain p d' where r: "r = (p, d')" by (cases r)
    then obtain bs' where "healthy E d' bs'" using moves Inr by auto
    then show ?thesis
      using assms(4) take rep Inr r by (cases p) (auto simp: run_iteration_def Let_def)
  qed
qed

end


section \<open>Running steps until the ingestor is idle\<close>

fun ingest_until_idle ::
    "('b, 'm) cache_ext \<Rightarrow> 'x parse_ext_scheme \<Rightarrow> node_rpc \<Rightarrow> task_env \<Rightarrow> u64 \<Rightarrow> ingest_config \<Rightarrow> nat
      \<Rightarrow> ('b, 'm) db \<Rightarrow> ('b, 'm) db option" where
  "ingest_until_idle E X node env start config 0 d = None"
| "ingest_until_idle E X node env start config (Suc n) d =
     (case step E X no_step_faults node env d start config of
        Inr (Idle, d') \<Rightarrow> Some d'
      | Inr (Advanced, d') \<Rightarrow> ingest_until_idle E X node env start config n d'
      | Inl _ \<Rightarrow> None)"


context cache_contract
begin

lemma until_idle_reaches:
  assumes "healthy E d bs" and "all_run env" and "start \<le> tip" and "tip < u64_max"
    and "serves X node C start tip" and "above_floor start bs" and "distance C tip bs < n"
  shows "\<exists>d' bs'. ingest_until_idle E X node env start config n d = Some d' \<and> healthy E d' bs' \<and> bs' \<noteq> [] \<and>
    (rooted start bs \<longrightarrow> rooted start bs') \<and> (\<forall>b \<in> set bs'. b \<in> set bs \<or> cb_height b \<le> tip \<and> b = C (cb_height b)) \<and>
    (cb_height (last bs') = tip \<and> cb_hash (last bs') = cb_hash (C tip) \<or> tip < cb_height (last bs'))"
  using assms(1,6,7)
proof (induction n arbitrary: d bs)
  case (Suc n)
  from step_progress [OF Suc.prems(1) assms(2-5) Suc.prems(2)] obtain p d' bs' where
    step: "step E X no_step_faults node env d start config = Inr (p, d')"
    and h: "healthy E d' bs'" "above_floor start bs'" "\<forall>b \<in> set bs'. b \<in> set bs \<or> cb_height b \<le> tip \<and> b = C (cb_height b)"
      "rooted start bs \<longrightarrow> rooted start bs'"
    and p: "if p = Idle
     then d' = d \<and> bs' = bs \<and> bs \<noteq> [] \<and>
       (cb_height (last bs) = tip \<and> cb_hash (last bs) = cb_hash (C tip) \<or> tip < cb_height (last bs))
     else distance C tip bs' < distance C tip bs"
    unfolding progressed_def by blast
  show ?case
  proof (cases p)
    case Idle
    then show ?thesis using step h p by auto
  next
    case Advanced
    then have "distance C tip bs' < n" using p Suc.prems(3) by simp
    from Suc.IH [OF h(1,2) this] h(3,4) show ?thesis using step Advanced by fastforce
  qed
qed simp

end


section \<open>The repair budget\<close>

text \<open>How many of the requests at the given instants are granted.\<close>

primrec granted :: "repair_budget \<Rightarrow> nat list \<Rightarrow> nat" where
  "granted b [] = 0"
| "granted b (t # ts) = (if fst (try_spend b t) then 1 else 0) + granted (snd (try_spend b t)) ts"

lemma granted_bound:
  assumes "sorted (t # ts)" and "window_started b \<le> t" and "spent b \<le> MAX_REPAIRS_PER_WINDOW"
  shows "granted b (t # ts) \<le> (MAX_REPAIRS_PER_WINDOW - spent b) +
    MAX_REPAIRS_PER_WINDOW * ((last (t # ts) - window_started b) div REPAIR_WINDOW)"
  using assms
proof (induction ts arbitrary: t b)
  case Nil
  then show ?case
    by (auto simp: try_spend_def Let_def sat_sub_def u32_add_def MAX_REPAIRS_PER_WINDOW_def REPAIR_WINDOW_def
        budget_new_def)
next
  case (Cons t' ts)
  define l where "l = last (t' # ts)"
  have le: "t \<le> t'" "t' \<le> l" using Cons.prems(1) by (auto simp: l_def)
  have IH: "granted b' (t' # ts) \<le> (5 - spent b') + 5 * ((l - window_started b') div 600000)"
    if "window_started b' \<le> t" "spent b' \<le> 5" for b'
    using Cons.IH [of t' b'] Cons.prems(1) that le
    by (simp add: l_def MAX_REPAIRS_PER_WINDOW_def REPAIR_WINDOW_def)
  show ?case
  proof (cases "t - window_started b \<ge> 600000")
    case True
    define b' where "b' = (budget_new t)\<lparr>spent := 1\<rparr>"
    have "try_spend b t = (True, b')"
      using True by (simp add: try_spend_def sat_sub_def REPAIR_WINDOW_def Let_def budget_new_def
          MAX_REPAIRS_PER_WINDOW_def u32_add_def b'_def)
    moreover have "granted b' (t' # ts) \<le> 4 + 5 * ((l - t) div 600000)"
      using IH [of b'] by (simp add: b'_def budget_new_def)
    moreover have "Suc ((l - t) div 600000) \<le> (l - window_started b) div 600000"
      using True le div_le_mono [of "l - t + 600000" "l - window_started b" 600000] by simp
    moreover have "granted b (t # t' # ts) = Suc (granted (snd (try_spend b t)) (t' # ts))"
      using \<open>try_spend b t = (True, b')\<close> by (subst granted.simps(2)) simp
    ultimately have "granted b (t # t' # ts) \<le> (5 - spent b) + 5 * ((l - window_started b) div 600000)"
      by simp
    then show ?thesis
      by (simp add: l_def MAX_REPAIRS_PER_WINDOW_def REPAIR_WINDOW_def del: granted.simps)
  next
    case False
    show ?thesis
    proof (cases "spent b < 5")
      case True
      define b' where "b' = b\<lparr>spent := Suc (spent b)\<rparr>"
      have "try_spend b t = (True, b')"
        using False True by (simp add: try_spend_def sat_sub_def REPAIR_WINDOW_def Let_def
            MAX_REPAIRS_PER_WINDOW_def u32_add_def b'_def)
      then show ?thesis
        using IH [of b'] True Cons.prems(2)
        by (simp add: b'_def l_def MAX_REPAIRS_PER_WINDOW_def REPAIR_WINDOW_def)
    next
      case full: False
      then have "try_spend b t = (False, b)"
        using False by (simp add: try_spend_def sat_sub_def REPAIR_WINDOW_def Let_def
            MAX_REPAIRS_PER_WINDOW_def)
      then show ?thesis
        using IH [of b] Cons.prems(2,3)
        by (simp add: l_def MAX_REPAIRS_PER_WINDOW_def REPAIR_WINDOW_def)
    qed
  qed
qed


section \<open>Recovery\<close>

context cache_contract
begin

lemma lowest_corrupt_total:
  assumes "\<forall>e \<in> set (tbl_iter (blocks_ops E) (db_blocks d)). fst e < u64_max"
  obtains r where "lowest_corrupt_height E no_faults d = Inr r"
    and "\<And>h. r = Some h \<Longrightarrow> \<exists>e \<in> set (tbl_iter (blocks_ops E) (db_blocks d)). fst e \<le> h"
proof (cases "tbl_iter (blocks_ops E) (db_blocks d) = []")
  case True
  then have "lowest_corrupt_height E no_faults d = Inr None"
    by (simp add: lowest_corrupt_height_def blk.len_iter)
  then show ?thesis using that by blast
next
  case False
  define es where "es = tbl_iter (blocks_ops E) (db_blocks d)"
  define low where "low = fst (hd es)"
  define high where "high = fst (last es)"
  note unfold = lowest_corrupt_unfold [OF es_def [symmetric] _ _ low_def [symmetric] high_def [symmetric]]
  have "\<exists>r. lowest_corrupt_height E no_faults d = Inr r \<and> (\<forall>h. r = Some h \<longrightarrow> low \<le> h)"
    using unfold assms False
    by (auto simp: es_def [symmetric] find_upt find_rev_upt simp del: upt_Suc split: option.splits if_splits)
  then obtain r where r: "lowest_corrupt_height E no_faults d = Inr r" "\<forall>h. r = Some h \<longrightarrow> low \<le> h" by blast
  have "hd es \<in> set es" using False by (simp add: es_def)
  with r that [of r] show ?thesis unfolding low_def es_def by blast
qed

text \<open>A report of height zero: the entry is there, first, and bad; and such an entry alone is reported.\<close>

lemma corrupt_genesis:
  shows "\<forall>e \<in> set (tbl_iter (blocks_ops E) (db_blocks d)). fst e < u64_max \<Longrightarrow>
      lowest_corrupt_height E no_faults d = Inr (Some 0) \<Longrightarrow>
      tbl_get (blocks_ops E) (db_blocks d) 0 \<noteq> None \<and> \<not> good_at E (db_blocks d) 0"
    and "tbl_iter (blocks_ops E) (db_blocks d') = [(0, v)] \<Longrightarrow> \<not> good_at E (db_blocks d') 0 \<Longrightarrow>
      lowest_corrupt_height E no_faults d' = Inr (Some 0)"
proof -
  assume max: "\<forall>e \<in> set (tbl_iter (blocks_ops E) (db_blocks d)). fst e < u64_max"
    and zero: "lowest_corrupt_height E no_faults d = Inr (Some 0)"
  define es where "es = tbl_iter (blocks_ops E) (db_blocks d)"
  define low where "low = fst (hd es)"
  define high where "high = fst (last es)"
  have ne: "es \<noteq> []"
    using zero by (auto simp: es_def lowest_corrupt_height_def blk.len_iter)
  note unfold = lowest_corrupt_unfold [OF es_def [symmetric] ne _ low_def [symmetric] high_def [symmetric]]
  have "gapless E (db_blocks d)"
    using gap_found [of "db_blocks d" es low high] unfold max zero
    by (auto simp: es_def low_def high_def simp del: upt_Suc split: if_splits)
  then have walk: "(case find (good_at E (db_blocks d)) (rev [low..<Suc high]) of
      None \<Rightarrow> Some low | Some h \<Rightarrow> if h < high then Some (Suc h) else None) = Some 0"
    using unfold max zero by (simp add: es_def del: upt_Suc)
  then have "low = 0" "find (good_at E (db_blocks d)) (rev [low..<Suc high]) = None"
    by (auto split: option.splits if_splits simp del: upt_Suc)
  moreover have "low \<le> high" using hd_le_last ne by (simp add: es_def low_def high_def)
  ultimately have "\<not> good_at E (db_blocks d) 0" by (simp add: find_None_iff del: upt_Suc)
  moreover have "0 \<in> set (map fst es)" using \<open>low = 0\<close> ne by (auto simp: low_def intro: rev_image_eqI)
  ultimately show "tbl_get (blocks_ops E) (db_blocks d) 0 \<noteq> None \<and> \<not> good_at E (db_blocks d) 0"
    using map_fst_key_get [of 0 "db_blocks d"] by (simp add: es_def)
next
  assume es: "tbl_iter (blocks_ops E) (db_blocks d') = [(0, v)]" and bad: "\<not> good_at E (db_blocks d') 0"
  have "gapless E (db_blocks d')" using es by (intro gapless_keysI [of _ 0 1]) simp
  then show "lowest_corrupt_height E no_faults d' = Inr (Some 0)"
    using lowest_corrupt_unfold [OF es, of 0 0] bad by (simp add: u64_max_def)
qed

lemma recovery_height_bound:
  assumes "\<forall>e \<in> set (tbl_iter (blocks_ops E) (db_blocks d)). fst e < u64_max"
    and "lowest_corrupt_height E no_faults d = Inr (Some h)"
  shows "h \<le> u64_max"
proof (cases "tbl_iter (blocks_ops E) (db_blocks d) = []")
  case True
  then show ?thesis using assms(2) by (simp add: lowest_corrupt_height_def blk.len_iter)
next
  case False
  define es where "es = tbl_iter (blocks_ops E) (db_blocks d)"
  define low where "low = fst (hd es)"
  define high where "high = fst (last es)"
  note unfold = lowest_corrupt_unfold [OF es_def [symmetric] _ _ low_def [symmetric] high_def [symmetric]]
  have "low \<le> high" "high < u64_max"
    using hd_le_last [OF False] assms(1) False by (auto simp: low_def high_def es_def)
  then show ?thesis
    using unfold assms False
    by (auto simp: es_def [symmetric] find_upt find_rev_upt simp del: upt_Suc split: option.splits if_splits)
qed

lemma recover_total:
  assumes "\<forall>e \<in> set (tbl_iter (blocks_ops E) (db_blocks d)). 0 < fst e \<and> fst e < u64_max"
    and "is_ok (snapshot_base_height E no_faults d)"
  shows "\<exists>d'. recover E no_faults no_faults d = Inr d' \<and>
    (lowest_corrupt_height E no_faults d = Inr None \<and> d' = d \<or>
     (\<exists>h. lowest_corrupt_height E no_faults d = Inr (Some h) \<and> remove_from E no_faults d h = Inr d')) \<and>
    set (tbl_iter (blocks_ops E) (db_blocks d')) \<subseteq> set (tbl_iter (blocks_ops E) (db_blocks d)) \<and>
    is_ok (snapshot_base_height E no_faults d')"
proof -
  obtain r where r: "lowest_corrupt_height E no_faults d = Inr r"
    "\<And>h. r = Some h \<Longrightarrow> \<exists>e \<in> set (tbl_iter (blocks_ops E) (db_blocks d)). fst e \<le> h"
    using lowest_corrupt_total [of d] assms(1) by blast
  show ?thesis
  proof (cases r)
    case None
    then show ?thesis using r(1) assms(2) by (auto simp: recover_def)
  next
    case (Some h)
    have h: "sat_add64 (sat_sub h 1) 1 = h" if "h \<le> u64_max"
    proof -
      have "0 < h" using r(2) [OF Some] assms(1) by fastforce
      then show ?thesis using that by (simp add: sat_add64_def sat_sub_def)
    qed
    have hmax: "h \<le> u64_max" using recovery_height_bound [of d h] r(1) Some assms(1) by simp
    obtain base where base: "decode_base_height (tbl_get (meta_ops E) (db_meta d) SNAPSHOT_BASE_HEIGHT) = Inr base"
      using assms(2) by (auto simp: snapshot_base_get elim: is_okE)
    then obtain d' where d': "remove_from E no_faults d h = Inr d'"
      by (auto simp: remove_from_def Let_def)
    have "is_ok (snapshot_base_height E no_faults d')"
      using remove_from_meta [OF d' base, of SNAPSHOT_BASE_HEIGHT] base
      by (auto simp: snapshot_base_get decode_base_height_def split: option.splits if_splits)
    then show ?thesis
      using r(1) Some d' h [OF hmax] remove_from_iter [OF d']
      by (auto simp: recover_def reorg_def)
  qed
qed

end


section \<open>Reference surroundings\<close>

definition no_repair_faults :: repair_faults where
  "no_repair_faults = \<lparr>rf_range = no_faults, rf_tip = no_faults, rf_write = no_faults\<rparr>"

definition ref_env :: task_env where
  "ref_env = \<lparr>task_ends = (\<lambda>_. TaskRan None), join_order = (\<lambda>hs. hs)\<rparr>"

definition ref_config :: ingest_config where
  "ref_config = \<lparr>window = 64, concurrency = 8\<rparr>"

definition ref_io :: pass_io where
  "ref_io = \<lparr>io_now = 0, io_node = ref_node, io_env = ref_env, io_step = no_step_faults,
     io_repair = no_repair_faults, io_scan = no_faults, io_recover = no_faults\<rparr>"

definition ref_ingestor :: "((u64, bytes) otable, (string, bytes) otable) ingestor" where
  "ref_ingestor = \<lparr>in_db = ref_empty, in_signal = signal_new, in_recoveries = 0, in_budget = budget_new 0\<rparr>"

lemma ref_env_all_run: "all_run ref_env" "joins_all ref_env"
  by (simp_all add: all_run_def joins_all_def ref_env_def)

lemma ref_node_info: "rpc_get_blockchain_info ref_node = Inr info \<Longrightarrow> gbi_blocks info = 42"
  by (auto simp: ref_node_def)

text \<open>A database whose only entry, at the given height, does not decode.\<close>

definition ref_broken :: "u64 \<Rightarrow> ((u64, bytes) otable, (string, bytes) otable) db" where
  "ref_broken h = \<lparr>db_blocks = ot_insert ot_empty h [], db_meta = ot_empty\<rparr>"

lemma ref_broken_entries: "tbl_iter (blocks_ops ref_cache) (db_blocks (ref_broken h)) = [(h, [])]"
  by (simp add: ref_broken_def ref_cache_def ot_ops_def ot_insert.rep_eq ot_empty.rep_eq alist_insert_def)

lemma ref_broken_base: "is_ok (snapshot_base_height ref_cache no_faults (ref_broken h))"
  by (simp add: snapshot_base_get ref_broken_def ref_cache_def ot_ops_def ot_empty.rep_eq decode_base_height_def)

lemma ref_broken_bad: "\<not> good_at ref_cache (db_blocks (ref_broken h)) h"
proof -
  have "tbl_get (blocks_ops ref_cache) (db_blocks (ref_broken h)) h = Some []"
    by (simp add: rc.blk.get_iter ref_broken_entries)
  moreover have "\<not> is_ok (ref_decode [])" by code_simp
  ultimately show ?thesis
    by (auto simp: good_at_def ref_cache_def is_ok_def split: sum.splits)
qed


lemma ref_node_serves:
  obtains C where "serves ref_parse ref_node C 42 42"
proof -
  obtain b where b: "compact_block_fetch ref_parse None ref_node 42 = Inr b"
    using ref_node_fetch by (auto elim: is_okE)
  have "map_err (\<lambda>_. ()) (bindE (compact_block_fetch ref_parse None ref_node 42) (\<lambda>b.
      Inr (display_hex_to_wire ref_parse (gbv_hash ref_verbose) = Inr (cb_hash b)))) = Inr True"
    by code_simp
  then have "display_hex_to_wire ref_parse (gbv_hash ref_verbose) = Inr (cb_hash b)"
    using b by simp
  then have "serves ref_parse ref_node (\<lambda>_. b) 42 42"
    using b by (auto simp: serves_def ref_node_def dest: le_antisym)
  then show thesis by (rule that)
qed


section \<open>Properties\<close>

text \<open>
  C3: a step refines four moves. On a healthy cache that holds the chain \<^term>\<open>bs\<close>, whatever the node
  answers, the tasks do and the store fails at, a successful step leaves a healthy cache whose chain is
  \<^term>\<open>bs\<close> itself, \<^term>\<open>bs\<close> without its last block, the empty chain when that rollback crosses the
  floor, or \<^term>\<open>bs\<close> extended by a chained run of blocks fetched from the node; an idle step changes
  nothing; and a failed step is never a corruption of the cache.
\<close>

theorem step_refines:
  assumes "cache_contract E" and "healthy E d bs" and "joins_all env"
    and "\<forall>info. rpc_get_blockchain_info node = Inr info \<longrightarrow> gbi_blocks info < u64_max"
  shows "case step E X flts node env d start config of
      Inr (p, d') \<Rightarrow>
        (\<exists>bs'. healthy E d' bs' \<and> ingest_move (fetched_by X node) start bs bs') \<and> (p = Idle \<longrightarrow> d' = d)
    | Inl e \<Rightarrow> \<not> is_corruption e"
  by (rule cache_contract.step_moves [OF assms])

theorem step_refines_witness:
  "case step ref_cache ref_parse no_step_faults ref_node ref_env ref_empty 42 ref_config of
      Inr (p, d') \<Rightarrow>
        (\<exists>bs'. healthy ref_cache d' bs' \<and> ingest_move (fetched_by ref_parse ref_node) 42 [] bs') \<and>
        (p = Idle \<longrightarrow> d' = ref_empty)
    | Inl e \<Rightarrow> \<not> is_corruption e"
  by (rule step_refines [OF rc.cache_contract_axioms ref_empty_healthy ref_env_all_run(2)])
    (simp add: ref_node_info u64_max_def)

text \<open>
  C2: the invariant of every run. Started on a healthy cache, after any number of passes of the loop
  (any node replies, task endings, clock readings and store failures), interleaved with any reports from
  the read path, the cache is healthy: what it holds is a chain of consecutive, linked blocks.
  Corruption recovery is never entered.
\<close>

theorem ingestor_invariant:
  assumes "cache_contract E" and "\<exists>bs. healthy E (in_db st0) bs" and "in_recoveries st0 = 0"
    and "ingestor_run E X start config st0 st"
  shows "(\<exists>bs. healthy E (in_db st) bs) \<and> in_recoveries st = 0"
  using assms(4)
proof (induction rule: ingestor_run.induct)
  case start
  then show ?case using assms(2,3) by simp
next
  case (pass st io st' sleep)
  then show ?case
    using cache_contract.run_iteration_healthy [OF assms(1)] by blast
next
  case (report st h)
  then show ?case by simp
qed

theorem ingestor_invariant_witness:
  "\<exists>bs. healthy ref_cache (in_db (fst (run_iteration ref_cache ref_parse 42 ref_config ref_io ref_ingestor))) bs"
proof -
  have run: "ingestor_run ref_cache ref_parse 42 ref_config ref_ingestor
      (fst (run_iteration ref_cache ref_parse 42 ref_config ref_io ref_ingestor))"
    by (rule ingestor_run.pass [OF ingestor_run.start _ _ prod.collapse [symmetric]])
      (auto simp: ref_io_def ref_env_all_run ref_node_info u64_max_def)
  show ?thesis
    using ingestor_invariant [OF rc.cache_contract_axioms _ _ run] ref_empty_healthy
    by (auto simp: ref_ingestor_def)
qed

text \<open>
  C4: the ingestor converges. Against a node that keeps serving one linked chain up to \<^term>\<open>tip\<close>, with
  no store failure and every fetch task finishing, repeated steps on a healthy cache at or above the
  floor reach the idle state within \<^term>\<open>length bs + tip + 2\<close> steps, on a healthy cache; and when
  nothing was cached above the node's tip, the cached tip then is the node's tip, height and hash,
  whatever fork the cache was on before.
\<close>

theorem ingestor_converges:
  assumes "cache_contract E" and "healthy E d bs" and "all_run env" and "start \<le> tip" and "tip < u64_max"
    and "serves X node C start tip" and "above_floor start bs"
  shows "\<exists>d' bs'. ingest_until_idle E X node env start config (length bs + tip + 2) d = Some d' \<and>
    healthy E d' bs' \<and> bs' \<noteq> [] \<and>
    ((\<forall>b \<in> set bs. cb_height b \<le> tip) \<longrightarrow>
       cb_height (last bs') = tip \<and> cb_hash (last bs') = cb_hash (C tip))"
proof -
  have "distance C tip bs < length bs + tip + 2"
    using distance_bound [of C tip bs] by simp
  from cache_contract.until_idle_reaches [OF assms this, of config] obtain d' bs' where
    "ingest_until_idle E X node env start config (length bs + tip + 2) d = Some d'" "healthy E d' bs'"
    "bs' \<noteq> []" "\<forall>b \<in> set bs'. b \<in> set bs \<or> cb_height b \<le> tip \<and> b = C (cb_height b)"
    "cb_height (last bs') = tip \<and> cb_hash (last bs') = cb_hash (C tip) \<or> tip < cb_height (last bs')"
    by blast
  moreover have "cb_height (last bs') \<le> tip" if "\<forall>b \<in> set bs. cb_height b \<le> tip"
    using calculation that last_in_set by blast
  ultimately show ?thesis by (intro exI [of _ d'] exI [of _ bs']) auto
qed

theorem ingestor_converges_witness:
  "\<exists>d' bs'. ingest_until_idle ref_cache ref_parse ref_node ref_env 42 ref_config 44 ref_empty = Some d' \<and>
     healthy ref_cache d' bs' \<and> bs' \<noteq> [] \<and> cb_height (last bs') = 42"
proof -
  obtain C where "serves ref_parse ref_node C 42 42" by (rule ref_node_serves)
  from ingestor_converges [OF rc.cache_contract_axioms ref_empty_healthy ref_env_all_run(1) _ _ this,
      of ref_config]
  show ?thesis by (auto simp: u64_max_def above_floor_def)
qed

text \<open>
  C12: corruption is repaired by truncation. On any cache whose keys are positive (and below the
  largest u64) and whose base row is readable, whatever its entries hold, two recoveries leave a cache
  that passes the open-time check, and they only ever remove entries.
\<close>

theorem recover_twice:
  assumes "cache_contract E"
    and "\<forall>e \<in> set (tbl_iter (blocks_ops E) (db_blocks d)). 0 < fst e \<and> fst e < u64_max"
    and "is_ok (snapshot_base_height E no_faults d)"
  shows "\<exists>d1 d2. recover E no_faults no_faults d = Inr d1 \<and> recover E no_faults no_faults d1 = Inr d2 \<and>
    validate_light E no_faults d2 = Inr () \<and>
    set (tbl_iter (blocks_ops E) (db_blocks d2)) \<subseteq> set (tbl_iter (blocks_ops E) (db_blocks d))"
proof -
  from cache_contract.recover_total [OF assms] obtain d1 where
    d1: "recover E no_faults no_faults d = Inr d1"
    "lowest_corrupt_height E no_faults d = Inr None \<and> d1 = d \<or>
     (\<exists>h. lowest_corrupt_height E no_faults d = Inr (Some h) \<and> remove_from E no_faults d h = Inr d1)"
    "set (tbl_iter (blocks_ops E) (db_blocks d1)) \<subseteq> set (tbl_iter (blocks_ops E) (db_blocks d))"
    "is_ok (snapshot_base_height E no_faults d1)" by blast
  have keys1: "\<forall>e \<in> set (tbl_iter (blocks_ops E) (db_blocks d1)). 0 < fst e \<and> fst e < u64_max"
    using d1(3) assms(2) by blast
  from cache_contract.recover_total [OF assms(1) keys1 d1(4)] obtain d2 where
    d2: "recover E no_faults no_faults d1 = Inr d2"
    "lowest_corrupt_height E no_faults d1 = Inr None \<and> d2 = d1 \<or>
     (\<exists>h. lowest_corrupt_height E no_faults d1 = Inr (Some h) \<and> remove_from E no_faults d1 h = Inr d2)"
    "set (tbl_iter (blocks_ops E) (db_blocks d2)) \<subseteq> set (tbl_iter (blocks_ops E) (db_blocks d1))" by blast
  have max: "\<forall>e \<in> set (tbl_iter (blocks_ops E) (db_blocks d)). fst e < u64_max"
    "\<forall>e \<in> set (tbl_iter (blocks_ops E) (db_blocks d1)). fst e < u64_max"
    using assms(2) keys1 by blast+
  note none = cache_contract.lowest_corrupt_none_iff [OF assms(1)]
    and round = cache_contract.recovery_round [OF assms(1)]
  have "validate_light E no_faults d2 = Inr ()"
  proof (cases "lowest_corrupt_height E no_faults d1 = Inr None")
    case True
    then show ?thesis using d2(2) none [OF max(2)] by auto
  next
    case False
    then obtain h where h: "lowest_corrupt_height E no_faults d1 = Inr (Some h)"
      "remove_from E no_faults d1 h = Inr d2" using d2(2) by blast
    have "lowest_corrupt_height E no_faults d \<noteq> Inr None" using False d1(2) by auto
    then have "gapless E (db_blocks d1)" using d1(2) round [OF max(1)] by blast
    then show ?thesis using round [OF max(2) h] by blast
  qed
  then show ?thesis using d1 d2 by blast
qed

theorem recover_twice_witness:
  "\<exists>d1 d2. recover ref_cache no_faults no_faults (ref_broken 7) = Inr d1 \<and>
     recover ref_cache no_faults no_faults d1 = Inr d2 \<and> validate_light ref_cache no_faults d2 = Inr ()"
  using recover_twice [OF rc.cache_contract_axioms _ ref_broken_base, of 7]
  by (auto simp: ref_broken_entries u64_max_def)

text \<open>
  Recovery cannot repair height zero. When the lowest corrupt height is 0, a recovery succeeds but
  keeps the entry it was meant to drop (the saturating subtraction turns "truncate from 0" into "keep up
  to 0"), so the scan reports height 0 again and the open-time check still fails, however often recovery
  runs.
\<close>

theorem recover_stuck_at_genesis:
  assumes "cache_contract E"
    and "\<forall>e \<in> set (tbl_iter (blocks_ops E) (db_blocks d)). fst e < u64_max"
    and "is_ok (snapshot_base_height E no_faults d)"
    and "lowest_corrupt_height E no_faults d = Inr (Some 0)"
  shows "\<exists>d'. recover E no_faults no_faults d = Inr d' \<and>
    lowest_corrupt_height E no_faults d' = Inr (Some 0) \<and> validate_light E no_faults d' \<noteq> Inr ()"
proof -
  obtain d' where d': "remove_from E no_faults d 1 = Inr d'"
    using assms(3) by (auto simp: snapshot_base_get remove_from_def Let_def elim: is_okE)
  have zero: "sat_add64 (sat_sub 0 1) 1 = 1" by (simp add: sat_add64_def sat_sub_def u64_max_def)
  have rec: "recover E no_faults no_faults d = Inr d'"
    using assms(4) d' zero by (simp add: recover_def reorg_def)
  note genesis = cache_contract.corrupt_genesis [OF assms(1)]
  have zero: "tbl_get (blocks_ops E) (db_blocks d) 0 \<noteq> None" "\<not> good_at E (db_blocks d) 0"
    using genesis(1) [OF assms(2,4)] by blast+
  have "map fst (tbl_iter (blocks_ops E) (db_blocks d')) = [0..<1]"
    by (rule cache_contract.truncated_keys [OF assms(1) d'])
      (use zero(1) cache_contract.map_fst_key_get [OF assms(1), of 0 "db_blocks d"] in auto)
  then obtain v where "tbl_iter (blocks_ops E) (db_blocks d') = [(0, v)]" by (auto simp: map_eq_Cons_conv)
  then have low: "lowest_corrupt_height E no_faults d' = Inr (Some 0)"
    using genesis(2) zero(2) cache_contract.good_at_retain [OF assms(1) d', of 0] by simp
  have "\<forall>e \<in> set (tbl_iter (blocks_ops E) (db_blocks d')). fst e < u64_max"
    using assms(2) cache_contract.remove_from_iter [OF assms(1) d'] by (simp add: u64_max_def)
  then have "validate_light E no_faults d' \<noteq> Inr ()"
    using low cache_contract.lowest_corrupt_none_iff [OF assms(1), of d'] by auto
  then show ?thesis using rec low by blast
qed

theorem recover_stuck_at_genesis_witness:
  "\<exists>d'. recover ref_cache no_faults no_faults (ref_broken 0) = Inr d' \<and>
     lowest_corrupt_height ref_cache no_faults d' = Inr (Some 0)"
proof -
  have "lowest_corrupt_height ref_cache no_faults (ref_broken 0) = Inr (Some 0)"
    by (rule rc.corrupt_genesis(2)) (use ref_broken_entries ref_broken_bad in auto)
  then show ?thesis
    using recover_stuck_at_genesis [OF rc.cache_contract_axioms _ ref_broken_base, of 0]
    by (auto simp: ref_broken_entries u64_max_def)
qed

text \<open>
  The repair budget limits truncations by time. Of any sequence of requests at non-decreasing
  instants, at most five are granted for every started ten-minute window since the budget was opened.
\<close>

theorem repair_budget_bound:
  assumes "sorted (t0 # ts)" and "ts \<noteq> []"
  shows "granted (budget_new t0) ts \<le>
    MAX_REPAIRS_PER_WINDOW * (1 + (last ts - t0) div REPAIR_WINDOW)"
proof -
  obtain t ts' where ts: "ts = t # ts'" using assms(2) by (cases ts) auto
  from granted_bound [of t ts' "budget_new t0"] assms(1) show ?thesis
    by (simp add: ts budget_new_def algebra_simps)
qed

theorem repair_budget_bound_witness:
  "granted (budget_new 0) [1, 2, 3, 4, 5, 6, 7] \<le> 5 \<and> granted (budget_new 0) [1, 2, 3, 4, 5, 6, 7] = 5"
proof -
  have "granted (budget_new 0) [1, 2, 3, 4, 5, 6, 7] = 5" by code_simp
  then show ?thesis
    using repair_budget_bound [of 0 "[1, 2, 3, 4, 5, 6, 7]"]
    by (simp add: MAX_REPAIRS_PER_WINDOW_def REPAIR_WINDOW_def del: granted.simps)
qed

text \<open>
  Acting on a reported discontinuity. On a healthy cache, a report at a positive height the cache
  does not hold is dropped with no effect; one it holds is put back unchanged while the budget refuses
  it; and one the budget grants leaves exactly the blocks below the reported height, or nothing when
  that is at or below the floor.
\<close>

theorem repair_reported_effect:
  assumes "cache_contract E" and "healthy E d bs" and "bs \<noteq> []" and "0 < height"
    and "repair_reported E no_repair_faults d height start sig budget now = (d', sig', budget')"
  shows "if \<not> (cb_height (hd bs) \<le> height \<and> height \<le> cb_height (last bs))
      then d' = d \<and> sig' = sig \<and> budget' = budget
    else if \<not> fst (try_spend budget now) then d' = d \<and> sig' = min sig height
    else sig' = sig \<and> budget' = snd (try_spend budget now) \<and>
      healthy E d' (if height \<le> start then [] else takeWhile (\<lambda>b. cb_height b < height) bs)"
proof -
  have range: "cache_range E no_faults d = Inr (Some (cb_height (hd bs), cb_height (last bs)))"
    using assms(2,3) cache_contract.cache_range_eq [OF assms(1), of d bs] by (simp add: healthy_def)
  have latest: "latest_height E no_faults d = Inr (Some (cb_height (last bs)))"
    using assms(2,3) cache_contract.latest_height_eq [OF assms(1), of d bs] by (simp add: healthy_def)
  note total = cache_contract.remove_from_total [OF assms(1,2)]
    and removed = cache_contract.healthy_remove [OF assms(1,2)]
  have max: "cb_height (last bs) < u64_max" using assms(2,3) by (simp add: healthy_def stores_def)
  obtain d0 where d0: "remove_from E no_faults d 0 = Inr d0" using total by blast
  have "takeWhile (\<lambda>b. cb_height b < 0) bs = []" by (cases bs) auto
  then have empty: "healthy E d0 []" using removed [OF d0] by simp
  obtain dh where dh: "remove_from E no_faults d height = Inr dh" using total by blast
  note kept = removed [OF dh]
  show ?thesis
  proof (cases "height \<le> cb_height (last bs)")
    case True
    then have tgt: "sat_add64 (height - 1) 1 = height" "\<not> cb_height (last bs) \<le> height - 1"
      using max assms(4) by (auto simp: sat_add64_def)
    have "reorg_to_floor E no_faults no_faults d (height - 1) start = Inr (if height \<le> start then d0 else dh)"
      using latest d0 dh tgt assms(4)
      by (auto simp: reorg_to_floor_def truncate_from_def reorg_def)
    then show ?thesis
      using assms(5) range empty kept
      by (auto simp: repair_reported_def no_repair_faults_def Let_def sat_sub_def signal_report_def
          split: prod.splits if_splits)
  next
    case False
    then show ?thesis
      using assms(5) range by (auto simp: repair_reported_def no_repair_faults_def Let_def)
  qed
qed

theorem repair_reported_effect_witness:
  "\<exists>d' sig' budget'. repair_reported ref_cache no_repair_faults
       (ref_db [ref_block 7 [1] [0], ref_block 8 [2] [1]]) 8 3 signal_new (budget_new 0) 0 =
       (d', sig', budget') \<and> healthy ref_cache d' [ref_block 7 [1] [0]]"
proof -
  define d where "d = ref_db [ref_block 7 [1] [0], ref_block 8 [2] [1]]"
  have h: "healthy ref_cache d [ref_block 7 [1] [0], ref_block 8 [2] [1]]"
    using ref_db_stores [of "[ref_block 7 [1] [0], ref_block 8 [2] [1]]"]
    by (simp add: healthy_def d_def links_def u64_max_def ref_db_def ref_cache_def ot_ops_def
        ot_empty.rep_eq decode_base_height_def)
  obtain d' sig' budget' where r: "repair_reported ref_cache no_repair_faults d 8 3 signal_new (budget_new 0) 0 =
      (d', sig', budget')" by (metis prod_cases3)
  have "fst (try_spend (budget_new 0) 0)" by code_simp
  with repair_reported_effect [OF rc.cache_contract_axioms h _ _ r] show ?thesis
    using r by (auto simp: d_def)
qed

end
