(* ===== verification/Snapshot_Format.thy ===== *)
theory Snapshot_Format
  imports Cache Node_Rpc Compact Grpc_Status
begin

text \<open>
  src/snapshot/format.rs and the error type of src/snapshot/mod.rs: the manifest, the framing of an
  epoch body, the stored digest rows and the two digests. A writer is its state with a function that
  takes bytes and may fail, so the same code serves a buffer and a hashing sink.
\<close>

section \<open>Errors\<close>

text \<open>The detail of an error: the source's format string with its arguments.\<close>

type_synonym detail = "string \<times> msg_arg list"

datatype snapshot_error =
    SnapCache cache_error
  | SnapIo io_error
  | Malformed detail
  | InvalidChain string
  | UnknownEpoch u64
  | MalformedDigest u64
  | ChainMismatch string string
  | UnsupportedVersion nat nat
  | EpochSizeMismatch u64 u64
  | MalformedManifest detail
  | Gap "u64 option" u64
  | EpochRejected u64 string detail
  | BlockRejected u64 u64 string detail
  | SnapHttp "nat option"
  | SnapNode node_error
  | LookupTask join_error
  | NodeLookup u64 node_error


section \<open>The manifest and its entries\<close>

definition FORMAT_VERSION :: nat where
  "FORMAT_VERSION = 1"

definition MAGIC :: bytes where
  "MAGIC = [0x4C, 0x57, 0x44, 0x53, 0x4E, 0x41, 0x50, 0x01]"

record epoch_entry =
  en_index :: u64
  en_start :: u64
  en_end :: u64
  en_bytes :: u64
  en_content_digest :: string
  en_anchor :: string

record manifest =
  mf_format_version :: nat
  mf_chain :: string
  mf_epoch_size :: u64
  mf_base_height :: u64
  mf_tip_height :: u64
  mf_epochs :: "epoch_entry list"

record epoch_row =
  er_start :: u64
  er_end :: u64
  er_bytes :: u64
  er_content :: bytes
  er_anchor :: bytes

definition ENCODED_LEN :: usize where
  "ENCODED_LEN = 88"

definition row_encode :: "epoch_row \<Rightarrow> bytes" where
  "row_encode d =
     le_bytes 8 (er_start d) @ le_bytes 8 (er_end d) @ le_bytes 8 (er_bytes d) @
     er_content d @ er_anchor d"

definition row_decode :: "bytes \<Rightarrow> epoch_row option" where
  "row_decode bs =
     (if length bs \<noteq> ENCODED_LEN then None
      else Some \<lparr>er_start = of_le_bytes (take 8 bs),
                 er_end = of_le_bytes (take 8 (drop 8 bs)),
                 er_bytes = of_le_bytes (take 8 (drop 16 bs)),
                 er_content = take 32 (drop 24 bs),
                 er_anchor = take 32 (drop 56 bs)\<rparr>)"

definition row_entry :: "'x hex_ext_scheme \<Rightarrow> epoch_row \<Rightarrow> u64 \<Rightarrow> epoch_entry" where
  "row_entry X d index =
     \<lparr>en_index = index, en_start = er_start d, en_end = er_end d, en_bytes = er_bytes d,
      en_content_digest = hex_encode X (er_content d), en_anchor = hex_encode X (er_anchor d)\<rparr>"


section \<open>Strings as bytes\<close>

text \<open>A string is the list of the bytes of its UTF-8 form.\<close>

definition str_bytes :: "string \<Rightarrow> bytes" where
  "str_bytes s = map (\<lambda>c. of_nat (of_char c)) s"

definition bytes_str :: "bytes \<Rightarrow> string" where
  "bytes_str bs = map (\<lambda>b. char_of (unat b)) bs"

definition is_ascii :: "string \<Rightarrow> bool" where
  "is_ascii s = list_all (\<lambda>c. (of_char c :: nat) < 128) s"

text \<open>UTF-8 validity as str::from\_utf8 checks it: no overlong forms, surrogates or values past the end.\<close>

fun utf8_valid :: "nat list \<Rightarrow> bool" where
  "utf8_valid [] = True"
| "utf8_valid (b # bs) =
     (let cont = (\<lambda>n. 128 \<le> n \<and> n \<le> 191) in
      if b < 128 then utf8_valid bs
      else
        (case bs of
           [] \<Rightarrow> False
         | c # cs \<Rightarrow>
             if 194 \<le> b \<and> b \<le> 223 then cont c \<and> utf8_valid cs
             else
               (case cs of
                  [] \<Rightarrow> False
                | d # ds \<Rightarrow>
                    if b = 224 then 160 \<le> c \<and> c \<le> 191 \<and> cont d \<and> utf8_valid ds
                    else if b = 237 then 128 \<le> c \<and> c \<le> 159 \<and> cont d \<and> utf8_valid ds
                    else if 225 \<le> b \<and> b \<le> 239 then cont c \<and> cont d \<and> utf8_valid ds
                    else
                      (case ds of
                         [] \<Rightarrow> False
                       | e # es \<Rightarrow>
                           if b = 240 then 144 \<le> c \<and> c \<le> 191 \<and> cont d \<and> cont e \<and> utf8_valid es
                           else if 241 \<le> b \<and> b \<le> 243 then cont c \<and> cont d \<and> cont e \<and> utf8_valid es
                           else if b = 244 then 128 \<le> c \<and> c \<le> 143 \<and> cont d \<and> cont e \<and> utf8_valid es
                           else False))))"

definition from_utf8 :: "bytes \<Rightarrow> string option" where
  "from_utf8 bs = (if utf8_valid (map unat bs) then Some (bytes_str bs) else None)"


section \<open>Writing an epoch body\<close>

type_synonym 's writer = "bytes \<Rightarrow> 's \<Rightarrow> (io_error, 's) result"

definition vec_writer :: "bytes writer" where
  "vec_writer bs s = Inr (s @ bs)"

definition write_header ::
    "'s writer \<Rightarrow> string \<Rightarrow> u64 \<Rightarrow> u32 \<Rightarrow> 's \<Rightarrow> (snapshot_error, 's) result" where
  "write_header w chain start count s =
     bindE (failIf (chain = [] \<or> \<not> is_ascii chain \<or> length chain > 255) (InvalidChain chain)) (\<lambda>_.
     map_err SnapIo
       (bindE (w MAGIC s) (\<lambda>s.
        bindE (w [of_nat (length chain)] s) (\<lambda>s.
        bindE (w (str_bytes chain) s) (\<lambda>s.
        bindE (w (le_bytes 8 start) s) (\<lambda>s.
          w (le_bytes 4 count) s))))))"

definition write_record :: "'s writer \<Rightarrow> bytes \<Rightarrow> 's \<Rightarrow> (snapshot_error, 's) result" where
  "write_record w block s =
     bindE (failIf (length block > u32_max) (Malformed (''block of {} bytes'', [Num (length block)]))) (\<lambda>_.
     map_err SnapIo (bindE (w (le_bytes 4 (length block)) s) (\<lambda>s. w block s)))"


section \<open>Parsing an epoch body\<close>

record epoch_header =
  eh_chain :: string
  eh_start :: u64
  eh_count :: u32

definition cursor_take :: "bytes \<Rightarrow> usize \<Rightarrow> usize \<Rightarrow> (snapshot_error, bytes \<times> usize) result" where
  "cursor_take body offset len =
     (if offset + len \<le> length body then Inr (take len (drop offset body), offset + len)
      else Inl (Malformed (''body ends after {} bytes, need {} more at offset {}'',
             [Num (length body), Num len, Num offset])))"

primrec parse_records ::
    "bytes \<Rightarrow> nat \<Rightarrow> usize \<Rightarrow> bytes list \<Rightarrow> (snapshot_error, bytes list \<times> usize) result" where
  "parse_records body 0 offset records = Inr (records, offset)"
| "parse_records body (Suc n) offset records =
     bindE (cursor_take body offset 4) (\<lambda>(len, offset).
     bindE (cursor_take body offset (of_le_bytes len)) (\<lambda>(record, offset).
       parse_records body n offset (records @ [record])))"

definition parse_epoch ::
    "'x hex_ext_scheme \<Rightarrow> bytes \<Rightarrow> (snapshot_error, epoch_header \<times> bytes list) result" where
  "parse_epoch X body =
     bindE (cursor_take body 0 (length MAGIC)) (\<lambda>(magic, offset).
     bindE (failIf (magic \<noteq> MAGIC)
              (Malformed (''bad magic {}, expected a version {} epoch body'',
                 [Str (hex_encode X magic), Num FORMAT_VERSION]))) (\<lambda>_.
     bindE (cursor_take body offset 1) (\<lambda>(chain_length, offset).
     bindE (cursor_take body offset (unat (chain_length ! 0))) (\<lambda>(chain, offset).
     bindE (ok_or (Malformed (''chain name is not UTF-8: {}'', [])) (from_utf8 chain)) (\<lambda>chain.
     bindE (cursor_take body offset 8) (\<lambda>(start, offset).
     bindE (cursor_take body offset 4) (\<lambda>(count, offset).
     bindE (parse_records body (of_le_bytes count) offset []) (\<lambda>(records, offset).
     bindE (failIf (offset \<noteq> length body)
              (Malformed (''{} trailing bytes after {} records'',
                 [Num (length body - offset), Num (of_le_bytes count)]))) (\<lambda>_.
       Inr (\<lparr>eh_chain = chain, eh_start = of_le_bytes start, eh_count = of_le_bytes count\<rparr>,
            records))))))))))"


section \<open>Digests\<close>

definition content_digest :: "'x parse_ext_scheme \<Rightarrow> bytes \<Rightarrow> bytes" where
  "content_digest X body = sha256 X body"

text \<open>
  Hashing sinks. SHA-256 over a stream is the hash of what was fed to it, so a hasher is the bytes it
  was fed.
\<close>

record digest_writer =
  dw_hashed :: bytes
  dw_bytes :: u64

definition digest_new :: digest_writer where
  "digest_new = \<lparr>dw_hashed = [], dw_bytes = 0\<rparr>"

definition digest_write :: "digest_writer writer" where
  "digest_write buf w =
     Inr \<lparr>dw_hashed = dw_hashed w @ buf, dw_bytes = u64_add (dw_bytes w) (length buf)\<rparr>"

definition digest_finish :: "'x parse_ext_scheme \<Rightarrow> digest_writer \<Rightarrow> bytes \<times> u64" where
  "digest_finish X w = (sha256 X (dw_hashed w), dw_bytes w)"

type_synonym anchor_hasher = bytes

definition anchor_update :: "anchor_hasher \<Rightarrow> u64 \<Rightarrow> bytes \<Rightarrow> anchor_hasher" where
  "anchor_update hasher height block_hash = hasher @ be_bytes 8 height @ block_hash"

definition anchor_finish :: "'x parse_ext_scheme \<Rightarrow> anchor_hasher \<Rightarrow> bytes" where
  "anchor_finish X hasher = sha256 X hasher"

definition anchor_digest :: "'x parse_ext_scheme \<Rightarrow> (u64 \<times> bytes) list \<Rightarrow> bytes" where
  "anchor_digest X entries =
     anchor_finish X (foldl (\<lambda>hasher (height, block_hash). anchor_update hasher height block_hash) [] entries)"


section \<open>The canonical body\<close>

text \<open>The byte layout of an epoch body, which the writer produces and the parser accepts.\<close>

definition record_bytes :: "bytes \<Rightarrow> bytes" where
  "record_bytes block = le_bytes 4 (length block) @ block"

definition body_bytes :: "bytes \<Rightarrow> u64 \<Rightarrow> bytes list \<Rightarrow> bytes" where
  "body_bytes chain start records =
     MAGIC @ [of_nat (length chain)] @ chain @ le_bytes 8 start @ le_bytes 4 (length records) @
     concat (map record_bytes records)"

lemma length_MAGIC [simp]: "length MAGIC = 8"
  by (simp add: MAGIC_def)

lemma cursor_take_at:
  "cursor_take (pre @ xs @ rest) (length pre) (length xs) = Inr (xs, length pre + length xs)"
  by (simp add: cursor_take_def)

lemma cursor_take_Inr:
  "cursor_take body offset len = Inr (xs, offset') \<longleftrightarrow>
     offset + len \<le> length body \<and> xs = take len (drop offset body) \<and> offset' = offset + len"
  by (auto simp: cursor_take_def split: if_splits)

lemma cursor_take_split:
  assumes "cursor_take body offset len = Inr (xs, offset')"
  shows "take offset' body = take offset body @ xs" and "length xs = len" and "offset' = offset + len"
    and "offset' \<le> length body"
  using assms by (auto simp: cursor_take_Inr take_add)

lemma parse_records_sound:
  assumes "parse_records body n offset records = Inr (records', offset')" and "offset \<le> length body"
  shows "\<exists>new. records' = records @ new \<and> length new = n \<and> (\<forall>r \<in> set new. length r \<le> u32_max) \<and>
    take offset' body = take offset body @ concat (map record_bytes new) \<and> offset' \<le> length body"
  using assms
proof (induction n arbitrary: offset records)
  case (Suc n)
  from Suc.prems(1) obtain len o1 r o2 where
    c1: "cursor_take body offset 4 = Inr (len, o1)"
    and c2: "cursor_take body o1 (of_le_bytes len) = Inr (r, o2)"
    and rest: "parse_records body n o2 (records @ [r]) = Inr (records', offset')"
    by (auto simp: result_simps)
  note s1 = cursor_take_split [OF c1] and s2 = cursor_take_split [OF c2]
  from Suc.IH [OF rest s2(4)] obtain new where
    new: "records' = (records @ [r]) @ new" "length new = n" "\<forall>r \<in> set new. length r \<le> u32_max"
    "take offset' body = take o2 body @ concat (map record_bytes new)" "offset' \<le> length body" by blast
  have "of_le_bytes len < 256 ^ 4" using of_le_bytes_bound [of len] s1(2) by simp
  then have r: "length r \<le> u32_max" using s2(2) by (simp add: u32_max_def)
  have "le_bytes 4 (length r) = len"
    using le_bytes_of_le_bytes [of len] s1(2) s2(2) by simp
  then have "take o2 body = take offset body @ record_bytes r"
    using s1(1) s2(1) by (simp add: record_bytes_def)
  then show ?case using new r by (intro exI [of _ "r # new"]) simp
qed auto

lemma parse_records_complete:
  assumes "\<forall>r \<in> set new. length r \<le> u32_max"
  shows "parse_records (pre @ concat (map record_bytes new)) (length new) (length pre) records =
    Inr (records @ new, length pre + length (concat (map record_bytes new)))"
  using assms
proof (induction new arbitrary: pre records)
  case (Cons r new)
  let ?body = "pre @ concat (map record_bytes (r # new))"
  let ?len = "le_bytes 4 (length r)"
  have "cursor_take (pre @ ?len @ r @ concat (map record_bytes new)) (length pre) (length ?len) =
      Inr (?len, length pre + length ?len)"
    by (rule cursor_take_at)
  then have c1: "cursor_take ?body (length pre) 4 = Inr (?len, length pre + 4)"
    by (simp add: record_bytes_def [of r])
  have "cursor_take ((pre @ ?len) @ r @ concat (map record_bytes new)) (length (pre @ ?len)) (length r) =
      Inr (r, length (pre @ ?len) + length r)"
    by (rule cursor_take_at)
  then have c2: "cursor_take ?body (length pre + 4) (length r) = Inr (r, length pre + 4 + length r)"
    by (simp add: record_bytes_def [of r])
  have "parse_records ((pre @ ?len @ r) @ concat (map record_bytes new)) (length new)
      (length (pre @ ?len @ r)) (records @ [r]) =
      Inr ((records @ [r]) @ new, length (pre @ ?len @ r) + length (concat (map record_bytes new)))"
    using Cons.prems by (intro Cons.IH) simp
  then show ?case
    using c1 c2 Cons.prems by (simp add: record_bytes_def [of r] add.assoc)
qed simp

lemma parse_epoch_sound:
  assumes "parse_epoch X body = Inr (h, records)"
  shows "\<exists>chain. body = body_bytes chain (eh_start h) records \<and> length chain \<le> 255 \<and>
    from_utf8 chain = Some (eh_chain h) \<and> eh_start h \<le> u64_max \<and> eh_count h = length records \<and>
    length records \<le> u32_max \<and> (\<forall>r \<in> set records. length r \<le> u32_max)"
proof -
  from assms obtain magic o1 cl o2 chain o3 start o4 count o5 o6 where
    c1: "cursor_take body 0 (length MAGIC) = Inr (magic, o1)" and m: "magic = MAGIC"
    and c2: "cursor_take body o1 1 = Inr (cl, o2)"
    and c3: "cursor_take body o2 (unat (cl ! 0)) = Inr (chain, o3)"
    and utf: "from_utf8 chain = Some (eh_chain h)"
    and c4: "cursor_take body o3 8 = Inr (start, o4)"
    and c5: "cursor_take body o4 4 = Inr (count, o5)"
    and recs: "parse_records body (of_le_bytes count) o5 [] = Inr (records, o6)"
    and fin: "o6 = length body"
    and h: "eh_start h = of_le_bytes start" "eh_count h = of_le_bytes count"
    by (auto simp: parse_epoch_def result_simps)
  note s1 = cursor_take_split [OF c1] and s2 = cursor_take_split [OF c2] and s3 = cursor_take_split [OF c3]
    and s4 = cursor_take_split [OF c4] and s5 = cursor_take_split [OF c5]
  from parse_records_sound [OF recs s5(4)] fin have
    r: "length records = of_le_bytes count" "\<forall>r \<in> set records. length r \<le> u32_max"
    "body = take o5 body @ concat (map record_bytes records)" by auto
  obtain b where cl: "cl = [b]" using s2(2) by (auto simp: length_Suc_conv)
  have chain: "length chain = unat b" using s3(2) cl by simp
  have "take o5 body = MAGIC @ [b] @ chain @ start @ count"
    using s1(1) s2(1) s3(1) s4(1) s5(1) m cl by simp
  moreover have "b = of_nat (length chain)" using chain by simp
  moreover have "start = le_bytes 8 (eh_start h)" "count = le_bytes 4 (length records)"
    using le_bytes_of_le_bytes [of start] le_bytes_of_le_bytes [of count] s4(2) s5(2) h r(1) by simp_all
  ultimately have "body = body_bytes chain (eh_start h) records"
    using r(3) by (simp add: body_bytes_def)
  moreover have "eh_start h \<le> u64_max" "length records \<le> u32_max"
    using of_le_bytes_bound [of start] of_le_bytes_bound [of count] s4(2) s5(2) h r(1)
    by (simp_all add: u64_max_def u32_max_def)
  moreover have "length chain \<le> 255" using chain unat_u8_bound [of b] by simp
  ultimately show ?thesis using utf r h by auto
qed

lemma parse_epoch_complete:
  assumes "length chain \<le> 255" and "from_utf8 chain = Some name" and "start \<le> u64_max"
    and "length records \<le> u32_max" and "\<forall>r \<in> set records. length r \<le> u32_max"
  shows "parse_epoch X (body_bytes chain start records) =
    Inr (\<lparr>eh_chain = name, eh_start = start, eh_count = length records\<rparr>, records)"
proof -
  define cl where "cl = [of_nat (length chain) :: u8]"
  define st where "st = le_bytes 8 start"
  define ct where "ct = le_bytes 4 (length records)"
  define tail where "tail = concat (map record_bytes records)"
  have body: "body_bytes chain start records = MAGIC @ cl @ chain @ st @ ct @ tail"
    by (simp add: body_bytes_def cl_def st_def ct_def tail_def)
  have len: "length cl = 1" "length st = 8" "length ct = 4" by (simp_all add: cl_def st_def ct_def)
  have cl0: "unat (cl ! 0) = length chain" using assms(1) by (simp add: cl_def unat_of_nat)
  have "cursor_take (MAGIC @ cl @ chain @ st @ ct @ tail) 0 (length MAGIC) = Inr (MAGIC, 8)"
    using cursor_take_at [of "[]" MAGIC] by simp
  moreover have "cursor_take (MAGIC @ cl @ chain @ st @ ct @ tail) 8 1 = Inr (cl, 9)"
    using cursor_take_at [of MAGIC cl] len by simp
  moreover have "cursor_take (MAGIC @ cl @ chain @ st @ ct @ tail) 9 (length chain) = Inr (chain, 9 + length chain)"
    using cursor_take_at [of "MAGIC @ cl" chain] len by simp
  moreover have "cursor_take (MAGIC @ cl @ chain @ st @ ct @ tail) (9 + length chain) 8 = Inr (st, 17 + length chain)"
    using cursor_take_at [of "MAGIC @ cl @ chain" st] len by simp
  moreover have "cursor_take (MAGIC @ cl @ chain @ st @ ct @ tail) (17 + length chain) 4 = Inr (ct, 21 + length chain)"
    using cursor_take_at [of "MAGIC @ cl @ chain @ st" ct] len by simp
  moreover have "parse_records (MAGIC @ cl @ chain @ st @ ct @ tail) (length records) (21 + length chain) [] =
      Inr (records, length (MAGIC @ cl @ chain @ st @ ct @ tail))"
    using parse_records_complete [OF assms(5), of "MAGIC @ cl @ chain @ st @ ct" "[]"] len
    by (simp add: tail_def [symmetric] add.commute add.left_commute)
  moreover have "of_le_bytes st = start" "of_le_bytes ct = length records"
    using assms(3,4) by (simp_all add: st_def ct_def)
  ultimately show ?thesis
    using assms(2) cl0 unfolding body parse_epoch_def by simp
qed

text \<open>ASCII names survive the trip through bytes.\<close>

lemma of_char_bound: "(of_char c :: nat) < 256"
proof -
  have "(of_char c :: nat) = of_char (char_of (of_char c :: nat) :: char)" by simp
  also have "... = of_char c mod 256" by (rule of_char_of)
  finally show ?thesis by (metis mod_less_divisor zero_less_numeral)
qed

lemma bytes_str_str_bytes [simp]: "bytes_str (str_bytes s) = s"
proof -
  have "char_of (unat (of_nat (of_char c) :: u8)) = c" for c :: char
    using of_char_bound [of c] by (simp add: unat_of_nat)
  then show ?thesis by (simp add: bytes_str_def str_bytes_def map_idI)
qed

lemma length_str_bytes [simp]: "length (str_bytes s) = length s"
  by (simp add: str_bytes_def)

lemma utf8_valid_ascii: "list_all (\<lambda>n. n < 128) ns \<Longrightarrow> utf8_valid ns"
  by (induction ns) auto

lemma from_utf8_ascii: "is_ascii s \<Longrightarrow> from_utf8 (str_bytes s) = Some s"
proof -
  assume a: "is_ascii s"
  have "list_all (\<lambda>n. n < 128) (map unat (str_bytes s))"
    using a by (auto simp: is_ascii_def str_bytes_def list_all_iff unat_of_nat)
  then show ?thesis by (simp add: from_utf8_def utf8_valid_ascii)
qed

lemma write_header_vec:
  "write_header vec_writer chain start count s =
     (if chain = [] \<or> \<not> is_ascii chain \<or> length chain > 255 then Inl (InvalidChain chain)
      else Inr (s @ MAGIC @ [of_nat (length chain)] @ str_bytes chain @ le_bytes 8 start @ le_bytes 4 count))"
  by (simp add: write_header_def vec_writer_def)

lemma write_record_vec:
  "length block \<le> u32_max \<Longrightarrow> write_record vec_writer block s = Inr (s @ record_bytes block)"
  by (simp add: write_record_def vec_writer_def record_bytes_def)

lemma write_records_vec:
  "\<forall>r \<in> set records. length r \<le> u32_max \<Longrightarrow>
     foldE (write_record vec_writer) records s = Inr (s @ concat (map record_bytes records))"
  by (induction records arbitrary: s) (simp_all add: write_record_vec)


lemma row_decode_encode:
  "row_decode (row_encode d) = Some d" if "er_start d \<le> u64_max" "er_end d \<le> u64_max" "er_bytes d \<le> u64_max"
    "length (er_content d) = 32" "length (er_anchor d) = 32"
  using that by (cases d) (simp add: row_decode_def row_encode_def ENCODED_LEN_def)


section \<open>Properties\<close>

text \<open>
  C25: the epoch framing is a bijection. The parser accepts a body exactly when it is the canonical
  layout of a header and records (magic, a chain name of at most 255 bytes of valid UTF-8, a start
  height, a record count and that many length-prefixed records, with nothing left over), and returns
  those parts; and what the writer produces from an accepted header and records is that layout, so
  writing then parsing gives back the chain, the start and every record.
\<close>

theorem epoch_framing:
  shows "(parse_epoch X body = Inr (h, records) \<longleftrightarrow>
      (\<exists>chain. body = body_bytes chain (eh_start h) records \<and> length chain \<le> 255 \<and>
         from_utf8 chain = Some (eh_chain h) \<and> eh_start h \<le> u64_max \<and> eh_count h = length records \<and>
         length records \<le> u32_max \<and> (\<forall>r \<in> set records. length r \<le> u32_max))) \<and>
    (bindE (write_header vec_writer name start (length blocks) []) (foldE (write_record vec_writer) blocks) = Inr out \<and>
       start \<le> u64_max \<and> length blocks \<le> u32_max \<and> (\<forall>r \<in> set blocks. length r \<le> u32_max) \<longrightarrow>
     parse_epoch X out = Inr (\<lparr>eh_chain = name, eh_start = start, eh_count = length blocks\<rparr>, blocks))"
proof (intro conjI impI iffI)
  assume "parse_epoch X body = Inr (h, records)"
  then show "\<exists>chain. body = body_bytes chain (eh_start h) records \<and> length chain \<le> 255 \<and>
         from_utf8 chain = Some (eh_chain h) \<and> eh_start h \<le> u64_max \<and> eh_count h = length records \<and>
         length records \<le> u32_max \<and> (\<forall>r \<in> set records. length r \<le> u32_max)"
    by (rule parse_epoch_sound)
next
  assume "\<exists>chain. body = body_bytes chain (eh_start h) records \<and> length chain \<le> 255 \<and>
         from_utf8 chain = Some (eh_chain h) \<and> eh_start h \<le> u64_max \<and> eh_count h = length records \<and>
         length records \<le> u32_max \<and> (\<forall>r \<in> set records. length r \<le> u32_max)"
  then show "parse_epoch X body = Inr (h, records)"
    using parse_epoch_complete [of _ "eh_chain h" "eh_start h" records X] by (cases h) auto
next
  assume a: "bindE (write_header vec_writer name start (length blocks) []) (foldE (write_record vec_writer) blocks) =
      Inr out \<and> start \<le> u64_max \<and> length blocks \<le> u32_max \<and> (\<forall>r \<in> set blocks. length r \<le> u32_max)"
  then have "is_ascii name" "length name \<le> 255" "out = body_bytes (str_bytes name) start blocks"
    by (auto simp: write_header_vec write_records_vec body_bytes_def split: if_splits)
  then show "parse_epoch X out = Inr (\<lparr>eh_chain = name, eh_start = start, eh_count = length blocks\<rparr>, blocks)"
    using parse_epoch_complete [OF _ from_utf8_ascii, of name start blocks X] a by simp
qed

theorem epoch_framing_witness:
  "\<exists>out. bindE (write_header vec_writer ''main'' 7 2 []) (foldE (write_record vec_writer) [[1], [2, 3]]) = Inr out \<and>
     parse_epoch ref_parse out = Inr (\<lparr>eh_chain = ''main'', eh_start = 7, eh_count = 2\<rparr>, [[1], [2, 3]])"
proof -
  have "is_ok (bindE (write_header vec_writer ''main'' 7 2 []) (foldE (write_record vec_writer) [[1], [2, 3]]))"
    by code_simp
  then obtain out where out: "bindE (write_header vec_writer ''main'' 7 2 [])
      (foldE (write_record vec_writer) [[1], [2, 3]]) = Inr out"
    by (auto simp: is_ok_def split: sum.splits)
  have two: "length [[1], [2, 3 :: u8]] = 2" by simp
  from conjunct2 [OF epoch_framing, rule_format, of "''main''" 7 "[[1], [2, 3]]" out ref_parse] out
  show ?thesis unfolding two by (auto simp: u64_max_def u32_max_def)
qed

text \<open>
  digest rows round-trip. A stored row decodes to a digest exactly when it is that digest's encoding,
  with bounds that fit 64 bits and two 32-byte digests.
\<close>

theorem epoch_row_roundtrip:
  "row_decode bs = Some d \<longleftrightarrow>
     bs = row_encode d \<and> er_start d \<le> u64_max \<and> er_end d \<le> u64_max \<and> er_bytes d \<le> u64_max \<and>
     length (er_content d) = 32 \<and> length (er_anchor d) = 32"
proof
  assume a: "row_decode bs = Some d"
  then have len: "length bs = 88" by (auto simp: row_decode_def ENCODED_LEN_def split: if_splits)
  have d: "er_start d = of_le_bytes (take 8 bs)" "er_end d = of_le_bytes (take 8 (drop 8 bs))"
    "er_bytes d = of_le_bytes (take 8 (drop 16 bs))" "er_content d = take 32 (drop 24 bs)"
    "er_anchor d = take 32 (drop 56 bs)"
    using a len by (auto simp: row_decode_def ENCODED_LEN_def)
  have inv: "le_bytes 8 (of_le_bytes xs) = xs" "of_le_bytes xs \<le> u64_max" if "length xs = 8" for xs :: bytes
    using le_bytes_of_le_bytes [of xs] of_le_bytes_bound [of xs] that by (simp_all add: u64_max_def)
  have "bs = take 8 bs @ take 8 (drop 8 bs) @ take 8 (drop 16 bs) @ take 32 (drop 24 bs) @ take 32 (drop 56 bs)"
    using len append_take_drop_id [of 8 bs] append_take_drop_id [of 8 "drop 8 bs"]
      append_take_drop_id [of 8 "drop 16 bs"] append_take_drop_id [of 32 "drop 24 bs"]
    by simp
  then show "bs = row_encode d \<and> er_start d \<le> u64_max \<and> er_end d \<le> u64_max \<and> er_bytes d \<le> u64_max \<and>
     length (er_content d) = 32 \<and> length (er_anchor d) = 32"
    using len by (simp add: row_encode_def d inv)
next
  assume "bs = row_encode d \<and> er_start d \<le> u64_max \<and> er_end d \<le> u64_max \<and> er_bytes d \<le> u64_max \<and>
     length (er_content d) = 32 \<and> length (er_anchor d) = 32"
  then show "row_decode bs = Some d" by (simp add: row_decode_encode)
qed

end
