(* ===== verification/Snapshot_Export.thy ===== *)
theory Snapshot_Export
  imports Snapshot_Format Cache_Props
begin

text \<open>
  src/snapshot/export.rs: the manifest and epoch bodies read out of a live cache, and the maintenance
  walk that computes and stores the digests of completed epochs. The cache may change between two
  calls of one operation, since the ingestor keeps writing; an operation that makes several calls
  takes the database each of them sees.
\<close>

definition cache_try :: "(cache_error, 'a) result \<Rightarrow> (snapshot_error, 'a) result" where
  "cache_try r = map_err SnapCache r"

definition decode_row :: "u64 \<Rightarrow> bytes \<Rightarrow> (snapshot_error, epoch_row) result" where
  "decode_row index row = ok_or (MalformedDigest index) (row_decode row)"

definition manifest_of ::
    "('b, 'm) cache_ext \<Rightarrow> 'x hex_ext_scheme \<Rightarrow> faults \<Rightarrow> faults \<Rightarrow> ('b, 'm) db \<Rightarrow> ('b, 'm) db \<Rightarrow> string
      \<Rightarrow> (snapshot_error, manifest) result" where
  "manifest_of E X flt_range flt_rows db_range db_rows chain =
     bindE (cache_try (cache_range E flt_range db_range)) (\<lambda>range.
       let (base_height, tip_height) = (case range of None \<Rightarrow> (0, 0) | Some r \<Rightarrow> r) in
     bindE (cache_try (epoch_digests E flt_rows db_rows)) (\<lambda>rows.
     bindE (mapE (\<lambda>(index, row). bindE (decode_row index row) (\<lambda>digest. Inr (row_entry X digest index))) rows)
       (\<lambda>epochs.
         Inr \<lparr>mf_format_version = FORMAT_VERSION, mf_chain = chain, mf_epoch_size = EPOCH_SIZE,
              mf_base_height = base_height, mf_tip_height = tip_height, mf_epochs = epochs\<rparr>)))"

text \<open>
  The body writer. The visitor writes each record, hands the block to \<^verbatim>\<open>on_block\<close> and counts it.
\<close>

definition write_body ::
    "('b, 'm) cache_ext \<Rightarrow> faults \<Rightarrow> ('b, 'm) db \<Rightarrow> string \<Rightarrow> u64 \<Rightarrow> u64 \<Rightarrow> 's writer
      \<Rightarrow> (u64 \<Rightarrow> bytes \<Rightarrow> 't \<Rightarrow> (snapshot_error, 't) result) \<Rightarrow> 's \<Rightarrow> 't \<Rightarrow> (snapshot_error, 's \<times> 't) result" where
  "write_body E flt db chain low high w on_block out t =
     bindE (ok_or (Malformed (''epoch bounds [{}, {}]'', [Num low, Num high]))
              (case checked_sub high low of
                 None \<Rightarrow> None
               | Some span \<Rightarrow>
                   (case checked_add64 span 1 of
                      None \<Rightarrow> None
                    | Some count \<Rightarrow> if count \<le> u32_max then Some count else None))) (\<lambda>count.
     bindE (write_header w chain low count out) (\<lambda>out.
     bindE
       (for_each_raw E flt db low high SnapCache
          (\<lambda>height raw (out, t, written).
             bindE (write_record w raw out) (\<lambda>out.
             bindE (on_block height raw t) (\<lambda>t.
               Inr (out, t, u64_add written 1))))
          (out, t, 0)) (\<lambda>(out, t, written).
     bindE (failIf (written \<noteq> count)
              (Malformed (''epoch [{}, {}] holds {} of {} blocks'',
                 [Num low, Num high, Num written, Num count]))) (\<lambda>_.
       Inr (out, t)))))"

definition write_epoch ::
    "('b, 'm) cache_ext \<Rightarrow> faults \<Rightarrow> faults \<Rightarrow> ('b, 'm) db \<Rightarrow> ('b, 'm) db \<Rightarrow> string \<Rightarrow> u64 \<Rightarrow> 's writer \<Rightarrow> 's
      \<Rightarrow> (snapshot_error, 's) result" where
  "write_epoch E flt_row flt_body db_row db_body chain index w out =
     bindE (cache_try (epoch_digest E flt_row db_row index)) (\<lambda>row.
     bindE (ok_or (UnknownEpoch index) row) (\<lambda>row.
     bindE (decode_row index row) (\<lambda>digest.
     bindE (write_body E flt_body db_body chain (er_start digest) (er_end digest) w
              (\<lambda>_ _ t. Inr t) out ()) (\<lambda>(out, _).
       Inr out))))"

definition was_truncated :: "(u64 \<times> u64) option \<Rightarrow> (u64 \<times> u64) option \<Rightarrow> bool" where
  "was_truncated before after =
     (case (before, after) of
        (Some (before_base, before_tip), Some (base, tip)) \<Rightarrow> base \<noteq> before_base \<or> tip < before_tip
      | (Some _, None) \<Rightarrow> True
      | (None, _) \<Rightarrow> False)"

definition complete_epoch_bounds ::
    "('b, 'm) cache_ext \<Rightarrow> faults \<Rightarrow> ('b, 'm) db \<Rightarrow> u64 \<Rightarrow> (snapshot_error, (u64 \<times> u64) option) result" where
  "complete_epoch_bounds E flt db index =
     bindE (cache_try (cache_range E flt db)) (\<lambda>range.
       case range of
         None \<Rightarrow> Inr None
       | Some (base, tip) \<Rightarrow>
           let low = max (epoch_first_height index) base; high = epoch_last_height index in
           if low > high \<or> high \<ge> tip then Inr None else Inr (Some (low, high)))"

text \<open>The visitor of the digest computation: decode the block, check its key, and feed the anchor.\<close>

definition digest_block ::
    "('b, 'm) cache_ext \<Rightarrow> u64 \<Rightarrow> bytes \<Rightarrow> anchor_hasher \<Rightarrow> (snapshot_error, anchor_hasher) result" where
  "digest_block E height raw anchor =
     bindE (map_err (\<lambda>e. SnapCache (Decode e)) (block_decode E raw)) (\<lambda>block.
     bindE (failIf (cb_height block \<noteq> height)
              (SnapCache (Corruption height (HeightKeyMismatch (cb_height block) height)))) (\<lambda>_.
       Inr (anchor_update anchor height (cb_hash block))))"

definition compute_epoch_digest ::
    "('b, 'm) cache_ext \<Rightarrow> 'x parse_ext_scheme \<Rightarrow> faults \<Rightarrow> faults \<Rightarrow> ('b, 'm) db \<Rightarrow> ('b, 'm) db \<Rightarrow> string \<Rightarrow> u64
      \<Rightarrow> (snapshot_error, epoch_row option) result" where
  "compute_epoch_digest E X flt_bounds flt_body db_bounds db_body chain index =
     bindE (complete_epoch_bounds E flt_bounds db_bounds index) (\<lambda>bounds.
       case bounds of
         None \<Rightarrow> Inr None
       | Some (low, high) \<Rightarrow>
           bindE (write_body E flt_body db_body chain low high digest_write (digest_block E) digest_new [])
             (\<lambda>(content, anchor).
               let (digest, len) = digest_finish X content in
               Inr (Some \<lparr>er_start = low, er_end = high, er_bytes = len, er_content = digest,
                          er_anchor = anchor_finish X anchor\<rparr>)))"

text \<open>
  The scan for the lowest complete epoch without a digest. Its loop ends because the last height of an
  epoch grows with the index until it passes the tip; the fuel is the number of epochs up to the tip.
  \<^verbatim>\<open>rows\<close> gives the database and the failures each row lookup sees.
\<close>

primrec pending_scan ::
    "('b, 'm) cache_ext \<Rightarrow> (u64 \<Rightarrow> faults \<times> ('b, 'm) db) \<Rightarrow> u64 \<Rightarrow> nat \<Rightarrow> u64
      \<Rightarrow> (snapshot_error, u64 option) result" where
  "pending_scan E rows tip 0 index = Inr None"
| "pending_scan E rows tip (Suc fuel) index =
     (if epoch_last_height index < tip then
        bindE (cache_try (epoch_digest E (fst (rows index)) (snd (rows index)) index)) (\<lambda>row.
          if row = None then Inr (Some index) else pending_scan E rows tip fuel (u64_add index 1))
      else Inr None)"

definition next_pending_epoch ::
    "('b, 'm) cache_ext \<Rightarrow> faults \<Rightarrow> ('b, 'm) db \<Rightarrow> (u64 \<Rightarrow> faults \<times> ('b, 'm) db)
      \<Rightarrow> (snapshot_error, u64 option) result" where
  "next_pending_epoch E flt db rows =
     bindE (cache_try (cache_range E flt db)) (\<lambda>range.
       case range of
         None \<Rightarrow> Inr None
       | Some (base, tip) \<Rightarrow> pending_scan E rows tip (Suc (epoch_index tip)) (epoch_index base))"

text \<open>What each call of one maintenance pass sees.\<close>

record ('b, 'm) maintain_views =
  mv_pending :: "faults \<times> ('b, 'm) db"
  mv_rows :: "u64 \<Rightarrow> faults \<times> ('b, 'm) db"
  mv_before :: "faults \<times> ('b, 'm) db"
  mv_bounds :: "faults \<times> ('b, 'm) db"
  mv_body :: "faults \<times> ('b, 'm) db"
  mv_after :: "faults \<times> ('b, 'm) db"
  mv_store :: "faults \<times> ('b, 'm) db"

text \<open>The result carries the database after the pass: the one the store call saw, if nothing was written.\<close>

definition store_next_epoch_digest ::
    "('b, 'm) cache_ext \<Rightarrow> 'x parse_ext_scheme \<Rightarrow> ('b, 'm) maintain_views \<Rightarrow> string
      \<Rightarrow> (snapshot_error, u64 option \<times> ('b, 'm) db) result" where
  "store_next_epoch_digest E X v chain =
     (let unchanged = snd (mv_store v) in
     bindE (next_pending_epoch E (fst (mv_pending v)) (snd (mv_pending v)) (mv_rows v)) (\<lambda>pending.
       case pending of
         None \<Rightarrow> Inr (None, unchanged)
       | Some index \<Rightarrow>
           bindE (cache_try (cache_range E (fst (mv_before v)) (snd (mv_before v)))) (\<lambda>range_before.
           bindE (compute_epoch_digest E X (fst (mv_bounds v)) (fst (mv_body v)) (snd (mv_bounds v))
                    (snd (mv_body v)) chain index) (\<lambda>digest.
             case digest of
               None \<Rightarrow> Inr (None, unchanged)
             | Some digest \<Rightarrow>
                 bindE (cache_try (cache_range E (fst (mv_after v)) (snd (mv_after v)))) (\<lambda>range_after.
                   if was_truncated range_before range_after then Inr (None, unchanged)
                   else
                     bindE (cache_try (set_epoch_digest E (fst (mv_store v)) (snd (mv_store v)) index
                              (row_encode digest))) (\<lambda>db'.
                       Inr (Some index, db')))))))"

text \<open>One pass of the maintenance loop and the pause it takes, in milliseconds.\<close>

record digest_maintenance =
  epoch_interval :: nat
  idle_interval :: nat

definition default_maintenance :: digest_maintenance where
  "default_maintenance = \<lparr>epoch_interval = 250, idle_interval = 30000\<rparr>"

definition maintain_pass ::
    "('b, 'm) cache_ext \<Rightarrow> 'x parse_ext_scheme \<Rightarrow> ('b, 'm) maintain_views \<Rightarrow> join_error option \<Rightarrow> string
      \<Rightarrow> digest_maintenance \<Rightarrow> nat \<times> ('b, 'm) db" where
  "maintain_pass E X v task chain config =
     (case task of
        Some _ \<Rightarrow> (idle_interval config, snd (mv_store v))
      | None \<Rightarrow>
          (case store_next_epoch_digest E X v chain of
             Inr (Some _, db') \<Rightarrow> (epoch_interval config, db')
           | Inr (None, db') \<Rightarrow> (idle_interval config, db')
           | Inl _ \<Rightarrow> (idle_interval config, snd (mv_store v))))"

end
