(* ===== verification/Snapshot_Import.thy ===== *)
theory Snapshot_Import
  imports Snapshot_Export
begin

text \<open>
  src/snapshot/import.rs: downloading a peer's epochs, verifying them in four layers against the
  operator's own node, and appending them to the cache one transaction per epoch. The peer is a record of
  its two endpoints; the HTTP implementation of it is modelled over the chunks a response delivers.
\<close>

section \<open>The source of epochs\<close>

record epoch_source =
  src_manifest :: "(snapshot_error, manifest) result"
  src_epoch :: "u64 \<Rightarrow> u64 \<Rightarrow> (snapshot_error, bytes) result"

definition MAX_EPOCH_BYTES :: u64 where
  "MAX_EPOCH_BYTES = 2147483648"

definition MAX_MANIFEST_BYTES :: u64 where
  "MAX_MANIFEST_BYTES = 8388608"

definition FETCH_ATTEMPTS :: u32 where
  "FETCH_ATTEMPTS = 3"

definition RETRY_BACKOFF :: nat where
  "RETRY_BACKOFF = 2000"

text \<open>
  A GET: the status error or the chunks of the body, each of which may fail. The failure of a request
  carries its status, if it has one.
\<close>

type_synonym http_reply = "(nat option, (nat option, bytes) result list) result"

primrec read_stream ::
    "u64 \<Rightarrow> snapshot_error \<Rightarrow> (nat option, bytes) result list \<Rightarrow> bytes \<Rightarrow> (snapshot_error, bytes) result" where
  "read_stream max_bytes too_long [] body = Inr body"
| "read_stream max_bytes too_long (c # cs) body =
     bindE (map_err SnapHttp c) (\<lambda>chunk.
     bindE (failIf (length body + length chunk > max_bytes) too_long) (\<lambda>_.
       read_stream max_bytes too_long cs (body @ chunk)))"

definition get_capped :: "http_reply \<Rightarrow> u64 \<Rightarrow> snapshot_error \<Rightarrow> (snapshot_error, bytes) result" where
  "get_capped reply max_bytes too_long =
     bindE (map_err SnapHttp reply) (\<lambda>chunks. read_stream max_bytes too_long chunks [])"

definition fetch_epoch :: "http_reply \<Rightarrow> u64 \<Rightarrow> u64 \<Rightarrow> (snapshot_error, bytes) result" where
  "fetch_epoch reply index max_bytes =
     get_capped reply max_bytes
       (EpochRejected index ''length'' (''body ran past the declared {} bytes'', [Num max_bytes]))"

definition is_worth_retrying :: "snapshot_error \<Rightarrow> bool" where
  "is_worth_retrying error =
     (case error of
        SnapHttp status \<Rightarrow>
          (case status of
             Some status \<Rightarrow> (500 \<le> status \<and> status < 600) \<or> status = 429
           | None \<Rightarrow> True)
      | _ \<Rightarrow> False)"

text \<open>
  The retry loop: the replies to the successive attempts, and the sleeps taken between them. It makes at
  most \<^verbatim>\<open>attempts\<close> requests, since the attempt number grows to that bound.
\<close>

function epoch_retry ::
    "(nat \<Rightarrow> http_reply) \<Rightarrow> u64 \<Rightarrow> u64 \<Rightarrow> nat \<Rightarrow> nat \<Rightarrow> nat \<Rightarrow> (snapshot_error, bytes) result \<times> nat list" where
  "epoch_retry replies index max_bytes attempts attempt delay =
     (case fetch_epoch (replies attempt) index max_bytes of
        Inr body \<Rightarrow> (Inr body, [])
      | Inl error \<Rightarrow>
          if attempt \<ge> attempts \<or> \<not> is_worth_retrying error then (Inl error, [])
          else
            let (result, sleeps) = epoch_retry replies index max_bytes attempts (attempt + 1) (delay * 2) in
            (result, delay # sleeps))"
  by pat_completeness auto
termination
  by (relation "measure (\<lambda>(_, _, _, attempts, attempt, _). attempts - attempt)") auto

declare epoch_retry.simps [simp del]

definition http_epoch :: "(nat \<Rightarrow> http_reply) \<Rightarrow> u64 \<Rightarrow> u64 \<Rightarrow> (snapshot_error, bytes) result" where
  "http_epoch replies index max_bytes =
     fst (epoch_retry replies index max_bytes FETCH_ATTEMPTS 1 RETRY_BACKOFF)"

definition http_manifest ::
    "(bytes \<Rightarrow> (string, manifest) result) \<Rightarrow> http_reply \<Rightarrow> (snapshot_error, manifest) result" where
  "http_manifest from_slice reply =
     bindE (get_capped reply MAX_MANIFEST_BYTES
              (MalformedManifest (''manifest ran past the {} bytes one may hold'', [Num MAX_MANIFEST_BYTES])))
       (\<lambda>body. map_err (\<lambda>error. MalformedManifest (''{}'', [Str error])) (from_slice body))"


section \<open>The manifest\<close>

primrec validate_epochs ::
    "u64 \<Rightarrow> epoch_entry option \<Rightarrow> epoch_entry list \<Rightarrow> (snapshot_error, unit) result" where
  "validate_epochs base_height previous [] = Inr ()"
| "validate_epochs base_height previous (entry # entries) =
     bindE (failIf (en_start entry > en_end entry \<or> en_end entry \<noteq> epoch_last_height (en_index entry))
              (MalformedManifest (''epoch {} declares [{}, {}], which is not the range of that index'',
                 [Num (en_index entry), Num (en_start entry), Num (en_end entry)]))) (\<lambda>_.
     bindE
       (case previous of
          None \<Rightarrow>
            failIf (en_start entry < epoch_first_height (en_index entry) \<or> base_height \<noteq> en_start entry)
              (MalformedManifest (''first epoch starts at {} but the manifest advertises base {}'',
                 [Num (en_start entry), Num base_height]))
        | Some previous \<Rightarrow>
            failIf (en_index entry \<noteq> u64_add (en_index previous) 1 \<or>
                    en_start entry \<noteq> epoch_first_height (en_index entry))
              (MalformedManifest (''epoch {} does not continue epoch {}'',
                 [Num (en_index entry), Num (en_index previous)]))) (\<lambda>_.
       validate_epochs base_height (Some entry) entries))"

definition validate_manifest :: "manifest \<Rightarrow> string \<Rightarrow> (snapshot_error, unit) result" where
  "validate_manifest m chain =
     bindE (failIf (mf_format_version m \<noteq> FORMAT_VERSION)
              (UnsupportedVersion FORMAT_VERSION (mf_format_version m))) (\<lambda>_.
     bindE (failIf (mf_epoch_size m \<noteq> EPOCH_SIZE) (EpochSizeMismatch EPOCH_SIZE (mf_epoch_size m))) (\<lambda>_.
     bindE (failIf (mf_chain m \<noteq> chain) (ChainMismatch chain (mf_chain m))) (\<lambda>_.
       validate_epochs (mf_base_height m) None (mf_epochs m))))"

definition fetch_body :: "epoch_source \<Rightarrow> epoch_entry \<Rightarrow> (snapshot_error, bytes) result" where
  "fetch_body source entry =
     bindE (failIf (en_bytes entry > MAX_EPOCH_BYTES)
              (EpochRejected (en_index entry) ''length''
                 (''manifest declares {} bytes, past the {} an epoch may hold'',
                  [Num (en_bytes entry), Num MAX_EPOCH_BYTES]))) (\<lambda>_.
     bindE (src_epoch source (en_index entry) (en_bytes entry)) (\<lambda>body.
     bindE (failIf (length body \<noteq> en_bytes entry)
              (EpochRejected (en_index entry) ''length''
                 (''body is {} bytes, manifest declares {}'',
                  [Num (length body), Num (en_bytes entry)]))) (\<lambda>_.
       Inr body)))"


section \<open>The layers of verification\<close>

definition decode_block ::
    "('b, 'm) cache_ext \<Rightarrow> u64 \<Rightarrow> u64 \<Rightarrow> bytes \<Rightarrow> (snapshot_error, compact_block) result" where
  "decode_block E epoch height record =
     bindE (map_err (\<lambda>error. BlockRejected epoch height ''decode''
              (''{}'', [Str (case error of DecodeError t \<Rightarrow> t)])) (block_decode E record)) (\<lambda>block.
     bindE (failIf (cb_height block \<noteq> height)
              (BlockRejected epoch height ''height'' (''block claims height {}'', [Num (cb_height block)]))) (\<lambda>_.
       Inr block))"

definition check_linkage ::
    "'x hex_ext_scheme \<Rightarrow> u64 \<Rightarrow> compact_block \<Rightarrow> compact_block \<Rightarrow> (snapshot_error, unit) result" where
  "check_linkage X epoch earlier later =
     failIf (cb_prev_hash later \<noteq> cb_hash earlier)
       (BlockRejected epoch (cb_height later) ''linkage''
          (''prevHash {} does not match the hash of block {}, which is {}'',
           [Str (wire_to_display_hex X (cb_prev_hash later)), Num (cb_height earlier),
            Str (wire_to_display_hex X (cb_hash earlier))]))"

text \<open>The check of one pool's tree.\<close>

definition check_pool_tree ::
    "u64 \<Rightarrow> u64 \<Rightarrow> string \<Rightarrow> u32 \<Rightarrow> u32 \<Rightarrow> u64 \<Rightarrow> (snapshot_error, unit) result" where
  "check_pool_tree epoch height pool before after carried =
     bindE (ok_or (BlockRejected epoch height ''tree size''
              (''{} tree shrank from {} to {}'', [Str pool, Num before, Num after]))
              (checked_sub after before)) (\<lambda>grew.
       failIf (grew \<noteq> carried)
         (BlockRejected epoch height ''tree size''
            (''{} tree grew by {} but the block carries {}'', [Str pool, Num grew, Num carried])))"

definition check_tree_sizes ::
    "u64 \<Rightarrow> compact_block \<Rightarrow> compact_block \<Rightarrow> (snapshot_error, unit) result" where
  "check_tree_sizes epoch earlier later =
     (case (cb_chain_metadata earlier, cb_chain_metadata later) of
        (Some before, Some after) \<Rightarrow>
          bindE (check_pool_tree epoch (cb_height later) ''sapling''
                   (sapling_commitment_tree_size before) (sapling_commitment_tree_size after)
                   (block_sapling_outputs later)) (\<lambda>_.
          bindE (check_pool_tree epoch (cb_height later) ''orchard''
                   (orchard_commitment_tree_size before) (orchard_commitment_tree_size after)
                   (block_orchard_actions later)) (\<lambda>_.
            check_pool_tree epoch (cb_height later) ''ironwood''
              (ironwood_commitment_tree_size before) (ironwood_commitment_tree_size after)
              (block_ironwood_actions later)))
      | _ \<Rightarrow> Inl (BlockRejected epoch (cb_height later) ''tree size'' (''block carries no chainMetadata'', [])))"

text \<open>The pass over the records for the linkage and tree-size layers, collecting the hashes.\<close>

primrec check_records ::
    "('b, 'm) cache_ext \<Rightarrow> 'x hex_ext_scheme \<Rightarrow> u64 \<Rightarrow> u64 \<Rightarrow> bytes list \<Rightarrow> compact_block option \<Rightarrow> bytes list
      \<Rightarrow> (snapshot_error, bytes list) result" where
  "check_records E X epoch height [] previous hashes = Inr hashes"
| "check_records E X epoch height (record # records) previous hashes =
     bindE (decode_block E epoch height record) (\<lambda>block.
     bindE
       (case previous of
          None \<Rightarrow> Inr ()
        | Some previous \<Rightarrow>
            bindE (check_linkage X epoch previous block) (\<lambda>_. check_tree_sizes epoch previous block)) (\<lambda>_.
       check_records E X epoch (u64_add height 1) records (Some block) (hashes @ [cb_hash block])))"

text \<open>
  The block-hash lookups: batches of heights, pulled by a pool of workers. A schedule gives, in the order
  the workers are joined, the batches each of them took, or the failure of its task; a worker stops at its
  first failing batch.
\<close>

definition LOOKUP_BATCH :: usize where
  "LOOKUP_BATCH = 250"

type_synonym lookup_schedule = "(join_error, nat list) result list"

definition lookup_batch ::
    "node_rpc \<Rightarrow> u64 \<Rightarrow> u64 list \<Rightarrow> (snapshot_error, (u64 \<times> string) list) result" where
  "lookup_batch node epoch batch =
     bindE (map_err (NodeLookup (hd batch)) (rpc_get_block_hashes node batch)) (\<lambda>hashes.
     bindE (failIf (length hashes \<noteq> length batch)
              (EpochRejected epoch ''anchor''
                 (''asked the node for {} hashes from height {}, got {}'',
                  [Num (length batch), Num (hd batch), Num (length hashes)]))) (\<lambda>_.
       Inr (zip batch hashes)))"

definition lookup_worker ::
    "node_rpc \<Rightarrow> u64 \<Rightarrow> u64 list list \<Rightarrow> nat list \<Rightarrow> (snapshot_error, (u64 \<times> string) list) result" where
  "lookup_worker node epoch batches indices =
     foldE (\<lambda>i found.
         if i < length batches
         then bindE (lookup_batch node epoch (batches ! i)) (\<lambda>new. Inr (found @ new))
         else Inr found)
       indices []"

definition fetch_block_hashes ::
    "node_rpc \<Rightarrow> u64 \<Rightarrow> u64 list \<Rightarrow> lookup_schedule \<Rightarrow> (snapshot_error, u64 \<rightharpoonup> string) result" where
  "fetch_block_hashes node epoch heights schedule =
     (let batches = chunks_of LOOKUP_BATCH heights in
      foldE (\<lambda>joined hashes.
          bindE (map_err LookupTask joined) (\<lambda>indices.
          bindE (lookup_worker node epoch batches indices) (\<lambda>found.
            Inr (hashes ++ map_of (rev found)))))
        schedule Map.empty)"

text \<open>The comparison loop of the anchor layer.\<close>

primrec compare_hashes ::
    "'x hex_ext_scheme \<Rightarrow> u64 \<Rightarrow> u64 \<Rightarrow> bytes list \<Rightarrow> (u64 \<rightharpoonup> string) \<Rightarrow> anchor_hasher
      \<Rightarrow> (snapshot_error, anchor_hasher) result" where
  "compare_hashes X epoch height [] node_hashes anchor = Inr anchor"
| "compare_hashes X epoch height (claimed # hashes) node_hashes anchor =
     bindE (ok_or (BlockRejected epoch height ''anchor'' (''the node has no block at this height'', []))
              (node_hashes height)) (\<lambda>display.
     bindE (map_err (\<lambda>error. BlockRejected epoch height ''anchor'' (''node returned {}: {}'', [Str display, hex_error_msg error]))
              (display_hex_to_wire X display)) (\<lambda>wire.
     bindE (failIf (wire \<noteq> claimed)
              (BlockRejected epoch height ''anchor''
                 (''the node has {}, the snapshot claims {}'',
                  [Str display, Str (wire_to_display_hex X claimed)]))) (\<lambda>_.
       compare_hashes X epoch (u64_add height 1) hashes node_hashes (anchor_update anchor height wire))))"

definition verify_anchor ::
    "'x parse_ext_scheme \<Rightarrow> epoch_entry \<Rightarrow> bytes list \<Rightarrow> node_rpc \<Rightarrow> lookup_schedule
      \<Rightarrow> (snapshot_error, unit) result" where
  "verify_anchor X entry hashes node schedule =
     bindE (fetch_block_hashes node (en_index entry) [en_start entry..<Suc (en_end entry)] schedule)
       (\<lambda>node_hashes.
     bindE (compare_hashes X (en_index entry) (en_start entry) hashes node_hashes []) (\<lambda>anchor.
       let recomputed = hex_encode X (anchor_finish X anchor) in
       failIf (recomputed \<noteq> en_anchor entry)
         (EpochRejected (en_index entry) ''anchor''
            (''recomputed {}, manifest declares {}'', [Str recomputed, Str (en_anchor entry)]))))"

text \<open>The text of a framing error, as its Display prints it.\<close>

fun framing_text :: "snapshot_error \<Rightarrow> detail" where
  "framing_text (Malformed (f, args)) = (''malformed epoch body: '' @ f, args)"
| "framing_text _ = ('''', [])"

definition verify_epoch ::
    "('b, 'm) cache_ext \<Rightarrow> 'x parse_ext_scheme \<Rightarrow> bytes \<Rightarrow> epoch_entry \<Rightarrow> string \<Rightarrow> node_rpc \<Rightarrow> lookup_schedule
      \<Rightarrow> (snapshot_error, bytes list) result" where
  "verify_epoch E X body entry chain node schedule =
     (let epoch = en_index entry;
          digest = hex_encode X (content_digest X body) in
     bindE (failIf (digest \<noteq> en_content_digest entry)
              (EpochRejected epoch ''content digest''
                 (''computed {}, manifest declares {}'', [Str digest, Str (en_content_digest entry)]))) (\<lambda>_.
     bindE (map_err (\<lambda>error. EpochRejected epoch ''framing'' (framing_text error)) (parse_epoch X body))
       (\<lambda>(header, records).
     bindE (failIf (eh_chain header \<noteq> chain)
              (EpochRejected epoch ''chain''
                 (''body is for chain {}, expected {}'', [Str (eh_chain header), Str chain]))) (\<lambda>_.
       let n = u64_add (u64_sub (en_end entry) (en_start entry)) 1 in
     bindE (failIf (eh_start header \<noteq> en_start entry \<or> eh_count header \<noteq> n)
              (EpochRejected epoch ''framing''
                 (''body covers {} blocks from {}, manifest declares {} from {}'',
                  [Num (eh_count header), Num (eh_start header), Num n, Num (en_start entry)]))) (\<lambda>_.
     bindE (check_records E X epoch (en_start entry) records None []) (\<lambda>hashes.
     bindE (verify_anchor X entry hashes node schedule) (\<lambda>_.
       Inr records)))))))"

record junction_faults =
  jf_tip :: faults
  jf_get :: faults
  jf_add :: faults

definition check_junction ::
    "('b, 'm) cache_ext \<Rightarrow> 'x hex_ext_scheme \<Rightarrow> junction_faults \<Rightarrow> ('b, 'm) db \<Rightarrow> u64 \<Rightarrow> bytes option
      \<Rightarrow> (snapshot_error, unit) result" where
  "check_junction E X flts db epoch arriving =
     (case arriving of
        None \<Rightarrow> Inr ()
      | Some record \<Rightarrow>
          bindE (cache_try (latest_height E (jf_tip flts) db)) (\<lambda>tip_height.
            case tip_height of
              None \<Rightarrow> Inr ()
            | Some tip_height \<Rightarrow>
                bindE (cache_try (cache_get E (jf_get flts) db tip_height)) (\<lambda>tip.
                  case tip of
                    None \<Rightarrow> Inr ()
                  | Some tip \<Rightarrow>
                      bindE (decode_block E epoch (u64_add tip_height 1) record) (\<lambda>first_block.
                      bindE (check_linkage X epoch tip first_block) (\<lambda>_.
                        check_tree_sizes epoch tip first_block)))))"


section \<open>The import\<close>

text \<open>What one epoch's import sees: the node while it is verified, the lookup schedule, and the store's failures.\<close>

record import_env =
  ie_node :: "u64 \<Rightarrow> node_rpc"
  ie_schedule :: "u64 \<Rightarrow> lookup_schedule"
  ie_faults :: "u64 \<Rightarrow> junction_faults"

definition import_epoch ::
    "('b, 'm) cache_ext \<Rightarrow> 'x parse_ext_scheme \<Rightarrow> epoch_source \<Rightarrow> string \<Rightarrow> import_env \<Rightarrow> epoch_entry
      \<Rightarrow> u64 option \<Rightarrow> u64 \<Rightarrow> ('b, 'm) db \<Rightarrow> (snapshot_error, ('b, 'm) db) result" where
  "import_epoch E X source chain env entry tip next db =
     bindE (fetch_body source entry) (\<lambda>body.
     bindE (verify_epoch E X body entry chain (ie_node env (en_index entry)) (ie_schedule env (en_index entry)))
       (\<lambda>records.
       let arriving = drop (u64_sub next (en_start entry)) records; flts = ie_faults env (en_index entry) in
     bindE (check_junction E X flts db (en_index entry) (case arriving of [] \<Rightarrow> None | r # _ \<Rightarrow> Some r)) (\<lambda>_.
       cache_try (add_decoded_batch E (jf_add flts) db
         (map (\<lambda>record. map_err Decode (block_decode E record)) arriving)
         (if tip = None then Some next else None)))))"

text \<open>The loop over the entries; epochs committed before a failure stay.\<close>

primrec import_loop ::
    "('b, 'm) cache_ext \<Rightarrow> 'x parse_ext_scheme \<Rightarrow> epoch_source \<Rightarrow> string \<Rightarrow> u64 \<Rightarrow> import_env
      \<Rightarrow> epoch_entry list \<Rightarrow> u64 option \<Rightarrow> ('b, 'm) db
      \<Rightarrow> ('b, 'm) db \<times> (snapshot_error, u64 option) result" where
  "import_loop E X source chain node_tip env [] tip db = (db, Inr tip)"
| "import_loop E X source chain node_tip env (entry # entries) tip db =
     (let next = (case tip of Some height \<Rightarrow> u64_add height 1 | None \<Rightarrow> en_start entry) in
      if en_end entry < next then import_loop E X source chain node_tip env entries tip db
      else if en_start entry > next then (db, Inl (Gap tip (en_start entry)))
      else if en_end entry > node_tip then (db, Inr tip)
      else
        case import_epoch E X source chain env entry tip next db of
          Inl error \<Rightarrow> (db, Inl error)
        | Inr db' \<Rightarrow> import_loop E X source chain node_tip env entries (Some (en_end entry)) db')"

definition import_snapshot ::
    "('b, 'm) cache_ext \<Rightarrow> 'x parse_ext_scheme \<Rightarrow> epoch_source \<Rightarrow> node_rpc \<Rightarrow> faults \<Rightarrow> import_env \<Rightarrow> ('b, 'm) db
      \<Rightarrow> ('b, 'm) db \<times> (snapshot_error, u64 option) result" where
  "import_snapshot E X source node flt env db =
     (case bindE (src_manifest source) (\<lambda>m.
           bindE (map_err SnapNode (rpc_get_blockchain_info node)) (\<lambda>node_info.
           bindE (validate_manifest m (gbi_chain node_info)) (\<lambda>_.
           bindE (cache_try (latest_height E flt db)) (\<lambda>tip. Inr (m, node_info, tip))))) of
        Inl error \<Rightarrow> (db, Inl error)
      | Inr (m, node_info, tip) \<Rightarrow>
          import_loop E X source (mf_chain m) (gbi_blocks node_info) env (mf_epochs m) tip db)"

end
