(* ===== verification/Import_Laws.thy ===== *)
theory Import_Laws
  imports Snapshot_Import Ingestor_Laws
begin

text \<open>
  Laws of the snapshot import: what each verification layer establishes, and that an import only ever
  extends a healthy cache by blocks the operator's node vouches for.
\<close>

section \<open>The layers\<close>

text \<open>The tree sizes of the later block are those of the earlier one plus what the later block carries.\<close>

definition grows :: "compact_block \<Rightarrow> compact_block \<Rightarrow> bool" where
  "grows earlier later \<longleftrightarrow>
     (\<exists>before after. cb_chain_metadata earlier = Some before \<and> cb_chain_metadata later = Some after \<and>
        sapling_commitment_tree_size after = sapling_commitment_tree_size before + block_sapling_outputs later \<and>
        orchard_commitment_tree_size after = orchard_commitment_tree_size before + block_orchard_actions later \<and>
        ironwood_commitment_tree_size after = ironwood_commitment_tree_size before + block_ironwood_actions later)"

fun grown :: "compact_block list \<Rightarrow> bool" where
  "grown (a # b # bs) \<longleftrightarrow> grows a b \<and> grown (b # bs)"
| "grown _ \<longleftrightarrow> True"

lemma grown_append:
  "grown (xs @ ys) \<longleftrightarrow> grown xs \<and> grown ys \<and> (xs \<noteq> [] \<and> ys \<noteq> [] \<longrightarrow> grows (last xs) (hd ys))"
proof (induction xs)
  case (Cons x xs)
  then show ?case by (cases xs; cases ys) auto
qed simp

lemma check_pool_tree_ok:
  "check_pool_tree epoch h pool before after carried = Inr () \<longleftrightarrow> after = before + carried"
  by (auto simp: check_pool_tree_def result_simps checked_sub_def)

lemma check_tree_sizes_ok: "check_tree_sizes epoch a b = Inr () \<longleftrightarrow> grows a b"
  by (auto simp: check_tree_sizes_def grows_def result_simps check_pool_tree_ok split: option.splits)

lemma check_linkage_ok: "check_linkage X epoch a b = Inr () \<longleftrightarrow> links a b"
  by (auto simp: check_linkage_def links_def result_simps)

lemma decode_block_Inr:
  "decode_block E epoch h r = Inr b \<longleftrightarrow> block_decode E r = Inr b \<and> cb_height b = h"
  by (auto simp: decode_block_def result_simps)

lemma check_records_sound:
  assumes "check_records E X epoch h records previous hashes = Inr hashes'"
    and "h + length records \<le> u64_max"
  shows "\<exists>bs. list_all2 (\<lambda>r b. block_decode E r = Inr b) records bs \<and> hashes' = hashes @ map cb_hash bs \<and>
    map cb_height bs = [h..<h + length records] \<and>
    (case previous of None \<Rightarrow> True | Some p \<Rightarrow> bs \<noteq> [] \<longrightarrow> links p (hd bs) \<and> grows p (hd bs)) \<and>
    chained bs \<and> grown bs"
  using assms
proof (induction records arbitrary: h previous hashes)
  case (Cons r records)
  from Cons.prems(1) obtain b where b: "block_decode E r = Inr b" "cb_height b = h"
    and prev: "case previous of None \<Rightarrow> True | Some p \<Rightarrow> links p b \<and> grows p b"
    and rest: "check_records E X epoch (u64_add h 1) records (Some b) (hashes @ [cb_hash b]) = Inr hashes'"
    by (auto simp: result_simps decode_block_Inr check_linkage_ok check_tree_sizes_ok split: option.splits)
  have h: "u64_add h 1 = Suc h" using Cons.prems(2) by simp
  from Cons.IH [OF rest] Cons.prems(2) h obtain bs where
    bs: "list_all2 (\<lambda>r b. block_decode E r = Inr b) records bs" "hashes' = (hashes @ [cb_hash b]) @ map cb_hash bs"
    "map cb_height bs = [Suc h..<Suc h + length records]"
    "bs \<noteq> [] \<longrightarrow> links b (hd bs) \<and> grows b (hd bs)" "chained bs" "grown bs"
    by auto
  have hd: "bs \<noteq> [] \<Longrightarrow> cb_height (hd bs) = Suc h"
  proof -
    assume "bs \<noteq> []"
    then have "hd (map cb_height bs) = cb_height (hd bs)" "records \<noteq> []" using bs(1) by (auto simp: hd_map)
    then show ?thesis unfolding bs(3) by (simp del: upt_Suc)
  qed
  have "chained (b # bs)" "grown (b # bs)"
    using bs(4-6) hd b(2) by (cases bs; simp)+
  moreover have "map cb_height (b # bs) = [h..<h + length (r # records)]"
    using bs(3) b(2) by (simp add: upt_conv_Cons del: upt_Suc)
  ultimately show ?case
    using b bs(1,2) prev by (intro exI [of _ "b # bs"]) (auto split: option.splits)
qed (auto split: option.splits)

lemma lookup_worker_says:
  assumes "lookup_worker node epoch batches indices = Inr found" and "(h, s) \<in> set found"
  shows "node_says node h s"
proof -
  have "foldE (\<lambda>i found. if i < length batches
         then bindE (lookup_batch node epoch (batches ! i)) (\<lambda>new. Inr (found @ new)) else Inr found)
       indices acc = Inr found \<Longrightarrow> (h, s) \<in> set found \<Longrightarrow> (h, s) \<in> set acc \<or> node_says node h s" for acc
  proof (induction indices arbitrary: acc)
    case (Cons i indices)
    then show ?case
      by (fastforce simp: result_simps lookup_batch_def node_says_def set_zip split: if_splits)
  qed simp
  from this [of "[]"] assms show ?thesis by (auto simp: lookup_worker_def)
qed

lemma fetch_block_hashes_says:
  assumes "fetch_block_hashes node epoch heights schedule = Inr m" and "m h = Some s"
  shows "node_says node h s"
proof -
  have "foldE (\<lambda>joined hashes. bindE (map_err LookupTask joined) (\<lambda>indices.
          bindE (lookup_worker node epoch batches indices) (\<lambda>found. Inr (hashes ++ map_of (rev found)))))
        schedule acc = Inr m \<Longrightarrow> m h = Some s \<Longrightarrow> acc h = Some s \<or> node_says node h s" for acc batches
  proof (induction schedule arbitrary: acc)
    case (Cons j schedule)
    then obtain indices found where f: "lookup_worker node epoch batches indices = Inr found"
      and r: "foldE (\<lambda>joined hashes. bindE (map_err LookupTask joined) (\<lambda>indices.
          bindE (lookup_worker node epoch batches indices) (\<lambda>found. Inr (hashes ++ map_of (rev found)))))
        schedule (acc ++ map_of (rev found)) = Inr m"
      by (auto simp: result_simps)
    from Cons.IH [OF r Cons.prems(2)] consider "node_says node h s" | "(acc ++ map_of (rev found)) h = Some s"
      by blast
    then show ?case
    proof cases
      case 2
      then show ?thesis
        using lookup_worker_says [OF f, of h s] by (auto simp: map_add_Some_iff dest: map_of_SomeD)
    qed simp
  qed simp
  from this [of _ Map.empty] assms show ?thesis by (auto simp: fetch_block_hashes_def Let_def)
qed

lemma compare_hashes_sound:
  assumes "compare_hashes X epoch h hashes m anchor = Inr anchor'" and "h + length hashes \<le> u64_max"
  shows "\<forall>i < length hashes. \<exists>s. m (h + i) = Some s \<and> display_hex_to_wire X s = Inr (hashes ! i)"
  using assms
proof (induction hashes arbitrary: h anchor)
  case (Cons c hashes)
  from Cons.prems(1) obtain s where s: "m h = Some s" "display_hex_to_wire X s = Inr c"
    and rest: "compare_hashes X epoch (u64_add h 1) hashes m (anchor_update anchor h c) = Inr anchor'"
    by (auto simp: result_simps)
  have "u64_add h 1 = Suc h" using Cons.prems(2) by simp
  then have "\<forall>i < length hashes. \<exists>s. m (Suc h + i) = Some s \<and> display_hex_to_wire X s = Inr (hashes ! i)"
    using Cons.IH [OF rest] Cons.prems(2) by simp
  then show ?case using s by (auto simp: nth_Cons split: nat.splits)
qed simp

text \<open>The node vouches for a block: it gave the block's hash for the block's height.\<close>

definition vouched :: "'x hex_ext_scheme \<Rightarrow> node_rpc \<Rightarrow> compact_block \<Rightarrow> bool" where
  "vouched X node b \<longleftrightarrow> (\<exists>s. node_says node (cb_height b) s \<and> display_hex_to_wire X s = Inr (cb_hash b))"

lemma verify_epoch_sound:
  assumes "verify_epoch E X body entry chain node schedule = Inr records"
    and "en_start entry \<le> en_end entry" and "en_end entry < u64_max"
  shows "length records = Suc (en_end entry - en_start entry) \<and>
    (\<exists>bs. list_all2 (\<lambda>r b. block_decode E r = Inr b) records bs \<and>
       map cb_height bs = [en_start entry..<Suc (en_end entry)] \<and> chained bs \<and> grown bs \<and>
       (\<forall>b \<in> set bs. vouched X node b))"
proof -
  have n: "u64_add (u64_sub (en_end entry) (en_start entry)) 1 = Suc (en_end entry - en_start entry)"
    using assms(2,3) by (simp add: u64_sub_exact)
  from assms(1) obtain header hashes m anchor where
    parsed: "parse_epoch X body = Inr (header, records)"
    and cnt: "eh_count header = Suc (en_end entry - en_start entry)"
    and recs: "check_records E X (en_index entry) (en_start entry) records None [] = Inr hashes"
    and m: "fetch_block_hashes node (en_index entry) [en_start entry..<Suc (en_end entry)] schedule = Inr m"
    and cmp: "compare_hashes X (en_index entry) (en_start entry) hashes m [] = Inr anchor"
    unfolding verify_epoch_def verify_anchor_def Let_def n by (auto simp: result_simps simp del: upt_Suc)
  have len: "length records = Suc (en_end entry - en_start entry)"
    using parse_epoch_sound [OF parsed] cnt by auto
  have bound: "en_start entry + length records \<le> u64_max" using len assms(2,3) by simp
  from check_records_sound [OF recs bound] len assms(2) obtain bs where
    bs: "list_all2 (\<lambda>r b. block_decode E r = Inr b) records bs" "hashes = map cb_hash bs"
    "map cb_height bs = [en_start entry..<Suc (en_end entry)]" "chained bs" "grown bs"
    by auto
  have "vouched X node b" if "b \<in> set bs" for b
  proof -
    from that obtain i where i: "i < length bs" "b = bs ! i" by (metis in_set_conv_nth)
    have lenbs: "length bs = length records" using bs(1) list_all2_lengthD by fastforce
    have "cb_height b = en_start entry + i"
      using arg_cong [OF bs(3), of "\<lambda>l. l ! i"] i lenbs len assms(2)
        nth_upt [of "en_start entry" i "Suc (en_end entry)"] by (simp del: upt_Suc)
    moreover obtain s where "m (en_start entry + i) = Some s" "display_hex_to_wire X s = Inr (cb_hash b)"
      using compare_hashes_sound [OF cmp] i bs(2) lenbs bound by auto
    ultimately show ?thesis
      using fetch_block_hashes_says [OF m] by (auto simp: vouched_def)
  qed
  then show ?thesis using len bs by blast
qed



section \<open>Importing\<close>

lemma chained_top: "chained bs \<Longrightarrow> b \<in> set bs \<Longrightarrow> cb_height b \<le> cb_height (last bs)"
proof -
  assume c: "chained bs" and b: "b \<in> set bs"
  have "sorted_wrt (<) (map cb_height bs)" using chained_contiguous [OF c] by (rule contiguous_sorted)
  moreover obtain xs l where bs: "bs = xs @ [l]" using b by (metis append_butlast_last_id empty_iff list.set(1))
  ultimately show ?thesis using b by (auto simp: sorted_wrt_append less_imp_le)
qed

context cache_contract
begin

lemma stores_find_last:
  assumes "stores E t bs" and "bs \<noteq> []"
  shows "find (\<lambda>x. cb_height x = cb_height (last bs)) bs = Some (last bs)"
proof -
  obtain xs l where bs: "bs = xs @ [l]" using assms(2) by (metis append_butlast_last_id)
  have "sorted_wrt (<) (map cb_height bs)" using assms(1) by (simp add: stores_def contiguous_sorted)
  then have "find (\<lambda>x. cb_height x = cb_height l) xs = None"
    by (fastforce simp: bs sorted_wrt_append find_None_iff)
  then have "find (\<lambda>x. cb_height x = cb_height l) (xs @ [l]) = Some l"
    by (induction xs) (auto split: if_splits)
  then show ?thesis by (simp add: bs)
qed

lemma healthy_add_decoded:
  assumes "healthy E d bs" and "add_decoded_batch E flt d (map (\<lambda>r. map_err Decode (block_decode E r)) records) base = Inr d'"
    and "list_all2 (\<lambda>r b. block_decode E r = Inr b) records new" and "chained (bs @ new)"
    and "\<forall>b \<in> set new. cb_height b < u64_max"
  shows "healthy E d' (bs @ new)"
proof -
  have items: "map (\<lambda>r. map_err Decode (block_decode E r)) records = map Inr new"
    using assms(3) by (induction rule: list_all2_induct) auto
  have ap: "cache_append E flt d (map Inr new) base = Inr d'"
    using assms(2) by (simp add: add_decoded_batch_def items)
  obtain new' where "map Inr new = map (Inr :: _ \<Rightarrow> (cache_error, _) result) new'"
    "stores E (db_blocks d') (bs @ new')"
    using append_stores [OF ap, of bs] assms(1,5) by (auto simp: healthy_def)
  then have st: "stores E (db_blocks d') (bs @ new)" by (simp add: inj_map_eq_map [of Inr] inj_on_def)
  have "db_meta d' = db_meta d \<or>
      (\<exists>b. db_meta d' = tbl_insert (meta_ops E) (db_meta d) SNAPSHOT_BASE_HEIGHT (le_bytes 8 b))"
    using ap by (auto simp: cache_append_def Let_def result_simps split: if_splits option.splits bool.splits)
  then have "is_ok (decode_base_height (tbl_get (meta_ops E) (db_meta d') SNAPSHOT_BASE_HEIGHT))"
    using assms(1) by (auto simp: healthy_def mta.get_insert decode_base_height_def)
  then show ?thesis using st assms(4) by (simp add: healthy_def)
qed

lemma append_meta:
  assumes "cache_append E flt d (map Inr new) base = Inr d'" and "stores E (db_blocks d) bs"
    and "\<forall>b \<in> set new. cb_height b < u64_max" and "new \<noteq> []"
  shows "db_meta d' = (case base of None \<Rightarrow> db_meta d
    | Some b \<Rightarrow> tbl_insert (meta_ops E) (db_meta d) SNAPSHOT_BASE_HEIGHT (le_bytes 8 b))"
proof -
  have tip: "map_option fst (tbl_last (blocks_ops E) (db_blocks d)) =
      (if bs = [] then None else Some (cb_height (last bs)))"
    using stores_last [OF assms(2)] by (auto split: option.splits)
  from assms(1) obtain appended table where
    loop: "append_loop E flt (map_option fst (tbl_last (blocks_ops E) (db_blocks d))) (map Inr new) None False
        (db_blocks d) = Inr (appended, table)"
    by (auto simp: cache_append_def Let_def result_simps)
  from append_loop_stores [OF loop assms(2)] tip assms(3,4) have "appended" by (auto simp: inj_map_eq_map [of Inr] inj_on_def)
  then show ?thesis
    using assms(1) loop by (auto simp: cache_append_def Let_def result_simps split: option.splits)
qed

lemma import_epoch_sound:
  assumes h: "healthy E d bs" and tip: "tip = (if bs = [] then None else Some (cb_height (last bs)))"
    and nxt: "nxt = (if bs = [] then en_start entry else Suc (cb_height (last bs)))"
    and range: "en_start entry \<le> nxt" "nxt \<le> en_end entry" "en_end entry < u64_max"
    and imp: "import_epoch E X source chain env entry tip nxt d = Inr d'"
  shows "\<exists>new. healthy E d' (bs @ new) \<and> new \<noteq> [] \<and> cb_height (hd new) = nxt \<and> cb_height (last new) = en_end entry \<and>
    grown new \<and> (bs \<noteq> [] \<longrightarrow> grows (last bs) (hd new)) \<and> (\<forall>b \<in> set new. vouched X (ie_node env (en_index entry)) b) \<and>
    snapshot_base_height E no_faults d' =
      (if bs = [] then Inr (Some nxt) else snapshot_base_height E no_faults d)"
proof -
  define k where "k = nxt - en_start entry"
  have k: "u64_sub nxt (en_start entry) = k" using range by (simp add: k_def u64_sub_exact)
  from imp obtain body records where
    ver: "verify_epoch E X body entry chain (ie_node env (en_index entry)) (ie_schedule env (en_index entry)) = Inr records"
    and junc: "check_junction E X (ie_faults env (en_index entry)) d (en_index entry)
        (case drop k records of [] \<Rightarrow> None | r # _ \<Rightarrow> Some r) = Inr ()"
    and add: "add_decoded_batch E (jf_add (ie_faults env (en_index entry))) d
        (map (\<lambda>r. map_err Decode (block_decode E r)) (drop k records)) (if tip = None then Some nxt else None) = Inr d'"
    by (auto simp: import_epoch_def result_simps Let_def k cache_try_def)
  from verify_epoch_sound [OF ver] range obtain all where
    len: "length records = Suc (en_end entry - en_start entry)"
    and all: "list_all2 (\<lambda>r b. block_decode E r = Inr b) records all"
    "map cb_height all = [en_start entry..<Suc (en_end entry)]" "chained all" "grown all"
    "\<forall>b \<in> set all. vouched X (ie_node env (en_index entry)) b"
    by auto
  define new where "new = drop k all"
  have lenall: "length all = length records" using all(1) list_all2_lengthD by fastforce
  have new: "list_all2 (\<lambda>r b. block_decode E r = Inr b) (drop k records) new"
    unfolding new_def by (rule list_all2_dropI [OF all(1)])
  have kl: "k < length all" using lenall len range by (simp add: k_def)
  then have ne: "new \<noteq> []" by (simp add: new_def)
  have "map cb_height new = [nxt..<Suc (en_end entry)]"
    using arg_cong [OF all(2), of "drop k"] range by (simp add: new_def drop_map [symmetric] k_def del: upt_Suc)
  then have heights: "cb_height (hd new) = nxt" "cb_height (last new) = en_end entry"
    "\<forall>b \<in> set new. cb_height b \<le> en_end entry"
    using ne range by (metis hd_map hd_upt le_imp_less_Suc, metis last_map last_upt diff_Suc_1 le_imp_less_Suc,
      metis (no_types, lifting) atLeastLessThan_iff in_set_conv_nth length_map less_Suc_eq_le nth_map nth_mem set_upt)
  have chain: "chained new" "grown new"
    using all(3,4) append_take_drop_id [of k all] chained_dropD [OF all(3)] grown_append [of "take k all" "drop k all"]
    by (auto simp: new_def)
  have seam: "links (last bs) (hd new) \<and> grows (last bs) (hd new)" if b: "bs \<noteq> []"
  proof -
    obtain r rs b' bs' where dr: "drop k records = r # rs" "new = b' # bs'" "block_decode E r = Inr b'"
      using new ne by (cases new) (auto simp: list_all2_Cons2)
    have max: "cb_height (last bs) < u64_max" using h b by (simp add: healthy_def stores_def)
    have last_in: "find (\<lambda>x. cb_height x = cb_height (last bs)) bs = Some (last bs)"
      by (rule stores_find_last [OF _ b, of "db_blocks d"]) (use h in \<open>simp add: healthy_def\<close>)
    from junc dr obtain th where "latest_height E (jf_tip (ie_faults env (en_index entry))) d = Inr th"
      by (auto simp: check_junction_def cache_try_def result_simps)
    moreover from this have "th = Some (cb_height (last bs))" using healthy_latest_height [OF h] b by simp
    ultimately obtain t where "cache_get E (jf_get (ie_faults env (en_index entry))) d (cb_height (last bs)) = Inr t"
      and rest: "\<forall>tip. t = Some tip \<longrightarrow> (\<exists>f. check_linkage X (en_index entry) tip f = Inr () \<and>
        decode_block E (en_index entry) (u64_add (cb_height (last bs)) (Suc 0)) r = Inr f \<and>
        check_tree_sizes (en_index entry) tip f = Inr ())"
      using junc dr by (auto simp: check_junction_def cache_try_def result_simps split: option.splits)
    then have "t = Some (last bs)" using healthy_get [OF h] last_in by blast
    then show ?thesis
      using rest dr by (auto simp: result_simps decode_block_Inr check_linkage_ok check_tree_sizes_ok)
  qed
  have "chained (bs @ new)"
    using h chain seam heights(1) nxt ne by (auto simp: chained_append healthy_def)
  then have "healthy E d' (bs @ new)"
    using healthy_add_decoded [OF h add new] heights(3) range by fastforce
  moreover have "\<forall>b \<in> set new. vouched X (ie_node env (en_index entry)) b"
    using all(5) by (auto simp: new_def dest: in_set_dropD)
  moreover have "snapshot_base_height E no_faults d' =
      (if bs = [] then Inr (Some nxt) else snapshot_base_height E no_faults d)"
  proof -
    have items: "map (\<lambda>r. map_err Decode (block_decode E r)) (drop k records) = map Inr new"
      using new by (induction rule: list_all2_induct) auto
    have "db_meta d' = (case (if tip = None then Some nxt else None) of None \<Rightarrow> db_meta d
        | Some b \<Rightarrow> tbl_insert (meta_ops E) (db_meta d) SNAPSHOT_BASE_HEIGHT (le_bytes 8 b))"
      by (rule append_meta [OF add [unfolded add_decoded_batch_def items]])
        (use h heights(3) range ne in \<open>auto simp: healthy_def\<close>)
    then show ?thesis
      using tip range by (auto simp: snapshot_base_get mta.get_insert decode_base_height_def)
  qed
  ultimately show ?thesis using ne heights chain(2) seam by blast
qed

lemma import_loop_sound:
  assumes "healthy E d bs" and "tip = (if bs = [] then None else Some (cb_height (last bs)))"
    and "node_tip < u64_max" and "import_loop E X source chain node_tip env entries tip d = (d', r)"
  shows "\<exists>new. healthy E d' (bs @ new) \<and> grown new \<and> (bs \<noteq> [] \<and> new \<noteq> [] \<longrightarrow> grows (last bs) (hd new)) \<and>
    (\<forall>b \<in> set new. cb_height b \<le> node_tip \<and> (\<exists>e \<in> set entries. vouched X (ie_node env (en_index e)) b)) \<and>
    (\<forall>t. r = Inr t \<longrightarrow> t = (if bs @ new = [] then None else Some (cb_height (last (bs @ new))))) \<and>
    snapshot_base_height E no_faults d' =
      (if bs = [] \<and> new \<noteq> [] then Inr (Some (cb_height (hd new))) else snapshot_base_height E no_faults d)"
  using assms(1,2,4)
proof (induction entries arbitrary: d bs tip)
  case Nil
  then show ?case by (intro exI [of _ "[]"]) auto
next
  case (Cons entry entries)
  define nxt where "nxt = (if bs = [] then en_start entry else Suc (cb_height (last bs)))"
  have max: "bs \<noteq> [] \<Longrightarrow> cb_height (last bs) < u64_max" using Cons.prems(1) by (simp add: healthy_def stores_def)
  then have next_eq: "(case tip of Some height \<Rightarrow> u64_add height 1 | None \<Rightarrow> en_start entry) = nxt"
    using Cons.prems(2) by (simp add: nxt_def)
  consider (skip) "en_end entry < nxt" | (gap) "nxt \<le> en_end entry" "nxt < en_start entry"
    | (above) "nxt \<le> en_end entry" "en_start entry \<le> nxt" "node_tip < en_end entry"
    | (take) "nxt \<le> en_end entry" "en_start entry \<le> nxt" "en_end entry \<le> node_tip"
    by linarith
  then show ?case
  proof cases
    case skip
    then have "import_loop E X source chain node_tip env entries tip d = (d', r)"
      using Cons.prems(3) next_eq by simp
    from Cons.IH [OF Cons.prems(1,2) this] show ?thesis by (elim ex_forward) auto
  next
    case gap
    then show ?thesis using Cons.prems next_eq by (intro exI [of _ "[]"]) auto
  next
    case above
    then show ?thesis using Cons.prems next_eq by (intro exI [of _ "[]"]) auto
  next
    case take
    show ?thesis
    proof (cases "import_epoch E X source chain env entry tip nxt d")
      case (Inl e)
      then show ?thesis using Cons.prems next_eq take by (intro exI [of _ "[]"]) auto
    next
      case (Inr d1)
      then have rest: "import_loop E X source chain node_tip env entries (Some (en_end entry)) d1 = (d', r)"
        using Cons.prems(3) next_eq take by simp
      have "en_end entry < u64_max" using take assms(3) by simp
      from import_epoch_sound [OF Cons.prems(1,2) nxt_def take(2,1) this Inr] obtain new1 where
        n1: "healthy E d1 (bs @ new1)" "new1 \<noteq> []" "cb_height (hd new1) = nxt" "cb_height (last new1) = en_end entry"
        "grown new1" "bs \<noteq> [] \<longrightarrow> grows (last bs) (hd new1)" "\<forall>b \<in> set new1. vouched X (ie_node env (en_index entry)) b"
        "snapshot_base_height E no_faults d1 = (if bs = [] then Inr (Some nxt) else snapshot_base_height E no_faults d)"
        by blast
      have tops: "\<forall>b \<in> set new1. cb_height b \<le> node_tip"
        using chained_top [of "bs @ new1"] n1(1,2,4) take(3) by (fastforce simp: healthy_def)
      from Cons.IH [OF n1(1) _ rest] n1(2,4) obtain new2 where
        n2: "healthy E d' ((bs @ new1) @ new2)" "grown new2" "new2 \<noteq> [] \<longrightarrow> grows (last new1) (hd new2)"
        "\<forall>b \<in> set new2. cb_height b \<le> node_tip \<and> (\<exists>e \<in> set entries. vouched X (ie_node env (en_index e)) b)"
        "\<forall>t. r = Inr t \<longrightarrow> t = Some (cb_height (last ((bs @ new1) @ new2)))"
        "snapshot_base_height E no_faults d' = snapshot_base_height E no_faults d1"
        by auto
      show ?thesis
      proof (intro exI [of _ "new1 @ new2"] conjI)
        show "grown (new1 @ new2)" using n1(5) n2(2,3) by (simp add: grown_append)
      qed (use n1 n2 tops in \<open>auto\<close>)
    qed
  qed
qed

lemma import_snapshot_sound:
  assumes "healthy E d bs"
    and "\<forall>info. rpc_get_blockchain_info node = Inr info \<longrightarrow> gbi_blocks info < u64_max"
    and "import_snapshot E X source node flt env d = (d', r)"
  shows "\<exists>new. healthy E d' (bs @ new) \<and> grown new \<and> (bs \<noteq> [] \<and> new \<noteq> [] \<longrightarrow> grows (last bs) (hd new)) \<and>
    (\<forall>b \<in> set new. (\<exists>info. rpc_get_blockchain_info node = Inr info \<and> cb_height b \<le> gbi_blocks info) \<and>
       (\<exists>epoch. vouched X (ie_node env epoch) b)) \<and>
    (\<forall>t. r = Inr t \<longrightarrow> t = (if bs @ new = [] then None else Some (cb_height (last (bs @ new))))) \<and>
    snapshot_base_height E no_faults d' =
      (if bs = [] \<and> new \<noteq> [] then Inr (Some (cb_height (hd new))) else snapshot_base_height E no_faults d)"
proof (cases "bindE (src_manifest source) (\<lambda>m.
           bindE (map_err SnapNode (rpc_get_blockchain_info node)) (\<lambda>node_info.
           bindE (validate_manifest m (gbi_chain node_info)) (\<lambda>_.
           bindE (cache_try (latest_height E flt d)) (\<lambda>tip. Inr (m, node_info, tip)))))")
  case (Inl e)
  then show ?thesis using assms(1,3) by (intro exI [of _ "[]"]) (auto simp: import_snapshot_def)
next
  case (Inr x)
  obtain m info tip where x: "x = (m, info, tip)" by (cases x)
  have info: "rpc_get_blockchain_info node = Inr info" and tip: "latest_height E flt d = Inr tip"
    using Inr x by (auto simp: result_simps cache_try_def)
  have loop: "import_loop E X source (mf_chain m) (gbi_blocks info) env (mf_epochs m) tip d = (d', r)"
    using assms(3) Inr x by (simp add: import_snapshot_def)
  have low: "gbi_blocks info < u64_max" using assms(2) info by blast
  note sound = import_loop_sound [OF assms(1) healthy_latest_height [OF assms(1) tip] low loop]
  from sound show ?thesis
  proof (rule exE, elim conjE)
    fix new
    assume new: "healthy E d' (bs @ new)" "grown new" "bs \<noteq> [] \<and> new \<noteq> [] \<longrightarrow> grows (last bs) (hd new)"
      "\<forall>b \<in> set new. cb_height b \<le> gbi_blocks info \<and> (\<exists>e \<in> set (mf_epochs m). vouched X (ie_node env (en_index e)) b)"
      "\<forall>t. r = Inr t \<longrightarrow> t = (if bs @ new = [] then None else Some (cb_height (last (bs @ new))))"
      "snapshot_base_height E no_faults d' =
        (if bs = [] \<and> new \<noteq> [] then Inr (Some (cb_height (hd new))) else snapshot_base_height E no_faults d)"
    have "\<forall>b \<in> set new. (\<exists>info. rpc_get_blockchain_info node = Inr info \<and> cb_height b \<le> gbi_blocks info) \<and>
         (\<exists>epoch. vouched X (ie_node env epoch) b)"
      using new(4) info by blast
    then show ?thesis using new(1,2,3,5,6) by (intro exI [of _ new] conjI)
  qed
qed

end

end
