(* ===== verification/Snapshot_Export_Laws.thy ===== *)
theory Snapshot_Export_Laws
  imports Snapshot_Export Ingestor_Sync
begin

text \<open>
  Laws of the export: a computed digest describes exactly the body a download would send, the pending
  scan finds the lowest complete epoch without a digest, and what the truncation guard does and does
  not notice.
\<close>

section \<open>Folding over the entries of a body\<close>

lemma u64_add_assoc: "u64_add (u64_add a b) c = u64_add a (b + c)"
  by (simp add: u64_add_def mod_simps add.assoc)

lemma digest_header:
  "write_header digest_write chain low cnt c =
     (if chain = [] \<or> \<not> is_ascii chain \<or> length chain > 255 then Inl (InvalidChain chain)
      else Inr \<lparr>dw_hashed = dw_hashed c @ MAGIC @ [of_nat (length chain)] @ str_bytes chain @ le_bytes 8 low @ le_bytes 4 cnt,
               dw_bytes = u64_add (dw_bytes c) (21 + length chain)\<rparr>)"
  by (simp add: write_header_def digest_write_def u64_add_assoc)

lemma digest_record:
  "write_record digest_write raw c = Inr c' \<longleftrightarrow>
     length raw \<le> u32_max \<and>
     c' = \<lparr>dw_hashed = dw_hashed c @ record_bytes raw,
           dw_bytes = u64_add (dw_bytes c) (length (record_bytes raw))\<rparr>"
  by (auto simp: write_record_def digest_write_def u64_add_assoc record_bytes_def result_simps not_less)

definition anchor_of :: "compact_block list \<Rightarrow> bytes" where
  "anchor_of bs = concat (map (\<lambda>b. be_bytes 8 (cb_height b) @ cb_hash b) bs)"

lemma anchor_digest_blocks:
  "anchor_digest X (map (\<lambda>b. (cb_height b, cb_hash b)) bs) = sha256 X (anchor_of bs)"
proof -
  have "foldl (\<lambda>hasher (height, block_hash). anchor_update hasher height block_hash) a
      (map (\<lambda>b. (cb_height b, cb_hash b)) bs) = a @ anchor_of bs" for a
    by (induction bs arbitrary: a) (simp_all add: anchor_of_def anchor_update_def)
  then show ?thesis by (simp add: anchor_digest_def anchor_finish_def)
qed

lemma digest_block_Inr:
  "digest_block E h raw a = Inr a' \<longleftrightarrow>
     (\<exists>b. decodes_to E (h, raw) b \<and> a' = a @ be_bytes 8 (cb_height b) @ cb_hash b)"
  by (auto simp: digest_block_def result_simps decodes_to_def anchor_update_def)

lemma digest_fold:
  assumes "foldE (\<lambda>(height, raw) s. bindE (map_err SnapCache (redb_try flt (TableNext height))) (\<lambda>_.
      (\<lambda>(out, t, written). bindE (write_record digest_write raw out) (\<lambda>out.
         bindE (digest_block E height raw t) (\<lambda>t. Inr (out, t, u64_add written 1)))) s)) es (c, a, n) =
      Inr (c', a', n')"
    and "dw_bytes c < 18446744073709551616" and "n < 18446744073709551616"
  shows "\<exists>bs. list_all2 (decodes_to E) es bs \<and> (\<forall>e \<in> set es. length (snd e) \<le> u32_max) \<and>
    dw_hashed c' = dw_hashed c @ concat (map (\<lambda>e. record_bytes (snd e)) es) \<and>
    dw_bytes c' = u64_add (dw_bytes c) (length (concat (map (\<lambda>e. record_bytes (snd e)) es))) \<and>
    a' = a @ anchor_of bs \<and> n' = u64_add n (length es)"
  using assms
proof (induction es arbitrary: c a n)
  case (Cons e es)
  obtain h raw where e: "e = (h, raw)" by (cases e)
  from Cons.prems(1) obtain c1 a1 where
    c1: "write_record digest_write raw c = Inr c1" and a1: "digest_block E h raw a = Inr a1"
    and rest: "foldE (\<lambda>(height, raw) s. bindE (map_err SnapCache (redb_try flt (TableNext height))) (\<lambda>_.
      (\<lambda>(out, t, written). bindE (write_record digest_write raw out) (\<lambda>out.
         bindE (digest_block E height raw t) (\<lambda>t. Inr (out, t, u64_add written 1)))) s)) es
         (c1, a1, u64_add n 1) = Inr (c', a', n')"
    by (auto simp: e result_simps)
  from c1 have len: "length raw \<le> u32_max"
    and c1': "dw_hashed c1 = dw_hashed c @ record_bytes raw"
    "dw_bytes c1 = u64_add (dw_bytes c) (length (record_bytes raw))"
    by (auto simp: digest_record)
  from a1 obtain b where b: "decodes_to E (h, raw) b" "a1 = a @ be_bytes 8 (cb_height b) @ cb_hash b"
    by (auto simp: digest_block_Inr)
  from Cons.IH [OF rest] c1' obtain bs where
    "list_all2 (decodes_to E) es bs" "\<forall>e \<in> set es. length (snd e) \<le> u32_max"
    "dw_hashed c' = dw_hashed c1 @ concat (map (\<lambda>e. record_bytes (snd e)) es)"
    "dw_bytes c' = u64_add (dw_bytes c1) (length (concat (map (\<lambda>e. record_bytes (snd e)) es)))"
    "a' = a1 @ anchor_of bs" "n' = u64_add (u64_add n 1) (length es)"
    by (auto simp: u64_add_def)
  then show ?case
    using len c1' b by (intro exI [of _ "b # bs"])
      (simp add: e anchor_of_def u64_add_assoc)
qed (simp add: anchor_of_def u64_add_def)

lemma vec_fold:
  assumes "\<forall>e \<in> set es. length (snd e) \<le> u32_max"
  shows "foldE (\<lambda>(height, raw) s. bindE (map_err SnapCache (redb_try no_faults (TableNext height))) (\<lambda>_.
      (\<lambda>(out, t, written). bindE (write_record vec_writer raw out) (\<lambda>out.
         bindE (Inr t) (\<lambda>t. Inr (out, t, u64_add written 1)))) s)) es (out, (), n) =
    Inr (out @ concat (map (\<lambda>e. record_bytes (snd e)) es), (), (if es = [] then n else u64_add n (length es)))"
  using assms
proof (induction es arbitrary: out n)
  case (Cons e es)
  then show ?case
    by (cases e) (simp add: write_record_vec u64_add_assoc)
qed simp


section \<open>Computed digests\<close>

definition chain_name_ok :: "string \<Rightarrow> bool" where
  "chain_name_ok chain \<longleftrightarrow> chain \<noteq> [] \<and> is_ascii chain \<and> length chain \<le> 255"

text \<open>The stored entries of a fully cached span, and the body they make.\<close>

definition span_entries :: "('b, 'm) cache_ext \<Rightarrow> ('b, 'm) db \<Rightarrow> u64 \<Rightarrow> u64 \<Rightarrow> (u64 \<times> bytes) list" where
  "span_entries E d low high = tbl_range (blocks_ops E) (db_blocks d) low high"

definition full_span :: "('b, 'm) cache_ext \<Rightarrow> ('b, 'm) db \<Rightarrow> u64 \<Rightarrow> u64 \<Rightarrow> bool" where
  "full_span E d low high \<longleftrightarrow> low \<le> high \<and> high - low < u32_max \<and>
     map fst (span_entries E d low high) = [low..<Suc high] \<and>
     (\<forall>e \<in> set (span_entries E d low high). length (snd e) \<le> u32_max)"

definition span_body :: "('b, 'm) cache_ext \<Rightarrow> ('b, 'm) db \<Rightarrow> string \<Rightarrow> u64 \<Rightarrow> u64 \<Rightarrow> bytes" where
  "span_body E d chain low high = body_bytes (str_bytes chain) low (map snd (span_entries E d low high))"

lemma span_count: "full_span E d low high \<Longrightarrow> length (span_entries E d low high) = Suc (high - low)"
  using length_map [of fst "span_entries E d low high"] by (simp add: full_span_def Suc_diff_le del: length_map upt_Suc)

text \<open>The body of a full span parses back to what was written.\<close>

lemma span_parses:
  assumes "chain_name_ok chain" and "full_span E d low high" and "high \<le> u64_max"
  shows "parse_epoch X (span_body E d chain low high) =
    Inr (\<lparr>eh_chain = chain, eh_start = low, eh_count = Suc (high - low)\<rparr>, map snd (span_entries E d low high))"
proof -
  have "parse_epoch X (span_body E d chain low high) =
      Inr (\<lparr>eh_chain = chain, eh_start = low, eh_count = length (map snd (span_entries E d low high))\<rparr>,
           map snd (span_entries E d low high))"
    unfolding span_body_def
    by (rule parse_epoch_complete)
      (use assms span_count [OF assms(2)] in \<open>auto simp: chain_name_ok_def from_utf8_ascii full_span_def\<close>)
  then show ?thesis using span_count [OF assms(2)] by simp
qed

lemma body_header_bytes:
  assumes "length es = Suc (high - low)"
  shows "body_bytes (str_bytes chain) low (map snd es) =
    (MAGIC @ [of_nat (length chain)] @ str_bytes chain @ le_bytes 8 low @ le_bytes 4 (Suc (high - low))) @
    concat (map (\<lambda>e. record_bytes (snd e)) es)"
  using assms by (simp add: body_bytes_def comp_def)

lemma epoch_count:
  "(case checked_sub high low of
      None \<Rightarrow> None
    | Some span \<Rightarrow>
        (case checked_add64 span 1 of
           None \<Rightarrow> None
         | Some cnt \<Rightarrow> if cnt \<le> u32_max then Some cnt else None)) = Some c \<longleftrightarrow>
   low \<le> high \<and> high - low < u32_max \<and> c = Suc (high - low)"
  by (auto simp: checked_sub_def checked_add64_def u32_max_def u64_max_def)

context cache_contract
begin

lemma span_keys:
  assumes "length (span_entries E d low high) = Suc (high - low)" and "low \<le> high"
  shows "map fst (span_entries E d low high) = [low..<Suc high]"
proof (rule sorted_distinct_set_unique)
  let ?ks = "map fst (span_entries E d low high)"
  have sorted: "sorted_wrt (<) ?ks" unfolding span_entries_def by (rule range_sorted)
  then show "sorted ?ks" "distinct ?ks" by (simp_all add: strict_sorted_iff)
  have "set ?ks \<subseteq> {low..high}" by (auto simp: span_entries_def blk.range_iter)
  moreover have "card (set ?ks) = card {low..high}"
    using assms distinct_card [OF \<open>distinct ?ks\<close>] by simp
  ultimately have "set ?ks = {low..high}" by (simp add: card_subset_eq)
  then show "set ?ks = set [low..<Suc high]" by (simp only: set_upt atLeastLessThanSuc_atLeastAtMost)
qed (simp_all del: upt_Suc)

lemma span_length_bound: "length (span_entries E d low high) \<le> Suc (high - low)"
proof -
  let ?ks = "map fst (span_entries E d low high)"
  have "distinct ?ks"
    using range_sorted [of "db_blocks d" low high] by (simp add: span_entries_def strict_sorted_iff)
  moreover have "set ?ks \<subseteq> {low..high}" by (auto simp: span_entries_def blk.range_iter)
  then have "card (set ?ks) \<le> Suc (high - low)"
    using card_mono [of "{low..high}" "set ?ks"] by simp
  ultimately show ?thesis by (metis distinct_card length_map)
qed

lemma write_body_digest:
  assumes "write_body E flt d chain low high digest_write (digest_block E) digest_new [] = Inr (c, a)"
  shows "chain_name_ok chain \<and> full_span E d low high \<and> dw_hashed c = span_body E d chain low high \<and>
    dw_bytes c = u64_add 0 (length (span_body E d chain low high)) \<and>
    (\<exists>bs. list_all2 (decodes_to E) (span_entries E d low high) bs \<and> a = anchor_of bs)"
proof -
  let ?es = "span_entries E d low high"
  from assms obtain c0 n where
    bounds: "low \<le> high" "high - low < u32_max"
    and hdr: "write_header digest_write chain low (Suc (high - low)) digest_new = Inr c0"
    and loop: "for_each_raw E flt d low high SnapCache
        (\<lambda>height raw (out, t, written).
           bindE (write_record digest_write raw out) (\<lambda>out.
           bindE (digest_block E height raw t) (\<lambda>t. Inr (out, t, u64_add written 1)))) (c0, [], 0) =
        Inr (c, a, n)"
    and n: "n = Suc (high - low)"
    by (auto simp: write_body_def result_simps epoch_count)
  from hdr have name: "chain_name_ok chain"
    and c0: "dw_hashed c0 = MAGIC @ [of_nat (length chain)] @ str_bytes chain @ le_bytes 8 low @
      le_bytes 4 (Suc (high - low))" "dw_bytes c0 = u64_add 0 (21 + length chain)"
    by (auto simp: digest_header chain_name_ok_def digest_new_def split: if_splits)
  from loop have "foldE (\<lambda>(height, raw) s. bindE (map_err SnapCache (redb_try flt (TableNext height))) (\<lambda>_.
      (\<lambda>(out, t, written). bindE (write_record digest_write raw out) (\<lambda>out.
         bindE (digest_block E height raw t) (\<lambda>t. Inr (out, t, u64_add written 1)))) s)) ?es (c0, [], 0) =
      Inr (c, a, n)"
    by (auto simp: for_each_raw_def span_entries_def result_simps)
  from digest_fold [OF this] obtain bs where
    fold: "list_all2 (decodes_to E) ?es bs" "\<forall>e \<in> set ?es. length (snd e) \<le> u32_max"
    "dw_hashed c = dw_hashed c0 @ concat (map (\<lambda>e. record_bytes (snd e)) ?es)"
    "dw_bytes c = u64_add (dw_bytes c0) (length (concat (map (\<lambda>e. record_bytes (snd e)) ?es)))"
    "a = anchor_of bs" "n = u64_add 0 (length ?es)"
    using c0(2) by (auto simp: u64_add_def)
  have "length ?es < 18446744073709551616"
    using span_length_bound [of d low high] bounds(2) by (simp add: u32_max_def)
  then have len: "length ?es = Suc (high - low)" using fold(6) n by (simp add: u64_add_def)
  have full: "full_span E d low high"
    using span_keys [OF len bounds(1)] bounds fold(2) by (simp add: full_span_def)
  have body: "dw_hashed c = span_body E d chain low high"
    using fold(3) c0(1) body_header_bytes [OF len, of chain] by (simp add: span_body_def)
  have "length (span_body E d chain low high) =
      21 + length chain + length (concat (map (\<lambda>e. record_bytes (snd e)) ?es))"
    unfolding span_body_def body_header_bytes [OF len] by simp
  then have "dw_bytes c = u64_add 0 (length (span_body E d chain low high))"
    using fold(4) c0(2) by (simp add: u64_add_assoc)
  then show ?thesis using name full body fold(1,5) by blast
qed

lemma write_body_vec:
  assumes "chain_name_ok chain" and "full_span E d low high"
  shows "write_body E no_faults d chain low high vec_writer (\<lambda>_ _ t. Inr t) [] () =
    Inr (span_body E d chain low high, ())"
proof -
  let ?es = "span_entries E d low high"
  have len: "length ?es = Suc (high - low)"
  proof -
    have "map fst ?es = [low..<Suc high]" "low \<le> high" using assms(2) by (simp_all add: full_span_def)
    from arg_cong [OF this(1), of length] this(2) show ?thesis by (simp only: length_map length_upt Suc_diff_le)
  qed
  have ne: "?es \<noteq> []" using len by auto
  have "for_each_raw E no_faults d low high SnapCache
      (\<lambda>height raw (out, t, written).
         bindE (write_record vec_writer raw out) (\<lambda>out.
         bindE (Inr t) (\<lambda>t. Inr (out, t, u64_add written 1)))) (out, (), 0) =
      Inr (out @ concat (map (\<lambda>e. record_bytes (snd e)) ?es), (), u64_add 0 (length ?es))" for out
    using vec_fold [of ?es out 0] assms(2) ne by (simp add: for_each_raw_def span_entries_def full_span_def)
  moreover have "u64_add 0 (length ?es) = Suc (high - low)"
    using len assms(2) by (simp add: u64_add_def full_span_def u32_max_def)
  moreover have "(case checked_sub high low of
      None \<Rightarrow> None
    | Some span \<Rightarrow>
        (case checked_add64 span 1 of
           None \<Rightarrow> None
         | Some cnt \<Rightarrow> if cnt \<le> u32_max then Some cnt else None)) = Some (Suc (high - low))"
    using assms(2) by (simp only: epoch_count full_span_def)
  ultimately show ?thesis
    using assms(1) body_header_bytes [OF len, of chain]
    by (simp add: write_body_def write_header_vec chain_name_ok_def span_body_def del: bindE.simps(2))
      (simp add: chain_name_ok_def)
qed

lemma complete_bounds_Inr:
  assumes "complete_epoch_bounds E flt d i = Inr (Some (low, high))"
  shows "low \<le> high \<and> high = epoch_last_height i \<and> epoch_first_height i \<le> low"
proof -
  from assms obtain r where r: "cache_range E flt d = Inr r"
    by (auto simp: complete_epoch_bounds_def cache_try_def result_simps)
  show ?thesis
  proof (cases r)
    case None
    then show ?thesis using assms r by (simp add: complete_epoch_bounds_def cache_try_def)
  next
    case (Some bt)
    obtain base tip where "bt = (base, tip)" by (cases bt)
    then have "(if max (epoch_first_height i) base > epoch_last_height i \<or> epoch_last_height i \<ge> tip
        then Inr None else Inr (Some (max (epoch_first_height i) base, epoch_last_height i))) =
        (Inr (Some (low, high)) :: (snapshot_error, _) result)"
      using assms r Some by (simp add: complete_epoch_bounds_def cache_try_def Let_def)
    then show ?thesis by (auto split: if_splits)
  qed
qed

lemma compute_digest_sound:
  assumes "compute_epoch_digest E X f1 f2 d0 d chain i = Inr (Some row)"
  shows "chain_name_ok chain \<and> full_span E d (er_start row) (er_end row) \<and>
    er_end row = epoch_last_height i \<and>
    er_content row = sha256 X (span_body E d chain (er_start row) (er_end row)) \<and>
    er_bytes row = u64_add 0 (length (span_body E d chain (er_start row) (er_end row))) \<and>
    (\<exists>bs. list_all2 (decodes_to E) (span_entries E d (er_start row) (er_end row)) bs \<and>
       er_anchor row = anchor_digest X (map (\<lambda>b. (cb_height b, cb_hash b)) bs))"
proof -
  from assms obtain low high c a where
    bounds: "complete_epoch_bounds E f1 d0 i = Inr (Some (low, high))"
    and body: "write_body E f2 d chain low high digest_write (digest_block E) digest_new [] = Inr (c, a)"
    and row: "row = \<lparr>er_start = low, er_end = high, er_bytes = dw_bytes c, er_content = sha256 X (dw_hashed c),
        er_anchor = sha256 X a\<rparr>"
    by (auto simp: compute_epoch_digest_def result_simps digest_finish_def anchor_finish_def Let_def
        split: option.splits)
  from write_body_digest [OF body] complete_bounds_Inr [OF bounds] show ?thesis
    unfolding row by (auto simp: anchor_digest_blocks)
qed

end

end
