(* ===== verification/Export_Props.thy ===== *)
theory Export_Props
  imports Snapshot_Export_Laws
begin

text \<open>
  The properties of the snapshot export: what is advertised is what is served, the maintenance walk
  takes the epochs in order, and the limit of the guard against a concurrent truncation.
\<close>

section \<open>The pending scan\<close>

lemma pending_scan_find:
  assumes "tip \<le> u64_max" and "i + fuel > epoch_index tip"
  shows "pending_scan E (\<lambda>_. (no_faults, d)) tip fuel i =
    Inr (find (\<lambda>i. tbl_get (meta_ops E) (db_meta d) (epoch_digest_key i) = None) [i..<epoch_index tip])"
  using assms(2)
proof (induction fuel arbitrary: i)
  case (Suc fuel)
  show ?case
  proof (cases "i < epoch_index tip")
    case True
    then have last: "epoch_last_height i < tip" using epoch_last_below assms(1) by blast
    have "epoch_index tip \<le> tip" by (simp add: epoch_index_def)
    then have "u64_add i 1 = Suc i" using True assms(1) by simp
    then show ?thesis
      using True last Suc.IH [of "Suc i"] Suc.prems
      by (simp add: upt_conv_Cons cache_try_def tbl_get_meta_digest)
  next
    case False
    then have "\<not> epoch_last_height i < tip" using epoch_index_less_iff [OF assms(1)] by blast
    then show ?thesis using False by simp
  qed
qed simp

text \<open>Every call of a pass sees the same database.\<close>

definition quiet :: "('b, 'm) maintain_views \<Rightarrow> ('b, 'm) db \<Rightarrow> bool" where
  "quiet v d \<longleftrightarrow> snd (mv_pending v) = d \<and> (\<forall>i. snd (mv_rows v i) = d) \<and> snd (mv_before v) = d \<and>
     snd (mv_bounds v) = d \<and> snd (mv_body v) = d \<and> snd (mv_after v) = d \<and> snd (mv_store v) = d"

definition quiet_views :: "('b, 'm) db \<Rightarrow> ('b, 'm) maintain_views" where
  "quiet_views d =
     \<lparr>mv_pending = (no_faults, d), mv_rows = (\<lambda>_. (no_faults, d)), mv_before = (no_faults, d),
      mv_bounds = (no_faults, d), mv_body = (no_faults, d), mv_after = (no_faults, d),
      mv_store = (no_faults, d)\<rparr>"

context cache_contract
begin

lemma stored_row:
  assumes "set_epoch_digest E flt d i v = Inr d'"
  shows "db_blocks d' = db_blocks d" and "epoch_digest E no_faults d' i = Inr (Some v)"
  using assms by (auto simp: set_epoch_digest_def tbl_get_meta_digest mta.get_insert result_simps)

lemma computed_row_decodes:
  assumes "parse_contract X" and "compute_epoch_digest E X flt flt' d0 d chain i = Inr (Some row)"
  shows "row_decode (row_encode row) = Some row"
proof -
  have "epoch_last_height i \<le> u64_max" by (simp add: epoch_last_height_def sat_add64_def)
  then show ?thesis
    using compute_digest_sound [OF assms(2)] parse_contract.sha256_length [OF assms(1)]
    by (auto simp: row_decode_encode full_span_def anchor_digest_def anchor_finish_def u64_add_def u64_max_def)
qed

lemma store_next_cases:
  assumes "store_next_epoch_digest E X v chain = Inr (Some i, d')"
  shows "\<exists>row. compute_epoch_digest E X (fst (mv_bounds v)) (fst (mv_body v)) (snd (mv_bounds v))
      (snd (mv_body v)) chain i = Inr (Some row) \<and>
    set_epoch_digest E (fst (mv_store v)) (snd (mv_store v)) i (row_encode row) = Inr d'"
  using assms
  by (auto simp: store_next_epoch_digest_def Let_def result_simps cache_try_def split: option.splits if_splits)

end


section \<open>Properties\<close>

text \<open>
  C24: what is advertised is what is served. When a maintenance pass over a quiet cache stores the digests
  of an epoch, whichever store calls may have failed before, a download of that epoch from the resulting
  cache writes a body whose SHA-256 and length are the stored ones; the body parses back to the chain, the
  first height and exactly the stored bytes of the cached blocks from the first to the last height of the
  epoch; and the stored anchor is the anchor over the heights and hashes of those blocks.
\<close>

theorem published_digest_matches:
  assumes "cache_contract E" and "parse_contract X" and "quiet v d"
    and "store_next_epoch_digest E X v chain = Inr (Some i, d')"
  shows "db_blocks d' = db_blocks d \<and>
    (\<exists>row body bs.
       epoch_digest E no_faults d' i = Inr (Some (row_encode row)) \<and>
       write_epoch E no_faults no_faults d' d' chain i vec_writer [] = Inr body \<and>
       er_end row = epoch_last_height i \<and>
       er_content row = content_digest X body \<and>
       er_bytes row = length body mod 18446744073709551616 \<and>
       parse_epoch X body =
         Inr (\<lparr>eh_chain = chain, eh_start = er_start row, eh_count = Suc (er_end row - er_start row)\<rparr>,
              map snd (span_entries E d (er_start row) (er_end row))) \<and>
       list_all2 (decodes_to E) (span_entries E d (er_start row) (er_end row)) bs \<and>
       map cb_height bs = [er_start row..<Suc (er_end row)] \<and>
       er_anchor row = anchor_digest X (map (\<lambda>b. (cb_height b, cb_hash b)) bs))"
proof -
  have dbs: "snd (mv_bounds v) = d" "snd (mv_body v) = d" "snd (mv_store v) = d"
    using assms(3) by (simp_all add: quiet_def)
  from cache_contract.store_next_cases [OF assms(1,4)] obtain row where
    comp: "compute_epoch_digest E X (fst (mv_bounds v)) (fst (mv_body v)) d d chain i = Inr (Some row)"
    and stored: "set_epoch_digest E (fst (mv_store v)) d i (row_encode row) = Inr d'"
    unfolding dbs by blast
  note same = cache_contract.stored_row [OF assms(1) stored]
  from cache_contract.compute_digest_sound [OF assms(1) comp] obtain bs where
    name: "chain_name_ok chain" and full: "full_span E d (er_start row) (er_end row)"
    and last: "er_end row = epoch_last_height i"
    and content: "er_content row = sha256 X (span_body E d chain (er_start row) (er_end row))"
    and len: "er_bytes row = u64_add 0 (length (span_body E d chain (er_start row) (er_end row)))"
    and bs: "list_all2 (decodes_to E) (span_entries E d (er_start row) (er_end row)) bs"
    and anchor: "er_anchor row = anchor_digest X (map (\<lambda>b. (cb_height b, cb_hash b)) bs)" by blast
  let ?body = "span_body E d chain (er_start row) (er_end row)"
  let ?es = "span_entries E d (er_start row) (er_end row)"
  have es': "span_entries E d' = span_entries E d" "span_body E d' = span_body E d"
    "full_span E d' = full_span E d"
    using same(1) by (auto simp: span_entries_def span_body_def full_span_def fun_eq_iff)
  have max: "er_end row \<le> u64_max" by (simp add: last epoch_last_height_def sat_add64_def)
  have "row_decode (row_encode row) = Some row"
    by (rule cache_contract.computed_row_decodes [OF assms(1,2) comp])
  then have served: "write_epoch E no_faults no_faults d' d' chain i vec_writer [] = Inr ?body"
    using same(2) cache_contract.write_body_vec [OF assms(1) name, of d' "er_start row" "er_end row"] full es'
    by (simp add: write_epoch_def cache_try_def decode_row_def)
  show ?thesis
    using same served last content len bs anchor span_parses [OF name full max] full
    by (auto simp: full_span_def decodes_heights content_digest_def u64_add_def intro!: exI [of _ row] exI [of _ bs])
qed

definition ref_export_db :: "((u64, bytes) otable, (string, bytes) otable) db" where
  "ref_export_db = ref_db [ref_block 9998 [1] [0], ref_block 9999 [2] [1], ref_block 10000 [3] [2],
     ref_block 10001 [4] [3]]"

lemma ref_export_pending:
  "next_pending_epoch ref_cache no_faults ref_export_db (\<lambda>_. (no_faults, ref_export_db)) = Inr (Some 0)"
  "is_ok (cache_range ref_cache no_faults ref_export_db)"
  "case compute_epoch_digest ref_cache ref_parse no_faults no_faults ref_export_db ref_export_db ''main'' 0 of
     Inr (Some _) \<Rightarrow> True | _ \<Rightarrow> False"
  by code_simp+

lemma was_truncated_same: "\<not> was_truncated r r"
  by (auto simp: was_truncated_def split: option.splits)

lemma ref_export_stores_digest:
  "\<exists>d'. store_next_epoch_digest ref_cache ref_parse (quiet_views ref_export_db) ''main'' = Inr (Some 0, d')"
proof -
  obtain r where "cache_range ref_cache no_faults ref_export_db = Inr r"
    using ref_export_pending(2) by (auto simp: is_ok_def split: sum.splits)
  moreover obtain row where "compute_epoch_digest ref_cache ref_parse no_faults no_faults ref_export_db
      ref_export_db ''main'' 0 = Inr (Some row)"
    using ref_export_pending(3) by (auto split: sum.splits option.splits)
  moreover obtain d' where "set_epoch_digest ref_cache no_faults ref_export_db 0 (row_encode row) = Inr d'"
    by (simp add: set_epoch_digest_def)
  ultimately show ?thesis
    using ref_export_pending(1)
    by (simp add: store_next_epoch_digest_def quiet_views_def cache_try_def was_truncated_same)
qed

theorem published_digest_matches_witness:
  "\<exists>d' body. store_next_epoch_digest ref_cache ref_parse (quiet_views ref_export_db) ''main'' = Inr (Some 0, d') \<and>
     write_epoch ref_cache no_faults no_faults d' d' ''main'' 0 vec_writer [] = Inr body"
proof -
  obtain d' where d': "store_next_epoch_digest ref_cache ref_parse (quiet_views ref_export_db) ''main'' =
      Inr (Some 0, d')"
    using ref_export_stores_digest by blast
  have "quiet (quiet_views ref_export_db) ref_export_db" by (simp add: quiet_def quiet_views_def)
  from published_digest_matches [OF rc.cache_contract_axioms rp.parse_contract_axioms this d'] d'
  show ?thesis by blast
qed

text \<open>
  The maintenance walk goes up from the base. On a healthy cache with no store failures, the next
  pending epoch is the lowest one, from the epoch of the cache's base up, that the tip has left behind and
  that has no stored digest; none is reported exactly when there is none.
\<close>

theorem next_pending_lowest:
  assumes "cache_contract E" and "stores E (db_blocks d) bs" and "bs \<noteq> []"
  shows "next_pending_epoch E no_faults d (\<lambda>_. (no_faults, d)) =
    Inr (find (\<lambda>i. epoch_digest E no_faults d i = Inr None)
           [epoch_index (cb_height (hd bs))..<epoch_index (cb_height (last bs))])"
proof -
  have "cache_range E no_faults d = Inr (Some (cb_height (hd bs), cb_height (last bs)))"
    using cache_contract.cache_range_eq [OF assms(1,2)] assms(3) by simp
  moreover have "cb_height (last bs) < u64_max" using assms(2,3) by (simp add: stores_def)
  ultimately show ?thesis
    using pending_scan_find [of "cb_height (last bs)" "epoch_index (cb_height (hd bs))"
        "Suc (epoch_index (cb_height (last bs)))" E d]
    by (simp add: next_pending_epoch_def cache_try_def tbl_get_meta_digest)
qed

theorem next_pending_lowest_witness:
  "next_pending_epoch ref_cache no_faults (ref_db [ref_block 9999 [1] [0], ref_block 10000 [2] [1]])
     (\<lambda>_. (no_faults, ref_db [ref_block 9999 [1] [0], ref_block 10000 [2] [1]])) = Inr (Some 0)"
proof -
  define d where "d = ref_db [ref_block 9999 [1] [0], ref_block 10000 [2] [1]]"
  have st: "stores ref_cache (db_blocks d) [ref_block 9999 [1] [0], ref_block 10000 [2] [1]]"
    unfolding d_def by (rule ref_db_stores) (simp_all add: u64_max_def)
  have "epoch_digest ref_cache no_faults d 0 = Inr None"
    by (simp add: tbl_get_meta_digest d_def ref_db_def ref_cache_def ot_ops_def ot_empty.rep_eq)
  moreover have "[epoch_index 9999..<epoch_index 10000] = [0]" by code_simp
  ultimately show ?thesis
    using next_pending_lowest [OF rc.cache_contract_axioms st] by (simp add: d_def)
qed

text \<open>
  The guard does not see a truncation that has been refilled. A cache truncated above its base
  after the guard's first look and refilled to at least its old tip before the second (what a reorg does)
  counts as not truncated, although the blocks from the truncation height on were replaced.
\<close>

theorem was_truncated_misses_refill:
  assumes "cache_contract E" and "stores E (db_blocks d) bs" and "bs \<noteq> []"
    and "cb_height (hd bs) < h" and "remove_from E flt d h = Inr d1"
    and "add_batch E flt' d1 new = Inr d2" and "\<forall>b \<in> set new. cb_height b < u64_max"
    and "new \<noteq> []" and "cb_height (last bs) \<le> cb_height (last new)"
  shows "\<exists>before after. cache_range E no_faults d = Inr before \<and> cache_range E no_faults d2 = Inr after \<and>
    \<not> was_truncated before after \<and>
    stores E (db_blocks d2) (takeWhile (\<lambda>b. cb_height b < h) bs @ new)"
proof -
  let ?kept = "takeWhile (\<lambda>b. cb_height b < h) bs"
  have kept: "stores E (db_blocks d1) ?kept"
    by (rule cache_contract.remove_from_stores [OF assms(1,5,2)])
  obtain new' where "map Inr new = map (Inr :: _ \<Rightarrow> (cache_error, _) result) new'"
    "stores E (db_blocks d2) (?kept @ new')"
    using cache_contract.append_stores [OF assms(1) assms(6) [unfolded add_batch_def] kept] assms(7) by auto
  then have st2: "stores E (db_blocks d2) (?kept @ new)" by (simp add: inj_map_eq_map [of Inr] inj_on_def)
  have ne: "?kept \<noteq> []" "hd ?kept = hd bs" using assms(3,4) by (cases bs; simp)+
  have "cache_range E no_faults d = Inr (Some (cb_height (hd bs), cb_height (last bs)))"
    using cache_contract.cache_range_eq [OF assms(1,2)] assms(3) by simp
  moreover have "cache_range E no_faults d2 = Inr (Some (cb_height (hd bs), cb_height (last new)))"
    using cache_contract.cache_range_eq [OF assms(1) st2] ne assms(8) by simp
  ultimately show ?thesis using st2 assms(9) by (auto simp: was_truncated_def)
qed

theorem was_truncated_misses_refill_witness:
  "\<exists>d1 d2 before after.
     remove_from ref_cache no_faults (ref_db [ref_block 7 [1] [0], ref_block 8 [2] [1]]) 8 = Inr d1 \<and>
     add_batch ref_cache no_faults d1 [ref_block 8 [9] [1]] = Inr d2 \<and>
     cache_range ref_cache no_faults (ref_db [ref_block 7 [1] [0], ref_block 8 [2] [1]]) = Inr before \<and>
     cache_range ref_cache no_faults d2 = Inr after \<and> \<not> was_truncated before after"
proof -
  define d where "d = ref_db [ref_block 7 [1] [0], ref_block 8 [2] [1]]"
  have st: "stores ref_cache (db_blocks d) [ref_block 7 [1] [0], ref_block 8 [2] [1]]"
    unfolding d_def by (rule ref_db_stores) (simp_all add: u64_max_def)
  have "is_ok (bindE (remove_from ref_cache no_faults d 8) (\<lambda>d1.
      add_batch ref_cache no_faults d1 [ref_block 8 [9] [1]]))"
    unfolding d_def by code_simp
  then obtain d1 d2 where r: "remove_from ref_cache no_faults d 8 = Inr d1"
    and a: "add_batch ref_cache no_faults d1 [ref_block 8 [9] [1]] = Inr d2"
    by (auto simp: is_ok_def result_simps split: sum.splits)
  from was_truncated_misses_refill [OF rc.cache_contract_axioms st _ _ r a] r a show ?thesis
    by (auto simp: u64_max_def d_def)
qed

end
