(* ===== verification/Import_Props.thy ===== *)
theory Import_Props
  imports Import_Laws Export_Props
begin

text \<open>
  The properties of the snapshot import: it extends a healthy cache only by blocks the operator's node
  vouches for, it accepts what an honest peer on the same chain publishes, an accepted manifest tiles its
  range, and the download is bounded.
\<close>

section \<open>Accepting an honest epoch\<close>

lemma check_records_complete:
  assumes "list_all2 (\<lambda>r b. block_decode E r = Inr b) records bs"
    and "map cb_height bs = [h..<h + length bs]" and "h + length bs \<le> u64_max"
    and "chained bs" and "grown bs"
    and "case previous of None \<Rightarrow> True | Some p \<Rightarrow> bs \<noteq> [] \<longrightarrow> links p (hd bs) \<and> grows p (hd bs)"
  shows "check_records E X epoch h records previous hashes = Inr (hashes @ map cb_hash bs)"
  using assms
proof (induction records bs arbitrary: h previous hashes rule: list_all2_induct)
  case (Cons r records b bs)
  have h: "cb_height b = h" "map cb_height bs = [Suc h..<Suc h + length bs]" "u64_add h 1 = Suc h"
    using Cons.prems(1,2) by (simp_all add: upt_conv_Cons del: upt_Suc)
  have "check_records E X epoch (Suc h) records (Some b) (hashes @ [cb_hash b]) =
      Inr ((hashes @ [cb_hash b]) @ map cb_hash bs)"
    using Cons.prems h(2) by (intro Cons.IH) (cases bs; simp)+
  moreover have "decode_block E epoch h r = Inr b" using Cons.hyps h by (simp add: decode_block_Inr)
  ultimately show ?case
    using Cons.prems(5) h(3)
    by (auto simp: check_linkage_ok [THEN iffD2] check_tree_sizes_ok [THEN iffD2] split: option.splits)
qed simp

lemma compare_hashes_complete:
  assumes "\<forall>i < length hashes. \<exists>s. m (h + i) = Some s \<and> display_hex_to_wire X s = Inr (hashes ! i)"
    and "h + length hashes \<le> u64_max"
  shows "compare_hashes X epoch h hashes m anchor =
    Inr (foldl (\<lambda>a (k, hash). anchor_update a k hash) anchor (zip [h..<h + length hashes] hashes))"
  using assms
proof (induction hashes arbitrary: h anchor)
  case (Cons c hashes)
  obtain s where "m h = Some s" "display_hex_to_wire X s = Inr c" using Cons.prems(1) by fastforce
  moreover have "u64_add h 1 = Suc h" using Cons.prems(2) by simp
  moreover have "compare_hashes X epoch (Suc h) hashes m (anchor_update anchor h c) =
      Inr (foldl (\<lambda>a (k, hash). anchor_update a k hash) (anchor_update anchor h c)
        (zip [Suc h..<Suc h + length hashes] hashes))"
    using Cons.prems by (intro Cons.IH) (auto dest: spec [of _ "Suc _"])
  ultimately show ?case by (simp add: upt_conv_Cons del: upt_Suc)
qed simp

lemma compare_blocks_complete:
  assumes "hex_contract X" and "map cb_height bs = [lo..<lo + length bs]" and "lo + length bs \<le> u64_max"
    and "\<forall>b \<in> set bs. m (cb_height b) = Some (wire_to_display_hex X (cb_hash b))"
  shows "compare_hashes X i lo (map cb_hash bs) m [] =
    Inr (foldl (\<lambda>a (k, hash). anchor_update a k hash) [] (map (\<lambda>b. (cb_height b, cb_hash b)) bs))"
proof -
  have "\<exists>s. m (lo + j) = Some s \<and> display_hex_to_wire X s = Inr (map cb_hash bs ! j)" if "j < length bs" for j
  proof -
    have "cb_height (bs ! j) = lo + j" using arg_cong [OF assms(2), of "\<lambda>l. l ! j"] that by simp
    moreover have "m (cb_height (bs ! j)) = Some (wire_to_display_hex X (cb_hash (bs ! j)))"
      using assms(4) nth_mem [OF that] by blast
    ultimately show ?thesis using that hex_contract.display_wire_roundtrip [OF assms(1)] by simp
  qed
  then have "compare_hashes X i lo (map cb_hash bs) m [] =
      Inr (foldl (\<lambda>a (k, hash). anchor_update a k hash) [] (zip [lo..<lo + length (map cb_hash bs)] (map cb_hash bs)))"
    using assms(3) by (intro compare_hashes_complete) auto
  moreover have "zip [lo..<lo + length (map cb_hash bs)] (map cb_hash bs) = map (\<lambda>b. (cb_height b, cb_hash b)) bs"
    unfolding length_map assms(2) [symmetric] by (simp add: zip_map_map zip_same_conv_map comp_def)
  ultimately show ?thesis by metis
qed

text \<open>A node that answers every batch within the heights with the given hash per height.\<close>

definition answers :: "node_rpc \<Rightarrow> u64 set \<Rightarrow> (u64 \<Rightarrow> string) \<Rightarrow> bool" where
  "answers node H f \<longleftrightarrow> (\<forall>batch. set batch \<subseteq> H \<longrightarrow> rpc_get_block_hashes node batch = Inr (map f batch))"

text \<open>A schedule in which no worker dies and every batch is taken.\<close>

definition covers_batches :: "lookup_schedule \<Rightarrow> nat \<Rightarrow> bool" where
  "covers_batches schedule n \<longleftrightarrow> (\<forall>j \<in> set schedule. is_ok j) \<and>
     (\<forall>i < n. \<exists>indices. Inr indices \<in> set schedule \<and> i \<in> set indices)"

lemma lookup_worker_complete:
  assumes "answers node H f" and "\<forall>b \<in> set batches. set b \<subseteq> H"
  shows "\<exists>found. lookup_worker node epoch batches indices = Inr found \<and>
    (\<forall>(h, s) \<in> set found. s = f h) \<and>
    (\<forall>i \<in> set indices. i < length batches \<longrightarrow> set (batches ! i) \<subseteq> fst ` set found)"
proof -
  have "\<exists>found. foldE (\<lambda>i found. if i < length batches
         then bindE (lookup_batch node epoch (batches ! i)) (\<lambda>new. Inr (found @ new)) else Inr found)
       indices acc = Inr found \<and> (\<forall>(h, s) \<in> set found. s = f h) \<and> fst ` set acc \<subseteq> fst ` set found \<and>
    (\<forall>i \<in> set indices. i < length batches \<longrightarrow> set (batches ! i) \<subseteq> fst ` set found)"
    if "\<forall>(h, s) \<in> set acc. s = f h" for acc
    using that
  proof (induction indices arbitrary: acc)
    case (Cons i indices)
    show ?case
    proof (cases "i < length batches")
      case True
      define new where "new = zip (batches ! i) (map f (batches ! i))"
      have "lookup_batch node epoch (batches ! i) = Inr new"
        using assms True nth_mem [OF True] by (simp add: lookup_batch_def answers_def new_def)
      moreover have "\<forall>(h, s) \<in> set (acc @ new). s = f h"
        using Cons.prems by (auto simp: new_def set_zip)
      moreover have "fst ` set new = set (batches ! i)"
        by (simp add: new_def flip: set_map)
      ultimately show ?thesis
        using Cons.IH [of "acc @ new"] True by (fastforce simp: image_Un)
    next
      case False
      then show ?thesis using Cons by auto
    qed
  qed auto
  from this [of "[]"] show ?thesis by (auto simp: lookup_worker_def)
qed

lemma fetch_block_hashes_complete:
  assumes "answers node (set heights) f" and "covers_batches schedule (length (chunks_of LOOKUP_BATCH heights))"
  shows "\<exists>m. fetch_block_hashes node epoch heights schedule = Inr m \<and> (\<forall>h \<in> set heights. m h = Some (f h))"
proof -
  define batches where "batches = chunks_of LOOKUP_BATCH heights"
  have cat: "concat batches = heights"
    unfolding batches_def by (rule concat_chunks) (simp add: LOOKUP_BATCH_def)
  have sub: "\<forall>b \<in> set batches. set b \<subseteq> set heights" using cat by auto
  have step: "\<exists>m. foldE (\<lambda>joined hashes. bindE (map_err LookupTask joined) (\<lambda>indices.
          bindE (lookup_worker node epoch batches indices) (\<lambda>found. Inr (hashes ++ map_of (rev found)))))
        sch acc = Inr m \<and> (\<forall>h s. m h = Some s \<longrightarrow> s = f h) \<and> dom acc \<subseteq> dom m \<and>
        (\<forall>indices i. Inr indices \<in> set sch \<and> i \<in> set indices \<and> i < length batches \<longrightarrow> set (batches ! i) \<subseteq> dom m)"
    if "\<forall>j \<in> set sch. is_ok j" "\<forall>h s. acc h = Some s \<longrightarrow> s = f h" for sch acc
    using that
  proof (induction sch arbitrary: acc)
    case (Cons j sch)
    obtain indices where j: "j = Inr indices" using Cons.prems(1) by (cases j) auto
    obtain found where found: "lookup_worker node epoch batches indices = Inr found"
      "\<forall>(h, s) \<in> set found. s = f h"
      "\<forall>i \<in> set indices. i < length batches \<longrightarrow> set (batches ! i) \<subseteq> fst ` set found"
      using lookup_worker_complete [OF assms(1) sub, of epoch indices] by blast
    let ?acc = "acc ++ map_of (rev found)"
    have vals: "\<forall>h s. ?acc h = Some s \<longrightarrow> s = f h"
      using Cons.prems(2) found(2) by (auto simp: map_add_Some_iff dest!: map_of_SomeD)
    have doms: "dom ?acc = dom acc \<union> fst ` set found" by (simp add: dom_map_of_conv_image_fst Un_commute)
    obtain m where m: "foldE (\<lambda>joined hashes. bindE (map_err LookupTask joined) (\<lambda>indices.
          bindE (lookup_worker node epoch batches indices) (\<lambda>found. Inr (hashes ++ map_of (rev found)))))
        sch ?acc = Inr m" "\<forall>h s. m h = Some s \<longrightarrow> s = f h" "dom ?acc \<subseteq> dom m"
      "\<forall>indices i. Inr indices \<in> set sch \<and> i \<in> set indices \<and> i < length batches \<longrightarrow> set (batches ! i) \<subseteq> dom m"
      using Cons.IH [OF _ vals] Cons.prems(1) by auto
    have mine: "set (batches ! i) \<subseteq> dom m" if "i \<in> set indices" "i < length batches" for i
    proof -
      have "set (batches ! i) \<subseteq> fst ` set found" using found(3) that by blast
      also have "... \<subseteq> dom ?acc" unfolding doms by simp
      also note m(3)
      finally show ?thesis .
    qed
    have "\<forall>is i. Inr is \<in> set (j # sch) \<and> i \<in> set is \<and> i < length batches \<longrightarrow> set (batches ! i) \<subseteq> dom m"
      unfolding j set_simps insert_iff sum.inject using mine m(4) by blast
    moreover have "dom acc \<subseteq> dom m" using m(3) unfolding doms by simp
    ultimately show ?case
      using m(1,2) found(1) j by (intro exI [of _ m]) (simp del: set_simps)
  qed auto
  from step [of schedule Map.empty] assms(2) obtain m where
    m: "fetch_block_hashes node epoch heights schedule = Inr m" "\<forall>h s. m h = Some s \<longrightarrow> s = f h"
    "\<forall>indices i. Inr indices \<in> set schedule \<and> i \<in> set indices \<and> i < length batches \<longrightarrow> set (batches ! i) \<subseteq> dom m"
    by (auto simp: covers_batches_def fetch_block_hashes_def Let_def batches_def)
  have "m h = Some (f h)" if "h \<in> set heights" for h
  proof -
    from that cat obtain b where "b \<in> set batches" "h \<in> set b" by auto
    then obtain i where i: "i < length batches" "h \<in> set (batches ! i)" by (metis in_set_conv_nth)
    then obtain indices where "Inr indices \<in> set schedule" "i \<in> set indices"
      using assms(2) by (auto simp: covers_batches_def batches_def)
    then have "h \<in> dom m" using m(3) i by blast
    then show ?thesis using m(2) by auto
  qed
  with m(1) show ?thesis by blast
qed

lemma sorted_three_parts:
  "sorted (map f xs) \<Longrightarrow>
     xs = filter (\<lambda>x. f x < lo) xs @ filter (\<lambda>x. lo \<le> f x \<and> f x \<le> hi) xs @ filter (\<lambda>x. \<not> f x < lo \<and> hi < f x) xs"
  for f :: "'a \<Rightarrow> nat"
proof (induction xs)
  case (Cons x xs)
  have IH: "xs = filter (\<lambda>x. f x < lo) xs @ filter (\<lambda>x. lo \<le> f x \<and> f x \<le> hi) xs @ filter (\<lambda>x. \<not> f x < lo \<and> hi < f x) xs"
    using Cons by simp
  have le: "\<forall>y \<in> set xs. f x \<le> f y" using Cons.prems by simp
  consider "f x < lo" | "lo \<le> f x" "f x \<le> hi" | "lo \<le> f x" "hi < f x" by linarith
  then show ?case
  proof cases
    case 1
    then show ?thesis using IH by simp
  next
    case 2
    then have "filter (\<lambda>x. f x < lo) xs = []" using le by (fastforce simp: filter_empty_conv)
    then show ?thesis using 2 IH by simp
  next
    case 3
    then have "filter (\<lambda>x. f x < lo) xs = []" "filter (\<lambda>x. lo \<le> f x \<and> f x \<le> hi) xs = []"
      using le by (fastforce simp: filter_empty_conv)+
    then show ?thesis using 3 IH by simp
  qed
qed simp

context cache_contract
begin

lemma span_blocks:
  assumes "stores E (db_blocks d) cached" and "list_all2 (decodes_to E) (span_entries E d low high) bs"
  shows "bs = filter (\<lambda>b. low \<le> cb_height b \<and> cb_height b \<le> high) cached"
proof -
  have all: "list_all2 (decodes_to E) (tbl_iter (blocks_ops E) (db_blocks d)) cached"
    using assms(1) by (simp add: stores_def)
  have "list_all2 (decodes_to E) (filter (\<lambda>e. low \<le> fst e \<and> fst e \<le> high) es)
      (filter (\<lambda>b. low \<le> cb_height b \<and> cb_height b \<le> high) cs)" if "list_all2 (decodes_to E) es cs" for es cs
    using that by (induction rule: list_all2_induct) (auto simp: decodes_to_def)
  from this [OF all] have "list_all2 (decodes_to E) (span_entries E d low high)
      (filter (\<lambda>b. low \<le> cb_height b \<and> cb_height b \<le> high) cached)"
    by (simp add: span_entries_def blk.range_iter)
  with assms(2) show ?thesis
    by (auto simp: list_all2_conv_all_nth decodes_to_def intro!: nth_equalityI)
qed

lemma span_chained:
  assumes "stores E (db_blocks d) cached" and "chained cached" and "grown cached"
    and "bs = filter (\<lambda>b. low \<le> cb_height b \<and> cb_height b \<le> high) cached"
  shows "chained bs" and "grown bs"
proof -
  have "sorted_wrt (<) (map cb_height cached)" using assms(1) by (simp add: stores_def contiguous_sorted)
  then have "sorted (map cb_height cached)" by (rule strict_sorted_imp_sorted)
  from sorted_three_parts [OF this, of low high] obtain xs ys where "cached = xs @ bs @ ys"
    using assms(4) by blast
  then show "chained bs" "grown bs" using assms(2,3) by (auto simp: chained_append grown_append)
qed

end


section \<open>The manifest and the download\<close>

lemma validate_epochs_entries:
  "validate_epochs base previous entries = Inr () \<Longrightarrow>
     \<forall>e \<in> set entries. en_start e \<le> en_end e \<and> en_end e = epoch_last_height (en_index e) \<and>
       epoch_first_height (en_index e) \<le> en_start e"
  by (induction entries arbitrary: previous) (auto simp: result_simps split: option.splits)

lemma validate_epochs_first:
  "validate_epochs base None entries = Inr () \<Longrightarrow> entries \<noteq> [] \<longrightarrow> en_start (hd entries) = base"
  by (cases entries) (auto simp: result_simps)

lemma epoch_next_first:
  "epoch_last_height i + EPOCH_SIZE \<le> u64_max \<Longrightarrow> epoch_first_height (u64_add i 1) = Suc (epoch_last_height i)"
  by (auto simp: epoch_last_height_def epoch_first_height_def EPOCH_SIZE_def sat_mul64_def sat_add64_def
      u64_add_def u64_max_def min_def split: if_splits)

lemma validate_epochs_next:
  assumes "validate_epochs base previous entries = Inr ()"
  shows "\<forall>j. Suc j < length entries \<and> en_end (entries ! j) + EPOCH_SIZE \<le> u64_max \<longrightarrow>
    en_start (entries ! Suc j) = Suc (en_end (entries ! j))"
  using assms
proof (induction entries arbitrary: previous)
  case (Cons e entries)
  have rest: "validate_epochs base (Some e) entries = Inr ()"
    and e: "en_end e = epoch_last_height (en_index e)"
    using Cons.prems by (auto simp: result_simps)
  have "en_start (hd entries) = epoch_first_height (u64_add (en_index e) 1)" if "entries \<noteq> []"
    using rest that by (cases entries) (auto simp: result_simps)
  then have "entries \<noteq> [] \<Longrightarrow> en_end e + EPOCH_SIZE \<le> u64_max \<Longrightarrow> en_start (hd entries) = Suc (en_end e)"
    using epoch_next_first [of "en_index e"] e by simp
  then show ?case
    using Cons.IH [OF rest] by (auto simp: nth_Cons hd_conv_nth split: nat.splits)
qed simp

lemma read_stream_sound:
  assumes "read_stream max_bytes too_long cs acc = Inr body" and "length acc \<le> max_bytes"
  shows "\<exists>chunks. cs = map Inr chunks \<and> body = acc @ concat chunks \<and> length body \<le> max_bytes"
  using assms
proof (induction cs arbitrary: acc)
  case (Cons c cs)
  then obtain ch where c: "c = Inr ch" "length acc + length ch \<le> max_bytes"
    "read_stream max_bytes too_long cs (acc @ ch) = Inr body"
    by (auto simp: result_simps)
  from Cons.IH [OF c(3)] c(2) obtain chunks where
    "cs = map Inr chunks" "body = (acc @ ch) @ concat chunks" "length body \<le> max_bytes" by auto
  then show ?case using c(1) by (intro exI [of _ "ch # chunks"]) simp
qed simp

lemma epoch_retry_sound:
  assumes "epoch_retry replies index cap attempts attempt delay = (result, sleeps)"
  shows "(attempt \<le> attempts \<longrightarrow> attempt + length sleeps \<le> attempts) \<and> (attempts < attempt \<longrightarrow> sleeps = []) \<and>
    sleeps = map (\<lambda>k. delay * 2 ^ k) [0..<length sleeps] \<and>
    result = fetch_epoch (replies (attempt + length sleeps)) index cap \<and>
    (\<forall>k < length sleeps. \<exists>e. fetch_epoch (replies (attempt + k)) index cap = Inl e \<and> is_worth_retrying e)"
  using assms
proof (induction replies index cap attempts attempt delay arbitrary: sleeps rule: epoch_retry.induct)
  case (1 replies index cap attempts attempt delay)
  show ?case
  proof (cases "\<exists>e. fetch_epoch (replies attempt) index cap = Inl e \<and> attempt < attempts \<and> is_worth_retrying e")
    case False
    then have "sleeps = []" "result = fetch_epoch (replies attempt) index cap"
      using "1.prems" by (subst (asm) epoch_retry.simps, auto split: sum.splits if_splits)+
    then show ?thesis by simp
  next
    case True
    then obtain e where e: "fetch_epoch (replies attempt) index cap = Inl e" "attempt < attempts" "is_worth_retrying e"
      by blast
    obtain sl where r: "epoch_retry replies index cap attempts (attempt + 1) (delay * 2) = (result, sl)"
      and sl: "sleeps = delay # sl"
      using "1.prems" e by (subst (asm) epoch_retry.simps) (auto split: prod.splits)
    from "1.IH" [OF e(1) _ r] e have IH: "attempt + 1 + length sl \<le> attempts"
      "sl = map (\<lambda>k. delay * 2 * 2 ^ k) [0..<length sl]"
      "result = fetch_epoch (replies (attempt + 1 + length sl)) index cap"
      "\<forall>k < length sl. \<exists>e. fetch_epoch (replies (attempt + 1 + k)) index cap = Inl e \<and> is_worth_retrying e"
      by auto
    have nth: "sl ! k = delay * 2 * 2 ^ k" if "k < length sl" for k
      using arg_cong [OF IH(2), of "\<lambda>l. l ! k"] that by simp
    have "map (\<lambda>k. delay * 2 ^ k) [0..<Suc (length sl)] = delay # sl"
      by (rule nth_equalityI) (auto simp: nth_Cons nth mult.assoc simp del: upt_Suc split: nat.split)
    then show ?thesis
      using e IH(1,3,4) sl by (auto simp: less_Suc_eq_0_disj)
  qed
qed


section \<open>What an honest peer publishes\<close>

text \<open>
  What an honest peer publishes is accepted. When the digests of an epoch were computed from a cache
  that holds a chain with growing tree sizes, and the importer's node answers the epoch's heights with the
  hashes of those blocks, then the body the publisher serves, checked against the manifest entry it
  publishes, passes every verification layer and yields the stored bytes of the blocks.
\<close>

lemma honest_epoch_accepted:
  assumes "cache_contract E" and "parse_contract X" and "stores E (db_blocks d) cached"
    and "chained cached" and "grown cached"
    and "compute_epoch_digest E X flt flt' d0 d chain i = Inr (Some row)"
    and "answers node {er_start row..er_end row} f"
    and "\<forall>b \<in> set cached. f (cb_height b) = wire_to_display_hex X (cb_hash b)"
    and "covers_batches schedule (length (chunks_of LOOKUP_BATCH [er_start row..<Suc (er_end row)]))"
  shows "verify_epoch E X (span_body E d chain (er_start row) (er_end row)) (row_entry X row i) chain node schedule =
    Inr (map snd (span_entries E d (er_start row) (er_end row)))"
proof -
  let ?lo = "er_start row" and ?hi = "er_end row"
  let ?es = "span_entries E d ?lo ?hi" and ?body = "span_body E d chain ?lo ?hi"
  from cache_contract.compute_digest_sound [OF assms(1,6)] obtain bs where
    name: "chain_name_ok chain" and full: "full_span E d ?lo ?hi"
    and content: "er_content row = sha256 X ?body"
    and bs: "list_all2 (decodes_to E) ?es bs"
    and anchor: "er_anchor row = anchor_digest X (map (\<lambda>b. (cb_height b, cb_hash b)) bs)" by blast
  have keys: "map fst ?es = [?lo..<Suc ?hi]" "?lo \<le> ?hi" using full by (simp_all add: full_span_def)
  have heights: "map cb_height bs = [?lo..<Suc ?hi]" using decodes_heights [OF bs] keys(1) by simp
  have len: "length bs = Suc (?hi - ?lo)" "length ?es = Suc (?hi - ?lo)"
    using span_count [OF full] list_all2_lengthD [OF bs] by simp_all
  note blocks = cache_contract.span_blocks [OF assms(1,3) bs]
  note chain = cache_contract.span_chained [OF assms(1,3,4,5) blocks]
  have "last bs \<in> set bs" "cb_height (last bs) = ?hi"
  proof -
    have "bs \<noteq> []" using len by auto
    then show "last bs \<in> set bs" "cb_height (last bs) = ?hi"
      using arg_cong [OF heights, of last] keys(2) by (simp_all add: last_map)
  qed
  then have max: "?hi < u64_max" using blocks assms(3) by (auto simp: stores_def)
  note parsed = span_parses [OF name full less_imp_le [OF max], of X]
  have decoded: "list_all2 (\<lambda>r b. block_decode E r = Inr b) (map snd ?es) bs"
    using bs by (auto simp: list_all2_conv_all_nth decodes_to_def)
  have heights': "map cb_height bs = [?lo..<?lo + length bs]" using heights len keys(2) by (simp del: upt_Suc)
  have recs: "check_records E X i ?lo (map snd ?es) None [] = Inr (map cb_hash bs)"
    using check_records_complete [OF decoded heights' _ chain, of None X i "[]"] max len keys(2) by simp
  have "answers node (set [?lo..<Suc ?hi]) f"
    using assms(7) by (simp only: set_upt atLeastLessThanSuc_atLeastAtMost)
  from fetch_block_hashes_complete [OF this assms(9), of i] obtain m where
    m: "fetch_block_hashes node i [?lo..<Suc ?hi] schedule = Inr m" "\<forall>h \<in> set [?lo..<Suc ?hi]. m h = Some (f h)"
    by blast
  have "m (cb_height b) = Some (wire_to_display_hex X (cb_hash b))" if "b \<in> set bs" for b
  proof -
    have "cb_height b \<in> set [?lo..<Suc ?hi]" using that heights by (metis image_eqI set_map)
    then show ?thesis using m(2) assms(8) that blocks by auto
  qed
  then have cmp: "compare_hashes X i ?lo (map cb_hash bs) m [] =
      Inr (foldl (\<lambda>a (k, hash). anchor_update a k hash) [] (map (\<lambda>b. (cb_height b, cb_hash b)) bs))"
    using max len keys(2) heights' parse_contract.axioms(1) [OF assms(2)] by (intro compare_blocks_complete) auto
  have n: "u64_add (u64_sub ?hi ?lo) 1 = Suc (?hi - ?lo)" using max keys(2) by (simp add: u64_sub_exact)
  show ?thesis
    using parsed recs m(1) cmp anchor content n len
    by (simp add: verify_epoch_def verify_anchor_def row_entry_def content_digest_def anchor_digest_def
        Let_def del: upt_Suc length_map)
qed


section \<open>A small snapshot\<close>

text \<open>A chain of two blocks with tree sizes, and a node that knows it.\<close>

definition sized_block :: "u64 \<Rightarrow> bytes \<Rightarrow> bytes \<Rightarrow> compact_block" where
  "sized_block h hash prev = (ref_block h hash prev)\<lparr>cb_chain_metadata := Some
     \<lparr>sapling_commitment_tree_size = 3, orchard_commitment_tree_size = 2, ironwood_commitment_tree_size = 1\<rparr>\<rparr>"

definition ref_sized :: "compact_block list" where
  "ref_sized = [sized_block 9999 [1] [0], sized_block 10000 [2] [1]]"

definition ref_display :: "u64 \<Rightarrow> string" where
  "ref_display h = wire_to_display_hex ref_parse (if h = 9999 then [1] else [2])"

definition ref_import_node :: node_rpc where
  "ref_import_node = dead_node\<lparr>
     rpc_get_blockchain_info := Inr \<lparr>gbi_chain = ''main'', gbi_blocks = 10000, gbi_bestblockhash = '''',
       gbi_estimatedheight = 10000, gbi_consensus_chaintip = '''', gbi_upgrades = []\<rparr>,
     rpc_get_block_hashes := (\<lambda>hs. Inr (map ref_display hs))\<rparr>"

definition ref_row :: "epoch_row option" where
  "ref_row = (case compute_epoch_digest ref_cache ref_parse no_faults no_faults (ref_db ref_sized) (ref_db ref_sized)
     ''main'' 0 of Inr r \<Rightarrow> r | Inl _ \<Rightarrow> None)"

lemma ref_row_ok:
  "case ref_row of Some row \<Rightarrow> er_start row = 9999 \<and> er_end row = 9999 | None \<Rightarrow> False"
  by code_simp

lemma ref_sized_stores: "stores ref_cache (db_blocks (ref_db ref_sized)) ref_sized"
  by (rule ref_db_stores) (simp_all add: u64_max_def ref_sized_def sized_block_def)

lemma ref_sized_chain: "chained ref_sized" "grown ref_sized"
  by (simp_all add: ref_sized_def sized_block_def links_def grows_def block_sapling_outputs_def
      block_orchard_actions_def block_ironwood_actions_def)

definition ref_source :: "epoch_row \<Rightarrow> epoch_source" where
  "ref_source row = \<lparr>
     src_manifest = Inr \<lparr>mf_format_version = 1, mf_chain = ''main'', mf_epoch_size = 10000, mf_base_height = 9999,
       mf_tip_height = 10000, mf_epochs = [row_entry ref_parse row 0]\<rparr>,
     src_epoch = (\<lambda>_ _. Inr (span_body ref_cache (ref_db ref_sized) ''main'' 9999 9999))\<rparr>"

definition ref_import_env :: import_env where
  "ref_import_env = \<lparr>ie_node = (\<lambda>_. ref_import_node), ie_schedule = (\<lambda>_. [Inr [0]]),
     ie_faults = (\<lambda>_. \<lparr>jf_tip = no_faults, jf_get = no_faults, jf_add = no_faults\<rparr>)\<rparr>"

lemma ref_import_runs:
  "case ref_row of Some row \<Rightarrow>
     (case import_snapshot ref_cache ref_parse (ref_source row) ref_import_node no_faults ref_import_env ref_empty of
        (d, r) \<Rightarrow> r = Inr (Some 9999))
   | None \<Rightarrow> False"
  by code_simp


section \<open>Properties\<close>

text \<open>
  C22: an import only adds what the operator's node vouches for. Started on a healthy cache, whatever the
  peer serves, however the lookups are scheduled and wherever the store or the import fails, the cache
  afterwards is healthy and holds the old blocks followed by new ones: each new block is at or below the
  node's tip and has exactly the hash the operator's own node gave for its height, the new blocks link to
  each other and to the old tip, and their tree sizes grow by exactly the commitments they carry. On success
  the reported height is the cache's tip. The snapshot base is recorded exactly when an empty cache gained
  blocks, and is the first of them.
\<close>

theorem import_sound:
  assumes "cache_contract E" and "healthy E d bs"
    and "\<forall>info. rpc_get_blockchain_info node = Inr info \<longrightarrow> gbi_blocks info < u64_max"
    and "import_snapshot E X source node flt env d = (d', r)"
  shows "\<exists>new. healthy E d' (bs @ new) \<and> grown new \<and> (bs \<noteq> [] \<and> new \<noteq> [] \<longrightarrow> grows (last bs) (hd new)) \<and>
    (\<forall>b \<in> set new. (\<exists>info. rpc_get_blockchain_info node = Inr info \<and> cb_height b \<le> gbi_blocks info) \<and>
       (\<exists>epoch. vouched X (ie_node env epoch) b)) \<and>
    (\<forall>t. r = Inr t \<longrightarrow> t = (if bs @ new = [] then None else Some (cb_height (last (bs @ new))))) \<and>
    snapshot_base_height E no_faults d' =
      (if bs = [] \<and> new \<noteq> [] then Inr (Some (cb_height (hd new))) else snapshot_base_height E no_faults d)"
  by (rule cache_contract.import_snapshot_sound [OF assms])

theorem import_sound_witness:
  "\<exists>row d new. ref_row = Some row \<and>
     import_snapshot ref_cache ref_parse (ref_source row) ref_import_node no_faults ref_import_env ref_empty =
       (d, Inr (Some 9999)) \<and>
     healthy ref_cache d new \<and> new \<noteq> [] \<and> cb_height (last new) = 9999 \<and>
     (\<forall>b \<in> set new. vouched ref_parse ref_import_node b)"
proof -
  obtain row d where row: "ref_row = Some row" and run:
    "import_snapshot ref_cache ref_parse (ref_source row) ref_import_node no_faults ref_import_env ref_empty =
       (d, Inr (Some 9999))"
    using ref_import_runs by (auto split: option.splits prod.splits)
  have "\<forall>info. rpc_get_blockchain_info ref_import_node = Inr info \<longrightarrow> gbi_blocks info < u64_max"
    by (simp add: ref_import_node_def u64_max_def)
  from import_sound [OF rc.cache_contract_axioms ref_empty_healthy this run] obtain new where
    "healthy ref_cache d new" "\<forall>b \<in> set new. \<exists>epoch. vouched ref_parse (ie_node ref_import_env epoch) b"
    "Some 9999 = (if new = [] then None else Some (cb_height (last new)))"
    by auto
  then show ?thesis using row run by (auto simp: ref_import_env_def split: if_splits)
qed

text \<open>
  An accepted manifest tiles its range. When the importer accepts a manifest for its chain, the
  manifest has the supported version, epoch size and chain, each entry covers the rest of its own epoch
  from its start, the first starts at the advertised base, and below the end of the height range each entry
  starts exactly one past the end of the one before: no gap and no overlap.
\<close>

theorem manifest_tiles:
  assumes "validate_manifest m chain = Inr ()"
  shows "mf_format_version m = FORMAT_VERSION \<and> mf_epoch_size m = EPOCH_SIZE \<and> mf_chain m = chain \<and>
    (\<forall>e \<in> set (mf_epochs m). en_start e \<le> en_end e \<and> en_end e = epoch_last_height (en_index e) \<and>
       epoch_first_height (en_index e) \<le> en_start e) \<and>
    (mf_epochs m \<noteq> [] \<longrightarrow> en_start (hd (mf_epochs m)) = mf_base_height m) \<and>
    (\<forall>j. Suc j < length (mf_epochs m) \<and> en_end (mf_epochs m ! j) + EPOCH_SIZE \<le> u64_max \<longrightarrow>
       en_start (mf_epochs m ! Suc j) = Suc (en_end (mf_epochs m ! j)))"
proof -
  have v: "validate_epochs (mf_base_height m) None (mf_epochs m) = Inr ()"
    and head: "mf_format_version m = FORMAT_VERSION" "mf_epoch_size m = EPOCH_SIZE" "mf_chain m = chain"
    using assms by (auto simp: validate_manifest_def result_simps)
  from validate_epochs_entries [OF v] validate_epochs_first [OF v] validate_epochs_next [OF v] head
  show ?thesis by blast
qed

theorem manifest_tiles_witness:
  "\<exists>m. validate_manifest m ''main'' = Inr () \<and> length (mf_epochs m) = 2 \<and>
     en_start (mf_epochs m ! 1) = Suc (en_end (mf_epochs m ! 0))"
proof -
  define e0 where "e0 = \<lparr>en_index = 0, en_start = 7, en_end = 9999, en_bytes = 1, en_content_digest = [], en_anchor = []\<rparr>"
  define e1 where "e1 = \<lparr>en_index = 1, en_start = 10000, en_end = 19999, en_bytes = 1, en_content_digest = [], en_anchor = []\<rparr>"
  define m where "m = \<lparr>mf_format_version = 1, mf_chain = ''main'', mf_epoch_size = 10000, mf_base_height = 7,
    mf_tip_height = 20005, mf_epochs = [e0, e1]\<rparr>"
  have "validate_manifest m ''main'' = Inr ()"
    unfolding m_def e0_def e1_def by code_simp
  moreover from manifest_tiles [OF this] have "en_start (mf_epochs m ! Suc 0) = Suc (en_end (mf_epochs m ! 0))"
    by (auto simp: m_def e0_def EPOCH_SIZE_def u64_max_def)
  ultimately show ?thesis by (intro exI [of _ m]) (simp add: m_def)
qed

text \<open>
  Downloads are bounded. A capped read returns at most the given number of bytes, and then exactly the
  concatenation of the chunks that arrived; an epoch is requested at most three times, and only transport
  failures, server errors and a full peer are retried, with a delay that doubles from two seconds.
\<close>

theorem download_bounded:
  "(get_capped reply max_bytes too_long = Inr body \<longrightarrow>
      length body \<le> max_bytes \<and> (\<exists>chunks. reply = Inr (map Inr chunks) \<and> body = concat chunks)) \<and>
   (epoch_retry replies index cap FETCH_ATTEMPTS 1 RETRY_BACKOFF = (result, sleeps) \<longrightarrow>
      length sleeps < 3 \<and> sleeps = map (\<lambda>k. RETRY_BACKOFF * 2 ^ k) [0..<length sleeps] \<and>
      result = fetch_epoch (replies (1 + length sleeps)) index cap \<and>
      (\<forall>k < length sleeps. \<exists>e. fetch_epoch (replies (1 + k)) index cap = Inl e \<and> is_worth_retrying e))"
proof (intro conjI impI)
  assume "get_capped reply max_bytes too_long = Inr body"
  then obtain cs where cs: "reply = Inr cs" "read_stream max_bytes too_long cs [] = Inr body"
    by (auto simp: get_capped_def result_simps)
  from read_stream_sound [OF cs(2)] obtain chunks where "cs = map Inr chunks" "body = concat chunks"
    "length body \<le> max_bytes" by auto
  then show "length body \<le> max_bytes" "\<exists>chunks. reply = Inr (map Inr chunks) \<and> body = concat chunks"
    using cs(1) by auto
next
  assume r: "epoch_retry replies index cap FETCH_ATTEMPTS 1 RETRY_BACKOFF = (result, sleeps)"
  note sound = epoch_retry_sound [OF r]
  show "length sleeps < 3" using sound by (simp add: FETCH_ATTEMPTS_def)
  show "sleeps = map (\<lambda>k. RETRY_BACKOFF * 2 ^ k) [0..<length sleeps]"
    "result = fetch_epoch (replies (1 + length sleeps)) index cap"
    "\<forall>k < length sleeps. \<exists>e. fetch_epoch (replies (1 + k)) index cap = Inl e \<and> is_worth_retrying e"
    using sound by (simp_all add: FETCH_ATTEMPTS_def)
qed

theorem download_bounded_witness:
  "get_capped (Inr [Inr [1, 2], Inr [3 :: u8]]) 3 (Gap None 0) = Inr [1, 2, 3] \<and> length [1, 2, 3 :: u8] \<le> 3 \<and>
   epoch_retry (\<lambda>k. if k = 1 then Inl None else Inr [Inr [7]]) 0 1 FETCH_ATTEMPTS 1 RETRY_BACKOFF = (Inr [7], [2000]) \<and>
   length [2000 :: nat] < 3"
proof -
  have a: "get_capped (Inr [Inr [1, 2], Inr [3 :: u8]]) 3 (Gap None 0) = Inr [1, 2, 3]" by code_simp
  have b: "epoch_retry (\<lambda>k. if k = 1 then Inl None else Inr [Inr [7]]) 0 1 FETCH_ATTEMPTS 1 RETRY_BACKOFF =
      (Inr [7], [2000])" by code_simp
  from conjunct1 [OF download_bounded, rule_format, OF a]
    conjunct2 [OF download_bounded, rule_format, OF b] a b
  show ?thesis by blast
qed

end
