(* ===== verification/Service_Errors.thy ===== *)
theory Service_Errors
  imports Fetch Cache Grpc_Status
begin

text \<open>
  src/service/errors.rs: how failures of the node, of a block fetch and of the cache become gRPC
  statuses. The text of an error is what its Display prints, as a format string with its arguments.
\<close>

section \<open>The text of an error\<close>

type_synonym text_of = "string \<times> msg_arg list"

definition text_msg :: "text_of \<Rightarrow> msg_arg" where
  "text_msg t = Msg (fst t) (snd t)"

fun join_error_text :: "join_error \<Rightarrow> text_of" where
  "join_error_text (JoinPanic t) = (''{}'', [Str t])"
| "join_error_text (JoinCancelled t) = (''{}'', [Str t])"

fun node_error_text :: "node_error \<Rightarrow> text_of" where
  "node_error_text (Http e) = (''node HTTP transport error: {}'', [Str e])"
| "node_error_text (Rpc code message) = (''node RPC error {}: {}'', [Sgn code, Str message])"
| "node_error_text (NodeDecode e) = (''decoding RPC result: {}'', [Str e])"
| "node_error_text (Hex e) = (''decoding hex: {}'', [hex_error_msg e])"
| "node_error_text (ResponseTooLarge limit) = (''node response body ran past the {}-byte cap'', [Num limit])"
| "node_error_text EmptyResult = (''RPC response had no result'', [])"
| "node_error_text (Overloaded class) = (''the wallet-facing {} concurrency limit is full'', [Str class])"
| "node_error_text (TaskError e) = (''node call task failed: {}'', [text_msg (join_error_text e)])"
| "node_error_text (State e) = (''read state error: {}'', [Str e])"

fun parse_error_text :: "parse_error \<Rightarrow> text_of" where
  "parse_error_text Truncated = (''block data is truncated'', [])"
| "parse_error_text (Io (IoError e)) = (''reading block: {}'', [Str e])"
| "parse_error_text NoHeight = (''could not read height from coinbase'', [])"
| "parse_error_text TrailingData = (''block has trailing data after the last transaction'', [])"

fun fetch_error_text :: "fetch_error \<Rightarrow> text_of" where
  "fetch_error_text (FetchNode e) = node_error_text e"
| "fetch_error_text (FetchParse e) = parse_error_text e"
| "fetch_error_text (UnexpectedHeight requested got) =
     (''expected block at height {}, node returned height {}'', [Num requested, Num got])"
| "fetch_error_text (HashMismatch requested computed) =
     (''block hash mismatch: fetched by {}, bytes hash to {}'', [Str requested, Str computed])"
| "fetch_error_text (TxidMismatch height index node computed) =
     (''txid mismatch at height {} tx {}: node says {}, computed {}'',
      [Num height, Num index, Str node, Str computed])"
| "fetch_error_text (TxCountMismatch height node computed) =
     (''tx count mismatch at height {}: node lists {}, parsed {}'', [Num height, Num node, Num computed])"
| "fetch_error_text (ParseTask e) = (''block parse task failed: {}'', [text_msg (join_error_text e)])"
| "fetch_error_text (WindowClosed e) = (''ingest window closed before the fetch ran: {}'', [Str e])"

fun corruption_text :: "corruption \<Rightarrow> text_of" where
  "corruption_text (HeightKeyMismatch got height) = (''block.height {} does not match key {}'', [Num got, Num height])"
| "corruption_text (NonMonotonicAppend tip got) = (''non-monotonic append: tip is {}, got {}'', [Num tip, Num got])"
| "corruption_text (NotConsecutive expected got) =
     (''batch is not consecutive: expected {}, got {}'', [Num expected, Num got])"
| "corruption_text BadBaseHeight = (''snapshot_base_height is not 8 bytes'', [])"
| "corruption_text NoFirstEntry = (''non-empty cache has no first entry'', [])"
| "corruption_text NoLastEntry = (''non-empty cache has no last entry'', [])"
| "corruption_text (TipUndecodable (DecodeError e)) = (''tip block failed to decode: {}'', [Str e])"
| "corruption_text (TipHeightMismatch got key) = (''tip block.height {} does not match key {}'', [Num got, Num key])"
| "corruption_text (GapDetected len low high) =
     (''gap detected: {} entries span [{}, {}]'', [Num len, Num low, Num high])"

fun cache_error_text :: "cache_error \<Rightarrow> text_of" where
  "cache_error_text (Database e) = (''{}'', [Str e])"
| "cache_error_text (Transaction e) = (''{}'', [Str e])"
| "cache_error_text (Table e) = (''{}'', [Str e])"
| "cache_error_text (Storage e) = (''{}'', [Str e])"
| "cache_error_text (Commit e) = (''{}'', [Str e])"
| "cache_error_text (Decode (DecodeError e)) = (''decoding cached block: {}'', [Str e])"
| "cache_error_text (Corruption height detail) =
     (''cache corruption at height {}: {}'', [Num height, text_msg (corruption_text detail)])"

definition status_with :: "grpc_code \<Rightarrow> text_of \<Rightarrow> status" where
  "status_with code t = mk_status code (fst t) (snd t)"


section \<open>The mappings\<close>

definition RPC_INVALID_PARAMETER :: int where
  "RPC_INVALID_PARAMETER = -8"

definition RPC_INVALID_ADDRESS_OR_KEY :: int where
  "RPC_INVALID_ADDRESS_OR_KEY = -5"

fun node_to_status :: "node_error \<Rightarrow> status" where
  "node_to_status (Http _) = mk_status Unavailable ''backend node unavailable'' []"
| "node_to_status (State _) = mk_status Unavailable ''read state unavailable'' []"
| "node_to_status (Overloaded class) =
     mk_status ResourceExhausted ''too many {} queries in flight; retry shortly'' [Str class]"
| "node_to_status (TaskError _) = mk_status Internal ''node call failed'' []"
| "node_to_status err = status_with Unavailable (node_error_text err)"

fun fetch_to_status :: "fetch_error \<Rightarrow> status" where
  "fetch_to_status (FetchNode e) = node_to_status e"
| "fetch_to_status (FetchParse e) = status_with Internal (parse_error_text e)"
| "fetch_to_status (UnexpectedHeight requested got) =
     mk_status Unavailable ''node returned block at height {}, expected {}'' [Num got, Num requested]"
| "fetch_to_status (HashMismatch requested computed) =
     mk_status Unavailable ''node returned bytes hashing to {}, expected {}'' [Str computed, Str requested]"
| "fetch_to_status (TxidMismatch height index node computed) =
     status_with Internal (fetch_error_text (TxidMismatch height index node computed))"
| "fetch_to_status (TxCountMismatch height node computed) =
     status_with Internal (fetch_error_text (TxCountMismatch height node computed))"
| "fetch_to_status (ParseTask e) = status_with Internal (join_error_text e)"
| "fetch_to_status (WindowClosed e) = mk_status Internal ''{}'' [Str e]"

definition cache_to_status :: "cache_error \<Rightarrow> status" where
  "cache_to_status err = status_with Internal (cache_error_text err)"

definition block_fetch_to_status :: "fetch_error \<Rightarrow> u64 \<Rightarrow> status" where
  "block_fetch_to_status err height =
     (case err of
        FetchNode (Rpc code _) \<Rightarrow>
          if code = RPC_INVALID_PARAMETER
          then mk_status OutOfRange ''block {} is newer than the latest block'' [Num height]
          else fetch_to_status err
      | _ \<Rightarrow> fetch_to_status err)"

definition transaction_lookup_to_status :: "node_error \<Rightarrow> status" where
  "transaction_lookup_to_status err =
     (case err of
        Rpc code message \<Rightarrow>
          if code = RPC_INVALID_ADDRESS_OR_KEY
          then mk_status NotFound ''transaction not found: {}'' [Str message]
          else node_to_status err
      | _ \<Rightarrow> node_to_status err)"

text \<open>str::contains.\<close>

primrec str_contains :: "string \<Rightarrow> string \<Rightarrow> bool" where
  "str_contains [] needle = (needle = [])"
| "str_contains (c # cs) needle = (take (length needle) (c # cs) = needle \<or> str_contains cs needle)"

definition address_query_to_status :: "node_error \<Rightarrow> status" where
  "address_query_to_status err =
     (case err of
        Rpc code message \<Rightarrow>
          if code = RPC_INVALID_ADDRESS_OR_KEY
          then if str_contains message ''No information available''
               then mk_status NotFound ''{}'' [Str message]
               else mk_status InvalidArgument ''invalid transparent address: {}'' [Str message]
          else node_to_status err
      | _ \<Rightarrow> node_to_status err)"


section \<open>What a client can learn of a failure\<close>

lemma str_contains_iff: "str_contains s needle \<longleftrightarrow> (\<exists>a b. s = a @ needle @ b)"
proof (induction s)
  case (Cons c cs)
  have "take (length needle) (c # cs) = needle \<longleftrightarrow> (\<exists>b. c # cs = needle @ b)"
    by (metis append_eq_conv_conj)
  then show ?case using Cons by (auto simp: Cons_eq_append_conv)
qed simp

text \<open>
  The parts of a node failure that stay on the server: the transport error, which can carry the node's
  URL and credentials, the read-state error, which can carry local paths, and the text of a failed task.
\<close>

fun redact :: "node_error \<Rightarrow> node_error" where
  "redact (Http _) = Http []"
| "redact (State _) = State []"
| "redact (TaskError _) = TaskError (JoinPanic [])"
| "redact err = err"

fun redact_fetch :: "fetch_error \<Rightarrow> fetch_error" where
  "redact_fetch (FetchNode e) = FetchNode (redact e)"
| "redact_fetch err = err"

lemma node_to_status_redact: "node_to_status (redact e) = node_to_status e"
  by (cases e) simp_all

lemma fetch_to_status_redact: "fetch_to_status (redact_fetch e) = fetch_to_status e"
  by (cases e) (simp_all add: node_to_status_redact)

text \<open>Statuses that tell a client to try the same request again.\<close>

definition retryable :: "status \<Rightarrow> bool" where
  "retryable s \<longleftrightarrow> st_code s \<in> {Unavailable, ResourceExhausted, Aborted}"

text \<open>
  Nothing private of a node failure reaches a client. Every mapping from a failure to a status is
  unchanged when the transport error, the read-state error and the text of a failed task are blanked
  out, so two failures that differ only there give the client the same status; a height past the tip is
  out of range, an unknown txid is not found, a malformed address is an invalid argument (unless the
  node says it has no information), and a fetched block that contradicts the node's own description of
  it is not reported as retryable.
\<close>

theorem error_mapping:
  "node_to_status (redact e) = node_to_status e \<and>
   fetch_to_status (redact_fetch f) = fetch_to_status f \<and>
   block_fetch_to_status (redact_fetch f) height = block_fetch_to_status f height \<and>
   transaction_lookup_to_status (redact e) = transaction_lookup_to_status e \<and>
   address_query_to_status (redact e) = address_query_to_status e \<and>
   st_code (block_fetch_to_status (FetchNode (Rpc (-8) message)) height) = OutOfRange \<and>
   st_code (transaction_lookup_to_status (Rpc (-5) message)) = NotFound \<and>
   st_code (address_query_to_status (Rpc (-5) message)) =
     (if \<exists>a b. message = a @ ''No information available'' @ b then NotFound else InvalidArgument) \<and>
   \<not> retryable (block_fetch_to_status (TxidMismatch h i a b) height) \<and>
   \<not> retryable (block_fetch_to_status (TxCountMismatch h m n) height) \<and>
   \<not> retryable (cache_to_status c)"
proof (intro conjI)
  show "block_fetch_to_status (redact_fetch f) height = block_fetch_to_status f height"
  proof (cases f)
    case (FetchNode e)
    then show ?thesis by (cases e) (simp_all add: block_fetch_to_status_def)
  qed (simp_all add: block_fetch_to_status_def)
  show "transaction_lookup_to_status (redact e) = transaction_lookup_to_status e"
    by (cases e) (simp_all add: transaction_lookup_to_status_def)
  show "address_query_to_status (redact e) = address_query_to_status e"
    by (cases e) (simp_all add: address_query_to_status_def)
qed (simp_all add: node_to_status_redact fetch_to_status_redact block_fetch_to_status_def
    RPC_INVALID_PARAMETER_def transaction_lookup_to_status_def RPC_INVALID_ADDRESS_OR_KEY_def
    address_query_to_status_def str_contains_iff retryable_def status_with_def cache_to_status_def)

end
