(* ===== verification/Streamer.thy ===== *)
theory Streamer
  imports Service_Errors Pool_Filter
begin

text \<open>
  src/service/mod.rs: the service and the helpers its handlers share, with the request and reply
  messages of proto/service.proto they use.

  A handler's node is an argument, the replies it gives while the request runs; the cache is an argument
  too, the database as the handler's read transaction sees it. What depends on time is a value: a call
  under a deadline comes with whether the deadline elapsed first.
\<close>

section \<open>Messages\<close>

record block_id =
  bi_height :: u64
  bi_hash :: bytes

record block_range =
  br_start :: "block_id option"
  br_end :: "block_id option"
  br_pool_types :: "int list"

record raw_transaction =
  rt_data :: bytes
  rt_height :: u64

record tx_filter =
  tf_block :: "block_id option"
  tf_index :: u64
  tf_hash :: bytes


section \<open>The service\<close>

text \<open>
  The configuration of a service. The node, the cache, the mempool monitor and the darkside state are
  shared and change while it runs, so their values are arguments of the handlers; the record has whether
  the last two are attached.
\<close>

record streamer =
  sr_network :: string
  sr_darkside :: bool
  sr_mempool :: bool
  sr_ping_enable :: bool
  sr_donation_address :: "string option"
  sr_repair :: bool
  sr_ingest_floor :: "u64 option"

definition streamer_new :: "string \<Rightarrow> bool \<Rightarrow> streamer" where
  "streamer_new network darkside =
     \<lparr>sr_network = network, sr_darkside = darkside, sr_mempool = False, sr_ping_enable = False,
      sr_donation_address = None, sr_repair = False, sr_ingest_floor = None\<rparr>"

definition with_mempool_monitor :: "streamer \<Rightarrow> streamer" where
  "with_mempool_monitor s = s\<lparr>sr_mempool := True\<rparr>"

definition with_repair_signal :: "streamer \<Rightarrow> streamer" where
  "with_repair_signal s = s\<lparr>sr_repair := True\<rparr>"

definition with_ping_enabled :: "streamer \<Rightarrow> bool \<Rightarrow> streamer" where
  "with_ping_enabled s enabled = s\<lparr>sr_ping_enable := enabled\<rparr>"

definition with_donation_address :: "streamer \<Rightarrow> string option \<Rightarrow> streamer" where
  "with_donation_address s address = s\<lparr>sr_donation_address := address\<rparr>"

definition with_ingest_floor :: "streamer \<Rightarrow> u64 \<Rightarrow> streamer" where
  "with_ingest_floor s height = s\<lparr>sr_ingest_floor := Some height\<rparr>"


section \<open>Shared helpers\<close>

definition block_at ::
    "('b, 'm) cache_ext \<Rightarrow> 'x parse_ext_scheme \<Rightarrow> faults \<Rightarrow> ('b, 'm) db \<Rightarrow> join_error option \<Rightarrow> node_rpc \<Rightarrow> u64
      \<Rightarrow> (status, compact_block) result" where
  "block_at E X flt db parse_task node height =
     bindE (map_err cache_to_status (cache_get E flt db height)) (\<lambda>cached.
       case cached of
         Some block \<Rightarrow> Inr block
       | None \<Rightarrow>
           map_err (\<lambda>err. block_fetch_to_status err height) (compact_block_fetch X parse_task node height))"

text \<open>The outer result is the deadline's, the inner one the call's.\<close>

definition with_deadline :: "bool \<Rightarrow> string \<Rightarrow> ('e, 'a) result \<Rightarrow> (status, ('e, 'a) result) result" where
  "with_deadline elapsed context call =
     (if elapsed
      then Inl (mk_status DeadlineExceeded ''{}: timed out waiting for the node'' [Str context])
      else Inr call)"

definition decode_hex :: "'x hex_ext_scheme \<Rightarrow> string \<Rightarrow> string \<Rightarrow> (status, bytes) result" where
  "decode_hex X value context =
     map_err (\<lambda>error. mk_status Internal ''decoding {}: {}'' [Str context, hex_error_msg error]) (hex_decode X value)"

definition mined_height :: "int \<Rightarrow> u64" where
  "mined_height height = (if height < 0 then u64_max else nat height)"

lemma with_deadline_Inr [result_simps]: "with_deadline elapsed context call = Inr r \<longleftrightarrow> \<not> elapsed \<and> r = call"
  by (auto simp: with_deadline_def)

lemma mined_height_bound: "height < 2 ^ 63 \<Longrightarrow> mined_height height \<le> u64_max"
  by (simp add: mined_height_def u64_max_def nat_le_iff)

text \<open>A block served by height is the block at that height.\<close>

context cache_contract
begin

lemma block_at_height:
  assumes "stores E (db_blocks db) cached" and "block_at E X flt db parse_task node height = Inr b"
  shows "cb_height b = height"
  using assms by (auto simp: block_at_def cache_get_eq result_simps find_Some_iff
      split: option.splits dest: fetch_height)

end

end
