(* ===== verification/Framing.thy ===== *)
theory Framing
  imports Grpc_Status
begin

text \<open>
  src/service/framing.rs: batching a server stream so that its messages leave in groups worth a DATA
  frame. A stream is the list of the items it yields, each a message or the status it ends with; the
  groups are the runs of items that leave with nothing awaited in between.
\<close>

type_synonym 't items = "(status, 't) result list"

definition BATCH_BYTES :: usize where
  "BATCH_BYTES = 4 * 1024"

record 't frame_batch =
  fb_pending :: "'t list"
  fb_bytes :: usize

definition batch_new :: "'t frame_batch" where
  "batch_new = \<lparr>fb_pending = [], fb_bytes = 0\<rparr>"

definition batch_take :: "'t frame_batch \<Rightarrow> 't list \<times> 't frame_batch" where
  "batch_take batch = (fb_pending batch, \<lparr>fb_pending = [], fb_bytes = 0\<rparr>)"

definition batch_push :: "('t \<Rightarrow> usize) \<Rightarrow> 't frame_batch \<Rightarrow> 't \<Rightarrow> 't list option \<times> 't frame_batch" where
  "batch_push encoded_len batch message =
     (let batch = \<lparr>fb_pending = fb_pending batch @ [message], fb_bytes = fb_bytes batch + encoded_len message\<rparr> in
      if fb_bytes batch \<ge> BATCH_BYTES
      then let (ready, batch) = batch_take batch in (Some ready, batch)
      else (None, batch))"

definition batch_flush :: "'t frame_batch \<Rightarrow> 't list \<times> 't frame_batch" where
  "batch_flush batch = batch_take batch"

text \<open>The loop of coalesce: the groups it releases, and the last one it flushes.\<close>

primrec coalesce_groups :: "('t \<Rightarrow> usize) \<Rightarrow> 't frame_batch \<Rightarrow> 't items \<Rightarrow> 't items list \<times> 't items" where
  "coalesce_groups encoded_len batch [] = ([], map Inr (fst (batch_flush batch)))"
| "coalesce_groups encoded_len batch (item # source) =
     (case item of
        Inr message \<Rightarrow>
          (case batch_push encoded_len batch message of
             (Some ready, batch) \<Rightarrow>
               let (groups, final) = coalesce_groups encoded_len batch source in (map Inr ready # groups, final)
           | (None, batch) \<Rightarrow> coalesce_groups encoded_len batch source)
      | Inl status \<Rightarrow> ([], map Inr (fst (batch_flush batch)) @ [Inl status]))"

definition coalesce :: "('t \<Rightarrow> usize) \<Rightarrow> 't items \<Rightarrow> 't items" where
  "coalesce encoded_len source =
     (let (groups, final) = coalesce_groups encoded_len batch_new source in concat groups @ final)"

text \<open>A stream up to and including its first error, which is where its consumer stops.\<close>

fun upto_error :: "'t items \<Rightarrow> 't items" where
  "upto_error [] = []"
| "upto_error (Inl s # _) = [Inl s]"
| "upto_error (Inr m # items) = Inr m # upto_error items"

lemma upto_error_Inr [simp]: "upto_error (map Inr ms @ rest) = map Inr ms @ upto_error rest"
  by (induction ms) auto

lemma upto_error_all_Inr [simp]: "upto_error (map Inr ms) = map Inr ms"
  using upto_error_Inr [of ms "[]"] by simp

text \<open>A try\_stream that yields what a fallible body makes of each element, and ends at the first failure.\<close>

primrec try_items :: "('a \<Rightarrow> (status, 't) result) \<Rightarrow> 'a list \<Rightarrow> 't items" where
  "try_items f [] = []"
| "try_items f (x # xs) = (case f x of Inl s \<Rightarrow> [Inl s] | Inr t \<Rightarrow> Inr t # try_items f xs)"

lemma upto_error_try_items [simp]: "upto_error (try_items f xs) = try_items f xs"
  by (induction xs) (auto split: sum.splits)

lemma try_items_length: "length (try_items f xs) \<le> length xs"
  by (induction xs) (auto split: sum.splits)

lemma try_items_mapE:
  "try_items f xs = (case mapE f xs of Inr ts \<Rightarrow> map Inr ts | Inl s \<Rightarrow>
     map Inr (map (projr \<circ> f) (takeWhile (\<lambda>x. is_ok (f x)) xs)) @ [Inl s])"
  by (induction xs) (auto simp: is_ok_def split: sum.splits bindE_split)

definition encoded_total :: "('t \<Rightarrow> usize) \<Rightarrow> 't list \<Rightarrow> nat" where
  "encoded_total encoded_len ms = sum_list (map encoded_len ms)"

lemma coalesce_groups_sound:
  assumes "coalesce_groups encoded_len batch source = (groups, final)"
    and "fb_bytes batch = encoded_total encoded_len (fb_pending batch)" and "fb_bytes batch < BATCH_BYTES"
  shows "concat groups @ final = map Inr (fb_pending batch) @ upto_error source \<and>
    (\<forall>g \<in> set groups. \<exists>ms. g = map Inr ms \<and> ms \<noteq> [] \<and> BATCH_BYTES \<le> encoded_total encoded_len ms \<and>
       encoded_total encoded_len (butlast ms) < BATCH_BYTES) \<and>
    encoded_total encoded_len (map projr (filter is_ok final)) < BATCH_BYTES"
  using assms
proof (induction source arbitrary: batch groups)
  case Nil
  then show ?case by (auto simp: batch_flush_def batch_take_def comp_def filter_map)
next
  case (Cons item source)
  show ?case
  proof (cases item)
    case (Inl s)
    then show ?thesis using Cons.prems by (auto simp: batch_flush_def batch_take_def comp_def filter_map)
  next
    case (Inr m)
    define ms where "ms = fb_pending batch @ [m]"
    have total: "fb_bytes batch + encoded_len m = encoded_total encoded_len ms"
      using Cons.prems(2) by (simp add: ms_def encoded_total_def)
    show ?thesis
    proof (cases "encoded_total encoded_len ms \<ge> BATCH_BYTES")
      case True
      then obtain groups' where rec: "coalesce_groups encoded_len batch_new source = (groups', final)"
        and groups: "groups = map Inr ms # groups'"
        using Cons.prems(1) Inr total
        by (auto simp: batch_push_def batch_take_def batch_new_def Let_def ms_def split: prod.splits)
      have "fb_bytes batch_new = encoded_total encoded_len (fb_pending (batch_new :: 'a frame_batch))"
        "fb_bytes (batch_new :: 'a frame_batch) < BATCH_BYTES"
        by (simp_all add: batch_new_def encoded_total_def BATCH_BYTES_def)
      note IH = Cons.IH [OF rec this]
      have "encoded_total encoded_len (butlast ms) < BATCH_BYTES"
        using Cons.prems(2,3) by (simp add: ms_def)
      then show ?thesis
        using IH True Inr groups by (auto simp: ms_def batch_new_def intro!: exI [of _ "fb_pending batch @ [m]"])
    next
      case False
      define b where "b = \<lparr>fb_pending = ms, fb_bytes = encoded_total encoded_len ms\<rparr>"
      have "coalesce_groups encoded_len b source = (groups, final)"
        using Cons.prems(1) Inr total False by (simp add: batch_push_def Let_def ms_def b_def)
      from Cons.IH [OF this] False show ?thesis by (simp add: b_def ms_def Inr)
    qed
  qed
qed

lemma coalesce_sound:
  "coalesce encoded_len source = upto_error source \<and>
   (\<forall>g \<in> set (fst (coalesce_groups encoded_len batch_new source)). \<exists>ms. g = map Inr ms \<and> ms \<noteq> [] \<and>
      BATCH_BYTES \<le> encoded_total encoded_len ms \<and> encoded_total encoded_len (butlast ms) < BATCH_BYTES) \<and>
   encoded_total encoded_len (map projr (filter is_ok (snd (coalesce_groups encoded_len batch_new source)))) <
     BATCH_BYTES"
proof -
  obtain groups final where r: "coalesce_groups encoded_len batch_new source = (groups, final)"
    by (cases "coalesce_groups encoded_len batch_new source")
  have "fb_bytes (batch_new :: 'a frame_batch) = encoded_total encoded_len (fb_pending (batch_new :: 'a frame_batch))"
    "fb_bytes (batch_new :: 'a frame_batch) < BATCH_BYTES"
    by (simp_all add: batch_new_def encoded_total_def BATCH_BYTES_def)
  from coalesce_groups_sound [OF r this] r show ?thesis
    by (simp add: coalesce_def batch_new_def)
qed

lemma coalesce_eq: "coalesce encoded_len source = upto_error source"
  using coalesce_sound by blast

text \<open>
  C21: batching changes how messages are grouped and nothing else. The stream that leaves is the stream
  that came in, up to and including its first error, so nothing is lost, duplicated or reordered, not
  even when the source fails. Every group released while the source is running holds at least a frame's
  worth of bytes, and would not have without its last message; what is flushed at the end is less than a
  frame's worth.
\<close>

theorem coalesce_transparent:
  "coalesce encoded_len source = upto_error source \<and>
   (\<forall>g \<in> set (fst (coalesce_groups encoded_len batch_new source)). \<exists>ms. g = map Inr ms \<and> ms \<noteq> [] \<and>
      BATCH_BYTES \<le> encoded_total encoded_len ms \<and> encoded_total encoded_len (butlast ms) < BATCH_BYTES) \<and>
   encoded_total encoded_len (map projr (filter is_ok (snd (coalesce_groups encoded_len batch_new source)))) <
     BATCH_BYTES"
  by (rule coalesce_sound)

theorem coalesce_transparent_witness:
  "coalesce (\<lambda>_. 3000) [Inr 1, Inr 2, Inr (3 :: nat), Inl (mk_status Aborted ''x'' [])] =
     [Inr 1, Inr 2, Inr 3, Inl (mk_status Aborted ''x'' [])] \<and>
   fst (coalesce_groups (\<lambda>_. 3000) batch_new [Inr 1, Inr 2, Inr (3 :: nat)]) = [[Inr 1, Inr 2]] \<and>
   BATCH_BYTES \<le> encoded_total (\<lambda>_. 3000) [1, 2 :: nat]"
proof -
  have g: "fst (coalesce_groups (\<lambda>_. 3000) batch_new [Inr 1, Inr 2, Inr (3 :: nat)]) = [[Inr 1, Inr 2]]"
    by (simp add: batch_push_def batch_take_def batch_new_def BATCH_BYTES_def Let_def)
  have m: "[Inr 1, Inr 2] \<in> set (fst (coalesce_groups (\<lambda>_. 3000) batch_new [Inr 1, Inr 2, Inr (3 :: nat)]))"
    unfolding g by simp
  from bspec [OF conjunct1 [OF conjunct2 [OF coalesce_transparent]] m]
  have "BATCH_BYTES \<le> encoded_total (\<lambda>_. 3000) [1, 2 :: nat]" by (elim exE conjE) (auto simp: Cons_eq_map_conv)
  with g coalesce_transparent [of "\<lambda>_. 3000" "[Inr 1, Inr 2, Inr (3 :: nat), Inl (mk_status Aborted ''x'' [])]"]
  show ?thesis by simp
qed

end
