(* ===== verification/Service_Blocks.thy ===== *)
theory Service_Blocks
  imports Streamer Framing Repair
begin

text \<open>
  src/service/blocks.rs: serving blocks by height and by range. A range is read from the cache in chunks,
  each under its own read transaction, and from the node for every height the cache does not hold, so the
  stream is a function of the database each chunk read sees and of the node each height is fetched from;
  nothing relates one of these to the next.
\<close>

section \<open>Requests\<close>

definition MAX_BLOCK_RANGE :: u64 where
  "MAX_BLOCK_RANGE = 10000"

definition abs_diff :: "u64 \<Rightarrow> u64 \<Rightarrow> u64" where
  "abs_diff a b = (if a < b then b - a else a - b)"

definition validate_block_range :: "u64 \<Rightarrow> u64 \<Rightarrow> (status, unit) result" where
  "validate_block_range start finish =
     bindE (failIf (start = 0 \<or> finish = 0)
              (mk_status InvalidArgument ''get_block_range: start and end heights must be specified (non-zero)'' []))
       (\<lambda>_. let span = u64_add (abs_diff start finish) 1 in
            failIf (span > MAX_BLOCK_RANGE)
              (mk_status InvalidArgument ''get_block_range: requested {} blocks exceeds the maximum of {}''
                 [Num span, Num MAX_BLOCK_RANGE]))"

definition check_ingest_floor ::
    "('b, 'm) cache_ext \<Rightarrow> faults \<Rightarrow> ('b, 'm) db \<Rightarrow> streamer \<Rightarrow> string \<Rightarrow> u64 \<Rightarrow> (status, unit) result" where
  "check_ingest_floor E flt db s rpc_method low =
     (case sr_ingest_floor s of
        None \<Rightarrow> Inr ()
      | Some configured \<Rightarrow>
          bindE (map_err cache_to_status (cache_range E flt db)) (\<lambda>range.
            let floor = (case range of None \<Rightarrow> configured | Some (base, _) \<Rightarrow> base) in
            failIf (low < floor)
              (mk_status OutOfRange ''{}: height {} is below {}, the lowest block this server holds''
                 [Str rpc_method, Num low, Num floor])))"

definition get_block ::
    "('b, 'm) cache_ext \<Rightarrow> 'x parse_ext_scheme \<Rightarrow> faults \<Rightarrow> ('b, 'm) db \<Rightarrow> join_error option \<Rightarrow> node_rpc \<Rightarrow> block_id
      \<Rightarrow> (status, compact_block) result" where
  "get_block E X flt db parse_task node block_id =
     bindE (failIf (bi_height block_id = 0 \<and> bi_hash block_id = [])
              (mk_status InvalidArgument ''get_block: request for unspecified identifier'' [])) (\<lambda>_.
     bindE (failIf (bi_hash block_id \<noteq> [])
              (mk_status Unimplemented ''get_block by hash is not yet supported'' [])) (\<lambda>_.
       block_at E X flt db parse_task node (bi_height block_id)))"

definition get_block_nullifiers ::
    "('b, 'm) cache_ext \<Rightarrow> 'x parse_ext_scheme \<Rightarrow> faults \<Rightarrow> ('b, 'm) db \<Rightarrow> join_error option \<Rightarrow> node_rpc \<Rightarrow> block_id
      \<Rightarrow> (status, compact_block) result" where
  "get_block_nullifiers E X flt db parse_task node block_id =
     bindE (failIf (bi_height block_id = 0 \<and> bi_hash block_id = [])
              (mk_status InvalidArgument ''get_block_nullifiers: request for unspecified identifier'' [])) (\<lambda>_.
     bindE (failIf (bi_hash block_id \<noteq> [])
              (mk_status Unimplemented ''get_block_nullifiers by hash is not yet supported'' [])) (\<lambda>_.
     bindE (block_at E X flt db parse_task node (bi_height block_id)) (\<lambda>block.
       Inr (nullifiers_only block))))"


section \<open>Linking consecutive blocks\<close>

definition CACHE_READ_CHUNK :: u64 where
  "CACHE_READ_CHUNK = 64"

definition CACHE_READ_CHUNK_BYTES :: usize where
  "CACHE_READ_CHUNK_BYTES = 512 * 1024"

datatype block_source = FromCache | FromNode

record chain_link =
  cl_height :: u64
  cl_expected_hash :: bytes
  cl_source :: block_source

definition link_after :: "u64 \<Rightarrow> compact_block \<Rightarrow> bool \<Rightarrow> block_source \<Rightarrow> chain_link" where
  "link_after height block descending source =
     \<lparr>cl_height = height,
      cl_expected_hash = (if descending then cb_prev_hash block else cb_hash block),
      cl_source = source\<rparr>"

text \<open>The error carries the height reported for repair, if one is.\<close>

definition link_check ::
    "chain_link \<Rightarrow> compact_block \<Rightarrow> u64 \<Rightarrow> bool \<Rightarrow> block_source \<Rightarrow> bool \<Rightarrow> (status \<times> u64 option, unit) result" where
  "link_check link block height descending source repair =
     (let actual_hash = (if descending then cb_hash block else cb_prev_hash block) in
      if actual_hash = cl_expected_hash link then Inr ()
      else
        let suspect_height = min height (cl_height link);
            cache_implicated = (cl_source link = FromCache \<or> source = FromCache) in
        Inl (mk_status Aborted
               ''get_block_range: chain discontinuity at height {}; the chain reorged while serving, retry''
               [Num height],
             if cache_implicated \<and> repair then Some suspect_height else None))"

definition chunk_from :: "u64 \<Rightarrow> u64 \<Rightarrow> u64 \<Rightarrow> bool \<Rightarrow> u64 \<times> u64" where
  "chunk_from cursor low high descending =
     (if descending then (max (sat_sub cursor (CACHE_READ_CHUNK - 1)) low, cursor)
      else (cursor, min (sat_add64 cursor (CACHE_READ_CHUNK - 1)) high))"


section \<open>The stream\<close>

text \<open>
  What one range request sees: the database of its k-th chunk read with the store's failures, the database
  of the floor check, and the node and the parse task of each fetched height.
\<close>

record ('b, 'm) range_env =
  re_view :: "nat \<Rightarrow> faults \<times> ('b, 'm) db"
  re_floor :: "faults \<times> ('b, 'm) db"
  re_node :: "u64 \<Rightarrow> node_rpc"
  re_task :: "u64 \<Rightarrow> join_error option"

text \<open>What has been yielded and the link for the next block, or what was yielded before the stream failed.\<close>

type_synonym range_state = "compact_block list \<times> chain_link option"
type_synonym range_failure = "compact_block list \<times> status \<times> u64 option"

definition serve_height ::
    "('b, 'm) cache_ext \<Rightarrow> 'x parse_ext_scheme \<Rightarrow> ('b, 'm) range_env \<Rightarrow> bool \<Rightarrow> (compact_block \<Rightarrow> compact_block)
      \<Rightarrow> bool \<Rightarrow> (u64 \<rightharpoonup> bytes) \<Rightarrow> u64 \<Rightarrow> range_state \<Rightarrow> (range_failure, range_state) result" where
  "serve_height E X env repair transform descending cached height st =
     (case st of (out, link) \<Rightarrow>
        bindE (map_err (\<lambda>s. (out, s, None))
                 (case cached height of
                    Some stored \<Rightarrow>
                      bindE (map_err (\<lambda>e. cache_to_status (Decode e)) (block_decode E stored)) (\<lambda>block.
                        Inr (block, FromCache))
                  | None \<Rightarrow>
                      bindE (map_err (\<lambda>err. block_fetch_to_status err height)
                               (compact_block_fetch X (re_task env height) (re_node env height) height)) (\<lambda>block.
                        Inr (block, FromNode)))) (\<lambda>(block, source).
        bindE (case link of
                 None \<Rightarrow> Inr ()
               | Some previous \<Rightarrow>
                   map_err (\<lambda>(s, report). (out, s, report))
                     (link_check previous block height descending source repair)) (\<lambda>_.
          Inr (out @ [transform block], Some (link_after height block descending source)))))"

text \<open>The loop over the chunks; the k-th read is the next one. None is running out of fuel.\<close>

primrec range_loop ::
    "('b, 'm) cache_ext \<Rightarrow> 'x parse_ext_scheme \<Rightarrow> ('b, 'm) range_env \<Rightarrow> bool \<Rightarrow> (compact_block \<Rightarrow> compact_block)
      \<Rightarrow> bool \<Rightarrow> u64 \<Rightarrow> u64 \<Rightarrow> nat \<Rightarrow> nat \<Rightarrow> u64 \<Rightarrow> range_state \<Rightarrow> (range_failure, range_state) result option" where
  "range_loop E X env repair transform descending low high 0 k cursor st = None"
| "range_loop E X env repair transform descending low high (Suc fuel) k cursor st =
     (case
        (case chunk_from cursor low high descending of (lo, hi) \<Rightarrow>
         bindE (map_err (\<lambda>e. (fst st, cache_to_status e, None))
                  (read_chunk E (fst (re_view env k)) (snd (re_view env k)) lo hi descending
                     CACHE_READ_CHUNK_BYTES)) (\<lambda>chunk.
           let cached = map_of (chunk_blocks chunk);
               heights = (if descending then rev [fst (covered chunk)..<Suc (snd (covered chunk))]
                          else [fst (covered chunk)..<Suc (snd (covered chunk))]) in
         bindE (foldE (serve_height E X env repair transform descending cached) heights st) (\<lambda>st.
           Inr (covered chunk, st)))) of
        Inl failure \<Rightarrow> Some (Inl failure)
      | Inr ((lo, hi), st) \<Rightarrow>
          if descending then
            if lo \<le> low then Some (Inr st)
            else range_loop E X env repair transform descending low high fuel (Suc k) (u64_sub lo 1) st
          else
            if hi \<ge> high then Some (Inr st)
            else range_loop E X env repair transform descending low high fuel (Suc k) (u64_add hi 1) st)"

record range_stream =
  rs_items :: "compact_block items"
  rs_report :: "u64 option"

text \<open>Every chunk covers at least one height, so a range never takes more chunks than it has heights.\<close>

definition block_range_stream ::
    "('b, 'm) cache_ext \<Rightarrow> 'x parse_ext_scheme \<Rightarrow> (compact_block \<Rightarrow> usize) \<Rightarrow> ('b, 'm) range_env \<Rightarrow> bool
      \<Rightarrow> u64 \<Rightarrow> u64 \<Rightarrow> (compact_block \<Rightarrow> compact_block) \<Rightarrow> range_stream option" where
  "block_range_stream E X encoded_len env repair start finish transform =
     (let descending = (start > finish);
          low = (if descending then finish else start);
          high = (if descending then start else finish);
          cursor = (if descending then high else low) in
      map_option
        (\<lambda>r. case r of
           Inr (out, _) \<Rightarrow> \<lparr>rs_items = coalesce encoded_len (map Inr out), rs_report = None\<rparr>
         | Inl (out, s, report) \<Rightarrow>
             \<lparr>rs_items = coalesce encoded_len (map Inr out @ [Inl s]), rs_report = report\<rparr>)
        (range_loop E X env repair transform descending low high (Suc (high - low)) 0 cursor ([], None)))"

definition get_block_range ::
    "('b, 'm) cache_ext \<Rightarrow> 'x parse_ext_scheme \<Rightarrow> (compact_block \<Rightarrow> usize) \<Rightarrow> ('b, 'm) range_env \<Rightarrow> streamer
      \<Rightarrow> block_range \<Rightarrow> (status, range_stream option) result" where
  "get_block_range E X encoded_len env s rng =
     bindE (validate_pool_types (br_pool_types rng)) (\<lambda>_.
       let pools = from_pool_types (br_pool_types rng) in
       case (br_start rng, br_end rng) of
         (Some start, Some finish) \<Rightarrow>
           bindE (validate_block_range (bi_height start) (bi_height finish)) (\<lambda>_.
           bindE (check_ingest_floor E (fst (re_floor env)) (snd (re_floor env)) s ''get_block_range''
                    (min (bi_height start) (bi_height finish))) (\<lambda>_.
             Inr (block_range_stream E X encoded_len env (sr_repair s) (bi_height start) (bi_height finish)
                    (\<lambda>block. filter_block_to_pools block pools))))
       | _ \<Rightarrow> Inl (mk_status InvalidArgument ''get_block_range: must specify start and end heights'' []))"

definition get_block_range_nullifiers ::
    "('b, 'm) cache_ext \<Rightarrow> 'x parse_ext_scheme \<Rightarrow> (compact_block \<Rightarrow> usize) \<Rightarrow> ('b, 'm) range_env \<Rightarrow> streamer
      \<Rightarrow> block_range \<Rightarrow> (status, range_stream option) result" where
  "get_block_range_nullifiers E X encoded_len env s rng =
     bindE (validate_pool_types (br_pool_types rng)) (\<lambda>_.
       let pools = from_pool_types_dropping_transparent (br_pool_types rng) in
       case (br_start rng, br_end rng) of
         (Some start, Some finish) \<Rightarrow>
           bindE (validate_block_range (bi_height start) (bi_height finish)) (\<lambda>_.
           bindE (check_ingest_floor E (fst (re_floor env)) (snd (re_floor env)) s
                    ''get_block_range_nullifiers'' (min (bi_height start) (bi_height finish))) (\<lambda>_.
             Inr (block_range_stream E X encoded_len env (sr_repair s) (bi_height start) (bi_height finish)
                    (\<lambda>block. filter_block_to_pools_nullifiers_only block pools))))
       | _ \<Rightarrow> Inl (mk_status InvalidArgument ''get_block_range_nullifiers: must specify start and end heights'' []))"

end
