(* ===== verification/Blocks_Props.thy ===== *)
theory Blocks_Props
  imports Service_Blocks Cache_Laws Cache_Ref
begin

text \<open>
  The properties of block serving: a range stream is an unbroken chain over exactly the heights asked
  for, whatever the cache and the node do while it runs, and a repair is only reported for a break that
  involves a cached block.
\<close>

section \<open>Chains in the direction of the stream\<close>

definition dir_link :: "bool \<Rightarrow> compact_block \<Rightarrow> compact_block \<Rightarrow> bool" where
  "dir_link descending a b \<longleftrightarrow> (if descending then links b a else links a b)"

fun dir_chain :: "bool \<Rightarrow> compact_block list \<Rightarrow> bool" where
  "dir_chain descending (a # b # bs) \<longleftrightarrow> dir_link descending a b \<and> dir_chain descending (b # bs)"
| "dir_chain descending _ \<longleftrightarrow> True"

lemma dir_chain_snoc:
  "dir_chain descending (bs @ [b]) \<longleftrightarrow> dir_chain descending bs \<and> (bs \<noteq> [] \<longrightarrow> dir_link descending (last bs) b)"
  by (induction descending bs rule: dir_chain.induct) auto

text \<open>Where a block of the stream can come from.\<close>

definition cache_served :: "('b, 'm) cache_ext \<Rightarrow> ('b, 'm) range_env \<Rightarrow> compact_block \<Rightarrow> bool" where
  "cache_served E env b \<longleftrightarrow> (\<exists>k cached. stores E (db_blocks (snd (re_view env k))) cached \<and> b \<in> set cached)"

definition node_served :: "'x parse_ext_scheme \<Rightarrow> ('b, 'm) range_env \<Rightarrow> compact_block \<Rightarrow> bool" where
  "node_served X env b \<longleftrightarrow>
     compact_block_fetch X (re_task env (cb_height b)) (re_node env (cb_height b)) (cb_height b) = Inr b"

definition came_from :: "('b, 'm) cache_ext \<Rightarrow> 'x parse_ext_scheme \<Rightarrow> ('b, 'm) range_env \<Rightarrow> block_source
      \<Rightarrow> compact_block \<Rightarrow> bool" where
  "came_from E X env source b \<longleftrightarrow> (case source of FromCache \<Rightarrow> cache_served E env b | FromNode \<Rightarrow> node_served X env b)"

text \<open>An unbroken run of blocks, each from one of the two sources.\<close>

definition sound_run :: "('b, 'm) cache_ext \<Rightarrow> 'x parse_ext_scheme \<Rightarrow> ('b, 'm) range_env \<Rightarrow> bool \<Rightarrow> compact_block list \<Rightarrow> bool" where
  "sound_run E X env descending bs \<longleftrightarrow>
     dir_chain descending bs \<and> (\<forall>b \<in> set bs. cache_served E env b \<or> node_served X env b)"

text \<open>The blocks behind a state of the stream.\<close>

definition behind ::
    "('b, 'm) cache_ext \<Rightarrow> 'x parse_ext_scheme \<Rightarrow> ('b, 'm) range_env \<Rightarrow> bool \<Rightarrow> (compact_block \<Rightarrow> compact_block)
      \<Rightarrow> compact_block list \<Rightarrow> range_state \<Rightarrow> bool" where
  "behind E X env descending transform bs st \<longleftrightarrow>
     fst st = map transform bs \<and> sound_run E X env descending bs \<and>
     (if bs = [] then snd st = None
      else \<exists>source. came_from E X env source (last bs) \<and>
             snd st = Some (link_after (cb_height (last bs)) (last bs) descending source))"

text \<open>
  Why a stream stops at a height after the blocks \<^term>\<open>bs\<close>: a chunk of the cache could not be read, the height
  could not be fetched, or the block of the height does not connect to the last block. Only the last asks for
  a repair, of the lower height of the seam, and only when a side of it came from the cache.
\<close>

definition stopped ::
    "('b, 'm) cache_ext \<Rightarrow> 'x parse_ext_scheme \<Rightarrow> ('b, 'm) range_env \<Rightarrow> bool \<Rightarrow> bool \<Rightarrow> compact_block list \<Rightarrow> u64
      \<Rightarrow> status \<Rightarrow> u64 option \<Rightarrow> bool" where
  "stopped E X env descending repair bs height s report \<longleftrightarrow>
     report = None \<and> (\<exists>k lo hi e. s = cache_to_status e \<and>
       read_chunk E (fst (re_view env k)) (snd (re_view env k)) lo hi descending CACHE_READ_CHUNK_BYTES = Inl e) \<or>
     report = None \<and> (\<exists>e. s = block_fetch_to_status e height \<and>
       compact_block_fetch X (re_task env height) (re_node env height) height = Inl e) \<or>
     bs \<noteq> [] \<and>
       s = mk_status Aborted ''get_block_range: chain discontinuity at height {}; the chain reorged while serving, retry''
             [Num height] \<and>
       (\<exists>b source source'. cb_height b = height \<and> \<not> dir_link descending (last bs) b \<and>
          came_from E X env source b \<and> came_from E X env source' (last bs) \<and>
          report = (if (source' = FromCache \<or> source = FromCache) \<and> repair
                    then Some (min height (cb_height (last bs))) else None))"

lemma link_check_ok:
  "link_check (link_after h a descending source') b height descending source repair = Inr () \<longleftrightarrow>
     dir_link descending a b"
  by (auto simp: link_check_def link_after_def dir_link_def links_def Let_def)

lemma link_check_fails:
  "link_check (link_after h a descending source') b height descending source repair = Inl (s, report) \<Longrightarrow>
     \<not> dir_link descending a b \<and>
     s = mk_status Aborted ''get_block_range: chain discontinuity at height {}; the chain reorged while serving, retry''
           [Num height] \<and>
     report = (if (source' = FromCache \<or> source = FromCache) \<and> repair then Some (min height h) else None)"
  by (auto simp: link_check_def link_after_def dir_link_def links_def Let_def split: if_splits)

text \<open>A map of cached bytes that tells the truth about a view.\<close>

definition truthful :: "('b, 'm) cache_ext \<Rightarrow> ('b, 'm) range_env \<Rightarrow> (u64 \<rightharpoonup> bytes) \<Rightarrow> bool" where
  "truthful E env cached \<longleftrightarrow> (\<forall>h stored. cached h = Some stored \<longrightarrow>
     (\<exists>b. block_decode E stored = Inr b \<and> cb_height b = h \<and> cache_served E env b))"

lemma serve_height_block:
  assumes "truthful E env cached"
    and "(case cached height of
            Some stored \<Rightarrow>
              bindE (map_err (\<lambda>e. cache_to_status (Decode e)) (block_decode E stored)) (\<lambda>block.
                Inr (block, FromCache))
          | None \<Rightarrow>
              bindE (map_err (\<lambda>err. block_fetch_to_status err height)
                       (compact_block_fetch X (re_task env height) (re_node env height) height)) (\<lambda>block.
                Inr (block, FromNode))) = Inr (b, source)"
  shows "cb_height b = height \<and> came_from E X env source b"
proof (cases "cached height")
  case None
  then show ?thesis
    using assms(2) fetch_height by (fastforce simp: result_simps came_from_def node_served_def)
next
  case (Some stored)
  then obtain b' where "block_decode E stored = Inr b'" "cb_height b' = height" "cache_served E env b'"
    using assms(1) by (auto simp: truthful_def)
  then show ?thesis using assms(2) Some by (auto simp: came_from_def)
qed

lemma serve_height_sound:
  assumes "behind E X env descending transform bs st" and "truthful E env cached"
  shows "case serve_height E X env repair transform descending cached height st of
      Inr st' \<Rightarrow> \<exists>b. cb_height b = height \<and> behind E X env descending transform (bs @ [b]) st'
    | Inl (out, s, report) \<Rightarrow> out = map transform bs \<and> stopped E X env descending repair bs height s report"
proof -
  obtain out link where st: "st = (out, link)" by (cases st)
  have out: "out = map transform bs" using assms(1) st by (simp add: behind_def)
  let ?block = "case cached height of
            Some stored \<Rightarrow>
              bindE (map_err (\<lambda>e. cache_to_status (Decode e)) (block_decode E stored)) (\<lambda>block.
                Inr (block, FromCache))
          | None \<Rightarrow>
              bindE (map_err (\<lambda>err. block_fetch_to_status err height)
                       (compact_block_fetch X (re_task env height) (re_node env height) height)) (\<lambda>block.
                Inr (block, FromNode))"
  show ?thesis
  proof (cases ?block)
    case (Inl e)
    have "cached height = None"
    proof (rule ccontr)
      assume "cached height \<noteq> None"
      then obtain stored b where "cached height = Some stored" "block_decode E stored = Inr b"
        using assms(2) unfolding truthful_def by blast
      then show False using Inl by simp
    qed
    then obtain err where "compact_block_fetch X (re_task env height) (re_node env height) height = Inl err"
      "e = block_fetch_to_status err height"
      using Inl by (auto simp: result_simps)
    then show ?thesis using Inl out st by (auto simp: serve_height_def stopped_def)
  next
    case (Inr x)
    obtain b source where x: "x = (b, source)" by (cases x)
    have b: "cb_height b = height" "came_from E X env source b"
      using serve_height_block [OF assms(2)] Inr x by blast+
    have origin: "cache_served E env b \<or> node_served X env b"
      using b(2) by (auto simp: came_from_def split: block_source.splits)
    define checked where "checked = (case link of None \<Rightarrow> Inr ()
      | Some previous \<Rightarrow> map_err (\<lambda>(s, report). (out, s, report))
          (link_check previous b height descending source repair))"
    have run: "serve_height E X env repair transform descending cached height st =
        bindE checked (\<lambda>_. Inr (out @ [transform b], Some (link_after height b descending source)))"
      using Inr x st by (simp add: serve_height_def checked_def)
    show ?thesis
    proof (cases "bs = []")
      case True
      then have "checked = Inr ()" using assms(1) st by (simp add: behind_def checked_def)
      then show ?thesis
        using run True out b origin by (auto simp: behind_def sound_run_def intro!: exI [of _ b])
    next
      case False
      then obtain source' where source': "came_from E X env source' (last bs)"
        and link: "link = Some (link_after (cb_height (last bs)) (last bs) descending source')"
        using assms(1) st by (auto simp: behind_def)
      let ?check = "link_check (link_after (cb_height (last bs)) (last bs) descending source') b height
        descending source repair"
      show ?thesis
      proof (cases ?check)
        case (Inr u)
        then have "dir_link descending (last bs) b" using link_check_ok [of _ "last bs"] by (cases u) blast
        moreover have "checked = Inr ()" using link Inr by (simp add: checked_def)
        ultimately show ?thesis
          using run False out b origin assms(1) by (auto simp: behind_def sound_run_def dir_chain_snoc intro!: exI [of _ b])
      next
        case (Inl e)
        obtain s report where e: "e = (s, report)" by (cases e)
        note fails = link_check_fails [OF Inl [unfolded e]]
        have "checked = Inl (out, s, report)" using link Inl e by (simp add: checked_def)
        moreover have "stopped E X env descending repair bs height s report"
          unfolding stopped_def using fails False b source' by blast
        ultimately show ?thesis using run out by simp
      qed
    qed
  qed
qed

text \<open>The outcome of serving heights after the blocks \<^term>\<open>bs\<close>: all of them, or a failure part of the way.\<close>

definition sound_result ::
    "('b, 'm) cache_ext \<Rightarrow> 'x parse_ext_scheme \<Rightarrow> ('b, 'm) range_env \<Rightarrow> bool \<Rightarrow> (compact_block \<Rightarrow> compact_block) \<Rightarrow> bool
      \<Rightarrow> compact_block list \<Rightarrow> u64 list \<Rightarrow> (range_failure, range_state) result \<Rightarrow> bool" where
  "sound_result E X env descending transform repair bs heights r \<longleftrightarrow>
     (case r of
        Inr st' \<Rightarrow> \<exists>new. map cb_height new = heights \<and> behind E X env descending transform (bs @ new) st'
      | Inl (out, s, report) \<Rightarrow> \<exists>new rest. heights = map cb_height new @ rest \<and>
          sound_run E X env descending (bs @ new) \<and> out = map transform (bs @ new) \<and> rest \<noteq> [] \<and>
          stopped E X env descending repair (bs @ new) (hd rest) s report)"

lemma sound_result_longer:
  "sound_result E X env descending transform repair bs heights (Inl f) \<Longrightarrow>
     sound_result E X env descending transform repair bs (heights @ rest) (Inl f)"
  by (cases f) (auto simp: sound_result_def, metis append.assoc append_is_Nil_conv hd_append2)

lemma sound_result_then:
  assumes "map cb_height new = heights" and "sound_result E X env descending transform repair (bs @ new) rest r"
  shows "sound_result E X env descending transform repair bs (heights @ rest) r"
proof (cases r)
  case (Inr st)
  then obtain new' where "map cb_height new' = rest" "behind E X env descending transform ((bs @ new) @ new') st"
    using assms(2) by (auto simp: sound_result_def)
  then show ?thesis using Inr assms(1) by (auto simp: sound_result_def intro!: exI [of _ "new @ new'"])
next
  case (Inl f)
  obtain out s report where f: "f = (out, s, report)" by (cases f)
  from assms(2) Inl f obtain new' rest' where "rest = map cb_height new' @ rest'" "rest' \<noteq> []"
    "sound_run E X env descending (bs @ new @ new')" "out = map transform (bs @ new @ new')"
    "stopped E X env descending repair (bs @ new @ new') (hd rest') s report"
    by (auto simp: sound_result_def)
  then show ?thesis using Inl f assms(1) by (auto simp: sound_result_def intro!: exI [of _ "new @ new'"])
qed

lemma sound_result_after:
  assumes "sound_result E X env descending transform repair bs heights (Inr st)"
    and "\<forall>bs. behind E X env descending transform bs st \<longrightarrow> sound_result E X env descending transform repair bs rest r"
  shows "sound_result E X env descending transform repair bs (heights @ rest) r"
proof -
  obtain new where "map cb_height new = heights" "behind E X env descending transform (bs @ new) st"
    using assms(1) by (auto simp: sound_result_def)
  then show ?thesis using assms(2) by (intro sound_result_then) auto
qed

lemma serve_heights_sound:
  assumes "behind E X env descending transform bs st" and "truthful E env cached"
  shows "sound_result E X env descending transform repair bs heights
    (foldE (serve_height E X env repair transform descending cached) heights st)"
  using assms(1)
proof (induction heights arbitrary: bs st)
  case Nil
  then show ?case by (auto simp: sound_result_def intro!: exI [of _ "[]"])
next
  case (Cons height heights)
  note one = serve_height_sound [OF Cons.prems assms(2), of repair height]
  show ?case
  proof (cases "serve_height E X env repair transform descending cached height st")
    case (Inl e)
    then show ?thesis
      using one Cons.prems
      by (cases e) (auto simp: sound_result_def behind_def intro!: exI [of _ "[]"])
  next
    case (Inr st')
    then obtain b where b: "cb_height b = height" "behind E X env descending transform (bs @ [b]) st'"
      using one by auto
    from sound_result_then [OF _ Cons.IH [OF b(2)], of "[height]"] b(1) show ?thesis using Inr by simp
  qed
qed


section \<open>The loop over the chunks\<close>

text \<open>The heights still to serve from a cursor on.\<close>

definition remaining :: "bool \<Rightarrow> u64 \<Rightarrow> u64 \<Rightarrow> u64 \<Rightarrow> u64 list" where
  "remaining descending low high cursor = (if descending then rev [low..<Suc cursor] else [cursor..<Suc high])"

lemma chunk_from_window:
  assumes "low \<le> cursor" and "cursor \<le> high" and "high \<le> u64_max"
  shows "case chunk_from cursor low high descending of (lo, hi) \<Rightarrow>
    low \<le> lo \<and> lo \<le> hi \<and> hi \<le> high \<and> (if descending then hi = cursor else lo = cursor)"
  using assms by (auto simp: chunk_from_def CACHE_READ_CHUNK_def sat_sub_def sat_add64_def)

lemma upt_split: "i \<le> j \<Longrightarrow> j \<le> k \<Longrightarrow> [i..<k] = [i..<j] @ [j..<k]" for i j k :: nat
  using upt_add_eq_append [of i j "k - j"] by simp

lemma remaining_ascending:
  "cursor \<le> hi \<Longrightarrow> hi < high \<Longrightarrow> remaining False low high cursor = [cursor..<Suc hi] @ remaining False low high (Suc hi)"
  unfolding remaining_def if_False by (rule upt_split) simp_all

lemma remaining_descending:
  "low < lo \<Longrightarrow> lo \<le> cursor \<Longrightarrow>
     remaining True low high cursor = rev [lo..<Suc cursor] @ remaining True low high (lo - 1)"
  unfolding remaining_def if_True rev_append [symmetric] rev_is_rev_conv
  using upt_split [of low lo "Suc cursor"] by (simp del: upt_Suc)

context cache_contract
begin

lemma chunk_truthful:
  assumes "stores E (db_blocks (snd (re_view env k))) cached"
    and "read_chunk E flt (snd (re_view env k)) lo hi descending max_bytes = Inr c"
    and "lo \<le> hi" and "hi \<le> u64_max"
  shows "truthful E env (map_of (chunk_blocks c))"
proof -
  have "chunk_blocks c =
      (let es = tbl_range (blocks_ops E) (db_blocks (snd (re_view env k))) (fst (covered c)) (snd (covered c)) in
       if descending then rev es else es)"
    using read_chunk_covers [OF assms(2-4)] by blast
  then have "set (chunk_blocks c) \<subseteq> set (tbl_iter (blocks_ops E) (db_blocks (snd (re_view env k))))"
    by (simp add: Let_def blk.range_iter)
  moreover have "\<exists>b \<in> set cached. block_decode E stored = Inr b \<and> cb_height b = h"
    if "(h, stored) \<in> set (tbl_iter (blocks_ops E) (db_blocks (snd (re_view env k))))" for h stored
    using list_all2_partner [OF _ that] assms(1) by (fastforce simp: stores_def decodes_to_def)
  ultimately show ?thesis
    using assms(1) unfolding truthful_def cache_served_def by (meson map_of_SomeD subsetD)
qed

text \<open>One turn of the loop, its heights, and where the next turn starts.\<close>

lemma range_loop_chunk:
  assumes "low \<le> cursor" and "cursor \<le> high" and "high \<le> u64_max"
    and window: "chunk_from cursor low high descending = (lo, hi)"
    and rd: "read_chunk E (fst (re_view env k)) (snd (re_view env k)) lo hi descending CACHE_READ_CHUNK_BYTES = Inr c"
  obtains hs finished cursor' where
    "\<And>fuel st. range_loop E X env repair transform descending low high (Suc fuel) k cursor st =
      (case foldE (serve_height E X env repair transform descending (map_of (chunk_blocks c))) hs st of
         Inl failure \<Rightarrow> Some (Inl failure)
       | Inr st' \<Rightarrow> if finished then Some (Inr st')
           else range_loop E X env repair transform descending low high fuel (Suc k) cursor' st')"
    and "remaining descending low high cursor = (if finished then hs else hs @ remaining descending low high cursor')"
    and "hs \<noteq> []" and "\<not> finished \<Longrightarrow> low \<le> cursor' \<and> cursor' \<le> high"
    and "set hs = {fst (covered c)..snd (covered c)}"
proof -
  have w: "low \<le> lo" "lo \<le> hi" "hi \<le> high" "if descending then hi = cursor else lo = cursor"
    using chunk_from_window [OF assms(1-3), of descending] window by auto
  have max: "hi \<le> u64_max" using w(3) assms(3) by simp
  obtain clo chi where cov: "covered c = (clo, chi)" by fastforce
  have c: "lo \<le> clo" "clo \<le> chi" "chi \<le> hi" "if descending then chi = hi else clo = lo"
    using read_chunk_covers [OF rd w(2) max] unfolding cov fst_conv snd_conv by blast+
  define hs where "hs = (if descending then rev [clo..<Suc chi] else [clo..<Suc chi])"
  define finished where "finished = (if descending then clo \<le> low else high \<le> chi)"
  define cursor' where "cursor' = (if descending then clo - 1 else Suc chi)"
  have sub: "u64_sub clo 1 = clo - 1" if "\<not> clo \<le> low" using that c max by (intro u64_sub_exact) auto
  have add: "u64_add chi 1 = Suc chi" if "\<not> high \<le> chi" using that assms(3) by simp
  show ?thesis
  proof (rule that [where hs = hs and finished = finished and cursor' = cursor'])
    show "range_loop E X env repair transform descending low high (Suc fuel) k cursor st =
      (case foldE (serve_height E X env repair transform descending (map_of (chunk_blocks c))) hs st of
         Inl failure \<Rightarrow> Some (Inl failure)
       | Inr st' \<Rightarrow> if finished then Some (Inr st')
           else range_loop E X env repair transform descending low high fuel (Suc k) cursor' st')" for fuel st
      using window rd sub add
      by (cases descending; cases "foldE (serve_height E X env repair transform descending (map_of (chunk_blocks c))) hs st")
        (simp_all add: cov finished_def cursor'_def hs_def del: upt_Suc)
    show "remaining descending low high cursor = (if finished then hs else hs @ remaining descending low high cursor')"
    proof (cases finished)
      case True
      then have "if descending then clo = low else chi = high" using c w by (auto simp: finished_def split: if_splits)
      then show ?thesis using True c w by (auto simp: hs_def remaining_def simp del: upt_Suc split: if_splits)
    next
      case False
      then show ?thesis
        using c w remaining_descending [of low clo cursor high] remaining_ascending [of cursor chi high low]
        by (auto simp: finished_def cursor'_def hs_def simp del: upt_Suc split: if_splits)
    qed
    show "hs \<noteq> []" using c(2) by (simp add: hs_def)
    show "low \<le> cursor' \<and> cursor' \<le> high" if "\<not> finished"
      using that c w by (auto simp: finished_def cursor'_def split: if_splits)
    show "set hs = {fst (covered c)..snd (covered c)}" using c(2) by (auto simp: hs_def cov)
  qed
qed

text \<open>A chunk read at the k-th turn, and the heights served from it.\<close>

definition chunk_at :: "('b, 'm) range_env \<Rightarrow> bool \<Rightarrow> nat \<Rightarrow> cached_chunk \<Rightarrow> u64 list \<Rightarrow> bool" where
  "chunk_at env descending k c hs \<longleftrightarrow> set hs = {fst (covered c)..snd (covered c)} \<and>
     (\<exists>lo hi. lo \<le> hi \<and> hi \<le> u64_max \<and>
        read_chunk E (fst (re_view env k)) (snd (re_view env k)) lo hi descending CACHE_READ_CHUNK_BYTES = Inr c)"

text \<open>
  The rule for the loop: it ends, and a property of the heights left, the state and the outcome holds of it
  when it holds of a failed read, of a chunk that fails or is the last, and is kept by a chunk in front.
\<close>

lemma range_loop_rule:
  assumes "low \<le> cursor" and "cursor \<le> high" and "high \<le> u64_max"
    and "length (remaining descending low high cursor) \<le> fuel"
    and unread: "\<And>k lo hi hs st e. hs \<noteq> [] \<Longrightarrow>
      read_chunk E (fst (re_view env k)) (snd (re_view env k)) lo hi descending CACHE_READ_CHUNK_BYTES = Inl e \<Longrightarrow>
      Q hs st (Inl (fst st, cache_to_status e, None))"
    and failed: "\<And>k c hs rest st f. chunk_at env descending k c hs \<Longrightarrow>
      foldE (serve_height E X env repair transform descending (map_of (chunk_blocks c))) hs st = Inl f \<Longrightarrow>
      Q (hs @ rest) st (Inl f)"
    and served: "\<And>k c hs st st'. chunk_at env descending k c hs \<Longrightarrow>
      foldE (serve_height E X env repair transform descending (map_of (chunk_blocks c))) hs st = Inr st' \<Longrightarrow> Q hs st (Inr st')"
    and continued: "\<And>k c hs rest st st' r. chunk_at env descending k c hs \<Longrightarrow>
      foldE (serve_height E X env repair transform descending (map_of (chunk_blocks c))) hs st = Inr st' \<Longrightarrow>
      Q rest st' r \<Longrightarrow> Q (hs @ rest) st r"
  shows "\<exists>r. range_loop E X env repair transform descending low high fuel k cursor st = Some r \<and>
    Q (remaining descending low high cursor) st r"
  using assms(1,2,4)
proof (induction fuel arbitrary: cursor st k)
  case 0
  then show ?case by (auto simp: remaining_def split: if_splits)
next
  case (Suc fuel)
  obtain lo hi where window: "chunk_from cursor low high descending = (lo, hi)" by fastforce
  have w: "lo \<le> hi" "hi \<le> u64_max"
    using chunk_from_window [OF Suc.prems(1,2) assms(3), of descending] window assms(3) by auto
  define rd where "rd = read_chunk E (fst (re_view env k)) (snd (re_view env k)) lo hi descending CACHE_READ_CHUNK_BYTES"
  show ?case
  proof (cases rd)
    case (Inl e)
    have "remaining descending low high cursor \<noteq> []" using Suc.prems(1,2) by (simp add: remaining_def)
    from unread [OF this Inl [unfolded rd_def]] show ?thesis using Inl window by (simp add: rd_def)
  next
    case (Inr c)
    obtain hs finished cursor' where
      run: "\<And>fuel st. range_loop E X env repair transform descending low high (Suc fuel) k cursor st =
        (case foldE (serve_height E X env repair transform descending (map_of (chunk_blocks c))) hs st of
           Inl failure \<Rightarrow> Some (Inl failure)
         | Inr st' \<Rightarrow> if finished then Some (Inr st')
             else range_loop E X env repair transform descending low high fuel (Suc k) cursor' st')"
      and split: "remaining descending low high cursor = (if finished then hs else hs @ remaining descending low high cursor')"
      and hs: "hs \<noteq> []" and step: "\<not> finished \<Longrightarrow> low \<le> cursor' \<and> cursor' \<le> high"
      and reach: "set hs = {fst (covered c)..snd (covered c)}"
      by (rule range_loop_chunk [OF Suc.prems(1,2) assms(3) window Inr [unfolded rd_def],
            where X = X and repair = repair and transform = transform]) blast
    have c: "chunk_at env descending k c hs" using Inr reach w unfolding rd_def chunk_at_def by blast
    define got where "got = foldE (serve_height E X env repair transform descending (map_of (chunk_blocks c))) hs st"
    note run = run [of fuel st, folded got_def]
      and cases = failed [OF c, of st, folded got_def] served [OF c, of st, folded got_def]
        continued [OF c, of st, folded got_def]
    show ?thesis
    proof (cases "\<exists>st'. got = Inr st' \<and> \<not> finished")
      case True
      then obtain st' where st': "got = Inr st'" "\<not> finished" by blast
      have "length (remaining descending low high cursor') \<le> fuel"
        using split st'(2) hs Suc.prems(3) by (cases hs) simp_all
      from Suc.IH [OF _ _ this, where st = st' and k = "Suc k"] step st'(2) obtain r where
        "range_loop E X env repair transform descending low high fuel (Suc k) cursor' st' = Some r"
        "Q (remaining descending low high cursor') st' r" by blast
      with cases(3) [OF st'(1), of "remaining descending low high cursor'" r] show ?thesis
        unfolding run using st' split by simp
    next
      case False
      then show ?thesis unfolding run using cases(1) [of _ "[]"] cases(1,2) split by (cases got) auto
    qed
  qed
qed

text \<open>The same rule for the stream of a whole range.\<close>

definition stream_of :: "(range_failure, range_state) result \<Rightarrow> range_stream" where
  "stream_of r =
     (case r of
        Inr (out, _) \<Rightarrow> \<lparr>rs_items = map Inr out, rs_report = None\<rparr>
      | Inl (out, s, report) \<Rightarrow> \<lparr>rs_items = map Inr out @ [Inl s], rs_report = report\<rparr>)"

lemma block_range_stream_rule:
  assumes "start \<le> u64_max" and "finish \<le> u64_max"
    and "heights = (if start \<le> finish then [start..<Suc finish] else rev [finish..<Suc start])"
    and unread: "\<And>k lo hi hs st e. hs \<noteq> [] \<Longrightarrow>
      read_chunk E (fst (re_view env k)) (snd (re_view env k)) lo hi (finish < start) CACHE_READ_CHUNK_BYTES = Inl e \<Longrightarrow>
      Q hs st (Inl (fst st, cache_to_status e, None))"
    and failed: "\<And>k c hs rest st f. chunk_at env (finish < start) k c hs \<Longrightarrow>
      foldE (serve_height E X env repair transform (finish < start) (map_of (chunk_blocks c))) hs st = Inl f \<Longrightarrow>
      Q (hs @ rest) st (Inl f)"
    and served: "\<And>k c hs st st'. chunk_at env (finish < start) k c hs \<Longrightarrow>
      foldE (serve_height E X env repair transform (finish < start) (map_of (chunk_blocks c))) hs st = Inr st' \<Longrightarrow>
      Q hs st (Inr st')"
    and continued: "\<And>k c hs rest st st' r. chunk_at env (finish < start) k c hs \<Longrightarrow>
      foldE (serve_height E X env repair transform (finish < start) (map_of (chunk_blocks c))) hs st = Inr st' \<Longrightarrow>
      Q rest st' r \<Longrightarrow> Q (hs @ rest) st r"
  shows "\<exists>r. block_range_stream E X encoded_len env repair start finish transform = Some (stream_of r) \<and>
    Q heights ([], None) r"
proof -
  define descending where "descending = (finish < start)"
  define low where "low = (if descending then finish else start)"
  define high where "high = (if descending then start else finish)"
  define cursor where "cursor = (if descending then high else low)"
  have bounds: "low \<le> cursor" "cursor \<le> high" "high \<le> u64_max"
    using assms(1,2) by (simp_all add: cursor_def low_def high_def descending_def)
  have rem: "remaining descending low high cursor = heights"
    by (auto simp: remaining_def cursor_def low_def high_def descending_def assms(3))
  have fuel: "length (remaining descending low high cursor) \<le> Suc (high - low)"
    using bounds by (simp add: remaining_def cursor_def)
  note cases = unread failed served continued
  have "\<exists>r. range_loop E X env repair transform descending low high (Suc (high - low)) 0 cursor ([], None) = Some r \<and>
      Q (remaining descending low high cursor) ([], None) r"
    by (rule range_loop_rule [OF bounds fuel]) (rule cases [folded descending_def]; assumption)+
  then obtain r where
    run: "range_loop E X env repair transform descending low high (Suc (high - low)) 0 cursor ([], None) = Some r"
    and Q: "Q heights ([], None) r"
    unfolding rem by blast
  have "block_range_stream E X encoded_len env repair start finish transform = Some (stream_of r)"
    unfolding block_range_stream_def Let_def descending_def [symmetric] low_def [symmetric] high_def [symmetric]
      cursor_def [symmetric] run
    by (cases r) (auto simp: stream_of_def coalesce_eq)
  with Q show ?thesis by blast
qed

lemma block_range_stream_sound:
  assumes "\<forall>k. \<exists>cached. stores E (db_blocks (snd (re_view env k))) cached"
    and "start \<le> u64_max" and "finish \<le> u64_max"
    and "heights = (if start \<le> finish then [start..<Suc finish] else rev [finish..<Suc start])"
  shows "\<exists>r bs. block_range_stream E X encoded_len env repair start finish transform = Some r \<and>
    sound_run E X env (finish < start) bs \<and>
    (rs_items r = map Inr (map transform bs) \<and> rs_report r = None \<and> map cb_height bs = heights \<or>
     (\<exists>s rest. rs_items r = map Inr (map transform bs) @ [Inl s] \<and> heights = map cb_height bs @ rest \<and> rest \<noteq> [] \<and>
        stopped E X env (finish < start) repair bs (hd rest) s (rs_report r)))"
proof -
  define Q where "Q hs st r \<longleftrightarrow> (\<forall>bs. behind E X env (finish < start) transform bs st \<longrightarrow>
      sound_result E X env (finish < start) transform repair bs hs r)" for hs st r
  have sound: "sound_result E X env (finish < start) transform repair bs hs
      (foldE (serve_height E X env repair transform (finish < start) (map_of (chunk_blocks c))) hs st)"
    if "chunk_at env (finish < start) k c hs" "behind E X env (finish < start) transform bs st" for k c hs bs st
  proof (rule serve_heights_sound [OF that(2)])
    show "truthful E env (map_of (chunk_blocks c))"
      using that(1) assms(1) chunk_truthful [of env k] unfolding chunk_at_def by blast
  qed
  have "\<exists>r. block_range_stream E X encoded_len env repair start finish transform = Some (stream_of r) \<and>
      Q heights ([], None) r"
  proof (rule block_range_stream_rule [OF assms(2-4)])
    show "Q hs st (Inl (fst st, cache_to_status e, None))" if "hs \<noteq> []"
      "read_chunk E (fst (re_view env k)) (snd (re_view env k)) lo hi (finish < start) CACHE_READ_CHUNK_BYTES = Inl e"
      for k lo hi hs st e
      using that by (auto simp: Q_def sound_result_def behind_def stopped_def intro!: exI [of _ "[]"])
    fix k hs rest st f st' r and c :: cached_chunk
    let ?got = "foldE (serve_height E X env repair transform (finish < start) (map_of (chunk_blocks c))) hs st"
    assume c: "chunk_at env (finish < start) k c hs"
    show "Q (hs @ rest) st (Inl f)" if "?got = Inl f"
      using sound [OF c, of _ st] that by (auto simp: Q_def intro: sound_result_longer)
    show "Q hs st (Inr st')" if "?got = Inr st'"
      using sound [OF c, of _ st] that by (auto simp: Q_def)
    show "Q (hs @ rest) st r" if "?got = Inr st'" "Q rest st' r"
      using sound [OF c, of _ st] that by (auto simp: Q_def intro: sound_result_after)
  qed
  then obtain r where stream: "block_range_stream E X encoded_len env repair start finish transform = Some (stream_of r)"
    and "Q heights ([], None) r" by blast
  then have r: "sound_result E X env (finish < start) transform repair [] heights r"
    by (simp add: Q_def behind_def sound_run_def)
  show ?thesis unfolding stream
  proof (cases r)
    case (Inr st)
    then obtain new where "map cb_height new = heights" "behind E X env (finish < start) transform new st"
      using r by (auto simp: sound_result_def)
    then show "\<exists>r' bs. Some (stream_of r) = Some r' \<and> sound_run E X env (finish < start) bs \<and>
      (rs_items r' = map Inr (map transform bs) \<and> rs_report r' = None \<and> map cb_height bs = heights \<or>
       (\<exists>s rest. rs_items r' = map Inr (map transform bs) @ [Inl s] \<and> heights = map cb_height bs @ rest \<and> rest \<noteq> [] \<and>
          stopped E X env (finish < start) repair bs (hd rest) s (rs_report r')))"
      using Inr by (cases st) (auto simp: stream_of_def behind_def intro!: exI [of _ new])
  next
    case (Inl f)
    obtain out s report where f: "f = (out, s, report)" by (cases f)
    from r Inl f obtain new rest where "heights = map cb_height new @ rest" "rest \<noteq> []"
      "sound_run E X env (finish < start) new" "out = map transform new"
      "stopped E X env (finish < start) repair new (hd rest) s report"
      by (auto simp: sound_result_def)
    then show "\<exists>r' bs. Some (stream_of r) = Some r' \<and> sound_run E X env (finish < start) bs \<and>
      (rs_items r' = map Inr (map transform bs) \<and> rs_report r' = None \<and> map cb_height bs = heights \<or>
       (\<exists>s rest. rs_items r' = map Inr (map transform bs) @ [Inl s] \<and> heights = map cb_height bs @ rest \<and> rest \<noteq> [] \<and>
          stopped E X env (finish < start) repair bs (hd rest) s (rs_report r')))"
      using Inl f by (auto simp: stream_of_def intro!: exI [of _ new])
  qed
qed

end

lemma validate_block_range_ok:
  assumes "validate_block_range start finish = Inr ()" and "start \<le> u64_max" and "finish \<le> u64_max"
  shows "0 < start \<and> 0 < finish \<and> Suc (abs_diff start finish) \<le> MAX_BLOCK_RANGE"
proof -
  have "0 < start" "0 < finish" "u64_add (abs_diff start finish) 1 \<le> MAX_BLOCK_RANGE"
    using assms(1) by (auto simp: validate_block_range_def result_simps Let_def)
  moreover have "abs_diff start finish < u64_max"
    using assms(2,3) \<open>0 < start\<close> \<open>0 < finish\<close> by (auto simp: abs_diff_def)
  ultimately show ?thesis by simp
qed


section \<open>Properties\<close>

text \<open>
  C5: a block range is an unbroken chain over exactly the heights asked for. While the stream of either range
  method runs, each chunk is read from whatever consistent cache there is then, and each missing height is
  fetched from whatever the node says then; the stream still ends, after at most ten thousand heights at or
  above one, and the blocks behind it are, in the requested direction, a prefix of the requested heights in
  which each block connects by hash to the one before, each taken from a cache read or from a checked fetch
  and only then reduced to the requested pools (or to their nullifiers). A stream without an error has all
  heights and reports nothing. One that stops at a height ends with one error: the status of a cache read or
  of a fetch of that height that failed, with nothing reported, or Aborted when the block of that height does
  not connect, in which case the lower height of the seam is reported for repair exactly when one side of it
  was cached and the service has a repair channel.
\<close>

theorem get_block_range_sound:
  assumes "cache_contract E"
    and "\<forall>k. \<exists>cached. stores E (db_blocks (snd (re_view env k))) cached"
    and "bi_height a \<le> u64_max" and "bi_height b \<le> u64_max"
    and "br_start rng = Some a" and "br_end rng = Some b"
    and "get_block_range E X encoded_len env s rng = Inr stream \<and>
           transform = (\<lambda>blk. filter_block_to_pools blk (from_pool_types (br_pool_types rng))) \<or>
         get_block_range_nullifiers E X encoded_len env s rng = Inr stream \<and>
           transform = (\<lambda>blk. filter_block_to_pools_nullifiers_only blk (from_pool_types_dropping_transparent (br_pool_types rng)))"
    and "heights = (if bi_height a \<le> bi_height b then [bi_height a..<Suc (bi_height b)]
                    else rev [bi_height b..<Suc (bi_height a)])"
  shows "\<exists>r bs. stream = Some r \<and> 0 < bi_height a \<and> 0 < bi_height b \<and> length heights \<le> 10000 \<and>
    sound_run E X env (bi_height b < bi_height a) bs \<and>
    (rs_items r = map Inr (map transform bs) \<and> rs_report r = None \<and> map cb_height bs = heights \<or>
     (\<exists>st rest. rs_items r = map Inr (map transform bs) @ [Inl st] \<and> heights = map cb_height bs @ rest \<and> rest \<noteq> [] \<and>
        stopped E X env (bi_height b < bi_height a) (sr_repair s) bs (hd rest) st (rs_report r)))"
proof -
  have v: "validate_block_range (bi_height a) (bi_height b) = Inr ()"
    and run: "stream = block_range_stream E X encoded_len env (sr_repair s) (bi_height a) (bi_height b) transform"
    using assms(5-7) by (auto simp: get_block_range_def get_block_range_nullifiers_def result_simps)
  have ok: "0 < bi_height a \<and> 0 < bi_height b \<and> Suc (abs_diff (bi_height a) (bi_height b)) \<le> MAX_BLOCK_RANGE"
    by (rule validate_block_range_ok [OF v assms(3,4)])
  moreover have "length heights = Suc (abs_diff (bi_height a) (bi_height b))"
    unfolding assms(8) by (auto simp: abs_diff_def)
  ultimately have len: "length heights \<le> 10000" by (simp add: MAX_BLOCK_RANGE_def)
  from cache_contract.block_range_stream_sound [OF assms(1-4,8), of X encoded_len "sr_repair s" transform]
  show ?thesis unfolding run using ok len by blast
qed

definition ref_range_env :: "((u64, bytes) otable, (string, bytes) otable) range_env" where
  "ref_range_env = \<lparr>
     re_view = (\<lambda>_. (no_faults, ref_db [ref_block 7 [1] [0], ref_block 8 [2] [1], ref_block 9 [3] [9]])),
     re_floor = (no_faults, ref_db [ref_block 7 [1] [0], ref_block 8 [2] [1], ref_block 9 [3] [9]]),
     re_node = (\<lambda>_. dead_node), re_task = (\<lambda>_. None)\<rparr>"

definition ref_range :: "u64 \<Rightarrow> u64 \<Rightarrow> block_range" where
  "ref_range a b = \<lparr>br_start = Some \<lparr>bi_height = a, bi_hash = []\<rparr>, br_end = Some \<lparr>bi_height = b, bi_hash = []\<rparr>,
     br_pool_types = []\<rparr>"

definition ref_service :: streamer where
  "ref_service = with_ingest_floor (with_repair_signal (streamer_new ''main'' False)) 7"

lemma ref_range_runs:
  "case get_block_range ref_cache ref_parse (\<lambda>_. 10) ref_range_env ref_service (ref_range 7 9) of
     Inr (Some r) \<Rightarrow> rs_report r = Some 8 | _ \<Rightarrow> False"
  by code_simp

theorem get_block_range_sound_witness:
  "\<exists>r bs st. get_block_range ref_cache ref_parse (\<lambda>_. 10) ref_range_env ref_service (ref_range 7 9) = Inr (Some r) \<and>
     map cb_height bs = [7, 8] \<and> rs_report r = Some 8 \<and>
     stopped ref_cache ref_parse ref_range_env False True bs 9 st (Some 8)"
proof -
  obtain r where r: "get_block_range ref_cache ref_parse (\<lambda>_. 10) ref_range_env ref_service (ref_range 7 9) = Inr (Some r)"
    and report: "rs_report r = Some 8"
    using ref_range_runs by (auto split: sum.splits option.splits)
  have views: "\<forall>k. \<exists>cached. stores ref_cache (db_blocks (snd (re_view ref_range_env k))) cached"
    using ref_db_stores [of "[ref_block 7 [1] [0], ref_block 8 [2] [1], ref_block 9 [3] [9]]"]
    by (auto simp: ref_range_env_def u64_max_def)
  let ?a = "\<lparr>bi_height = 7, bi_hash = []\<rparr>" and ?b = "\<lparr>bi_height = 9, bi_hash = []\<rparr>"
  have bounds: "bi_height ?a \<le> u64_max" "bi_height ?b \<le> u64_max" by (simp_all add: u64_max_def)
  have ends: "br_start (ref_range 7 9) = Some ?a" "br_end (ref_range 7 9) = Some ?b" by (simp_all add: ref_range_def)
  have heights: "[7, 8, 9] = (if bi_height ?a \<le> bi_height ?b then [bi_height ?a..<Suc (bi_height ?b)]
      else rev [bi_height ?b..<Suc (bi_height ?a)])" by (simp add: upt_rec)
  have "\<not> bi_height ?b < bi_height ?a" "sr_repair ref_service"
    by (simp_all add: ref_service_def with_ingest_floor_def with_repair_signal_def)
  note down = this
  from get_block_range_sound [OF rc.cache_contract_axioms views bounds ends disjI1 [OF conjI [OF r refl]] heights]
  obtain r' bs where r': "Some r = Some r'"
    and out: "rs_report r' = None \<or> (\<exists>st rest. [7, 8, 9] = map cb_height bs @ rest \<and> rest \<noteq> [] \<and>
      stopped ref_cache ref_parse ref_range_env (bi_height ?b < bi_height ?a) (sr_repair ref_service) bs (hd rest) st
        (rs_report r'))"
    by (elim exE conjE) blast
  obtain st rest where bs: "[7, 8, 9] = map cb_height bs @ rest" "rest \<noteq> []"
    and st: "stopped ref_cache ref_parse ref_range_env False True bs (hd rest) st (Some 8)"
    using out r' report down by auto
  from st have "bs \<noteq> []" "8 = min (hd rest) (cb_height (last bs))"
    by (auto simp: stopped_def split: if_splits)
  then have "map cb_height bs = [7, 8]" "hd rest = 9"
    using bs by (cases bs; cases "tl bs"; cases "tl (tl bs)"; auto simp: Cons_eq_append_conv)+
  then show ?thesis using r report st by (intro exI [of _ r] exI [of _ bs] exI [of _ st]) simp
qed

text \<open>
  C13: what the single-block methods answer. A request with neither a height nor a hash is an invalid
  argument and one with a hash is unimplemented, for both methods. For any other request, over a consistent
  cache that can be read, the answer is the cached block of that height when there is one, and otherwise what
  the checked fetch of that height comes to, its failure with the status of a block that could not be
  fetched; a block that is served has the height asked for, and the nullifier variant answers with the
  nullifiers of the same block or with the same refusal. A cache that cannot be read is an internal error.
\<close>

theorem get_block_sound:
  assumes "cache_contract E" and "stores E (db_blocks db) cached"
  shows "(bi_hash bid = [] \<and> bi_height bid = 0 \<longrightarrow>
      get_block E X flt db task node bid =
        Inl (mk_status InvalidArgument ''get_block: request for unspecified identifier'' []) \<and>
      get_block_nullifiers E X flt db task node bid =
        Inl (mk_status InvalidArgument ''get_block_nullifiers: request for unspecified identifier'' [])) \<and>
    (bi_hash bid \<noteq> [] \<longrightarrow>
      get_block E X flt db task node bid = Inl (mk_status Unimplemented ''get_block by hash is not yet supported'' []) \<and>
      get_block_nullifiers E X flt db task node bid =
        Inl (mk_status Unimplemented ''get_block_nullifiers by hash is not yet supported'' [])) \<and>
    (bi_hash bid = [] \<and> 0 < bi_height bid \<longrightarrow>
      (case cache_get E flt db (bi_height bid) of
         Inl e \<Rightarrow> (\<exists>s. get_block E X flt db task node bid = Inl s \<and> st_code s = Internal)
       | Inr _ \<Rightarrow> get_block E X flt db task node bid =
           (case find (\<lambda>c. cb_height c = bi_height bid) cached of
              Some c \<Rightarrow> Inr c
            | None \<Rightarrow> map_err (\<lambda>e. block_fetch_to_status e (bi_height bid)) (compact_block_fetch X task node (bi_height bid)))) \<and>
      (\<forall>b. get_block E X flt db task node bid = Inr b \<longrightarrow> cb_height b = bi_height bid) \<and>
      get_block_nullifiers E X flt db task node bid =
        (case get_block E X flt db task node bid of Inl s \<Rightarrow> Inl s | Inr b \<Rightarrow> Inr (nullifiers_only b)))"
proof (intro conjI impI)
  assume "bi_hash bid = [] \<and> 0 < bi_height bid"
  then have at: "get_block E X flt db task node bid = block_at E X flt db task node (bi_height bid)"
    and nf: "get_block_nullifiers E X flt db task node bid =
      bindE (block_at E X flt db task node (bi_height bid)) (\<lambda>block. Inr (nullifiers_only block))"
    by (simp_all add: get_block_def get_block_nullifiers_def)
  show "case cache_get E flt db (bi_height bid) of
         Inl e \<Rightarrow> (\<exists>s. get_block E X flt db task node bid = Inl s \<and> st_code s = Internal)
       | Inr _ \<Rightarrow> get_block E X flt db task node bid =
           (case find (\<lambda>c. cb_height c = bi_height bid) cached of
              Some c \<Rightarrow> Inr c
            | None \<Rightarrow> map_err (\<lambda>e. block_fetch_to_status e (bi_height bid)) (compact_block_fetch X task node (bi_height bid)))"
    unfolding at
    by (cases "cache_get E flt db (bi_height bid)")
      (auto simp: block_at_def cache_to_status_def status_with_def cache_contract.cache_get_eq [OF assms] result_simps split: option.splits)
  show "\<forall>b. get_block E X flt db task node bid = Inr b \<longrightarrow> cb_height b = bi_height bid"
    unfolding at using cache_contract.block_at_height [OF assms] by blast
  show "get_block_nullifiers E X flt db task node bid =
      (case get_block E X flt db task node bid of Inl s \<Rightarrow> Inl s | Inr b \<Rightarrow> Inr (nullifiers_only b))"
    unfolding at nf by (cases "block_at E X flt db task node (bi_height bid)") simp_all
qed (simp_all add: get_block_def get_block_nullifiers_def)

theorem get_block_sound_witness:
  "get_block ref_cache ref_parse no_faults (ref_db [ref_block 7 [1] [0]]) None dead_node \<lparr>bi_height = 7, bi_hash = []\<rparr> =
     Inr (ref_block 7 [1] [0]) \<and>
   get_block_nullifiers ref_cache ref_parse no_faults (ref_db [ref_block 7 [1] [0]]) None dead_node \<lparr>bi_height = 7, bi_hash = []\<rparr> =
     Inr (nullifiers_only (ref_block 7 [1] [0]))"
proof -
  have st: "stores ref_cache (db_blocks (ref_db [ref_block 7 [1] [0]])) [ref_block 7 [1] [0]]"
    by (rule ref_db_stores) (simp_all add: u64_max_def)
  have "is_ok (cache_get ref_cache no_faults (ref_db [ref_block 7 [1] [0]]) 7)" by code_simp
  then obtain r where "cache_get ref_cache no_faults (ref_db [ref_block 7 [1] [0]]) 7 = Inr r" by (auto elim: is_okE)
  with get_block_sound [OF rc.cache_contract_axioms st, of "\<lparr>bi_height = 7, bi_hash = []\<rparr>" ref_parse no_faults None dead_node]
  show ?thesis by simp
qed

end
