(* ===== verification/Service_Address.thy ===== *)
theory Service_Address
  imports Streamer Framing
begin

text \<open>
  src/service/address.rs: balances, unspent outputs and transactions of transparent addresses. A string
  is the list of its bytes, so the shape check of an address is a check of its characters.
\<close>

section \<open>Messages and bounds\<close>

record get_address_utxos_arg =
  ga_addresses :: "string list"
  ga_start_height :: u64
  ga_max_entries :: u32

record get_address_utxos_reply =
  gu_address :: string
  gu_txid :: bytes
  gu_index :: int
  gu_script :: bytes
  gu_value_zat :: int
  gu_height :: u64

record transparent_filter =
  tbf_address :: string
  tbf_range :: "block_range option"

definition MAX_STREAMED_ADDRESSES :: usize where
  "MAX_STREAMED_ADDRESSES = 10000"

definition MAX_TADDRESS_TXIDS :: usize where
  "MAX_TADDRESS_TXIDS = 10000"

definition MAX_ADDRESS_UTXOS :: usize where
  "MAX_ADDRESS_UTXOS = 100000"

definition MAX_INDEXED_OUTPUTS_PER_BLOCK :: usize where
  "MAX_INDEXED_OUTPUTS_PER_BLOCK = 2000000 div 32"

definition MAX_TADDRESS_BLOCK_SPAN :: u64 where
  "MAX_TADDRESS_BLOCK_SPAN = 10000000"


section \<open>Addresses\<close>

definition push_bounded :: "string list \<Rightarrow> string \<Rightarrow> (status, string list) result" where
  "push_bounded addresses address =
     bindE (failIf (length addresses \<ge> MAX_STREAMED_ADDRESSES)
              (mk_status ResourceExhausted ''get_taddress_balance_stream: too many addresses submitted'' [])) (\<lambda>_.
       Inr (addresses @ [address]))"

definition is_ascii_alphanumeric :: "char \<Rightarrow> bool" where
  "is_ascii_alphanumeric c =
     (let n = (of_char c :: nat) in 48 \<le> n \<and> n \<le> 57 \<or> 65 \<le> n \<and> n \<le> 90 \<or> 97 \<le> n \<and> n \<le> 122)"

definition check_taddress :: "string \<Rightarrow> (status, unit) result" where
  "check_taddress address =
     (let well_formed = (length address = 35 \<and> hd address = CHR ''t'' \<and>
            list_all is_ascii_alphanumeric (tl address)) in
      failIf (\<not> well_formed)
        (mk_status InvalidArgument ''transparent address {} contains invalid characters'' [Str address]))"

definition get_taddress_balance :: "node_rpc \<Rightarrow> string list \<Rightarrow> (status, int) result" where
  "get_taddress_balance node addresses =
     bindE (failIf (length addresses > MAX_STREAMED_ADDRESSES)
              (mk_status ResourceExhausted ''get_taddress_balance: too many addresses submitted'' [])) (\<lambda>_.
     bindE (foldE (\<lambda>address _. check_taddress address) addresses ()) (\<lambda>_.
     bindE (map_err address_query_to_status (rpc_get_address_balance node addresses)) (\<lambda>balance.
       Inr (gab_balance balance))))"

text \<open>The addresses as the client streams them in; a failing item ends the stream.\<close>

definition collect_streamed_addresses :: "string items \<Rightarrow> (status, string list) result" where
  "collect_streamed_addresses incoming =
     foldE (\<lambda>item addresses.
         bindE item (\<lambda>address.
         bindE (check_taddress address) (\<lambda>_.
           push_bounded addresses address)))
       incoming []"

definition get_taddress_balance_stream :: "node_rpc \<Rightarrow> string items \<Rightarrow> (status, int) result" where
  "get_taddress_balance_stream node incoming =
     bindE (collect_streamed_addresses incoming) (\<lambda>addresses.
     bindE (map_err address_query_to_status (rpc_get_address_balance node addresses)) (\<lambda>balance.
       Inr (gab_balance balance)))"


section \<open>Unspent outputs\<close>

definition utxo_reply :: "'x hex_ext_scheme \<Rightarrow> address_utxo \<Rightarrow> (status, get_address_utxos_reply) result" where
  "utxo_reply X utxo =
     bindE (map_err (\<lambda>e. mk_status Internal ''decoding utxo txid: {}'' [hex_error_msg e])
              (display_hex_to_wire X (au_txid utxo))) (\<lambda>txid.
     bindE (decode_hex X (au_script utxo) ''utxo script'') (\<lambda>script.
       Inr \<lparr>gu_address = au_address utxo, gu_txid = txid, gu_index = as_i32 (au_output_index utxo),
            gu_script = script, gu_value_zat = as_i64 (int (au_satoshis utxo)), gu_height = au_height utxo\<rparr>))"

definition too_many_utxos :: status where
  "too_many_utxos = mk_status ResourceExhausted
     ''get_address_utxos: more than {} unspent outputs match; raise startHeight or set maxEntries to read them in pages''
     [Num MAX_ADDRESS_UTXOS]"

text \<open>The loop over the node's outputs.\<close>

primrec utxo_loop ::
    "'x hex_ext_scheme \<Rightarrow> get_address_utxos_arg \<Rightarrow> address_utxo list \<Rightarrow> get_address_utxos_reply list
      \<Rightarrow> (status, get_address_utxos_reply list) result" where
  "utxo_loop X arg [] replies = Inr replies"
| "utxo_loop X arg (utxo # utxos) replies =
     (if au_height utxo < ga_start_height arg then utxo_loop X arg utxos replies
      else if ga_max_entries arg > 0 \<and> length replies mod 4294967296 \<ge> ga_max_entries arg then Inr replies
      else
        bindE (failIf (length replies \<ge> MAX_ADDRESS_UTXOS) too_many_utxos) (\<lambda>_.
        bindE (utxo_reply X utxo) (\<lambda>reply.
          utxo_loop X arg utxos (replies @ [reply]))))"

definition collect_utxos ::
    "'x hex_ext_scheme \<Rightarrow> node_rpc \<Rightarrow> get_address_utxos_arg \<Rightarrow> (status, get_address_utxos_reply list) result" where
  "collect_utxos X node arg =
     bindE (failIf (length (ga_addresses arg) > MAX_STREAMED_ADDRESSES)
              (mk_status ResourceExhausted ''get_address_utxos: too many addresses submitted (limit {})''
                 [Num MAX_STREAMED_ADDRESSES])) (\<lambda>_.
     bindE (foldE (\<lambda>address _. check_taddress address) (ga_addresses arg) ()) (\<lambda>_.
     bindE (map_err address_query_to_status (rpc_get_address_utxos node (ga_addresses arg))) (\<lambda>utxos.
       utxo_loop X arg utxos [])))"

definition get_address_utxos ::
    "'x hex_ext_scheme \<Rightarrow> node_rpc \<Rightarrow> get_address_utxos_arg \<Rightarrow> (status, get_address_utxos_reply list) result" where
  "get_address_utxos X node arg = collect_utxos X node arg"

definition get_address_utxos_stream ::
    "'x hex_ext_scheme \<Rightarrow> node_rpc \<Rightarrow> get_address_utxos_arg \<Rightarrow> (status, get_address_utxos_reply items) result" where
  "get_address_utxos_stream X node arg = bindE (collect_utxos X node arg) (\<lambda>replies. Inr (map Inr replies))"


section \<open>Transactions\<close>

definition resolve_range_end :: "node_rpc \<Rightarrow> u64 option \<Rightarrow> u64 \<Rightarrow> (status, u64) result" where
  "resolve_range_end node requested_end start =
     bindE
       (let tip = bindE (map_err node_to_status (rpc_get_blockchain_info node)) (\<lambda>info. Inr (gbi_blocks info)) in
        case requested_end of
          Some finish \<Rightarrow> if finish > 0 then Inr finish else tip
        | None \<Rightarrow> tip) (\<lambda>finish.
     bindE (failIf (finish > start \<and> finish - start > MAX_TADDRESS_BLOCK_SPAN)
              (mk_status InvalidArgument
                 ''get_taddress_transactions: block range too wide ({} blocks, limit {})''
                 [Num (finish - start), Num MAX_TADDRESS_BLOCK_SPAN])) (\<lambda>_.
       Inr finish))"

text \<open>
  What a scan sees: the node of the scan and whether its deadline elapsed, and the same for the i-th
  fetched transaction.
\<close>

record scan_env =
  se_node :: node_rpc
  se_elapsed :: bool
  se_fetch :: "nat \<Rightarrow> node_rpc \<times> bool"

definition taddress_fetch ::
    "'x hex_ext_scheme \<Rightarrow> scan_env \<Rightarrow> nat \<times> string \<Rightarrow> (status, raw_transaction) result" where
  "taddress_fetch X env it =
     (case it of (i, tid) \<Rightarrow>
        bindE (with_deadline (snd (se_fetch env i)) ''get_taddress_transactions''
                 (rpc_get_raw_transaction (fst (se_fetch env i)) tid)) (\<lambda>reply.
        bindE (map_err transaction_lookup_to_status reply) (\<lambda>raw.
        bindE (decode_hex X (grt_hex raw) ''transaction hex'') (\<lambda>data.
          Inr \<lparr>rt_data = data, rt_height = mined_height (grt_height raw)\<rparr>))))"

definition taddress_transactions ::
    "'x hex_ext_scheme \<Rightarrow> (raw_transaction \<Rightarrow> usize) \<Rightarrow> scan_env \<Rightarrow> transparent_filter
      \<Rightarrow> (status, raw_transaction items) result" where
  "taddress_transactions X encoded_len env flt =
     bindE (check_taddress (tbf_address flt)) (\<lambda>_.
     bindE (ok_or (mk_status InvalidArgument ''get_taddress_transactions: must specify block range'' [])
              (tbf_range flt)) (\<lambda>rng.
     bindE (ok_or (mk_status InvalidArgument ''get_taddress_transactions: must specify a start block height'' [])
              (br_start rng)) (\<lambda>start.
     bindE (resolve_range_end (se_node env) (map_option bi_height (br_end rng)) (bi_height start)) (\<lambda>finish.
     bindE (with_deadline (se_elapsed env) ''get_taddress_transactions''
              (rpc_get_address_txids (se_node env) [tbf_address flt] (bi_height start) finish)) (\<lambda>reply.
     bindE (map_err address_query_to_status reply) (\<lambda>txids.
     bindE (failIf (length txids > MAX_TADDRESS_TXIDS)
              (mk_status ResourceExhausted
                 ''get_taddress_transactions: more than {} matching transactions; narrow the block range''
                 [Num MAX_TADDRESS_TXIDS])) (\<lambda>_.
       Inr (coalesce encoded_len (try_items (taddress_fetch X env) (enumerate 0 txids))))))))))"

definition get_taddress_txids ::
    "'x hex_ext_scheme \<Rightarrow> (raw_transaction \<Rightarrow> usize) \<Rightarrow> scan_env \<Rightarrow> transparent_filter
      \<Rightarrow> (status, raw_transaction items) result" where
  "get_taddress_txids X encoded_len env flt = taddress_transactions X encoded_len env flt"

definition get_taddress_transactions ::
    "'x hex_ext_scheme \<Rightarrow> (raw_transaction \<Rightarrow> usize) \<Rightarrow> scan_env \<Rightarrow> transparent_filter
      \<Rightarrow> (status, raw_transaction items) result" where
  "get_taddress_transactions X encoded_len env flt = taddress_transactions X encoded_len env flt"


section \<open>Lemmas\<close>

lemma check_taddress_ok:
  "check_taddress a = Inr u \<longleftrightarrow>
     length a = 35 \<and> hd a = CHR ''t'' \<and> list_all is_ascii_alphanumeric (tl a)"
  by (cases u) (auto simp: check_taddress_def Let_def failIf_def)

lemma check_all_ok:
  "foldE (\<lambda>address _. check_taddress address) addresses u = Inr v \<longleftrightarrow> (\<forall>a \<in> set addresses. is_ok (check_taddress a))"
  by (induction addresses arbitrary: u) (auto simp: result_simps is_ok_def split: sum.splits)

lemma collect_streamed_ok:
  assumes "foldE (\<lambda>item addresses.
      bindE item (\<lambda>address. bindE (check_taddress address) (\<lambda>_. push_bounded addresses address))) incoming acc = Inr out"
  shows "\<exists>new. incoming = map Inr new \<and> out = acc @ new \<and> (\<forall>a \<in> set new. is_ok (check_taddress a)) \<and>
    (new \<noteq> [] \<longrightarrow> length out \<le> MAX_STREAMED_ADDRESSES)"
  using assms
proof (induction incoming arbitrary: acc)
  case (Cons item incoming)
  then obtain a where a: "item = Inr a" "is_ok (check_taddress a)" "length acc < MAX_STREAMED_ADDRESSES"
    and rest: "foldE (\<lambda>item addresses.
      bindE item (\<lambda>address. bindE (check_taddress address) (\<lambda>_. push_bounded addresses address))) incoming (acc @ [a]) = Inr out"
    by (auto simp: result_simps push_bounded_def)
  from Cons.IH [OF rest] obtain new where "incoming = map Inr new" "out = (acc @ [a]) @ new"
    "\<forall>b \<in> set new. is_ok (check_taddress b)" "new \<noteq> [] \<longrightarrow> length out \<le> MAX_STREAMED_ADDRESSES" by blast
  then show ?case using a by (intro exI [of _ "a # new"]) auto
qed auto

text \<open>The outputs a request is about, and how many of them it asks for.\<close>

definition matching :: "get_address_utxos_arg \<Rightarrow> address_utxo list \<Rightarrow> address_utxo list" where
  "matching arg utxos = filter (\<lambda>u. ga_start_height arg \<le> au_height u) utxos"

definition wanted :: "get_address_utxos_arg \<Rightarrow> address_utxo list \<Rightarrow> address_utxo list" where
  "wanted arg utxos =
     (if ga_max_entries arg = 0 then matching arg utxos else take (ga_max_entries arg) (matching arg utxos))"

lemma utxo_loop_eq:
  assumes "length replies \<le> MAX_ADDRESS_UTXOS" and "ga_max_entries arg = 0 \<or> length replies \<le> ga_max_entries arg"
  shows "utxo_loop X arg utxos replies =
    (let rest = (if ga_max_entries arg = 0 then matching arg utxos
                 else take (ga_max_entries arg - length replies) (matching arg utxos)) in
     bindE (mapE (utxo_reply X) (take (MAX_ADDRESS_UTXOS - length replies) rest)) (\<lambda>new.
       if length replies + length rest > MAX_ADDRESS_UTXOS then Inl too_many_utxos else Inr (replies @ new)))"
  using assms
proof (induction utxos arbitrary: replies)
  case Nil
  then show ?case by (simp add: matching_def)
next
  case (Cons u utxos)
  have small: "length replies mod 4294967296 = length replies"
    using Cons.prems(1) by (simp add: MAX_ADDRESS_UTXOS_def)
  show ?case
  proof (cases "au_height u < ga_start_height arg")
    case True
    then show ?thesis using Cons.IH [OF Cons.prems] by (simp add: matching_def Let_def)
  next
    case False
    show ?thesis
    proof (cases "ga_max_entries arg > 0 \<and> length replies \<ge> ga_max_entries arg")
      case True
      then show ?thesis using False Cons.prems small by (auto simp: Let_def)
    next
      case more: False
      show ?thesis
      proof (cases "length replies \<ge> MAX_ADDRESS_UTXOS")
        case True
        then show ?thesis using False more Cons.prems small by (auto simp: matching_def Let_def)
      next
        case room: False
        have IH: "utxo_loop X arg utxos (replies @ [r]) =
          (let rest = (if ga_max_entries arg = 0 then matching arg utxos
                       else take (ga_max_entries arg - Suc (length replies)) (matching arg utxos)) in
           bindE (mapE (utxo_reply X) (take (MAX_ADDRESS_UTXOS - Suc (length replies)) rest)) (\<lambda>new.
             if Suc (length replies) + length rest > MAX_ADDRESS_UTXOS then Inl too_many_utxos
             else Inr ((replies @ [r]) @ new)))" for r
          using Cons.IH [of "replies @ [r]"] more room by (auto simp: Let_def cong: if_cong)
        obtain m where m: "MAX_ADDRESS_UTXOS - length replies = Suc m" "m = MAX_ADDRESS_UTXOS - Suc (length replies)"
          using room by (metis Suc_diff_Suc not_le)
        show ?thesis
        proof (cases "ga_max_entries arg = 0")
          case True
          then show ?thesis
            using False room small IH m
            by (cases "utxo_reply X u") (simp_all add: matching_def Let_def bindE_assoc cong: if_cong)
        next
          case limited: False
          then obtain n where n: "ga_max_entries arg - length replies = Suc n"
            "n = ga_max_entries arg - Suc (length replies)"
            using more by (metis Suc_diff_Suc gr0I not_le)
          show ?thesis
            using False room small IH m n limited more
            by (cases "utxo_reply X u") (simp_all add: matching_def Let_def bindE_assoc not_le cong: if_cong)
        qed
      qed
    qed
  qed
qed


section \<open>Properties\<close>

text \<open>
  C15: the unspent outputs a request returns. For well-formed addresses within the limit, the reply is the
  conversion of the outputs at or above the start height in the node's order, cut to the number asked for
  (zero meaning all): if more than a hundred thousand remain the request fails, once the first hundred
  thousand have been converted, and otherwise every one of them is in the reply. Both the unary and the
  streaming method give this answer.
\<close>

theorem collect_utxos_spec:
  assumes "length (ga_addresses arg) \<le> MAX_STREAMED_ADDRESSES" and "\<forall>a \<in> set (ga_addresses arg). is_ok (check_taddress a)"
    and "rpc_get_address_utxos node (ga_addresses arg) = Inr utxos"
  shows "get_address_utxos X node arg =
      bindE (mapE (utxo_reply X) (take 100000 (wanted arg utxos))) (\<lambda>replies.
        if length (wanted arg utxos) > 100000 then Inl too_many_utxos else Inr replies) \<and>
    get_address_utxos_stream X node arg = bindE (get_address_utxos X node arg) (\<lambda>replies. Inr (map Inr replies))"
proof -
  have "foldE (\<lambda>address _. check_taddress address) (ga_addresses arg) () = Inr ()"
    using assms(2) by (simp add: check_all_ok)
  then have "get_address_utxos X node arg = utxo_loop X arg utxos []"
    using assms(1,3) by (simp add: get_address_utxos_def collect_utxos_def)
  also have "... = bindE (mapE (utxo_reply X) (take 100000 (wanted arg utxos))) (\<lambda>replies.
        if length (wanted arg utxos) > 100000 then Inl too_many_utxos else Inr replies)"
    by (simp add: utxo_loop_eq Let_def wanted_def MAX_ADDRESS_UTXOS_def cong: if_cong)
  finally show ?thesis by (simp add: get_address_utxos_stream_def get_address_utxos_def)
qed

definition ref_taddress :: string where
  "ref_taddress = ''t'' @ replicate 34 CHR ''a''"

definition ref_utxo :: "u64 \<Rightarrow> address_utxo" where
  "ref_utxo h = \<lparr>au_address = ref_taddress, au_txid = ''0a'', au_output_index = 1, au_script = ''00'',
     au_satoshis = 5, au_height = h\<rparr>"

definition ref_address_node :: node_rpc where
  "ref_address_node = dead_node\<lparr>rpc_get_address_utxos := (\<lambda>_. Inr [ref_utxo 3, ref_utxo 8, ref_utxo 9])\<rparr>"

theorem collect_utxos_spec_witness:
  "\<exists>r. get_address_utxos ref_parse ref_address_node
     \<lparr>ga_addresses = [ref_taddress], ga_start_height = 5, ga_max_entries = 1\<rparr> = Inr [r] \<and> gu_height r = 8"
proof -
  define arg where "arg = \<lparr>ga_addresses = [ref_taddress], ga_start_height = 5, ga_max_entries = (1 :: nat)\<rparr>"
  have a: "length (ga_addresses arg) \<le> MAX_STREAMED_ADDRESSES" "\<forall>a \<in> set (ga_addresses arg). is_ok (check_taddress a)"
    unfolding arg_def by code_simp+
  have u: "rpc_get_address_utxos ref_address_node (ga_addresses arg) = Inr [ref_utxo 3, ref_utxo 8, ref_utxo 9]"
    by (simp add: ref_address_node_def)
  have "case utxo_reply ref_parse (ref_utxo 8) of Inr r \<Rightarrow> gu_height r = 8 | Inl _ \<Rightarrow> False" by code_simp
  then obtain r where r: "utxo_reply ref_parse (ref_utxo 8) = Inr r" "gu_height r = 8" by (auto split: sum.splits)
  have "wanted arg [ref_utxo 3, ref_utxo 8, ref_utxo 9] = [ref_utxo 8]"
    by (simp add: wanted_def matching_def arg_def ref_utxo_def)
  then show ?thesis using collect_utxos_spec [OF a u, of ref_parse] r by (auto simp: arg_def)
qed

text \<open>
  C16: what one address scan can cost is bounded. A transaction scan that is not refused is for an address
  of the right shape, from the requested start to an end that is the requested one, or the node's tip when
  none was given, no more than ten million blocks above the start; it matched at most ten thousand
  transactions, and streams what each of them is, in order, up to the first failure. A streamed balance
  request is answered for exactly the addresses sent, all well-formed and at most ten thousand.
\<close>

theorem address_scan_bounded:
  "(taddress_transactions X encoded_len env flt = Inr items \<longrightarrow>
      (\<exists>rng start finish txids. tbf_range flt = Some rng \<and> br_start rng = Some start \<and>
        is_ok (check_taddress (tbf_address flt)) \<and>
        (case br_end rng of
           Some e \<Rightarrow> if bi_height e > 0 then finish = bi_height e
                    else \<exists>info. rpc_get_blockchain_info (se_node env) = Inr info \<and> finish = gbi_blocks info
         | None \<Rightarrow> \<exists>info. rpc_get_blockchain_info (se_node env) = Inr info \<and> finish = gbi_blocks info) \<and>
        finish \<le> bi_height start + 10000000 \<and>
        rpc_get_address_txids (se_node env) [tbf_address flt] (bi_height start) finish = Inr txids \<and>
        length txids \<le> 10000 \<and> length items \<le> length txids \<and>
        items = try_items (taddress_fetch X env) (enumerate 0 txids))) \<and>
   (collect_streamed_addresses incoming = Inr addresses \<longrightarrow>
      incoming = map Inr addresses \<and> length addresses \<le> 10000 \<and> (\<forall>a \<in> set addresses. is_ok (check_taddress a)))"
proof (intro conjI impI)
  assume run: "taddress_transactions X encoded_len env flt = Inr items"
  then obtain rng start finish txids where
    r: "tbf_range flt = Some rng" "br_start rng = Some start" "is_ok (check_taddress (tbf_address flt))"
      "resolve_range_end (se_node env) (map_option bi_height (br_end rng)) (bi_height start) = Inr finish"
      "rpc_get_address_txids (se_node env) [tbf_address flt] (bi_height start) finish = Inr txids"
      "length txids \<le> MAX_TADDRESS_TXIDS"
      "items = coalesce encoded_len (try_items (taddress_fetch X env) (enumerate 0 txids))"
    by (auto simp: taddress_transactions_def result_simps is_ok_def)
  have items: "items = try_items (taddress_fetch X env) (enumerate 0 txids)" using r(7) by (simp add: coalesce_eq)
  have len: "length items \<le> length txids" using try_items_length [of "taddress_fetch X env" "enumerate 0 txids"] items by simp
  have "finish \<le> bi_height start + 10000000"
    "case br_end rng of
       Some e \<Rightarrow> if bi_height e > 0 then finish = bi_height e
                else \<exists>info. rpc_get_blockchain_info (se_node env) = Inr info \<and> finish = gbi_blocks info
     | None \<Rightarrow> \<exists>info. rpc_get_blockchain_info (se_node env) = Inr info \<and> finish = gbi_blocks info"
    using r(4) by (auto simp: resolve_range_end_def result_simps MAX_TADDRESS_BLOCK_SPAN_def split: option.splits if_splits)
  then show "\<exists>rng start finish txids. tbf_range flt = Some rng \<and> br_start rng = Some start \<and>
        is_ok (check_taddress (tbf_address flt)) \<and>
        (case br_end rng of
           Some e \<Rightarrow> if bi_height e > 0 then finish = bi_height e
                    else \<exists>info. rpc_get_blockchain_info (se_node env) = Inr info \<and> finish = gbi_blocks info
         | None \<Rightarrow> \<exists>info. rpc_get_blockchain_info (se_node env) = Inr info \<and> finish = gbi_blocks info) \<and>
        finish \<le> bi_height start + 10000000 \<and>
        rpc_get_address_txids (se_node env) [tbf_address flt] (bi_height start) finish = Inr txids \<and>
        length txids \<le> 10000 \<and> length items \<le> length txids \<and>
        items = try_items (taddress_fetch X env) (enumerate 0 txids)"
    using r(1,2,3,5,6) items len unfolding MAX_TADDRESS_TXIDS_def
    by (intro exI [of _ rng] exI [of _ start] exI [of _ finish] exI [of _ txids] conjI)
next
  assume "collect_streamed_addresses incoming = Inr addresses"
  from collect_streamed_ok [OF this [unfolded collect_streamed_addresses_def]]
  show "incoming = map Inr addresses" "length addresses \<le> 10000" "\<forall>a \<in> set addresses. is_ok (check_taddress a)"
    by (auto simp: MAX_STREAMED_ADDRESSES_def)
qed

definition ref_scan_node :: node_rpc where
  "ref_scan_node = dead_node\<lparr>rpc_get_address_txids := (\<lambda>_ _ _. Inr [''0a'', ''0b'']),
     rpc_get_raw_transaction := (\<lambda>t. Inr \<lparr>grt_hex = t, grt_height = 7\<rparr>)\<rparr>"

definition ref_scan_env :: scan_env where
  "ref_scan_env = \<lparr>se_node = ref_scan_node, se_elapsed = False, se_fetch = (\<lambda>_. (ref_scan_node, False))\<rparr>"

definition ref_filter :: transparent_filter where
  "ref_filter = \<lparr>tbf_address = ref_taddress, tbf_range = Some \<lparr>br_start = Some \<lparr>bi_height = 5, bi_hash = []\<rparr>,
     br_end = Some \<lparr>bi_height = 9, bi_hash = []\<rparr>, br_pool_types = []\<rparr>\<rparr>"

theorem address_scan_bounded_witness:
  "\<exists>items. taddress_transactions ref_parse (\<lambda>_. 9) ref_scan_env ref_filter = Inr items \<and> length items \<le> 2 \<and>
     collect_streamed_addresses [Inr ref_taddress] = Inr [ref_taddress] \<and> is_ok (check_taddress ref_taddress)"
proof -
  have "is_ok (taddress_transactions ref_parse (\<lambda>_. 9) ref_scan_env ref_filter)" by code_simp
  then obtain items where items: "taddress_transactions ref_parse (\<lambda>_. 9) ref_scan_env ref_filter = Inr items"
    by (auto simp: is_ok_def split: sum.splits)
  have c: "collect_streamed_addresses [Inr ref_taddress] = Inr [ref_taddress]" by code_simp
  from conjunct1 [OF address_scan_bounded, rule_format, OF items] obtain txids :: "string list" where
    "length items \<le> length txids" "Inr txids = (Inr [''0a'', ''0b''] :: (node_error, string list) result)"
    by (auto simp: ref_scan_env_def ref_scan_node_def)
  moreover from conjunct2 [OF address_scan_bounded, rule_format, OF c] have "is_ok (check_taddress ref_taddress)" by simp
  ultimately show ?thesis using items c by auto
qed

end
