(* ===== verification/Rust_Text.thy ===== *)
theory Rust_Text
  imports Cache
begin

text \<open>
  The string functions of Rust's standard library that several components read text with: lines, trim,
  split\_once, and numbers printed and parsed in decimal. The strings are their UTF-8 bytes.
\<close>

section \<open>Definitions\<close>

text \<open>
  str::lines: the text split at line feeds, each line without a final carriage return, no line after a
  final line feed. str::trim removes the code points with the White\_Space property at both ends, each
  here in its UTF-8 encoding.
\<close>

fun split_lines :: "string \<Rightarrow> string \<Rightarrow> string list" where
  "split_lines acc [] = (if acc = [] then [] else [acc])"
| "split_lines acc (c # cs) =
     (if c = CHR 0x0A then acc # split_lines [] cs else split_lines (acc @ [c]) cs)"

definition strip_cr :: "string \<Rightarrow> string" where
  "strip_cr line = (if line \<noteq> [] \<and> last line = CHR 0x0D then butlast line else line)"

text \<open>The carriage return goes with its line feed only: a last line that no line feed ends keeps its own.\<close>

definition str_lines :: "string \<Rightarrow> string list" where
  "str_lines body =
     (let lines = split_lines [] body in
      if body \<noteq> [] \<and> last body \<noteq> CHR 0x0A then map strip_cr (butlast lines) @ [last lines]
      else map strip_cr lines)"

definition white_space :: "string list" where
  "white_space =
     map (map char_of)
       ([[0x09], [0x0A], [0x0B], [0x0C], [0x0D], [0x20], [0xC2, 0x85], [0xC2, 0xA0], [0xE1, 0x9A, 0x80]] @
        map (\<lambda>n. [0xE2, 0x80, n]) [0x80..<0x8B] @
        [[0xE2, 0x80, 0xA8], [0xE2, 0x80, 0xA9], [0xE2, 0x80, 0xAF], [0xE2, 0x81, 0x9F], [0xE3, 0x80, 0x80 :: nat]])"

function trim_start :: "string list \<Rightarrow> string \<Rightarrow> string" where
  "trim_start ws s =
     (case find (\<lambda>w. w \<noteq> [] \<and> take (length w) s = w) ws of
        None \<Rightarrow> s
      | Some w \<Rightarrow> trim_start ws (drop (length w) s))"
  by pat_completeness auto
termination
proof (relation "measure (\<lambda>(_, s). length s)")
  show "((ws, drop (length w) s), ws, s) \<in> measure (\<lambda>(_, s). length s)"
    if "find (\<lambda>w. w \<noteq> [] \<and> take (length w) s = w) ws = Some w" for ws :: "string list" and s w
    using that by (cases s) (auto simp: find_Some_iff)
qed simp

declare trim_start.simps [simp del]

definition str_trim :: "string \<Rightarrow> string" where
  "str_trim s = rev (trim_start (map rev white_space) (rev (trim_start white_space s)))"

text \<open>str::split\_once at a one-byte separator.\<close>

primrec split_once :: "char \<Rightarrow> string \<Rightarrow> (string \<times> string) option" where
  "split_once sep [] = None"
| "split_once sep (c # cs) =
     (if c = sep then Some ([], cs)
      else case split_once sep cs of None \<Rightarrow> None | Some (a, b) \<Rightarrow> Some (c # a, b))"

definition parse_u16 :: "string \<Rightarrow> nat option" where
  "parse_u16 s =
     (let digits = (case s of c # cs \<Rightarrow> if c = CHR ''+'' then cs else s | [] \<Rightarrow> []) in
      if digits = [] then None
      else (case parse_digits 0 digits of
              None \<Rightarrow> None
            | Some v \<Rightarrow> if v \<le> 65535 then Some v else None))"

text \<open>u64::to\_string.\<close>

fun dec_string :: "nat \<Rightarrow> string" where
  "dec_string n = (if n < 10 then [char_of (48 + n)] else dec_string (n div 10) @ [char_of (48 + n mod 10)])"

declare dec_string.simps [simp del]


section \<open>Lemmas\<close>

text \<open>A digit is read back as its value.\<close>

lemma dec_value_char: "d < 10 \<Longrightarrow> dec_value (char_of (48 + d :: nat)) = Some d"
  by (simp add: dec_value_def)

lemma parse_digits_append:
  "parse_digits acc (xs @ [char_of (48 + d :: nat)]) = (case parse_digits acc xs of None \<Rightarrow> None | Some v \<Rightarrow> Some (10 * v + d))"
  if "d < 10"
  using that by (induction xs arbitrary: acc) (auto simp: dec_value_char split: option.splits)

lemma dec_string_parse: "parse_digits 0 (dec_string n) = Some n"
proof (induction n rule: dec_string.induct)
  case (1 n)
  show ?case
  proof (cases "n < 10")
    case True
    then show ?thesis by (subst dec_string.simps) (simp add: dec_value_char)
  next
    case False
    then show ?thesis
      using 1 by (subst dec_string.simps) (simp add: parse_digits_append mult_div_mod_eq)
  qed
qed

lemma dec_string_chars:
  "dec_string n \<noteq> [] \<and> (\<forall>c \<in> set (dec_string n). 48 \<le> (of_char c :: nat) \<and> (of_char c :: nat) \<le> 57)"
proof (induction n rule: dec_string.induct)
  case (1 n)
  have "n mod 10 < 10" by simp
  then have d: "(of_char (char_of (48 + n mod 10)) :: nat) = 48 + n mod 10" by simp
  show ?case
  proof (cases "n < 10")
    case True
    then show ?thesis by (subst (1 2) dec_string.simps) simp
  next
    case False
    then show ?thesis using 1 d \<open>n mod 10 < 10\<close> by (subst (1 2) dec_string.simps) auto
  qed
qed

text \<open>Printing a number and parsing it again.\<close>

lemma dec_string_plus: "(case dec_string n of c # cs \<Rightarrow> if c = CHR ''+'' then cs else dec_string n | [] \<Rightarrow> []) = dec_string n"
  using dec_string_chars [of n] by (cases "dec_string n") auto

lemma parse_u16_dec: "n \<le> 65535 \<Longrightarrow> parse_u16 (dec_string n) = Some n"
  using dec_string_chars [of n] by (simp add: parse_u16_def dec_string_plus dec_string_parse)

lemma parse_u64_dec: "n \<le> u64_max \<Longrightarrow> parse_u64 (dec_string n) = Some n"
  using dec_string_chars [of n] by (simp add: parse_u64_def dec_string_plus dec_string_parse)

end
