(* ===== verification/Service_Chain.thy ===== *)
theory Service_Chain
  imports Streamer Rust_Text
begin

text \<open>
  The small handlers of the service: chain information (src/service/chain.rs), single transactions
  (src/service/transactions.rs), tree states (src/service/treestate.rs) and the ping counter
  (src/service/ping.rs).
\<close>

section \<open>Chain information\<close>

definition get_latest_block :: "'x hex_ext_scheme \<Rightarrow> node_rpc \<Rightarrow> (status, block_id) result" where
  "get_latest_block X node =
     bindE (map_err node_to_status (rpc_get_blockchain_info node)) (\<lambda>info.
     bindE (map_err (\<lambda>e. mk_status Internal ''decoding best block hash: {}'' [hex_error_msg e])
              (display_hex_to_wire X (gbi_bestblockhash info))) (\<lambda>hash.
       Inr \<lparr>bi_height = gbi_blocks info, bi_hash = hash\<rparr>))"

definition SAPLING_BRANCH_ID :: string where
  "SAPLING_BRANCH_ID = ''76b809bb''"

definition LIGHTWALLET_PROTOCOL_VERSION :: string where
  "LIGHTWALLET_PROTOCOL_VERSION = ''v0.5.0''"

text \<open>Fields the source leaves at their defaults are left out.\<close>

record lightd_info =
  li_version :: string
  li_vendor :: string
  li_git_commit :: string
  li_taddr_support :: bool
  li_chain_name :: string
  li_sapling_activation_height :: u64
  li_consensus_branch_id :: string
  li_block_height :: u64
  li_estimated_height :: u64
  li_zcashd_build :: string
  li_zcashd_subversion :: string
  li_donation_address :: string
  li_upgrade_name :: string
  li_upgrade_height :: u64
  li_lightwallet_protocol_version :: string

text \<open>Iterator::min\_by\_key, which returns the first of several minimal elements.\<close>

fun min_by_key :: "('a \<Rightarrow> nat) \<Rightarrow> 'a list \<Rightarrow> 'a option" where
  "min_by_key f [] = None"
| "min_by_key f (x # xs) =
     (case min_by_key f xs of None \<Rightarrow> Some x | Some y \<Rightarrow> if f x \<le> f y then Some x else Some y)"

text \<open>
  The upgrades of the node's reply are a map; its values are visited in some order, which is the order of
  the list. The build stamps are those of the compiled program.
\<close>

definition get_lightd_info ::
    "string \<Rightarrow> string \<Rightarrow> streamer \<Rightarrow> node_rpc \<Rightarrow> (status, lightd_info) result" where
  "get_lightd_info pkg_version git_commit s node =
     bindE (map_err node_to_status (rpc_get_info node)) (\<lambda>node_info.
     bindE (map_err node_to_status (rpc_get_blockchain_info node)) (\<lambda>chain.
       let sapling_activation_height =
             (case map_of (gbi_upgrades chain) SAPLING_BRANCH_ID of
                Some up \<Rightarrow> up_activationheight up | None \<Rightarrow> 0);
           (upgrade_name, upgrade_height) =
             (case min_by_key up_activationheight
                     (filter (\<lambda>up. up_status up = ''pending'') (map snd (gbi_upgrades chain))) of
                Some up \<Rightarrow> (up_name up, up_activationheight up) | None \<Rightarrow> ([], 0)) in
       Inr \<lparr>li_version = pkg_version, li_vendor = ''lightwalletd-rs'', li_git_commit = git_commit,
            li_taddr_support = True, li_chain_name = gbi_chain chain,
            li_sapling_activation_height = sapling_activation_height,
            li_consensus_branch_id = gbi_consensus_chaintip chain, li_block_height = gbi_blocks chain,
            li_estimated_height = gbi_estimatedheight chain, li_zcashd_build = gi_build node_info,
            li_zcashd_subversion = gi_subversion node_info,
            li_donation_address = (case sr_donation_address s of Some a \<Rightarrow> a | None \<Rightarrow> []),
            li_upgrade_name = upgrade_name, li_upgrade_height = upgrade_height,
            li_lightwallet_protocol_version = LIGHTWALLET_PROTOCOL_VERSION\<rparr>))"


section \<open>Transactions\<close>

definition get_transaction ::
    "'x hex_ext_scheme \<Rightarrow> node_rpc \<Rightarrow> tx_filter \<Rightarrow> (status, raw_transaction) result" where
  "get_transaction X node flt =
     (if tf_hash flt = [] then
        if (case tf_block flt of Some block \<Rightarrow> bi_hash block \<noteq> [] | None \<Rightarrow> False)
        then Inl (mk_status InvalidArgument ''get_transaction: specify a txid, not a blockhash'' [])
        else Inl (mk_status InvalidArgument ''get_transaction: specify a txid'' [])
      else
        bindE (failIf (length (tf_hash flt) \<noteq> 32)
                 (mk_status InvalidArgument ''get_transaction: transaction ID has invalid length: {}''
                    [Num (length (tf_hash flt))])) (\<lambda>_.
        bindE (map_err transaction_lookup_to_status
                 (rpc_get_raw_transaction node (wire_to_display_hex X (tf_hash flt)))) (\<lambda>raw.
        bindE (decode_hex X (grt_hex raw) ''transaction hex'') (\<lambda>data.
          Inr \<lparr>rt_data = data, rt_height = mined_height (grt_height raw)\<rparr>))))"

record send_response =
  sd_error_code :: int
  sd_error_message :: string

definition send_transaction ::
    "'x hex_ext_scheme \<Rightarrow> node_rpc \<Rightarrow> raw_transaction \<Rightarrow> (status, send_response) result" where
  "send_transaction X node raw_transaction =
     bindE (failIf (rt_data raw_transaction = [])
              (mk_status InvalidArgument ''send_transaction: bad transaction data'' [])) (\<lambda>_.
       case rpc_send_raw_transaction node (hex_encode X (rt_data raw_transaction)) of
         Inr sent \<Rightarrow> Inr \<lparr>sd_error_code = 0, sd_error_message = sent\<rparr>
       | Inl (Rpc code message) \<Rightarrow> Inr \<lparr>sd_error_code = as_i32 code, sd_error_message = message\<rparr>
       | Inl other \<Rightarrow> Inl (node_to_status other))"


section \<open>Tree states\<close>

record tree_state =
  ts_network :: string
  ts_height :: u64
  ts_hash :: string
  ts_time :: u32
  ts_sapling_tree :: string
  ts_orchard_tree :: string
  ts_ironwood_tree :: string

definition HASH_LEN :: usize where
  "HASH_LEN = 32"

definition treestate_id :: "'x hex_ext_scheme \<Rightarrow> block_id \<Rightarrow> (status, string) result" where
  "treestate_id X block_id =
     bindE (failIf (bi_height block_id = 0 \<and> bi_hash block_id = [])
              (mk_status InvalidArgument ''get_tree_state: must specify a block height or hash'' [])) (\<lambda>_.
     if bi_height block_id > 0 then Inr (dec_string (bi_height block_id))
     else
       bindE (failIf (length (bi_hash block_id) \<noteq> HASH_LEN)
                (mk_status InvalidArgument ''get_tree_state: block hash has invalid length: {}''
                   [Num (length (bi_hash block_id))])) (\<lambda>_.
         Inr (wire_to_display_hex X (bi_hash block_id))))"

definition node_tree_state_to_proto :: "string \<Rightarrow> get_tree_state \<Rightarrow> (status, tree_state) result" where
  "node_tree_state_to_proto network state =
     bindE (failIf (gts_sapling state = [] \<and> gts_orchard state = [] \<and> gts_ironwood state = [])
              (mk_status InvalidArgument ''get_tree_state: no tree state at height {} (before Sapling activation?)''
                 [Num (gts_height state)])) (\<lambda>_.
       Inr \<lparr>ts_network = network, ts_height = gts_height state, ts_hash = gts_hash state, ts_time = gts_time state,
            ts_sapling_tree = gts_sapling state, ts_orchard_tree = gts_orchard state,
            ts_ironwood_tree = gts_ironwood state\<rparr>)"

definition get_tree_state ::
    "'x hex_ext_scheme \<Rightarrow> streamer \<Rightarrow> node_rpc \<Rightarrow> block_id \<Rightarrow> (status, tree_state) result" where
  "get_tree_state X s node block_id =
     bindE (treestate_id X block_id) (\<lambda>id.
     bindE (map_err node_to_status (rpc_get_treestate node id)) (\<lambda>tree_state.
       node_tree_state_to_proto (sr_network s) tree_state))"

definition get_latest_tree_state :: "streamer \<Rightarrow> node_rpc \<Rightarrow> (status, tree_state) result" where
  "get_latest_tree_state s node =
     bindE (map_err node_to_status (rpc_get_blockchain_info node)) (\<lambda>chain_info.
     bindE (map_err node_to_status (rpc_get_treestate node (dec_string (gbi_blocks chain_info)))) (\<lambda>tree_state.
       node_tree_state_to_proto (sr_network s) tree_state))"


section \<open>Ping\<close>

text \<open>
  The in-flight count shared by all calls, and a call's slot in it. Each operation is one atomic update;
  a call either exits or, when it is cancelled during its sleep, drops its slot. Interleavings of calls are
  sequences of these events.
\<close>

record in_flight =
  if_held :: bool

definition ping_enter :: "int \<Rightarrow> int \<times> in_flight \<times> int" where
  "ping_enter count = (let entry = count + 1 in (count + 1, \<lparr>if_held = True\<rparr>, entry))"

definition ping_exit :: "int \<Rightarrow> in_flight \<Rightarrow> int \<times> in_flight \<times> int" where
  "ping_exit count slot = (count - 1, slot\<lparr>if_held := False\<rparr>, count - 1)"

definition ping_drop :: "int \<Rightarrow> in_flight \<Rightarrow> int" where
  "ping_drop count slot = (if if_held slot then count - 1 else count)"

text \<open>A finished call: its slot is given back by exit, and the guard dropped after it gives nothing back.\<close>

definition ping_leave :: "int \<Rightarrow> in_flight \<Rightarrow> int \<times> int" where
  "ping_leave count slot = (let (count, slot, exit) = ping_exit count slot in (ping_drop count slot, exit))"

datatype ping_event = Enter nat | Leave nat | Cancel nat

text \<open>The service as calls come and go: the shared count and the slot of every call in progress.\<close>

inductive ping_step :: "bool \<Rightarrow> int \<times> (nat \<rightharpoonup> in_flight) \<Rightarrow> ping_event \<Rightarrow> int \<times> (nat \<rightharpoonup> in_flight) \<Rightarrow> bool" for enabled where
  enter: "enabled \<Longrightarrow> calls c = None \<Longrightarrow> ping_enter count = (count', slot, entry) \<Longrightarrow>
     ping_step enabled (count, calls) (Enter c) (count', calls(c \<mapsto> slot))"
| leave: "calls c = Some slot \<Longrightarrow> ping_leave count slot = (count', exit) \<Longrightarrow>
     ping_step enabled (count, calls) (Leave c) (count', calls(c := None))"
| cancel: "calls c = Some slot \<Longrightarrow> ping_drop count slot = count' \<Longrightarrow>
     ping_step enabled (count, calls) (Cancel c) (count', calls(c := None))"

inductive ping_reach :: "bool \<Rightarrow> int \<times> (nat \<rightharpoonup> in_flight) \<Rightarrow> bool" for enabled where
  start: "ping_reach enabled (0, Map.empty)"
| step: "ping_reach enabled s \<Longrightarrow> ping_step enabled s e s' \<Longrightarrow> ping_reach enabled s'"


section \<open>Properties\<close>

lemma ping_remove:
  assumes "finite (dom calls)" and "calls c = Some slot"
  shows "finite (dom (calls(c := None))) \<and> int (card (dom (calls(c := None)))) = int (card (dom calls)) - 1"
proof -
  have "card (dom calls) = Suc (card (dom calls - {c}))"
    using assms by (intro card.remove [of "dom calls" c]) auto
  then show ?thesis using assms(1) by simp
qed

lemma ping_count:
  assumes "ping_reach enabled s"
  shows "finite (dom (snd s)) \<and> fst s = int (card (dom (snd s))) \<and> (\<forall>c slot. snd s c = Some slot \<longrightarrow> if_held slot) \<and>
    (enabled \<or> snd s = Map.empty)"
  using assms
proof (induction rule: ping_reach.induct)
  case (step s e s')
  from step.hyps(2) show ?case
  proof (cases rule: ping_step.cases)
    case (enter calls c count count' slot entry)
    then have new: "dom (snd s') = insert c (dom calls)" "c \<notin> dom calls" "fst s' = count + 1" "if_held slot"
      by (auto simp: ping_enter_def Let_def simp del: fun_upd_apply)
    have old: "finite (dom calls)" "count = int (card (dom calls))" "\<forall>c slot. calls c = Some slot \<longrightarrow> if_held slot"
      using step.IH enter(1) by simp_all
    have "\<forall>c slot. snd s' c = Some slot \<longrightarrow> if_held slot" using old(3) new(4) enter(3) by simp
    then show ?thesis unfolding new(1,3) using new(2) old(1,2) enter(4) by simp
  next
    case (leave calls c slot count count' exit)
    then have "finite (dom calls)" "count = int (card (dom calls))" "if_held slot"
      "\<forall>c slot. snd s' c = Some slot \<longrightarrow> if_held slot" "fst s' = count - 1"
      using step.IH by (auto simp: ping_leave_def ping_exit_def ping_drop_def Let_def split: if_splits)
    moreover from this leave(4) have "enabled" using step.IH leave(1) by auto
    ultimately show ?thesis using ping_remove [of calls c slot] leave(3,4) by (simp del: fun_upd_apply)
  next
    case (cancel calls c slot count count')
    then have "finite (dom calls)" "count = int (card (dom calls))" "if_held slot"
      "\<forall>c slot. snd s' c = Some slot \<longrightarrow> if_held slot" "fst s' = count - 1"
      using step.IH by (auto simp: ping_drop_def split: if_splits)
    moreover from this cancel(4) have "enabled" using step.IH cancel(1) by auto
    ultimately show ?thesis using ping_remove [of calls c slot] cancel(3,4) by (simp del: fun_upd_apply)
  qed
qed auto

text \<open>
  The in-flight count of the ping method is the number of calls in flight. However calls enter, leave
  and are cancelled during their sleep, the shared counter is the number of calls in progress, so a slot is
  neither leaked nor given back twice, and the entry count reported to a new call includes it.
\<close>

theorem ping_counts_calls:
  assumes "ping_reach enabled (count, calls)"
  shows "count = int (card (dom calls)) \<and> (\<not> enabled \<longrightarrow> calls = Map.empty) \<and>
    snd (snd (ping_enter count)) = int (card (dom calls)) + 1"
  using ping_count [OF assms] by (auto simp: ping_enter_def Let_def)

theorem ping_counts_calls_witness:
  "\<exists>calls. ping_reach True (1, calls) \<and> card (dom calls) = 1"
proof -
  have one: "ping_reach True (1, [3 \<mapsto> \<lparr>if_held = True\<rparr>])"
    by (rule ping_reach.step [OF ping_reach.start, of _ "Enter 3"])
      (rule ping_step.enter, simp_all add: ping_enter_def)
  have two: "ping_reach True (2, [3 \<mapsto> \<lparr>if_held = True\<rparr>, 4 \<mapsto> \<lparr>if_held = True\<rparr>])"
    by (rule ping_reach.step [OF one, of "Enter 4"]) (rule ping_step.enter, simp_all add: ping_enter_def)
  have "ping_step True (2, [3 \<mapsto> \<lparr>if_held = True\<rparr>, 4 \<mapsto> \<lparr>if_held = True\<rparr>]) (Cancel 3)
      (1, [3 \<mapsto> \<lparr>if_held = True\<rparr>, 4 \<mapsto> \<lparr>if_held = True\<rparr>](3 := None))"
    by (rule ping_step.cancel [of _ _ "\<lparr>if_held = True\<rparr>"]) (simp_all add: ping_drop_def)
  from ping_counts_calls [OF ping_reach.step [OF two this]] ping_reach.step [OF two this]
  show ?thesis by auto
qed

text \<open>
  Transactions pass through unchanged. A transaction is looked up by the display form of the 32-byte
  id the client gave and returned with the node's bytes, its height mapped so that an off-chain transaction
  has the largest height; one that is sent reaches the node as the hex of exactly the client's bytes, and a
  rejection by the node comes back in the reply, not as a failed call.
\<close>

theorem transactions_pass_through:
  assumes "hex_contract X"
  shows "(get_transaction X node flt = Inr tx \<longrightarrow>
      length (tf_hash flt) = 32 \<and>
      (\<exists>shown raw. display_hex_to_wire X shown = Inr (tf_hash flt) \<and> rpc_get_raw_transaction node shown = Inr raw \<and>
         hex_decode X (grt_hex raw) = Inr (rt_data tx) \<and>
         rt_height tx = (if grt_height raw < 0 then u64_max else nat (grt_height raw)))) \<and>
    (rt_data tx \<noteq> [] \<longrightarrow>
      (\<exists>sent. hex_decode X sent = Inr (rt_data tx) \<and>
         send_transaction X node tx =
           (case rpc_send_raw_transaction node sent of
              Inr t \<Rightarrow> Inr \<lparr>sd_error_code = 0, sd_error_message = t\<rparr>
            | Inl (Rpc code message) \<Rightarrow> Inr \<lparr>sd_error_code = as_i32 code, sd_error_message = message\<rparr>
            | Inl other \<Rightarrow> Inl (node_to_status other))))"
proof (intro conjI impI)
  assume get: "get_transaction X node flt = Inr tx"
  then show "length (tf_hash flt) = 32"
    by (auto simp: get_transaction_def result_simps split: if_splits)
  from get show "\<exists>shown raw. display_hex_to_wire X shown = Inr (tf_hash flt) \<and> rpc_get_raw_transaction node shown = Inr raw \<and>
         hex_decode X (grt_hex raw) = Inr (rt_data tx) \<and>
         rt_height tx = (if grt_height raw < 0 then u64_max else nat (grt_height raw))"
    using hex_contract.display_wire_roundtrip [OF assms]
    by (fastforce simp: get_transaction_def result_simps decode_hex_def mined_height_def split: if_splits)
next
  assume "rt_data tx \<noteq> []"
  then show "\<exists>sent. hex_decode X sent = Inr (rt_data tx) \<and>
         send_transaction X node tx =
           (case rpc_send_raw_transaction node sent of
              Inr t \<Rightarrow> Inr \<lparr>sd_error_code = 0, sd_error_message = t\<rparr>
            | Inl (Rpc code message) \<Rightarrow> Inr \<lparr>sd_error_code = as_i32 code, sd_error_message = message\<rparr>
            | Inl other \<Rightarrow> Inl (node_to_status other))"
    using hex_contract.hex_decode_encode [OF assms]
    by (intro exI [of _ "hex_encode X (rt_data tx)"]) (simp add: send_transaction_def)
qed

definition ref_tx_node :: node_rpc where
  "ref_tx_node = dead_node\<lparr>rpc_get_raw_transaction := (\<lambda>t. Inr \<lparr>grt_hex = ''0a0b'', grt_height = -1\<rparr>),
     rpc_send_raw_transaction := (\<lambda>t. Inl (Rpc (-25) ''rejected''))\<rparr>"

theorem transactions_pass_through_witness:
  "\<exists>tx. get_transaction ref_parse ref_tx_node \<lparr>tf_block = None, tf_index = 0, tf_hash = replicate 32 7\<rparr> = Inr tx \<and>
     rt_height tx = u64_max \<and> send_transaction ref_parse ref_tx_node tx =
       Inr \<lparr>sd_error_code = -25, sd_error_message = ''rejected''\<rparr>"
proof -
  have "case get_transaction ref_parse ref_tx_node \<lparr>tf_block = None, tf_index = 0, tf_hash = replicate 32 7\<rparr> of
      Inr tx \<Rightarrow> rt_data tx = [10, 11] | Inl _ \<Rightarrow> False" by code_simp
  then obtain tx where tx: "get_transaction ref_parse ref_tx_node \<lparr>tf_block = None, tf_index = 0, tf_hash = replicate 32 7\<rparr> = Inr tx"
    and d: "rt_data tx \<noteq> []" by (auto split: sum.splits)
  note both = transactions_pass_through [OF parse_contract.axioms(1) [OF rp.parse_contract_axioms]]
  from conjunct1 [OF both, rule_format, OF tx] have "rt_height tx = u64_max" by (auto simp: ref_tx_node_def)
  moreover from conjunct2 [OF both, rule_format, OF d, of ref_tx_node]
  have "send_transaction ref_parse ref_tx_node tx = Inr \<lparr>sd_error_code = -25, sd_error_message = ''rejected''\<rparr>"
    by (auto simp: ref_tx_node_def as_i32_def)
  ultimately show ?thesis using tx by blast
qed

end
