(* ===== verification/Service_Subtrees.thy ===== *)
theory Service_Subtrees
  imports Streamer Framing Cache_Laws Cache_Ref
begin

text \<open>
  src/service/subtrees.rs: the roots of note-commitment subtrees, each with the height and hash of the
  block that completed it. The hashes come from the cache where it holds the block and from batched
  lookups at the node otherwise.
\<close>

record subtree_root =
  sbr_root_hash :: bytes
  sbr_completing_block_hash :: bytes
  sbr_completing_block_height :: u64

record get_subtree_roots_arg =
  gs_start_index :: u32
  gs_shielded_protocol :: int
  gs_max_entries :: u32

definition INVALID_POOL_NAME :: string where
  "INVALID_POOL_NAME = ''invalid pool name''"

definition MAX_SUBTREE_INDEX :: u32 where
  "MAX_SUBTREE_INDEX = 65535"

definition HASH_LOOKUP_BATCH :: usize where
  "HASH_LOOKUP_BATCH = 1000"

text \<open>
  What a request sees: the cache with the store's failures, the node, whether the deadline elapsed before
  the subtree query and before the i-th batch of hashes, and in darkside mode the staged roots.
\<close>

record ('b, 'm) subtree_env =
  sv_faults :: faults
  sv_db :: "('b, 'm) db"
  sv_node :: node_rpc
  sv_query_elapsed :: bool
  sv_batch_elapsed :: "nat \<Rightarrow> bool"
  sv_darkside :: "(int \<Rightarrow> u32 \<Rightarrow> u32 \<Rightarrow> subtree_root list) option"

text \<open>The i-th batch of lookups.\<close>

definition lookup_hashes ::
    "'x hex_ext_scheme \<Rightarrow> ('b, 'm) subtree_env \<Rightarrow> nat \<times> u64 list \<Rightarrow> (u64 \<times> bytes) list
      \<Rightarrow> (status, (u64 \<times> bytes) list) result" where
  "lookup_hashes X env ib fetched =
     (case ib of (i, batch) \<Rightarrow>
        bindE (with_deadline (sv_batch_elapsed env i) ''get_subtree_roots'' (rpc_get_block_hashes (sv_node env) batch))
          (\<lambda>reply.
        bindE (map_err node_to_status reply) (\<lambda>hashes.
        bindE (failIf (length hashes \<noteq> length batch)
                 (mk_status Internal ''asked the node for {} block hashes, got {}''
                    [Num (length batch), Num (length hashes)])) (\<lambda>_.
          foldE (\<lambda>(height, hash) fetched.
              bindE (decode_hex X hash ''completing block hash'') (\<lambda>bytes. Inr (fetched @ [(height, bytes)])))
            (zip batch hashes) fetched))))"

definition completing_block_hashes ::
    "('b, 'm) cache_ext \<Rightarrow> 'x hex_ext_scheme \<Rightarrow> ('b, 'm) subtree_env \<Rightarrow> subtree list \<Rightarrow> (status, bytes list) result" where
  "completing_block_hashes E X env subtrees =
     (let heights = map sub_end_height subtrees in
     bindE (map_err cache_to_status (hashes_at E (sv_faults env) (sv_db env) heights)) (\<lambda>cached.
       let missing = sorted_list_of_set (set (filter (\<lambda>height. map_of cached height = None) heights)) in
     bindE (foldE (lookup_hashes X env) (enumerate 0 (chunks_of HASH_LOOKUP_BATCH missing)) []) (\<lambda>fetched.
       mapE (\<lambda>height.
           case map_of cached height of
             Some hash \<Rightarrow> Inr (wire_to_display_bytes hash)
           | None \<Rightarrow>
               ok_or (mk_status Internal ''no block hash resolved for height {}'' [Num height])
                 (map_of fetched height))
         heights)))"

definition subtree_root_of :: "'x hex_ext_scheme \<Rightarrow> subtree \<times> bytes \<Rightarrow> (status, subtree_root) result" where
  "subtree_root_of X sh =
     (case sh of (subtree, completing_block_hash) \<Rightarrow>
        bindE (decode_hex X (sub_root subtree) ''subtree root'') (\<lambda>root_hash.
          Inr \<lparr>sbr_root_hash = root_hash, sbr_completing_block_hash = completing_block_hash,
               sbr_completing_block_height = sub_end_height subtree\<rparr>))"

text \<open>Serving from the node.\<close>

definition live_subtree_roots ::
    "('b, 'm) cache_ext \<Rightarrow> 'x hex_ext_scheme \<Rightarrow> (subtree_root \<Rightarrow> usize) \<Rightarrow> ('b, 'm) subtree_env
      \<Rightarrow> string \<Rightarrow> u32 \<Rightarrow> u32 \<Rightarrow> (status, subtree_root items) result" where
  "live_subtree_roots E X encoded_len env protocol start_index max_entries =
     bindE (with_deadline (sv_query_elapsed env) ''get_subtree_roots''
              (rpc_get_subtrees (sv_node env) protocol start_index max_entries)) (\<lambda>reply.
       case reply of
         Inl err \<Rightarrow>
           (case err of
              Rpc code message \<Rightarrow>
                if str_contains message INVALID_POOL_NAME then Inr [] else Inl (node_to_status err)
            | _ \<Rightarrow> Inl (node_to_status err))
       | Inr subtrees \<Rightarrow>
           let subtrees = take (MAX_SUBTREE_INDEX - start_index + 1) subtrees in
           bindE (completing_block_hashes E X env subtrees) (\<lambda>completing_hashes.
             Inr (coalesce encoded_len (try_items (subtree_root_of X) (zip subtrees completing_hashes)))))"

definition get_subtree_roots ::
    "('b, 'm) cache_ext \<Rightarrow> 'x hex_ext_scheme \<Rightarrow> (subtree_root \<Rightarrow> usize) \<Rightarrow> ('b, 'm) subtree_env
      \<Rightarrow> get_subtree_roots_arg \<Rightarrow> (status, subtree_root items) result" where
  "get_subtree_roots E X encoded_len env arg =
     bindE
       (if gs_shielded_protocol arg = 0 then Inr ''sapling''
        else if gs_shielded_protocol arg = 1 then Inr ''orchard''
        else if gs_shielded_protocol arg = 2 then Inr ''ironwood''
        else Inl (mk_status InvalidArgument ''unrecognized shielded protocol'' [])) (\<lambda>protocol.
     bindE (failIf (gs_start_index arg > MAX_SUBTREE_INDEX)
              (mk_status InvalidArgument
                 ''start_index {} is above the highest subtree index the node can address ({})''
                 [Num (gs_start_index arg), Num MAX_SUBTREE_INDEX])) (\<lambda>_.
       let max_entries = (if gs_max_entries arg > MAX_SUBTREE_INDEX then 0 else gs_max_entries arg) in
       case sv_darkside env of
         Some subtree_roots_for \<Rightarrow>
           Inr (map Inr (subtree_roots_for (gs_shielded_protocol arg) (gs_start_index arg) max_entries))
       | None \<Rightarrow> live_subtree_roots E X encoded_len env protocol (gs_start_index arg) max_entries))"


section \<open>Lemmas\<close>

definition all_told :: "'x hex_ext_scheme \<Rightarrow> ('b, 'm) subtree_env \<Rightarrow> (u64 \<times> bytes) list \<Rightarrow> bool" where
  "all_told X env fetched \<longleftrightarrow> (\<forall>h bytes. (h, bytes) \<in> set fetched \<longrightarrow>
     (\<exists>shown. node_says (sv_node env) h shown \<and> hex_decode X shown = Inr bytes))"

lemma map_of_found:
  "map_of (concat (map (\<lambda>h. case g h of None \<Rightarrow> [] | Some x \<Rightarrow> [(h, x)]) hs)) k =
     (if k \<in> set hs then g k else None)"
  by (induction hs) (auto split: option.splits)

lemma lookup_hashes_sound:
  assumes "lookup_hashes X env ib fetched = Inr out" and "all_told X env fetched"
  shows "all_told X env out"
proof -
  obtain i batch where ib: "ib = (i, batch)" by (cases ib)
  from assms(1) ib obtain hashes where hashes: "rpc_get_block_hashes (sv_node env) batch = Inr hashes"
    "length hashes = length batch"
    and fold: "foldE (\<lambda>(height, hash) fetched.
        bindE (decode_hex X hash ''completing block hash'') (\<lambda>bytes. Inr (fetched @ [(height, bytes)])))
      (zip batch hashes) fetched = Inr out"
    by (auto simp: lookup_hashes_def result_simps)
  have told: "node_says (sv_node env) h shown" if "(h, shown) \<in> set (zip batch hashes)" for h shown
    by (rule node_saysI [OF hashes that])
  show ?thesis
  proof (rule foldE_invariant [OF fold, where P = "all_told X env"])
    show "all_told X env l'" if "x \<in> set (zip batch hashes)" "all_told X env l" and
      "(case x of (height, hash) \<Rightarrow> \<lambda>fetched. bindE (decode_hex X hash ''completing block hash'')
          (\<lambda>bytes. Inr (fetched @ [(height, bytes)]))) l = Inr l'" for x l l'
    proof -
      obtain h shown where x: "x = (h, shown)" by (cases x)
      with that(3) obtain bytes where "hex_decode X shown = Inr bytes" "l' = l @ [(h, bytes)]"
        by (auto simp: result_simps decode_hex_def)
      then show ?thesis using that(1,2) told [of h shown] x by (auto simp: all_told_def)
    qed
  qed (rule assms(2))
qed

context cache_contract
begin

lemma hashes_at_sound:
  assumes "stores E (db_blocks d) bs" and "hashes_at E flt d heights = Inr found"
  shows "map_of found h =
    (if h \<in> set heights then map_option cb_hash (find (\<lambda>b. cb_height b = h) bs) else None)"
proof -
  define g where "g h = map_option cb_hash (find (\<lambda>b. cb_height b = h) bs)" for h
  have "out = acc @ concat (map (\<lambda>h. case g h of None \<Rightarrow> [] | Some x \<Rightarrow> [(h, x)]) hs)"
    if "foldE (\<lambda>height hashes.
           bindE (redb_try flt (TableGet height)) (\<lambda>_.
             case tbl_get (blocks_ops E) (db_blocks d) height of
               Some bytes \<Rightarrow>
                 bindE (map_err Decode (stored_hash_decode E bytes)) (\<lambda>h. Inr (hashes @ [(height, h)]))
             | None \<Rightarrow> Inr hashes)) hs acc = Inr out" for hs acc out
    using that
  proof (induction hs arbitrary: acc)
    case (Cons height hs)
    then show ?case
      using stores_get [OF assms(1), of height] stored_hash
      by (fastforce simp: g_def result_simps split: option.splits)
  qed simp
  from this [of heights "[]" found] assms(2) have
    "found = concat (map (\<lambda>h. case g h of None \<Rightarrow> [] | Some x \<Rightarrow> [(h, x)]) heights)"
    by (auto simp: hashes_at_def result_simps)
  then show ?thesis by (simp only: map_of_found g_def)
qed

lemma completing_hashes_sound:
  assumes "stores E (db_blocks (sv_db env)) bs" and "completing_block_hashes E X env subtrees = Inr hashes"
  shows "length hashes = length subtrees \<and>
    (\<forall>i < length subtrees. case find (\<lambda>b. cb_height b = sub_end_height (subtrees ! i)) bs of
       Some b \<Rightarrow> hashes ! i = rev (cb_hash b)
     | None \<Rightarrow> \<exists>shown. node_says (sv_node env) (sub_end_height (subtrees ! i)) shown \<and>
                hex_decode X shown = Inr (hashes ! i))"
proof -
  let ?heights = "map sub_end_height subtrees"
  from assms(2) obtain cached fetched where
    cached: "hashes_at E (sv_faults env) (sv_db env) ?heights = Inr cached"
    and fetched: "foldE (lookup_hashes X env) (enumerate 0 (chunks_of HASH_LOOKUP_BATCH
        (sorted_list_of_set (set (filter (\<lambda>height. map_of cached height = None) ?heights))))) [] = Inr fetched"
    and out: "mapE (\<lambda>height.
           case map_of cached height of
             Some hash \<Rightarrow> Inr (wire_to_display_bytes hash)
           | None \<Rightarrow>
               ok_or (mk_status Internal ''no block hash resolved for height {}'' [Num height])
                 (map_of fetched height)) ?heights = Inr hashes"
    by (auto simp: completing_block_hashes_def result_simps Let_def)
  have told: "all_told X env fetched"
    by (rule foldE_invariant [OF fetched, where P = "all_told X env"])
      (simp add: all_told_def, rule lookup_hashes_sound)
  have "case find (\<lambda>b. cb_height b = sub_end_height (subtrees ! i)) bs of
       Some b \<Rightarrow> hashes ! i = rev (cb_hash b)
     | None \<Rightarrow> \<exists>shown. node_says (sv_node env) (sub_end_height (subtrees ! i)) shown \<and>
                hex_decode X shown = Inr (hashes ! i)" if i: "i < length subtrees" for i
  proof -
    let ?h = "sub_end_height (subtrees ! i)"
    have "(case map_of cached ?h of Some hash \<Rightarrow> Inr (wire_to_display_bytes hash)
        | None \<Rightarrow> ok_or (mk_status Internal ''no block hash resolved for height {}'' [Num ?h]) (map_of fetched ?h)) =
        Inr (hashes ! i)"
      using mapE_Inr_nth [OF out, of i] i unfolding length_map nth_map [OF i] by blast
    moreover have "map_of cached ?h = map_option cb_hash (find (\<lambda>b. cb_height b = ?h) bs)"
      using hashes_at_sound [OF assms(1) cached, of ?h] i by simp
    ultimately show ?thesis
      using told unfolding all_told_def
      by (auto simp: wire_to_display_bytes_def result_simps dest!: map_of_SomeD split: option.splits)
  qed
  moreover have "length hashes = length subtrees" using mapE_Inr_length [OF out] by simp
  ultimately show ?thesis by blast
qed

end


context cache_contract
begin

lemma live_subtree_roots_sound:
  assumes "stores E (db_blocks (sv_db env)) bs" and "start \<le> MAX_SUBTREE_INDEX"
    and "live_subtree_roots E X encoded_len env protocol start max_entries = Inr items"
  shows "case rpc_get_subtrees (sv_node env) protocol start max_entries of
      Inl err \<Rightarrow> items = [] \<and> (\<exists>code message. err = Rpc code message \<and> str_contains message INVALID_POOL_NAME)
    | Inr subtrees \<Rightarrow> \<exists>hashes. length hashes = min (length subtrees) (65536 - start) \<and>
        items = try_items (subtree_root_of X) (zip subtrees hashes) \<and>
        (\<forall>i < length hashes. case find (\<lambda>b. cb_height b = sub_end_height (subtrees ! i)) bs of
           Some b \<Rightarrow> hashes ! i = rev (cb_hash b)
         | None \<Rightarrow> \<exists>shown. node_says (sv_node env) (sub_end_height (subtrees ! i)) shown \<and>
                    hex_decode X shown = Inr (hashes ! i))"
proof (cases "rpc_get_subtrees (sv_node env) protocol start max_entries")
  case (Inl err)
  then show ?thesis using assms(3)
    by (cases err) (auto simp: live_subtree_roots_def result_simps split: if_splits)
next
  case (Inr subtrees)
  let ?taken = "take (MAX_SUBTREE_INDEX - start + 1) subtrees"
  obtain hashes where hashes: "completing_block_hashes E X env ?taken = Inr hashes"
    and items: "items = try_items (subtree_root_of X) (zip ?taken hashes)"
    using assms(3) Inr by (auto simp: live_subtree_roots_def result_simps Let_def coalesce_eq)
  note sound = completing_hashes_sound [OF assms(1) hashes]
  have len: "length hashes = min (length subtrees) (65536 - start)"
    using sound assms(2) by (simp add: MAX_SUBTREE_INDEX_def Suc_diff_le)
  have "zip ?taken hashes = zip subtrees hashes"
    using sound by (intro nth_equalityI) auto
  moreover have "case find (\<lambda>b. cb_height b = sub_end_height (subtrees ! i)) bs of
         Some b \<Rightarrow> hashes ! i = rev (cb_hash b)
       | None \<Rightarrow> \<exists>shown. node_says (sv_node env) (sub_end_height (subtrees ! i)) shown \<and>
                  hex_decode X shown = Inr (hashes ! i)" if "i < length hashes" for i
  proof -
    have i: "?taken ! i = subtrees ! i" "i < length ?taken" using that sound by simp_all
    show ?thesis using conjunct2 [OF sound, rule_format, OF i(2)] unfolding i(1) .
  qed
  ultimately show ?thesis
    unfolding Inr sum.case using items len by (intro exI [of _ hashes]) simp
qed

end


section \<open>Properties\<close>

text \<open>
  C14: subtree roots come with the right completing blocks. A request that is served live (not staged) and
  does not fail up front queried one of the three pools from an addressable index, and streams the roots of
  the subtrees the node listed, in order and no more than can be addressed from the start index, up to the
  first root that does not decode: each carries the completing height the node gave, and in display order
  the hash of the block the cache holds at that height, or, where it holds none, the hash the node gave for
  that very height. A node that does not know the pool yields no roots.
\<close>

theorem subtree_roots_sound:
  assumes "cache_contract E" and "stores E (db_blocks (sv_db env)) bs" and "sv_darkside env = None"
    and "get_subtree_roots E X encoded_len env arg = Inr items"
  shows "gs_start_index arg \<le> 65535 \<and> (\<exists>protocol \<in> {''sapling'', ''orchard'', ''ironwood''}. \<exists>max_entries \<le> 65535.
    case rpc_get_subtrees (sv_node env) protocol (gs_start_index arg) max_entries of
      Inl err \<Rightarrow> items = [] \<and> (\<exists>code message. err = Rpc code message \<and> str_contains message INVALID_POOL_NAME)
    | Inr subtrees \<Rightarrow> \<exists>hashes. length hashes = min (length subtrees) (65536 - gs_start_index arg) \<and>
        items = try_items (subtree_root_of X) (zip subtrees hashes) \<and>
        (\<forall>i < length hashes. case find (\<lambda>b. cb_height b = sub_end_height (subtrees ! i)) bs of
           Some b \<Rightarrow> hashes ! i = rev (cb_hash b)
         | None \<Rightarrow> \<exists>shown. node_says (sv_node env) (sub_end_height (subtrees ! i)) shown \<and>
                    hex_decode X shown = Inr (hashes ! i)))"
proof -
  define max_entries where "max_entries = (if gs_max_entries arg > MAX_SUBTREE_INDEX then 0 else gs_max_entries arg)"
  obtain protocol where p: "protocol \<in> {''sapling'', ''orchard'', ''ironwood''}"
    and start: "gs_start_index arg \<le> MAX_SUBTREE_INDEX"
    and run: "live_subtree_roots E X encoded_len env protocol (gs_start_index arg) max_entries = Inr items"
    using assms(3,4) unfolding get_subtree_roots_def max_entries_def
    by (auto simp: result_simps Let_def split: if_splits)
  have max: "max_entries \<le> 65535" by (simp add: max_entries_def MAX_SUBTREE_INDEX_def)
  have start': "gs_start_index arg \<le> 65535" using start by (simp add: MAX_SUBTREE_INDEX_def)
  show ?thesis
    using p start' max cache_contract.live_subtree_roots_sound [OF assms(1,2) start run]
    by (intro conjI bexI [of _ protocol] exI [of _ max_entries])
qed

definition ref_subtree_node :: node_rpc where
  "ref_subtree_node = dead_node\<lparr>
     rpc_get_subtrees := (\<lambda>_ _ _. Inr [\<lparr>sub_root = ''0a'', sub_end_height = 7\<rparr>, \<lparr>sub_root = ''0b'', sub_end_height = 3\<rparr>]),
     rpc_get_block_hashes := (\<lambda>hs. Inr (map (\<lambda>_. ''0c0d'') hs))\<rparr>"

definition ref_subtree_env :: "((u64, bytes) otable, (string, bytes) otable) subtree_env" where
  "ref_subtree_env = \<lparr>sv_faults = no_faults, sv_db = ref_db [ref_block 7 [1, 2] [0]], sv_node = ref_subtree_node,
     sv_query_elapsed = False, sv_batch_elapsed = (\<lambda>_. False), sv_darkside = None\<rparr>"

theorem subtree_roots_sound_witness:
  "get_subtree_roots ref_cache ref_parse (\<lambda>_. 9) ref_subtree_env
       \<lparr>gs_start_index = 0, gs_shielded_protocol = 1, gs_max_entries = 70000\<rparr> =
     Inr [Inr \<lparr>sbr_root_hash = [10], sbr_completing_block_hash = [2, 1], sbr_completing_block_height = 7\<rparr>,
          Inr \<lparr>sbr_root_hash = [11], sbr_completing_block_hash = [12, 13], sbr_completing_block_height = 3\<rparr>] \<and>
   (\<exists>protocol \<in> {''sapling'', ''orchard'', ''ironwood''}. is_ok (rpc_get_subtrees ref_subtree_node protocol 0 0))"
proof -
  have st: "stores ref_cache (db_blocks (sv_db ref_subtree_env)) [ref_block 7 [1, 2] [0]]"
    unfolding ref_subtree_env_def subtree_env.simps by (rule ref_db_stores) (simp_all add: u64_max_def)
  have run: "get_subtree_roots ref_cache ref_parse (\<lambda>_. 9) ref_subtree_env
       \<lparr>gs_start_index = 0, gs_shielded_protocol = 1, gs_max_entries = 70000\<rparr> =
     Inr [Inr \<lparr>sbr_root_hash = [10], sbr_completing_block_hash = [2, 1], sbr_completing_block_height = 7\<rparr>,
          Inr \<lparr>sbr_root_hash = [11], sbr_completing_block_hash = [12, 13], sbr_completing_block_height = 3\<rparr>]"
    by code_simp
  have live: "sv_darkside ref_subtree_env = None" by (simp add: ref_subtree_env_def)
  note sound = subtree_roots_sound [OF rc.cache_contract_axioms st live run]
  have "\<exists>protocol \<in> {''sapling'', ''orchard'', ''ironwood''}. is_ok (rpc_get_subtrees ref_subtree_node protocol 0 0)"
    using conjunct2 [OF sound] by (auto simp: ref_subtree_env_def ref_subtree_node_def)
  then show ?thesis using run by blast
qed

end
