(* ===== verification/Mempool_Monitor.thy ===== *)
theory Mempool_Monitor
  imports Streamer "HOL-Library.Sublist"
begin

text \<open>
  src/service/mempool_monitor.rs: the background task that refreshes one shared snapshot of the mempool.
  Time is in milliseconds; a snapshot keeps when it was refreshed. HashSet is a set, the watch channel is
  the last snapshot published.
\<close>

section \<open>Snapshots\<close>

definition REFRESH_INTERVAL :: nat where
  "REFRESH_INTERVAL = 2000"

definition STALENESS_CUTOFF :: nat where
  "STALENESS_CUTOFF = 60000"

record mempool_entry =
  me_txid_display :: string
  me_wire_txid :: bytes
  me_raw :: bytes
  me_compact :: compact_tx

record mempool_snapshot =
  ms_tip_hash :: string
  ms_entries :: "mempool_entry list"
  ms_refreshed_at :: "nat option"

definition snapshot_empty :: mempool_snapshot where
  "snapshot_empty = \<lparr>ms_tip_hash = [], ms_entries = [], ms_refreshed_at = None\<rparr>"

definition snapshot_fresh :: "nat \<Rightarrow> string \<Rightarrow> mempool_entry list \<Rightarrow> mempool_snapshot" where
  "snapshot_fresh now tip_hash entries = \<lparr>ms_tip_hash = tip_hash, ms_entries = entries, ms_refreshed_at = Some now\<rparr>"

definition is_stale :: "nat \<Rightarrow> mempool_snapshot \<Rightarrow> bool" where
  "is_stale now snapshot =
     (case ms_refreshed_at snapshot of None \<Rightarrow> True | Some refreshed_at \<Rightarrow> now - refreshed_at > STALENESS_CUTOFF)"


section \<open>Refreshing\<close>

datatype refresh_error = RefreshNode node_error | RefreshHex hex_error | RefreshParse parse_error

record monitor_state =
  mo_tip_hash :: string
  mo_seen :: "string set"
  mo_entries :: "mempool_entry list"

definition monitor_empty :: monitor_state where
  "monitor_empty = \<lparr>mo_tip_hash = [], mo_seen = {}, mo_entries = []\<rparr>"

text \<open>One listed transaction. The state is mutated in place, so a failure comes with the state it leaves.\<close>

definition refresh_tx ::
    "'x parse_ext_scheme \<Rightarrow> node_rpc \<Rightarrow> string \<Rightarrow> monitor_state \<Rightarrow> (refresh_error \<times> monitor_state, monitor_state) result" where
  "refresh_tx X node tid state =
     (if tid \<in> mo_seen state then Inr state
      else
        case rpc_get_raw_transaction node tid of
          Inl _ \<Rightarrow> Inr state
        | Inr raw \<Rightarrow>
            let state = state\<lparr>mo_seen := insert tid (mo_seen state)\<rparr> in
            if grt_height raw \<noteq> 0 then Inr state
            else
              bindE (map_err (\<lambda>e. (RefreshHex e, state)) (hex_decode X (grt_hex raw))) (\<lambda>bytes.
              bindE (map_err (\<lambda>e. (RefreshHex e, state)) (display_hex_to_wire X tid)) (\<lambda>wire_txid.
              bindE (map_err (\<lambda>e. (RefreshParse e, state))
                       (compact_tx_from_raw X (length (mo_entries state)) bytes)) (\<lambda>compact.
                Inr (state\<lparr>mo_entries := mo_entries state @
                  [\<lparr>me_txid_display = tid, me_wire_txid = wire_txid, me_raw = bytes, me_compact = compact\<rparr>]\<rparr>)))))"

text \<open>A refresh: the state it leaves, and the snapshot to publish or the error.\<close>

definition refresh ::
    "'x parse_ext_scheme \<Rightarrow> node_rpc \<Rightarrow> nat \<Rightarrow> monitor_state \<Rightarrow> monitor_state \<times> (refresh_error, mempool_snapshot) result" where
  "refresh X node now state =
     (case rpc_get_blockchain_info node of
        Inl e \<Rightarrow> (state, Inl (RefreshNode e))
      | Inr info \<Rightarrow>
          let state = (if gbi_bestblockhash info \<noteq> mo_tip_hash state
                       then \<lparr>mo_tip_hash = gbi_bestblockhash info, mo_seen = {}, mo_entries = []\<rparr> else state) in
          (case rpc_get_raw_mempool node of
             Inl e \<Rightarrow> (state, Inl (RefreshNode e))
           | Inr txids \<Rightarrow>
               (case foldE (refresh_tx X node) txids state of
                  Inl (e, state) \<Rightarrow> (state, Inl e)
                | Inr state \<Rightarrow> (state, Inr (snapshot_fresh now (mo_tip_hash state) (mo_entries state))))))"

text \<open>One turn of the monitor's loop: what the node is then and when the refresh ends; the published snapshot.\<close>

definition monitor_turn ::
    "'x parse_ext_scheme \<Rightarrow> node_rpc \<times> nat \<Rightarrow> monitor_state \<times> mempool_snapshot \<Rightarrow> monitor_state \<times> mempool_snapshot" where
  "monitor_turn X turn sp =
     (case (turn, sp) of ((node, now), (state, published)) \<Rightarrow>
        (case refresh X node now state of
           (state, Inr snapshot) \<Rightarrow> (state, snapshot)
         | (state, Inl _) \<Rightarrow> (state, published)))"

definition monitor_start :: "monitor_state \<times> mempool_snapshot" where
  "monitor_start = (monitor_empty, snapshot_empty)"

definition monitor_run ::
    "'x parse_ext_scheme \<Rightarrow> (node_rpc \<times> nat) list \<Rightarrow> monitor_state \<times> mempool_snapshot" where
  "monitor_run X turns = fold (monitor_turn X) turns monitor_start"


section \<open>The invariant of the monitor\<close>

text \<open>An entry that is what the transaction's bytes say, at its position in the list.\<close>

definition entry_ok :: "'x parse_ext_scheme \<Rightarrow> nat \<Rightarrow> mempool_entry \<Rightarrow> bool" where
  "entry_ok X i e \<longleftrightarrow> display_hex_to_wire X (me_txid_display e) = Inr (me_wire_txid e) \<and>
     compact_tx_from_raw X i (me_raw e) = Inr (me_compact e)"

definition entries_ok :: "'x parse_ext_scheme \<Rightarrow> mempool_entry list \<Rightarrow> bool" where
  "entries_ok X es \<longleftrightarrow> distinct (map me_txid_display es) \<and> (\<forall>i < length es. entry_ok X i (es ! i))"

definition monitor_inv :: "'x parse_ext_scheme \<Rightarrow> monitor_state \<Rightarrow> bool" where
  "monitor_inv X st \<longleftrightarrow> entries_ok X (mo_entries st) \<and> me_txid_display ` set (mo_entries st) \<subseteq> mo_seen st"

lemma entries_ok_snoc:
  "entries_ok X (es @ [e]) \<longleftrightarrow> entries_ok X es \<and> entry_ok X (length es) e \<and> me_txid_display e \<notin> me_txid_display ` set es"
  by (auto simp: entries_ok_def nth_append less_Suc_eq)

text \<open>Where a step of the refresh leaves the state, however it ends.\<close>

definition extends :: "monitor_state \<Rightarrow> monitor_state \<Rightarrow> bool" where
  "extends st st' \<longleftrightarrow> mo_tip_hash st' = mo_tip_hash st \<and> prefix (mo_entries st) (mo_entries st')"

lemma extends_trans: "extends a b \<Longrightarrow> extends b c \<Longrightarrow> extends a c"
  by (auto simp: extends_def)

definition left_state :: "(refresh_error \<times> monitor_state, monitor_state) result \<Rightarrow> monitor_state" where
  "left_state r = (case r of Inl (_, st) \<Rightarrow> st | Inr st \<Rightarrow> st)"

lemma refresh_tx_inv:
  assumes "monitor_inv X st"
  shows "monitor_inv X (left_state (refresh_tx X node tid st)) \<and> extends st (left_state (refresh_tx X node tid st))"
proof (cases "tid \<in> mo_seen st")
  case True
  then show ?thesis using assms by (simp add: refresh_tx_def left_state_def extends_def)
next
  case new: False
  show ?thesis
  proof (cases "rpc_get_raw_transaction node tid")
    case (Inl e)
    then show ?thesis using assms new by (simp add: refresh_tx_def left_state_def extends_def)
  next
    case (Inr raw)
    let ?seen = "st\<lparr>mo_seen := insert tid (mo_seen st)\<rparr>"
    have seen: "monitor_inv X ?seen" "extends st ?seen"
      using assms by (auto simp: monitor_inv_def extends_def)
    have "tid \<notin> me_txid_display ` set (mo_entries st)" using assms new by (auto simp: monitor_inv_def)
    then show ?thesis
      using seen assms new Inr
      by (cases "grt_height raw = 0"; cases "hex_decode X (grt_hex raw)"; cases "display_hex_to_wire X tid";
          cases "compact_tx_from_raw X (length (mo_entries st)) (projr (hex_decode X (grt_hex raw)))")
        (auto simp: refresh_tx_def left_state_def extends_def monitor_inv_def entries_ok_snoc entry_ok_def Let_def)
  qed
qed

lemma refresh_txs_inv:
  assumes "monitor_inv X st"
  shows "monitor_inv X (left_state (foldE (refresh_tx X node) txids st)) \<and>
    extends st (left_state (foldE (refresh_tx X node) txids st))"
  using assms
proof (induction txids arbitrary: st)
  case Nil
  then show ?case by (simp add: left_state_def extends_def)
next
  case (Cons tid txids)
  note one = refresh_tx_inv [OF Cons.prems, of node tid]
  show ?case
  proof (cases "refresh_tx X node tid st")
    case (Inl e)
    then show ?thesis using one by (cases e) (simp add: left_state_def)
  next
    case (Inr st')
    then show ?thesis
      using one Cons.IH [of st'] extends_trans [of st st'] by (auto simp: left_state_def)
  qed
qed

lemma refresh_inv:
  assumes "monitor_inv X st" and "refresh X node now st = (st', r)"
  shows "monitor_inv X st' \<and> (mo_tip_hash st' = mo_tip_hash st \<longrightarrow> prefix (mo_entries st) (mo_entries st')) \<and>
    (\<forall>snapshot. r = Inr snapshot \<longrightarrow> snapshot = snapshot_fresh now (mo_tip_hash st') (mo_entries st'))"
proof (cases "rpc_get_blockchain_info node")
  case (Inl e)
  then show ?thesis using assms by (auto simp: refresh_def)
next
  case (Inr info)
  define st0 where "st0 = (if gbi_bestblockhash info \<noteq> mo_tip_hash st
    then \<lparr>mo_tip_hash = gbi_bestblockhash info, mo_seen = {}, mo_entries = []\<rparr> else st)"
  have st0: "monitor_inv X st0" "mo_tip_hash st0 = mo_tip_hash st \<longrightarrow> st0 = st"
    using assms(1) by (auto simp: st0_def monitor_inv_def entries_ok_def)
  show ?thesis
  proof (cases "rpc_get_raw_mempool node")
    case (Inl e)
    then show ?thesis
      using assms(2) Inr st0 by (auto simp: refresh_def Let_def st0_def [symmetric])
  next
    case mem: (Inr txids)
    note all = refresh_txs_inv [OF st0(1), of node txids]
    have run: "(st', r) = (case foldE (refresh_tx X node) txids st0 of
                 Inl (e, state) \<Rightarrow> (state, Inl e)
               | Inr state \<Rightarrow> (state, Inr (snapshot_fresh now (mo_tip_hash state) (mo_entries state))))"
      using assms(2) Inr mem by (simp add: refresh_def Let_def st0_def [symmetric])
    have st': "st' = left_state (foldE (refresh_tx X node) txids st0)"
      and r: "\<forall>snapshot. r = Inr snapshot \<longrightarrow> snapshot = snapshot_fresh now (mo_tip_hash st') (mo_entries st')"
      using run by (auto simp: left_state_def split: sum.splits prod.splits)
    have "mo_tip_hash st' = mo_tip_hash st \<longrightarrow> prefix (mo_entries st) (mo_entries st')"
      using all st0(2) unfolding st' [symmetric] by (auto simp: extends_def)
    then show ?thesis using all r unfolding st' [symmetric] by blast
  qed
qed

lemma monitor_run_inv:
  "monitor_inv X (fst (monitor_run X turns)) \<and> entries_ok X (ms_entries (snd (monitor_run X turns)))"
proof (induction turns rule: rev_induct)
  case Nil
  then show ?case
    by (simp add: monitor_run_def monitor_start_def monitor_empty_def snapshot_empty_def monitor_inv_def entries_ok_def)
next
  case (snoc turn turns)
  obtain node now where turn: "turn = (node, now)" by (cases turn)
  obtain st p where before: "monitor_run X turns = (st, p)" by fastforce
  obtain st' r where ref: "refresh X node now st = (st', r)" by fastforce
  have "monitor_run X (turns @ [turn]) = (st', case r of Inr s \<Rightarrow> s | Inl _ \<Rightarrow> p)"
    using before ref turn by (simp add: monitor_run_def monitor_turn_def split: sum.splits)
  then show ?case
    using snoc before refresh_inv [OF _ ref]
    by (auto simp: monitor_inv_def snapshot_fresh_def split: sum.splits)
qed


section \<open>Properties\<close>

text \<open>
  C19: the monitor's snapshot. However the node answers over any number of refreshes, failing ones
  included, the published snapshot lists each transaction once, with the wire form of its id and its bytes
  parsed at its position; while the tip stays the same a refresh only appends to what the previous one
  left; and a snapshot is served only for a minute after the refresh that produced it, the one published
  before the first refresh never.
\<close>

theorem monitor_snapshot_sound:
  "distinct (map me_txid_display (ms_entries (snd (monitor_run X turns)))) \<and>
   (\<forall>i < length (ms_entries (snd (monitor_run X turns))).
      entry_ok X i (ms_entries (snd (monitor_run X turns)) ! i)) \<and>
   (refresh X node now (fst (monitor_run X turns)) = (st', Inr snapshot) \<longrightarrow>
      (ms_tip_hash snapshot = mo_tip_hash (fst (monitor_run X turns)) \<longrightarrow>
         prefix (mo_entries (fst (monitor_run X turns))) (ms_entries snapshot)) \<and>
      (is_stale later snapshot \<longleftrightarrow> later - now > 60000)) \<and>
   is_stale later snapshot_empty"
proof (intro conjI impI)
  show "distinct (map me_txid_display (ms_entries (snd (monitor_run X turns))))"
    "\<forall>i < length (ms_entries (snd (monitor_run X turns))). entry_ok X i (ms_entries (snd (monitor_run X turns)) ! i)"
    using monitor_run_inv [of X turns] by (simp_all add: entries_ok_def)
  assume "refresh X node now (fst (monitor_run X turns)) = (st', Inr snapshot)"
  note step = refresh_inv [OF conjunct1 [OF monitor_run_inv] this]
  show "prefix (mo_entries (fst (monitor_run X turns))) (ms_entries snapshot)"
    if "ms_tip_hash snapshot = mo_tip_hash (fst (monitor_run X turns))"
    using step that by (simp add: snapshot_fresh_def)
  show "is_stale later snapshot \<longleftrightarrow> later - now > 60000"
    using step by (simp add: is_stale_def snapshot_fresh_def STALENESS_CUTOFF_def)
qed (simp add: is_stale_def snapshot_empty_def)

definition ref_mempool_node :: node_rpc where
  "ref_mempool_node = ref_node\<lparr>rpc_get_raw_mempool := Inr [''0a'', ''0a''],
     rpc_get_raw_transaction := (\<lambda>_. Inr \<lparr>grt_hex = '''', grt_height = 5\<rparr>)\<rparr>"

theorem monitor_snapshot_sound_witness:
  "\<exists>st' snapshot. refresh ref_parse ref_mempool_node 7 (fst (monitor_run ref_parse [])) = (st', Inr snapshot) \<and>
     ms_entries snapshot = [] \<and> \<not> is_stale 60007 snapshot \<and> is_stale 60008 snapshot"
proof -
  have "case refresh ref_parse ref_mempool_node 7 (fst (monitor_run ref_parse [])) of
      (_, Inr snapshot) \<Rightarrow> ms_entries snapshot = [] | _ \<Rightarrow> False"
    by code_simp
  then obtain st' snapshot where run: "refresh ref_parse ref_mempool_node 7 (fst (monitor_run ref_parse [])) = (st', Inr snapshot)"
    and e: "ms_entries snapshot = []"
    by (auto split: prod.splits sum.splits)
  have "is_stale later snapshot \<longleftrightarrow> later - 7 > 60000" for later
    using monitor_snapshot_sound [of ref_parse "[]" ref_mempool_node 7 st' snapshot later] run by blast
  then show ?thesis using run e by auto
qed

end
