(* ===== verification/Service_Mempool.thy ===== *)
theory Service_Mempool
  imports Mempool_Monitor Framing
begin

text \<open>
  src/service/mempool.rs: the mempool streams. With a monitor both are served from its snapshot; without
  one (darkside) each request asks the node.
\<close>

section \<open>Serving the monitor's snapshot\<close>

record get_mempool_tx_request =
  mr_exclude_txid_suffixes :: "bytes list"
  mr_pool_types :: "int list"

definition MAX_EXCLUDE_TXID_SUFFIXES :: usize where
  "MAX_EXCLUDE_TXID_SUFFIXES = 10000"

definition stale_mempool_status :: status where
  "stale_mempool_status = mk_status Unavailable
     ''mempool snapshot is stale: the backend node has not refreshed it recently and may be unavailable'' []"

definition check_stale :: "nat \<Rightarrow> mempool_snapshot \<Rightarrow> (status, unit) result" where
  "check_stale now snapshot = failIf (is_stale now snapshot) stale_mempool_status"

definition excluded_by_suffixes :: "bytes list \<Rightarrow> bytes list \<Rightarrow> bool list" where
  "excluded_by_suffixes wire_txids exclude =
     (let match_counts = map (\<lambda>sfx. length (filter (\<lambda>tid. suffix sfx tid) wire_txids)) exclude in
      map (\<lambda>tid. list_ex (\<lambda>(sfx, matches). matches = 1 \<and> suffix sfx tid) (zip exclude match_counts)) wire_txids)"

definition check_exclude :: "bytes list \<Rightarrow> (status, unit) result" where
  "check_exclude exclude =
     bindE (failIf (length exclude > MAX_EXCLUDE_TXID_SUFFIXES)
              (mk_status ResourceExhausted
                 ''get_mempool_tx: more than {} exclude txid suffixes; narrow the request''
                 [Num MAX_EXCLUDE_TXID_SUFFIXES])) (\<lambda>_.
     foldE (\<lambda>(index, sfx) _.
         failIf (length sfx > 32) (mk_status InvalidArgument ''exclude txid {} is larger than 32 bytes'' [Num index]))
       (enumerate 0 exclude) ())"

definition get_mempool_tx_from_node ::
    "'x parse_ext_scheme \<Rightarrow> node_rpc \<Rightarrow> bytes list \<Rightarrow> int list \<Rightarrow> (status, compact_tx items) result" where
  "get_mempool_tx_from_node X node exclude pool_types =
     bindE (map_err node_to_status (rpc_get_raw_mempool node)) (\<lambda>txids.
       Inr (let pools = from_pool_types pool_types in
         case mapE (\<lambda>tid. map_err (\<lambda>e. mk_status Internal ''decoding mempool txid: {}'' [hex_error_msg e])
                            (display_hex_to_wire X tid)) txids of
           Inl s \<Rightarrow> [Inl s]
         | Inr wire_txids \<Rightarrow>
             try_items (\<lambda>(index, tid).
                 bindE (map_err node_to_status (rpc_get_raw_transaction node tid)) (\<lambda>raw.
                 bindE (decode_hex X (grt_hex raw) ''mempool tx'') (\<lambda>bytes.
                 bindE (map_err (\<lambda>e. mk_status Internal ''parsing mempool tx: {}''
                                   [Msg (fst (parse_error_text e)) (snd (parse_error_text e))])
                          (compact_tx_from_raw X index bytes)) (\<lambda>compact.
                   Inr (filter_tx_to_pools compact pools)))))
               (map fst (filter (\<lambda>(_, is_excluded). \<not> is_excluded)
                  (zip (enumerate 0 txids) (excluded_by_suffixes wire_txids exclude))))))"

text \<open>The monitor, when one is attached, is its current snapshot and the time it is read.\<close>

definition get_mempool_tx ::
    "'x parse_ext_scheme \<Rightarrow> node_rpc \<Rightarrow> (nat \<times> mempool_snapshot) option \<Rightarrow> get_mempool_tx_request
      \<Rightarrow> (status, compact_tx items) result" where
  "get_mempool_tx X node handle req =
     (let exclude = mr_exclude_txid_suffixes req; pool_types = mr_pool_types req in
      bindE (check_exclude exclude) (\<lambda>_.
      bindE (validate_pool_types pool_types) (\<lambda>_.
        case handle of
          None \<Rightarrow> get_mempool_tx_from_node X node exclude pool_types
        | Some (now, snapshot) \<Rightarrow>
            bindE (check_stale now snapshot) (\<lambda>_.
              let pools = from_pool_types pool_types;
                  wire_txids = map me_wire_txid (ms_entries snapshot);
                  excluded = excluded_by_suffixes wire_txids exclude
              in Inr (concat (map (\<lambda>(entry, is_excluded).
                   if is_excluded then [] else [Inr (filter_tx_to_pools (me_compact entry) pools)])
                   (zip (ms_entries snapshot) excluded)))))))"


section \<open>The stream of raw transactions\<close>

text \<open>
  What wakes an open stream: the channel closed, or a publication or a staleness tick, after either of
  which it reads the newest snapshot.
\<close>

datatype stream_wake = MonitorGone | Observed nat mempool_snapshot

definition raw_of_entry :: "mempool_entry \<Rightarrow> raw_transaction" where
  "raw_of_entry entry = \<lparr>rt_data = me_raw entry, rt_height = 0\<rparr>"

text \<open>The loop, over the wakes so far: what it has yielded when it waits again or has ended.\<close>

fun stream_loop :: "string \<Rightarrow> nat \<Rightarrow> mempool_snapshot \<Rightarrow> stream_wake list \<Rightarrow> raw_transaction items" where
  "stream_loop start_tip sent snapshot wakes =
     (if start_tip \<noteq> [] \<and> ms_tip_hash snapshot \<noteq> start_tip then []
      else
        map (\<lambda>entry. Inr (raw_of_entry entry)) (drop sent (ms_entries snapshot)) @
        (case wakes of
           [] \<Rightarrow> []
         | MonitorGone # _ \<Rightarrow> []
         | Observed now newest # wakes \<Rightarrow>
             (case check_stale now newest of
                Inl s \<Rightarrow> [Inl s]
              | Inr _ \<Rightarrow>
                  stream_loop (if start_tip = [] then ms_tip_hash snapshot else start_tip)
                    (length (ms_entries snapshot)) newest wakes)))"

text \<open>
  The fallback polls the node itself: a poll is one node, asked for its tip and then its mempool. The
  set is what the stream has listed before.
\<close>

primrec poll_txs ::
    "'x parse_ext_scheme \<Rightarrow> node_rpc \<Rightarrow> string set \<Rightarrow> string list \<Rightarrow> raw_transaction items \<times> string set option" where
  "poll_txs X node seen [] = ([], Some seen)"
| "poll_txs X node seen (tid # txids) =
     (if tid \<in> seen then poll_txs X node seen txids
      else
        (case map_err node_to_status (rpc_get_raw_transaction node tid) of
           Inl s \<Rightarrow> ([Inl s], None)
         | Inr raw \<Rightarrow>
             if grt_height raw \<noteq> 0 then poll_txs X node (insert tid seen) txids
             else
               (case decode_hex X (grt_hex raw) ''mempool tx'' of
                  Inl s \<Rightarrow> ([Inl s], None)
                | Inr data \<Rightarrow>
                    (let (items, after) = poll_txs X node (insert tid seen) txids in
                     (Inr \<lparr>rt_data = data, rt_height = 0\<rparr> # items, after)))))"

primrec poll_loop ::
    "'x parse_ext_scheme \<Rightarrow> string \<Rightarrow> string set \<Rightarrow> node_rpc list \<Rightarrow> raw_transaction items" where
  "poll_loop X start seen [] = []"
| "poll_loop X start seen (node # polls) =
     (case map_err node_to_status (rpc_get_blockchain_info node) of
        Inl s \<Rightarrow> [Inl s]
      | Inr info \<Rightarrow>
          if gbi_bestblockhash info \<noteq> start then []
          else
            (case map_err node_to_status (rpc_get_raw_mempool node) of
               Inl s \<Rightarrow> [Inl s]
             | Inr txids \<Rightarrow>
                 (let (items, after) = poll_txs X node seen txids in
                  items @ (case after of None \<Rightarrow> [] | Some seen \<Rightarrow> poll_loop X start seen polls))))"

definition get_mempool_stream_from_node ::
    "'x parse_ext_scheme \<Rightarrow> node_rpc \<Rightarrow> node_rpc list \<Rightarrow> raw_transaction items" where
  "get_mempool_stream_from_node X node polls =
     (case map_err node_to_status (rpc_get_blockchain_info node) of
        Inl s \<Rightarrow> [Inl s]
      | Inr start \<Rightarrow> poll_loop X (gbi_bestblockhash start) {} polls)"

definition get_mempool_stream ::
    "'x parse_ext_scheme \<Rightarrow> node_rpc \<Rightarrow> node_rpc list \<Rightarrow> (nat \<times> mempool_snapshot \<times> stream_wake list) option
      \<Rightarrow> raw_transaction items" where
  "get_mempool_stream X node polls handle =
     (case handle of
        None \<Rightarrow> get_mempool_stream_from_node X node polls
      | Some (now, snapshot, wakes) \<Rightarrow>
          (case check_stale now snapshot of
             Inl s \<Rightarrow> [Inl s]
           | Inr _ \<Rightarrow> stream_loop [] 0 snapshot wakes))"


section \<open>Lemmas\<close>

declare stream_loop.simps [simp del]

text \<open>Position \<^term>\<open>i\<close> is the only one whose id ends in the suffix.\<close>

definition sole_match :: "bytes list \<Rightarrow> bytes \<Rightarrow> nat \<Rightarrow> bool" where
  "sole_match tids sfx i \<longleftrightarrow> {j. j < length tids \<and> suffix sfx (tids ! j)} = {i}"

lemma filter_one_iff:
  assumes "i < length xs" "P (xs ! i)"
  shows "length (filter P xs) = 1 \<longleftrightarrow> {j. j < length xs \<and> P (xs ! j)} = {i}"
proof -
  have "length (filter P xs) = card {j. j < length xs \<and> P (xs ! j)}" by (rule length_filter_conv_card)
  moreover have "i \<in> {j. j < length xs \<and> P (xs ! j)}" using assms by simp
  ultimately show ?thesis by (metis card_1_singleton_iff One_nat_def singletonD)
qed

lemma excluded_by_suffixes_length: "length (excluded_by_suffixes tids exclude) = length tids"
  by (simp add: excluded_by_suffixes_def Let_def)

lemma excluded_nth:
  assumes "i < length tids"
  shows "excluded_by_suffixes tids exclude ! i \<longleftrightarrow> (\<exists>sfx \<in> set exclude. sole_match tids sfx i)"
proof -
  have "excluded_by_suffixes tids exclude ! i \<longleftrightarrow>
      (\<exists>sfx \<in> set exclude. length (filter (\<lambda>tid. suffix sfx tid) tids) = 1 \<and> suffix sfx (tids ! i))"
    using assms by (auto simp: excluded_by_suffixes_def Let_def list_ex_iff zip_map2 zip_same_conv_map)
  also have "\<dots> \<longleftrightarrow> (\<exists>sfx \<in> set exclude. sole_match tids sfx i)"
  proof (intro bex_cong refl)
    fix sfx
    show "length (filter (\<lambda>tid. suffix sfx tid) tids) = 1 \<and> suffix sfx (tids ! i) \<longleftrightarrow> sole_match tids sfx i"
      using filter_one_iff [OF assms, of "suffix sfx"] by (auto simp: sole_match_def)
  qed
  finally show ?thesis .
qed

lemma kept_by_flags:
  assumes "length flags = length es"
  shows "concat (map (\<lambda>(e, x). if x then [] else [f e]) (zip es flags)) =
    map (\<lambda>i. f (es ! i)) (filter (\<lambda>i. \<not> flags ! i) [0..<length es])"
  using assms
proof (induction es flags rule: list_induct2')
  case (4 e es x flags)
  have "map (\<lambda>i. f ((e # es) ! i)) (filter (\<lambda>i. \<not> (x # flags) ! i) [0..<length (e # es)]) =
      (if x then [] else [f e]) @ map (\<lambda>i. f (es ! i)) (filter (\<lambda>i. \<not> flags ! i) [0..<length es])"
    by (simp add: upt_conv_Cons map_Suc_upt [symmetric] filter_map o_def del: upt_Suc)
  then show ?case using 4 by simp
qed simp_all

lemma check_exclude_ok:
  assumes "length exclude \<le> 10000" "\<forall>sfx \<in> set exclude. length sfx \<le> 32"
  shows "check_exclude exclude = Inr ()"
proof -
  have "foldE (\<lambda>(index, sfx) _. failIf (length sfx > 32)
      (mk_status InvalidArgument ''exclude txid {} is larger than 32 bytes'' [Num index])) (enumerate n exclude) () = Inr ()" for n
    using assms(2) by (induction exclude arbitrary: n) auto
  with assms(1) show ?thesis by (simp add: check_exclude_def MAX_EXCLUDE_TXID_SUFFIXES_def)
qed

lemma check_exclude_long:
  "length exclude > 10000 \<Longrightarrow> \<exists>s. check_exclude exclude = Inl s \<and> st_code s = ResourceExhausted"
  by (simp add: check_exclude_def MAX_EXCLUDE_TXID_SUFFIXES_def)

lemma check_exclude_wide:
  assumes "length exclude \<le> 10000" "\<exists>sfx \<in> set exclude. length sfx > 32"
  shows "\<exists>s. check_exclude exclude = Inl s \<and> st_code s = InvalidArgument"
proof -
  have "\<exists>s. foldE (\<lambda>(index, sfx) _. failIf (length sfx > 32)
      (mk_status InvalidArgument ''exclude txid {} is larger than 32 bytes'' [Num index])) (enumerate n exclude) u = Inl s \<and>
      st_code s = InvalidArgument" for n u
    using assms(2) by (induction exclude arbitrary: n u) (auto simp: failIf_def)
  with assms(1) show ?thesis by (simp add: check_exclude_def MAX_EXCLUDE_TXID_SUFFIXES_def)
qed

text \<open>One turn of the monitor on an unchanged tip only extends what it published.\<close>

definition on_tip :: "string \<Rightarrow> monitor_state \<times> mempool_snapshot \<Rightarrow> bool" where
  "on_tip t sp \<longleftrightarrow> mo_tip_hash (fst sp) = t \<and> ms_tip_hash (snd sp) = t \<and>
     prefix (ms_entries (snd sp)) (mo_entries (fst sp))"

definition tip_stays :: "string \<Rightarrow> node_rpc \<Rightarrow> bool" where
  "tip_stays t node \<longleftrightarrow> (\<forall>info. rpc_get_blockchain_info node = Inr info \<longrightarrow> gbi_bestblockhash info = t)"

lemma refresh_on_tip:
  assumes "tip_stays t node" and "mo_tip_hash st = t" and "refresh X node now st = (st', r)"
  shows "mo_tip_hash st' = t"
proof -
  have stay: "mo_tip_hash (left_state (foldE (refresh_tx X node) txids s)) = mo_tip_hash s" for txids s
  proof (induction txids arbitrary: s)
    case (Cons tid txids)
    have "mo_tip_hash (left_state (refresh_tx X node tid s)) = mo_tip_hash s"
      by (auto simp: refresh_tx_def left_state_def Let_def split: sum.splits)
        (auto simp: bindE_def map_err_def split: sum.splits)
    then show ?case using Cons.IH by (cases "refresh_tx X node tid s") (auto simp: left_state_def)
  qed (simp add: left_state_def)
  have "mo_tip_hash s' = mo_tip_hash s" if "foldE (refresh_tx X node) txids s = Inl (e, s')" for txids s e s'
    using stay [of txids s] that by (simp add: left_state_def)
  moreover have "mo_tip_hash s' = mo_tip_hash s" if "foldE (refresh_tx X node) txids s = Inr s'" for txids s s'
    using stay [of txids s] that by (simp add: left_state_def)
  ultimately show ?thesis
    using assms by (auto simp: refresh_def tip_stays_def Let_def split: sum.splits prod.splits)
qed

lemma turn_on_tip:
  assumes "monitor_inv X (fst sp)" "on_tip t sp" "tip_stays t (fst turn)"
  defines "sp' \<equiv> monitor_turn X turn sp"
  shows "monitor_inv X (fst sp') \<and> on_tip t sp' \<and> prefix (ms_entries (snd sp)) (ms_entries (snd sp'))"
proof -
  obtain node now st p where sp: "turn = (node, now)" "sp = (st, p)" by (cases turn; cases sp)
  obtain st' r where ref: "refresh X node now st = (st', r)" by fastforce
  have sp': "sp' = (st', case r of Inr s \<Rightarrow> s | Inl _ \<Rightarrow> p)"
    using ref sp by (simp add: sp'_def monitor_turn_def split: sum.splits)
  have st: "mo_tip_hash st = t" "ms_tip_hash p = t" "prefix (ms_entries p) (mo_entries st)"
    using assms(2) sp by (simp_all add: on_tip_def)
  have tip: "mo_tip_hash st' = t" using refresh_on_tip [OF _ st(1) ref] assms(3) sp by simp
  have "monitor_inv X st" using assms(1) sp by simp
  note step = refresh_inv [OF this ref]
  then have "prefix (mo_entries st) (mo_entries st')" using st(1) tip by blast
  then have "prefix (ms_entries p) (mo_entries st')" using st(3) prefix_order.order_trans by blast
  then show ?thesis
    using step tip st(2) sp by (auto simp: sp' on_tip_def snapshot_fresh_def split: sum.splits)
qed

text \<open>The stream wakes after every turn of the monitor and reads what is then published.\<close>

primrec observed ::
    "'x parse_ext_scheme \<Rightarrow> monitor_state \<times> mempool_snapshot \<Rightarrow> (node_rpc \<times> nat) list \<Rightarrow> stream_wake list" where
  "observed X sp [] = []"
| "observed X sp (turn # turns) =
     Observed (snd turn) (snd (monitor_turn X turn sp)) # observed X (monitor_turn X turn sp) turns"

definition published :: "'x parse_ext_scheme \<Rightarrow> monitor_state \<times> mempool_snapshot \<Rightarrow> (node_rpc \<times> nat) list \<Rightarrow> mempool_snapshot" where
  "published X sp turns = snd (fold (monitor_turn X) turns sp)"

lemma published_extends:
  assumes "monitor_inv X (fst sp)" "on_tip t sp" "\<forall>turn \<in> set turns. tip_stays t (fst turn)"
  shows "prefix (ms_entries (snd sp)) (ms_entries (published X sp turns))"
  using assms
proof (induction turns arbitrary: sp)
  case (Cons turn turns)
  then show ?case
    using turn_on_tip [OF Cons.prems(1,2), of turn] Cons.IH [of "monitor_turn X turn sp"]
      prefix_order.order_trans by (fastforce simp: published_def)
qed (simp add: published_def)

lemma stream_loop_follows:
  assumes "monitor_inv X (fst sp)" "on_tip t sp" "\<forall>turn \<in> set turns. tip_stays t (fst turn)"
    and "start = t \<or> start = []" "t \<noteq> []" "sent \<le> length (ms_entries (snd sp))"
  shows "\<exists>k \<le> length turns.
    stream_loop start sent (snd sp) (observed X sp turns) =
      map (\<lambda>e. Inr (raw_of_entry e)) (drop sent (ms_entries (published X sp (take k turns)))) @
      (if k < length turns then [Inl stale_mempool_status] else []) \<and>
    (\<forall>j < k. \<not> is_stale (snd (turns ! j)) (published X sp (take (Suc j) turns))) \<and>
    (k < length turns \<longrightarrow> is_stale (snd (turns ! k)) (published X sp (take (Suc k) turns)))"
  using assms
proof (induction turns arbitrary: sp start sent)
  case Nil
  then show ?case by (auto simp: stream_loop.simps published_def on_tip_def)
next
  case (Cons turn turns)
  let ?sp = "monitor_turn X turn sp" and ?es = "ms_entries (snd sp)"
  have tip: "start = [] \<or> ms_tip_hash (snd sp) = start" "(if start = [] then ms_tip_hash (snd sp) else start) = t"
    using Cons.prems(2,4) by (auto simp: on_tip_def)
  have next_sp: "monitor_inv X (fst ?sp)" "on_tip t ?sp" "prefix ?es (ms_entries (snd ?sp))"
    using turn_on_tip [OF Cons.prems(1,2), of turn] Cons.prems(3) by auto
  have one: "stream_loop start sent (snd sp) (observed X sp (turn # turns)) =
      map (\<lambda>e. Inr (raw_of_entry e)) (drop sent ?es) @
      (if is_stale (snd turn) (snd ?sp) then [Inl stale_mempool_status]
       else stream_loop t (length ?es) (snd ?sp) (observed X ?sp turns))"
    using tip by (subst stream_loop.simps) (auto simp: check_stale_def)
  have pub: "published X sp (take (Suc k) (turn # turns)) = published X ?sp (take k turns)" for k
    by (simp add: published_def)
  have [simp]: "published X q [] = snd q" for q by (simp add: published_def)
  show ?case
  proof (cases "is_stale (snd turn) (snd ?sp)")
    case True
    then show ?thesis using one by (intro exI [of _ 0]) (simp add: published_def)
  next
    case False
    obtain k where k: "k \<le> length turns"
      "stream_loop t (length ?es) (snd ?sp) (observed X ?sp turns) =
        map (\<lambda>e. Inr (raw_of_entry e)) (drop (length ?es) (ms_entries (published X ?sp (take k turns)))) @
        (if k < length turns then [Inl stale_mempool_status] else [])"
      "\<forall>j < k. \<not> is_stale (snd (turns ! j)) (published X ?sp (take (Suc j) turns))"
      "k < length turns \<longrightarrow> is_stale (snd (turns ! k)) (published X ?sp (take (Suc k) turns))"
      using Cons.IH [OF next_sp(1,2), of t "length ?es"] Cons.prems(3,5) prefix_length_le [OF next_sp(3)] by auto
    have "prefix (ms_entries (snd ?sp)) (ms_entries (published X ?sp (take k turns)))"
      using Cons.prems(3) by (intro published_extends [OF next_sp(1,2)]) (auto dest: in_set_takeD)
    with next_sp(3) have "prefix ?es (ms_entries (published X ?sp (take k turns)))"
      using prefix_order.order_trans by blast
    then have "drop sent ?es @ drop (length ?es) (ms_entries (published X ?sp (take k turns))) =
        drop sent (ms_entries (published X ?sp (take k turns)))"
      using Cons.prems(6) by (auto simp: prefix_def)
    then have "map (\<lambda>e. Inr (raw_of_entry e)) (drop sent ?es) @
        map (\<lambda>e. Inr (raw_of_entry e)) (drop (length ?es) (ms_entries (published X ?sp (take k turns)))) =
        map (\<lambda>e. (Inr (raw_of_entry e) :: (status, raw_transaction) result)) (drop sent (ms_entries (published X ?sp (take k turns))))"
      by (metis map_append)
    then show ?thesis
      using one False k by (intro exI [of _ "Suc k"]) (auto simp: pub less_Suc_eq_0_disj simp del: take_Suc_Cons)
  qed
qed


section \<open>Properties\<close>

text \<open>
  C18: compact mempool transactions. A request within its bounds is served every transaction of a snapshot
  that is at most a minute old, in the snapshot's order and pruned to the requested pools, except those an
  exclusion suffix singles out: a suffix that two or more transactions share excludes none of them. Checked in
  this order, with or without a monitor, a list of more than 10000 suffixes, a suffix longer than an id, more
  than sixteen pool types and the invalid pool type are refused, and then a stale snapshot is, each with its
  code.
\<close>

theorem get_mempool_tx_spec:
  fixes snapshot :: mempool_snapshot and req :: get_mempool_tx_request
  defines "es \<equiv> ms_entries snapshot" and "exclude \<equiv> mr_exclude_txid_suffixes req" and "pool_types \<equiv> mr_pool_types req"
    and "suffixes_ok \<equiv> length (mr_exclude_txid_suffixes req) \<le> 10000 \<and> (\<forall>sfx \<in> set (mr_exclude_txid_suffixes req). length sfx \<le> 32)"
    and "pools_ok \<equiv> length (mr_pool_types req) \<le> 16 \<and> Invalid \<notin> set (mr_pool_types req)"
  shows
    "(suffixes_ok \<and> pools_ok \<and> \<not> is_stale now snapshot \<longrightarrow>
       get_mempool_tx X node (Some (now, snapshot)) req =
         Inr (map (\<lambda>i. Inr (filter_tx_to_pools (me_compact (es ! i)) (from_pool_types pool_types)))
           (filter (\<lambda>i. \<not> (\<exists>sfx \<in> set exclude. sole_match (map me_wire_txid es) sfx i)) [0..<length es]))) \<and>
     (length exclude > 10000 \<longrightarrow>
       (\<exists>s. get_mempool_tx X node handle req = Inl s \<and> st_code s = ResourceExhausted)) \<and>
     (length exclude \<le> 10000 \<and> (\<exists>sfx \<in> set exclude. length sfx > 32) \<longrightarrow>
       (\<exists>s. get_mempool_tx X node handle req = Inl s \<and> st_code s = InvalidArgument)) \<and>
     (suffixes_ok \<and> length pool_types > 16 \<longrightarrow>
       (\<exists>s. get_mempool_tx X node handle req = Inl s \<and> st_code s = ResourceExhausted)) \<and>
     (suffixes_ok \<and> length pool_types \<le> 16 \<and> Invalid \<in> set pool_types \<longrightarrow>
       (\<exists>s. get_mempool_tx X node handle req = Inl s \<and> st_code s = InvalidArgument)) \<and>
     (suffixes_ok \<and> pools_ok \<and> is_stale now snapshot \<longrightarrow>
       (\<exists>s. get_mempool_tx X node (Some (now, snapshot)) req = Inl s \<and> st_code s = Unavailable))"
proof -
  have excl: "check_exclude exclude = Inr ()" if suffixes_ok
    using that by (intro check_exclude_ok) (simp_all add: suffixes_ok_def exclude_def)
  have pools: "validate_pool_types pool_types = Inr ()" if pools_ok
    using that by (simp add: pools_ok_def pool_types_def validate_pool_types_def MAX_POOL_TYPES_def)
  show ?thesis
  proof (intro conjI impI)
    assume ok: "suffixes_ok \<and> pools_ok \<and> \<not> is_stale now snapshot"
    have "filter (\<lambda>i. \<not> excluded_by_suffixes (map me_wire_txid es) exclude ! i) [0..<length es] =
        filter (\<lambda>i. \<not> (\<exists>sfx \<in> set exclude. sole_match (map me_wire_txid es) sfx i)) [0..<length es]"
      by (intro filter_cong refl) (simp add: excluded_nth)
    then show "get_mempool_tx X node (Some (now, snapshot)) req =
        Inr (map (\<lambda>i. Inr (filter_tx_to_pools (me_compact (es ! i)) (from_pool_types pool_types)))
          (filter (\<lambda>i. \<not> (\<exists>sfx \<in> set exclude. sole_match (map me_wire_txid es) sfx i)) [0..<length es]))"
      using ok excl pools
        kept_by_flags [of "excluded_by_suffixes (map me_wire_txid es) exclude" es
          "\<lambda>e. Inr (filter_tx_to_pools (me_compact e) (from_pool_types (mr_pool_types req)))"]
      by (simp add: get_mempool_tx_def check_stale_def Let_def excluded_by_suffixes_length es_def exclude_def pool_types_def)
  next
    assume "length exclude > 10000"
    from check_exclude_long [OF this] show "\<exists>s. get_mempool_tx X node handle req = Inl s \<and> st_code s = ResourceExhausted"
      by (auto simp: get_mempool_tx_def exclude_def Let_def)
  next
    assume "length exclude \<le> 10000 \<and> (\<exists>sfx \<in> set exclude. length sfx > 32)"
    then have "\<exists>s. check_exclude exclude = Inl s \<and> st_code s = InvalidArgument" by (intro check_exclude_wide) auto
    then show "\<exists>s. get_mempool_tx X node handle req = Inl s \<and> st_code s = InvalidArgument"
      by (auto simp: get_mempool_tx_def exclude_def Let_def)
  next
    assume "suffixes_ok \<and> length pool_types > 16"
    then show "\<exists>s. get_mempool_tx X node handle req = Inl s \<and> st_code s = ResourceExhausted"
      using excl by (simp add: get_mempool_tx_def exclude_def pool_types_def validate_pool_types_def MAX_POOL_TYPES_def)
  next
    assume "suffixes_ok \<and> length pool_types \<le> 16 \<and> Invalid \<in> set pool_types"
    then show "\<exists>s. get_mempool_tx X node handle req = Inl s \<and> st_code s = InvalidArgument"
      using excl by (simp add: get_mempool_tx_def exclude_def pool_types_def validate_pool_types_def MAX_POOL_TYPES_def)
  next
    assume "suffixes_ok \<and> pools_ok \<and> is_stale now snapshot"
    then show "\<exists>s. get_mempool_tx X node (Some (now, snapshot)) req = Inl s \<and> st_code s = Unavailable"
      using excl pools
      by (simp add: get_mempool_tx_def exclude_def pool_types_def check_stale_def stale_mempool_status_def Let_def)
  qed
qed

definition ref_entry :: "bytes \<Rightarrow> mempool_entry" where
  "ref_entry t = \<lparr>me_txid_display = [], me_wire_txid = t, me_raw = t,
     me_compact = \<lparr>tx_index = 0, txid = t, fee = 0, spends = [], outputs = [], actions = [],
       ironwood_actions = [], vin = [], vout = []\<rparr>\<rparr>"

theorem get_mempool_tx_spec_witness:
  "\<exists>out. get_mempool_tx ref_parse dead_node
       (Some (5, snapshot_fresh 1 ''aa'' [ref_entry [1, 9], ref_entry [2, 9], ref_entry [3, 8]]))
       \<lparr>mr_exclude_txid_suffixes = [[9], [8], [7]], mr_pool_types = []\<rparr> = Inr out \<and> length out = 2"
proof -
  have fresh: "\<not> is_stale 5 (snapshot_fresh 1 ''aa'' es)" for es
    by (simp add: is_stale_def snapshot_fresh_def STALENESS_CUTOFF_def)
  have three: "[0..<3] = [0, Suc 0, Suc (Suc 0)]" by (simp add: upt_rec)
  have "map (\<lambda>i. \<exists>sfx \<in> set [[9], [8], [7]]. sole_match [[1, 9], [2, 9], [3, 8::8 word]] sfx i) [0, Suc 0, Suc (Suc 0)] =
      map (\<lambda>i. excluded_by_suffixes [[1, 9], [2, 9], [3, 8]] [[9], [8], [7]] ! i) [0, Suc 0, Suc (Suc 0)]"
    by (simp add: excluded_nth)
  also have "\<dots> = [False, False, True]" by code_simp
  finally have "map (\<lambda>i. \<exists>sfx \<in> set [[9], [8], [7]]. sole_match [[1, 9], [2, 9], [3, 8::8 word]] sfx i) [0, Suc 0, Suc (Suc 0)] =
      [False, False, True]" .
  then show ?thesis
    using get_mempool_tx_spec [THEN conjunct1, of
        "\<lparr>mr_exclude_txid_suffixes = [[9], [8], [7]], mr_pool_types = []\<rparr>" 5
        "snapshot_fresh 1 ''aa'' [ref_entry [1, 9], ref_entry [2, 9], ref_entry [3, 8]]" ref_parse dead_node] fresh
    by (simp add: snapshot_fresh_def ref_entry_def three)
qed

text \<open>
  C17: the raw mempool stream follows the monitor. While no block arrives, a stream opened on the
  monitor's snapshot and woken after each of its refreshes, failing ones included, has yielded exactly the
  transactions of the newest snapshot it read, each once and in order, as unmined; it ends with a status
  only at a wake that finds the snapshot more than a minute old, and not before the first such wake.
\<close>

theorem get_mempool_stream_follows:
  assumes "refresh X node now (fst (monitor_run X earlier)) = (st, Inr snapshot)"
    and "ms_tip_hash snapshot \<noteq> []" "opened - now \<le> 60000"
    and "\<forall>turn \<in> set turns. tip_stays (ms_tip_hash snapshot) (fst turn)"
  shows "\<exists>k \<le> length turns.
    get_mempool_stream X any polls (Some (opened, snapshot, observed X (st, snapshot) turns)) =
      map (\<lambda>e. Inr \<lparr>rt_data = me_raw e, rt_height = 0\<rparr>) (ms_entries (published X (st, snapshot) (take k turns))) @
      (if k < length turns then [Inl stale_mempool_status] else []) \<and>
    (\<forall>j < k. \<not> is_stale (snd (turns ! j)) (published X (st, snapshot) (take (Suc j) turns))) \<and>
    (k < length turns \<longrightarrow> is_stale (snd (turns ! k)) (published X (st, snapshot) (take (Suc k) turns)))"
proof -
  note step = refresh_inv [OF conjunct1 [OF monitor_run_inv] assms(1)]
  then have inv: "monitor_inv X (fst (st, snapshot))" "on_tip (ms_tip_hash snapshot) (st, snapshot)"
    and fresh: "\<not> is_stale opened snapshot"
    using assms(3) by (auto simp: on_tip_def snapshot_fresh_def is_stale_def STALENESS_CUTOFF_def)
  from stream_loop_follows [OF inv assms(4) disjI2 assms(2), of "[]" 0] show ?thesis
    using fresh by (simp add: get_mempool_stream_def check_stale_def raw_of_entry_def)
qed

definition ref_stream_node :: node_rpc where
  "ref_stream_node = ref_node\<lparr>rpc_get_raw_mempool := Inr [],
     rpc_get_blockchain_info := Inr \<lparr>gbi_chain = ''main'', gbi_blocks = 3, gbi_bestblockhash = ''aa'',
       gbi_estimatedheight = 3, gbi_consensus_chaintip = '''', gbi_upgrades = []\<rparr>\<rparr>"

theorem get_mempool_stream_follows_witness:
  "\<exists>st snapshot. refresh ref_parse ref_stream_node 7 (fst (monitor_run ref_parse [])) = (st, Inr snapshot) \<and>
     get_mempool_stream ref_parse dead_node [] (Some (8, snapshot,
       observed ref_parse (st, snapshot) [(dead_node, 10), (dead_node, 60008)])) = [Inl stale_mempool_status]"
proof -
  have "case refresh ref_parse ref_stream_node 7 (fst (monitor_run ref_parse [])) of
      (_, Inr snapshot) \<Rightarrow> ms_tip_hash snapshot = ''aa'' \<and> ms_entries snapshot = [] \<and> ms_refreshed_at snapshot = Some 7 | _ \<Rightarrow> False"
    by code_simp
  then obtain st snapshot where run: "refresh ref_parse ref_stream_node 7 (fst (monitor_run ref_parse [])) = (st, Inr snapshot)"
    and s: "ms_tip_hash snapshot = ''aa''" "ms_entries snapshot = []" "ms_refreshed_at snapshot = Some 7"
    by (auto split: prod.splits sum.splits)
  let ?turns = "[(dead_node, 10), (dead_node, 60008)]"
  have dead: "monitor_turn ref_parse (dead_node, n) (st, snapshot) = (st, snapshot)" for n
    by (simp add: monitor_turn_def refresh_def dead_node_def)
  have same: "published ref_parse (st, snapshot) (take k ?turns) = snapshot" for k
    by (cases k; cases "k - 1") (simp_all add: published_def dead take_Cons')
  have "\<forall>turn \<in> set ?turns. tip_stays (ms_tip_hash snapshot) (fst turn)" by (simp add: tip_stays_def dead_node_def)
  from get_mempool_stream_follows [OF run _ _ this, of 8 dead_node "[]"] s
  obtain k where k: "k \<le> Suc (Suc 0)"
    "get_mempool_stream ref_parse dead_node [] (Some (8, snapshot, observed ref_parse (st, snapshot) ?turns)) =
      (if k < Suc (Suc 0) then [Inl stale_mempool_status] else [])"
    "\<forall>j < k. \<not> is_stale (snd (?turns ! j)) snapshot"
    by (auto simp: same simp del: observed.simps take_Suc_Cons)
  have "\<not> 1 < k" using k(3) s by (auto simp: is_stale_def STALENESS_CUTOFF_def)
  then show ?thesis using run k(2) by (intro exI conjI) auto
qed

end
