(* ===== verification/Darkside_Block.thy ===== *)
theory Darkside_Block
  imports Service_Chain Service_Subtrees Service_Address
begin

text \<open>
  src/darkside/block.rs and src/darkside/error.rs: the blocks of the mock chain, held split so that they
  can be changed and serialized again, and the error type of the mock chain.

  The mutations of src/darkside take the state by reference, so a failure comes with the state it leaves:
  an operation maps a state to a state and a result.
\<close>

section \<open>Operations that change a state and may fail\<close>

definition thenD :: "'s \<times> ('e, 'a) result \<Rightarrow> ('a \<Rightarrow> 's \<Rightarrow> 's \<times> ('e, 'b) result) \<Rightarrow> 's \<times> ('e, 'b) result" where
  "thenD m f = (case m of (s, Inl e) \<Rightarrow> (s, Inl e) | (s, Inr x) \<Rightarrow> f x s)"

primrec loopD :: "('x \<Rightarrow> 's \<Rightarrow> 's \<times> ('e, unit) result) \<Rightarrow> 'x list \<Rightarrow> 's \<Rightarrow> 's \<times> ('e, unit) result" where
  "loopD f [] s = (s, Inr ())"
| "loopD f (x # xs) s = thenD (f x s) (\<lambda>_. loopD f xs)"

definition map_errD :: "('e \<Rightarrow> 'f) \<Rightarrow> 's \<times> ('e, 'a) result \<Rightarrow> 's \<times> ('f, 'a) result" where
  "map_errD h m = (fst m, map_err h (snd m))"

lemma thenD_simps [simp]: "thenD (s, Inl e) f = (s, Inl e)" "thenD (s, Inr x) f = f x s"
  by (simp_all add: thenD_def)

lemma thenD_pair: "thenD (s, m) f = (case m of Inl e \<Rightarrow> (s, Inl e) | Inr x \<Rightarrow> f x s)"
  by (simp add: thenD_def)

lemma thenD_preserves:
  assumes "P (fst m)" and "\<And>x s. m = (s, Inr x) \<Longrightarrow> P s \<Longrightarrow> P (fst (f x s))"
  shows "P (fst (thenD m f))"
  using assms by (cases m; cases "snd m") auto

lemma loopD_preserves:
  assumes "P s" and "\<And>x s. x \<in> set xs \<Longrightarrow> P s \<Longrightarrow> P (fst (f x s))"
  shows "P (fst (loopD f xs s))"
  using assms
proof (induction xs arbitrary: s)
  case (Cons x xs)
  have "P (fst (thenD (f x s) (\<lambda>_. loopD f xs)))"
    by (rule thenD_preserves [where P = P]) (use Cons in simp_all)
  then show ?case by simp
qed simp

lemma thenD_Inr: "thenD m f = (s', Inr y) \<longleftrightarrow> (\<exists>s x. m = (s, Inr x) \<and> f x s = (s', Inr y))"
  by (cases m; cases "snd m") auto

lemma map_errD_fst [simp]: "fst (map_errD h m) = fst m"
  by (simp add: map_errD_def)

lemma map_errD_Inr: "map_errD h m = (s, Inr x) \<longleftrightarrow> m = (s, Inr x)"
  by (cases m) (auto simp: map_errD_def result_simps)


section \<open>Errors\<close>

datatype darkside_error =
    NotReset
  | DsInvalid string "msg_arg list"
  | DsParse parse_error
  | DsHex hex_error

fun darkside_error_text :: "darkside_error \<Rightarrow> text_of" where
  "darkside_error_text NotReset = (''please call Reset first'', [])"
| "darkside_error_text (DsInvalid f args) = (f, args)"
| "darkside_error_text (DsParse e) = parse_error_text e"
| "darkside_error_text (DsHex e) = (''decoding hex: {}'', [hex_error_msg e])"

text \<open>A node error carries its message as text; the Display that thiserror derives is an argument.\<close>

definition darkside_to_node_error :: "(darkside_error \<Rightarrow> string) \<Rightarrow> darkside_error \<Rightarrow> node_error" where
  "darkside_to_node_error display error = Rpc (-1) (display error)"

definition darkside_to_status :: "darkside_error \<Rightarrow> status" where
  "darkside_to_status error =
     (case error of
        NotReset \<Rightarrow> status_with FailedPrecondition (darkside_error_text error)
      | other \<Rightarrow> status_with InvalidArgument (darkside_error_text other))"


section \<open>Blocks of the mock chain\<close>

definition SYNTHETIC_HEADER_LEN :: usize where
  "SYNTHETIC_HEADER_LEN = 1487"

record active_block =
  ab_header :: bytes
  ab_txs :: "bytes list"
  ab_sapling_size :: u32
  ab_orchard_size :: u32
  ab_ironwood_size :: u32

definition to_raw :: "active_block \<Rightarrow> bytes" where
  "to_raw block = write_compact_size (ab_header block) (length (ab_txs block)) @ concat (ab_txs block)"

definition active_hash :: "'x parse_ext_scheme \<Rightarrow> active_block \<Rightarrow> bytes" where
  "active_hash X block = sha256d X (ab_header block)"

definition display_hash :: "'x parse_ext_scheme \<Rightarrow> active_block \<Rightarrow> string" where
  "display_hash X block = wire_to_display_hex X (active_hash X block)"

text \<open>The loop of set\_prevhash, with the hash of the block before, if there is one.\<close>

primrec link_from :: "'x parse_ext_scheme \<Rightarrow> bytes option \<Rightarrow> active_block list \<Rightarrow> active_block list" where
  "link_from X prev_hash [] = []"
| "link_from X prev_hash (block # blocks) =
     (let block = (case prev_hash of
                     None \<Rightarrow> block
                   | Some hash \<Rightarrow>
                       block\<lparr>ab_header := take 4 (ab_header block) @ hash @ drop 36 (ab_header block)\<rparr>)
      in block # link_from X (Some (sha256d X (ab_header block))) blocks)"

definition set_prevhash :: "'x parse_ext_scheme \<Rightarrow> active_block list \<Rightarrow> active_block list" where
  "set_prevhash X active = link_from X None active"

definition raw_block_height :: "'x parse_ext_scheme \<Rightarrow> bytes \<Rightarrow> (darkside_error, u64) result" where
  "raw_block_height X raw =
     bindE (map_err DsParse (split_block X raw)) (\<lambda>(_, txs).
     bindE (ok_or (DsInvalid ''block has no transactions'' []) (case txs of [] \<Rightarrow> None | t # _ \<Rightarrow> Some t)) (\<lambda>coinbase.
       map_err DsParse (coinbase_height_from_raw X coinbase)))"

definition FAKE_COINBASE :: string where
  "FAKE_COINBASE =
     ''0400008085202f890100000000000000000000000000000000000000000000000000'' @
     ''00000000000000ffffffff2a03d12c0c00043855975e464b8896790758f824ceac97836'' @
     ''22c17ed38f1669b8a45ce1da857dbbe7950e2ffffffff02a0ebce1d000000001976a914'' @
     ''7ed15946ec14ae0cd8fa8991eb6084452eb3f77c88ac405973070000000017a914e445cf'' @
     ''a944b6f2bdacefbda904a81d5fdd26d77f8700000000000000000000000000000000000000''"

text \<open>str::replace, on a nonempty pattern.\<close>

function str_replace :: "string \<Rightarrow> string \<Rightarrow> string \<Rightarrow> string" where
  "str_replace pat new [] = []"
| "str_replace pat new (c # cs) =
     (if pat \<noteq> [] \<and> take (length pat) (c # cs) = pat
      then new @ str_replace pat new (drop (length pat - 1) cs)
      else c # str_replace pat new cs)"
  by pat_completeness auto
termination
  by (relation "measure (\<lambda>(_, _, s). length s)") auto

text \<open>The decimal text of a signed number, and its bytes as an i32 cast to u32.\<close>

definition dec_int :: "int \<Rightarrow> string" where
  "dec_int n = (if n < 0 then ''-'' @ dec_string (nat (- n)) else dec_string (nat n))"

definition as_u32 :: "int \<Rightarrow> u32" where
  "as_u32 n = nat (n mod 4294967296)"

definition ascii_bytes :: "string \<Rightarrow> bytes" where
  "ascii_bytes s = map (\<lambda>c. of_nat (of_char c)) s"

definition synthetic_header :: "'x parse_ext_scheme \<Rightarrow> int \<Rightarrow> int \<Rightarrow> bytes" where
  "synthetic_header X height nonce =
     write_compact_size
       (le_bytes 4 4 @ replicate 32 0 @ sha256 X (ascii_bytes (dec_int nonce @ ''#'' @ dec_int height)) @
        replicate 32 0 @ le_bytes 4 1 @ replicate 4 0 @ replicate 32 0) 1344 @
     replicate 1344 0"

definition synthetic_block :: "'x parse_ext_scheme \<Rightarrow> int \<Rightarrow> int \<Rightarrow> (darkside_error, bytes) result" where
  "synthetic_block X height nonce =
     (let height_le = hex_encode X (le_bytes 4 (as_u32 height)) in
      bindE (map_err DsHex (hex_decode X (str_replace ''d12c0c00'' height_le FAKE_COINBASE))) (\<lambda>coinbase.
        Inr (synthetic_header X height nonce @ [1] @ coinbase)))"


section \<open>Headers that keep their shape\<close>

text \<open>A header whose end the parser finds whatever follows it.\<close>

definition header_wf :: "'x parse_ext_scheme \<Rightarrow> bytes \<Rightarrow> bool" where
  "header_wf X header \<longleftrightarrow> 140 \<le> length header \<and> (\<forall>rest. header_end X (header @ rest) = Inr (length header))"

text \<open>Transactions the reader consumes to the last byte.\<close>

definition exact_tx :: "'x parse_ext_scheme \<Rightarrow> bytes \<Rightarrow> bool" where
  "exact_tx X t \<longleftrightarrow> (\<exists>tx. transaction_read X t = Inr (tx, length t))"

text \<open>The compact form of a block's transactions, each with its place in the block.\<close>

definition compacted :: "'x parse_ext_scheme \<Rightarrow> nat \<Rightarrow> bytes list \<Rightarrow> compact_tx list" where
  "compacted X start txs =
     map (\<lambda>(k, t). to_compact_tx k (fst (projr (transaction_read X t))) (k = 0)) (enumerate start txs)"

lemma link_from_length [simp]: "length (link_from X p bs) = length bs"
  by (induction bs arbitrary: p) (auto simp: Let_def)

lemma link_from_nth:
  "i < length bs \<Longrightarrow>
     link_from X p bs ! i =
       (case (if i = 0 then p else Some (active_hash X (link_from X p bs ! (i - 1)))) of
          None \<Rightarrow> bs ! i
        | Some hash \<Rightarrow> (bs ! i)\<lparr>ab_header := take 4 (ab_header (bs ! i)) @ hash @ drop 36 (ab_header (bs ! i))\<rparr>)"
proof (induction bs arbitrary: p i)
  case (Cons b bs)
  then show ?case
    by (cases i; cases "i - 1") (auto simp: Let_def active_hash_def split: option.splits)
qed simp

context parse_contract
begin

lemma split_header_wf:
  assumes "split_block X raw = Inr (header, txs)"
  shows "header_wf X header"
proof -
  have raw: "raw = header @ compact_size_bytes (length txs) @ concat txs"
    and e: "header_end X raw = Inr (length header)"
    using split_block_concat [OF assms] by simp_all
  from e obtain sl p where len: "140 \<le> length raw" "length header = 140 + p + sl"
    and rd: "compact_size_read X (drop 140 raw) = Inr (sl, p)"
    by (auto simp: header_end_def Let_def result_simps HEADER_PREFIX_LEN_def)
  from compact_size_read_exact [OF rd] have sl: "sl \<le> MAX_COMPACT_SIZE" "p = length (compact_size_bytes sl)"
    "take p (drop 140 raw) = compact_size_bytes sl" by auto
  have "take p (drop 140 header) = compact_size_bytes sl"
    using sl(3) len(2) raw by (simp add: drop_take)
  then have "drop 140 header = compact_size_bytes sl @ drop (140 + p) header"
    by (metis append_take_drop_id drop_drop add.commute)
  then have "header_end X (header @ rest) = Inr (length header)" for rest
    using compact_size_read_bytes [OF sl(1), of "drop (140 + p) header @ rest"] len(2) sl(2)
    by (simp add: header_end_def HEADER_PREFIX_LEN_def Let_def)
  with len show ?thesis by (simp add: header_wf_def)
qed

lemma header_wf_update:
  assumes "header_wf X header" and "length header' = length header" and "drop 140 header' = drop 140 header"
  shows "header_wf X header'"
proof -
  have "header_end X (header' @ rest) = header_end X (header @ rest)" for rest
    using assms by (simp add: header_end_def HEADER_PREFIX_LEN_def header_wf_def)
  with assms show ?thesis by (simp add: header_wf_def)
qed

lemma header_wf_prevhash:
  "header_wf X header \<Longrightarrow> length hash = 32 \<Longrightarrow> header_wf X (take 4 header @ hash @ drop 36 header)"
  by (rule header_wf_update [of header]) (auto simp: header_wf_def)

lemma header_wf_byte: "header_wf X header \<Longrightarrow> header_wf X (header[68 := b])"
  by (rule header_wf_update [of header]) auto

text \<open>A header with exact transactions is a block both parsers accept, and this is the block they give.\<close>

lemma compact_txs_parts:
  assumes "\<forall>t \<in> set new. exact_tx X t" and "drop pos body = concat new @ rest"
    and "index = 0 \<longrightarrow> new \<noteq> [] \<and> coinbase_height_from_raw X (hd new) = Inr h"
  shows "compact_txs X body (length new) index pos height vtx =
    Inr (if index = 0 then Some h else height, vtx @ compacted X index new, pos + length (concat new))"
  using assms
proof (induction new arbitrary: index pos height vtx)
  case (Cons t new)
  from Cons.prems(1) obtain tx where tx: "transaction_read X t = Inr (tx, length t)" by (auto simp: exact_tx_def)
  have read: "transaction_read X (drop pos body) = Inr (tx, length t)"
    using transaction_read_prefix [OF tx, of "concat new @ rest"] Cons.prems(2) by simp
  have after: "drop (pos + length t) body = concat new @ rest"
    using Cons.prems(2) by (metis add.commute append.assoc append_eq_conv_conj concat.simps(2) drop_drop)
  have h: "(if index = 0 then bindE (coinbase_height tx) (\<lambda>h. Inr (Some h)) else Inr height) =
      Inr (if index = 0 then Some h else height)"
    using Cons.prems(3) tx by (auto simp: coinbase_height_from_raw_def)
  have "compact_txs X body (length new) (Suc index) (pos + length t) (if index = 0 then Some h else height)
      (vtx @ [to_compact_tx index tx (index = 0)]) =
      Inr (if index = 0 then Some h else height,
           (vtx @ [to_compact_tx index tx (index = 0)]) @ compacted X (Suc index) new,
           pos + length t + length (concat new))"
    using Cons.IH [of "pos + length t" "Suc index"] Cons.prems(1) after by simp
  then show ?case using read h tx by (simp add: compacted_def add.assoc cong: if_cong)
qed (simp add: compacted_def)

lemma to_compact_block_of_parts:
  assumes "header_wf X header" "txs \<noteq> []" "\<forall>t \<in> set txs. exact_tx X t" "length txs \<le> MAX_COMPACT_SIZE"
    and "coinbase_height_from_raw X (hd txs) = Inr h"
  shows "to_compact_block X (write_compact_size header (length txs) @ concat txs) =
    Inr \<lparr>cb_height = h, cb_hash = sha256d X header, cb_prev_hash = take 32 (drop 4 header),
         cb_time = of_le_bytes (take 4 (drop 100 header)), cb_header = [], cb_vtx = compacted X 0 txs,
         cb_chain_metadata = Some \<lparr>sapling_commitment_tree_size = 0, orchard_commitment_tree_size = 0,
           ironwood_commitment_tree_size = 0\<rparr>\<rparr>"
proof -
  let ?body = "compact_size_bytes (length txs) @ concat txs"
  have e: "header_end X (header @ ?body) = Inr (length header)"
    using assms(1) by (simp add: header_wf_def)
  have rd: "compact_size_read X ?body = Inr (length txs, length (compact_size_bytes (length txs)))"
    by (rule compact_size_read_bytes [OF assms(4)])
  have "compact_txs X ?body (length txs) 0 (length (compact_size_bytes (length txs))) None [] =
      Inr (Some h, compacted X 0 txs, length ?body)"
    using compact_txs_parts [OF assms(3), of "length (compact_size_bytes (length txs))" ?body "[]" 0 h None "[]"]
      assms(2,5) by simp
  moreover have "140 \<le> length header"
    using assms(1) by (simp add: header_wf_def)
  ultimately show ?thesis
    using e rd by (simp add: to_compact_block_def write_compact_size_def Let_def)
qed

end

end
