(* ===== verification/Darkside_State.thy ===== *)
theory Darkside_State
  imports Darkside_Block
begin

text \<open>
  src/darkside/state.rs: the mutable mock chain, what the control plane does to it and what the mock
  node reads from it.
\<close>

section \<open>The state\<close>

record darkside_meta_state =
  dm_sapling_activation :: int
  dm_branch_id :: string
  dm_chain_name :: string
  dm_start_sapling_commitment_tree_size :: u32
  dm_start_orchard_commitment_tree_size :: u32
  dm_start_ironwood_commitment_tree_size :: u32

record staged_subtree_roots =
  ss_start_index :: u32
  ss_roots :: "subtree_root list"

record darkside_state =
  dk_was_reset :: bool
  dk_start_height :: u64
  dk_start_sapling_size :: u32
  dk_start_orchard_size :: u32
  dk_start_ironwood_size :: u32
  dk_branch_id :: string
  dk_chain_name :: string
  dk_latest_height :: int
  dk_active :: "active_block list"
  dk_staged_blocks :: "bytes list"
  dk_staged_txs :: "(u64 \<times> bytes) list"
  dk_incoming_txs :: "bytes list"
  dk_utxos :: "get_address_utxos_reply list"
  dk_addr_txs :: "(string \<times> bytes \<times> u64) list"
  dk_treestates :: "tree_state list"
  dk_subtree_roots :: "int \<rightharpoonup> staged_subtree_roots"

definition darkside_new :: darkside_state where
  "darkside_new =
     \<lparr>dk_was_reset = False, dk_start_height = 0, dk_start_sapling_size = 0, dk_start_orchard_size = 0,
      dk_start_ironwood_size = 0, dk_branch_id = [], dk_chain_name = ''main'', dk_latest_height = -1,
      dk_active = [], dk_staged_blocks = [], dk_staged_txs = [], dk_incoming_txs = [], dk_utxos = [],
      dk_addr_txs = [], dk_treestates = [], dk_subtree_roots = Map.empty\<rparr>"

definition darkside_reset :: "darkside_meta_state \<Rightarrow> darkside_state" where
  "darkside_reset meta =
     \<lparr>dk_was_reset = True, dk_start_height = nat (max (dm_sapling_activation meta) 0),
      dk_start_sapling_size = dm_start_sapling_commitment_tree_size meta,
      dk_start_orchard_size = dm_start_orchard_commitment_tree_size meta,
      dk_start_ironwood_size = dm_start_ironwood_commitment_tree_size meta,
      dk_branch_id = dm_branch_id meta, dk_chain_name = dm_chain_name meta, dk_latest_height = -1,
      dk_active = [], dk_staged_blocks = [], dk_staged_txs = [], dk_incoming_txs = [], dk_utxos = [],
      dk_addr_txs = [], dk_treestates = [], dk_subtree_roots = Map.empty\<rparr>"

type_synonym 'a ds_result = "darkside_state \<times> (darkside_error, 'a) result"


section \<open>Staging\<close>

definition check_reset :: "darkside_state \<Rightarrow> (darkside_error, unit) result" where
  "check_reset st = failIf (\<not> dk_was_reset st) NotReset"

definition stage_block :: "'x parse_ext_scheme \<Rightarrow> bytes \<Rightarrow> darkside_state \<Rightarrow> unit ds_result" where
  "stage_block X raw st =
     thenD (st, check_reset st) (\<lambda>_ st.
     thenD (st, raw_block_height X raw) (\<lambda>height st.
     thenD (st, failIf (height < dk_start_height st)
                  (DsInvalid ''block height {} is less than sapling activation height {}''
                     [Num height, Num (dk_start_height st)])) (\<lambda>_ st.
       (st\<lparr>dk_staged_blocks := dk_staged_blocks st @ [raw]\<rparr>, Inr ()))))"

text \<open>The heights of i32's open range, which wraps around in the release profile.\<close>

definition stage_blocks_create :: "'x parse_ext_scheme \<Rightarrow> int \<Rightarrow> int \<Rightarrow> int \<Rightarrow> darkside_state \<Rightarrow> unit ds_result" where
  "stage_blocks_create X height nonce cnt st =
     thenD (st, check_reset st) (\<lambda>_ st.
       loopD (\<lambda>height st.
           thenD (st, synthetic_block X height nonce) (\<lambda>raw st. stage_block X raw st))
         (map (\<lambda>k. as_i32 (height + int k)) [0..<nat (max cnt 0)]) st)"

definition stage_transaction :: "'x parse_ext_scheme \<Rightarrow> u64 \<Rightarrow> bytes \<Rightarrow> darkside_state \<Rightarrow> unit ds_result" where
  "stage_transaction X height raw st =
     thenD (st, check_reset st) (\<lambda>_ st.
     thenD (st, map_err DsParse (shielded_counts X raw)) (\<lambda>_ st.
       (st\<lparr>dk_staged_txs := dk_staged_txs st @ [(height, raw)]\<rparr>, Inr ())))"


section \<open>Applying what is staged\<close>

definition count_txs ::
    "'x parse_ext_scheme \<Rightarrow> bytes list \<Rightarrow> u32 \<times> u32 \<times> u32 \<Rightarrow> (darkside_error, u32 \<times> u32 \<times> u32) result" where
  "count_txs X txs sizes =
     foldE (\<lambda>tx (sapling, orchard, ironwood).
         bindE (map_err DsParse (shielded_counts X tx)) (\<lambda>(s, o', i).
           Inr (u32_add sapling s, u32_add orchard o', u32_add ironwood i)))
       txs sizes"

text \<open>The end of add\_block\_active: the block's tree sizes, and the block in place of what it overwrites.\<close>

definition place_block :: "'x parse_ext_scheme \<Rightarrow> bytes \<Rightarrow> bytes list \<Rightarrow> u64 \<Rightarrow> darkside_state \<Rightarrow> unit ds_result" where
  "place_block X header txs height st =
     (let offset = height - dk_start_height st;
          sizes = (if offset > 0 then
                     (let prev = dk_active st ! (offset - 1) in
                      (ab_sapling_size prev, ab_orchard_size prev, ab_ironwood_size prev))
                   else (dk_start_sapling_size st, dk_start_orchard_size st, dk_start_ironwood_size st)) in
      thenD (st, count_txs X txs sizes) (\<lambda>(sapling, orchard, ironwood) st.
        (st\<lparr>dk_active := take offset (dk_active st) @
           [\<lparr>ab_header = header, ab_txs = txs, ab_sapling_size = sapling, ab_orchard_size = orchard,
             ab_ironwood_size = ironwood\<rparr>]\<rparr>, Inr ())))"

definition add_block_active :: "'x parse_ext_scheme \<Rightarrow> bytes \<Rightarrow> darkside_state \<Rightarrow> unit ds_result" where
  "add_block_active X raw st =
     thenD (st, map_err DsParse (split_block X raw)) (\<lambda>(header, txs) st.
     thenD (st, ok_or (DsInvalid ''block has no transactions'' []) (case txs of [] \<Rightarrow> None | t # _ \<Rightarrow> Some t)) (\<lambda>coinbase st.
     thenD (st, map_err DsParse (coinbase_height_from_raw X coinbase)) (\<lambda>height st.
     thenD (st, failIf (height > u64_add (dk_start_height st) (length (dk_active st)))
                  (DsInvalid ''adding block at height {} would create a gap in the blockchain'' [Num height])) (\<lambda>_ st.
     thenD (st, failIf (height < dk_start_height st)
                  (DsInvalid ''adding block at height {} is lower than sapling activation height {}''
                     [Num height, Num (dk_start_height st)])) (\<lambda>_ st.
       place_block X header txs height st)))))"

definition apply_staged_blocks :: "'x parse_ext_scheme \<Rightarrow> darkside_state \<Rightarrow> unit ds_result" where
  "apply_staged_blocks X st =
     (let staged_blocks = dk_staged_blocks st in
      thenD (loopD (add_block_active X) staged_blocks (st\<lparr>dk_staged_blocks := []\<rparr>)) (\<lambda>_ st.
        (st, failIf (dk_active st = []) (DsInvalid ''no active blocks after applying staged blocks'' []))))"

text \<open>One staged transaction: its block gets it, and it and every later block the notes it adds.\<close>

definition mine_into :: "bytes \<Rightarrow> active_block \<Rightarrow> active_block" where
  "mine_into raw block =
     block\<lparr>ab_txs := ab_txs block @ [raw],
           ab_header := (ab_header block)[68 := ab_header block ! 68 + 1]\<rparr>"

definition grow_by :: "u32 \<times> u32 \<times> u32 \<Rightarrow> active_block \<Rightarrow> active_block" where
  "grow_by counts block =
     (case counts of (s, o', i) \<Rightarrow>
        block\<lparr>ab_sapling_size := u32_add (ab_sapling_size block) s,
              ab_orchard_size := u32_add (ab_orchard_size block) o',
              ab_ironwood_size := u32_add (ab_ironwood_size block) i\<rparr>)"

definition mine_tx :: "'x parse_ext_scheme \<Rightarrow> u64 \<times> bytes \<Rightarrow> darkside_state \<Rightarrow> unit ds_result" where
  "mine_tx X staged st =
     (case staged of (tx_height, raw) \<Rightarrow>
        thenD (st, failIf (tx_height < dk_start_height st) (DsInvalid ''transaction height too low'' [])) (\<lambda>_ st.
          let index = tx_height - dk_start_height st in
        thenD (st, failIf (index \<ge> length (dk_active st)) (DsInvalid ''transaction height too high'' [])) (\<lambda>_ st.
        thenD (st, map_err DsParse (shielded_counts X raw)) (\<lambda>counts st.
          let active = (dk_active st)[index := mine_into raw (dk_active st ! index)] in
          (st\<lparr>dk_active := take index active @ map (grow_by counts) (drop index active)\<rparr>, Inr ())))))"

definition mine_staged_transactions :: "'x parse_ext_scheme \<Rightarrow> darkside_state \<Rightarrow> unit ds_result" where
  "mine_staged_transactions X st =
     (let staged_txs = dk_staged_txs st in loopD (mine_tx X) staged_txs (st\<lparr>dk_staged_txs := []\<rparr>))"

definition apply_staged :: "'x parse_ext_scheme \<Rightarrow> int \<Rightarrow> darkside_state \<Rightarrow> unit ds_result" where
  "apply_staged X target_height st =
     thenD (st, check_reset st) (\<lambda>_ st.
     thenD (st, failIf (target_height < int (dk_start_height st))
                  (DsInvalid ''height {} is less than sapling activation height {}''
                     [Sgn target_height, Num (dk_start_height st)])) (\<lambda>_ st.
     thenD (apply_staged_blocks X st) (\<lambda>_ st.
     thenD (mine_staged_transactions X st) (\<lambda>_ st.
       let st = st\<lparr>dk_active := set_prevhash X (dk_active st)\<rparr>;
           max_height = int (dk_start_height st) + int (length (dk_active st)) - 1 in
       (st\<lparr>dk_latest_height := min target_height max_height\<rparr>, Inr ())))))"


section \<open>Other mutations\<close>

definition push_incoming :: "'x parse_ext_scheme \<Rightarrow> bytes \<Rightarrow> darkside_state \<Rightarrow> string ds_result" where
  "push_incoming X raw st =
     thenD (st, map_err DsParse (txid_display X raw)) (\<lambda>tid st.
       (st\<lparr>dk_incoming_txs := dk_incoming_txs st @ [raw]\<rparr>, Inr tid))"

definition clear_incoming :: "darkside_state \<Rightarrow> darkside_state" where
  "clear_incoming st = st\<lparr>dk_incoming_txs := []\<rparr>"

definition add_utxo :: "get_address_utxos_reply \<Rightarrow> darkside_state \<Rightarrow> darkside_state" where
  "add_utxo reply st = st\<lparr>dk_utxos := dk_utxos st @ [reply]\<rparr>"

definition clear_utxos :: "darkside_state \<Rightarrow> darkside_state" where
  "clear_utxos st = st\<lparr>dk_utxos := []\<rparr>"

definition add_addr_tx :: "string \<Rightarrow> bytes \<Rightarrow> u64 \<Rightarrow> darkside_state \<Rightarrow> darkside_state" where
  "add_addr_tx address raw height st = st\<lparr>dk_addr_txs := dk_addr_txs st @ [(address, raw, height)]\<rparr>"

definition clear_addr_txs :: "darkside_state \<Rightarrow> darkside_state" where
  "clear_addr_txs st = st\<lparr>dk_addr_txs := []\<rparr>"

definition add_treestate :: "tree_state \<Rightarrow> darkside_state \<Rightarrow> unit ds_result" where
  "add_treestate tree_state st =
     thenD (st, check_reset st) (\<lambda>_ st.
       (st\<lparr>dk_treestates :=
            filter (\<lambda>existing. ts_height existing \<noteq> ts_height tree_state) (dk_treestates st) @ [tree_state]\<rparr>, Inr ()))"

definition remove_treestate :: "'x hex_ext_scheme \<Rightarrow> u64 \<Rightarrow> bytes \<Rightarrow> darkside_state \<Rightarrow> darkside_state" where
  "remove_treestate X height wire_hash st =
     (if height > 0
      then st\<lparr>dk_treestates := filter (\<lambda>t. ts_height t \<noteq> height) (dk_treestates st)\<rparr>
      else
        let forward = hex_encode X wire_hash; reversed = wire_to_display_hex X wire_hash in
        st\<lparr>dk_treestates := filter (\<lambda>t. ts_hash t \<noteq> forward \<and> ts_hash t \<noteq> reversed) (dk_treestates st)\<rparr>)"

definition clear_treestates :: "darkside_state \<Rightarrow> darkside_state" where
  "clear_treestates st = st\<lparr>dk_treestates := []\<rparr>"

definition set_subtree_roots :: "int \<Rightarrow> u32 \<Rightarrow> subtree_root list \<Rightarrow> darkside_state \<Rightarrow> darkside_state" where
  "set_subtree_roots protocol start_index roots st =
     st\<lparr>dk_subtree_roots := (dk_subtree_roots st)(protocol \<mapsto> \<lparr>ss_start_index = start_index, ss_roots = roots\<rparr>)\<rparr>"

end
