(* ===== verification/Darkside_Node.thy ===== *)
theory Darkside_Node
  imports Darkside_State
begin

text \<open>
  The reads of src/darkside/state.rs and src/darkside/node.rs: what the mock node answers from the state
  of the mock chain. The node built from a state is the NodeRpc surface the cache, the ingestor and the
  service use unchanged.
\<close>

section \<open>Reads\<close>

definition tip_index :: "darkside_state \<Rightarrow> usize option" where
  "tip_index st =
     (if dk_latest_height st < int (dk_start_height st) then None
      else
        let index = nat (dk_latest_height st - int (dk_start_height st)) in
        if index < length (dk_active st) then Some index else None)"

definition not_found :: "u64 \<Rightarrow> darkside_error" where
  "not_found height = DsInvalid ''-8: block {} not found'' [Num height]"

definition active_at :: "darkside_state \<Rightarrow> u64 \<Rightarrow> (darkside_error, active_block) result" where
  "active_at st height =
     bindE (failIf (dk_active st = [] \<or> dk_latest_height st < 0 \<or> height > nat (dk_latest_height st)) (not_found height)) (\<lambda>_.
     bindE (failIf (height < dk_start_height st)
              (DsInvalid ''getblock: requesting height {} is less than sapling activation height'' [Num height])) (\<lambda>_.
       let index = height - dk_start_height st in
       ok_or (not_found height) (if index < length (dk_active st) then Some (dk_active st ! index) else None)))"

definition block_count :: "darkside_state \<Rightarrow> u64" where
  "block_count st = nat (max (dk_latest_height st) 0)"

definition blockchain_info :: "'x parse_ext_scheme \<Rightarrow> darkside_state \<Rightarrow> (darkside_error, get_blockchain_info) result" where
  "blockchain_info X st =
     bindE (ok_or (DsInvalid ''getblockchaininfo requires at least one applied block'' []) (tip_index st)) (\<lambda>index.
       let blocks = nat (dk_latest_height st) in
       Inr \<lparr>gbi_chain = dk_chain_name st, gbi_blocks = blocks,
            gbi_bestblockhash = display_hash X (dk_active st ! index), gbi_estimatedheight = blocks,
            gbi_consensus_chaintip = dk_branch_id st,
            gbi_upgrades = [(''76b809bb'', \<lparr>up_name = ''Sapling'', up_activationheight = dk_start_height st,
              up_status = ''active''\<rparr>)]\<rparr>)"

definition block_verbose ::
    "'x parse_ext_scheme \<Rightarrow> darkside_state \<Rightarrow> u64 \<Rightarrow> (darkside_error, get_block_verbose) result" where
  "block_verbose X st height =
     bindE (active_at st height) (\<lambda>block.
       Inr \<lparr>gbv_hash = display_hash X block, gbv_tx = [],
            gbv_trees = \<lparr>tr_sapling = ab_sapling_size block, tr_orchard = ab_orchard_size block,
              tr_ironwood = ab_ironwood_size block\<rparr>\<rparr>)"

definition block_raw_by_hash :: "'x parse_ext_scheme \<Rightarrow> darkside_state \<Rightarrow> string \<Rightarrow> (darkside_error, bytes) result" where
  "block_raw_by_hash X st shown =
     ok_or (DsInvalid ''getblock: hash {} not found'' [Str shown])
       (map_option to_raw (find (\<lambda>block. display_hash X block = shown) (dk_active st)))"

definition raw_mempool :: "'x parse_ext_scheme \<Rightarrow> darkside_state \<Rightarrow> (darkside_error, string list) result" where
  "raw_mempool X st =
     bindE (foldE (\<lambda>raw txids.
         bindE (map_err DsParse (split_block X raw)) (\<lambda>(_, txs).
         bindE (mapE (\<lambda>tx. map_err DsParse (txid_display X tx)) txs) (\<lambda>new. Inr (txids @ new))))
       (dk_staged_blocks st) []) (\<lambda>txids.
     bindE (mapE (\<lambda>(_, raw). map_err DsParse (txid_display X raw)) (dk_staged_txs st)) (\<lambda>new. Inr (txids @ new)))"

text \<open>The first of a list of transactions with the id; a transaction that does not parse ends the search.\<close>

primrec find_tx ::
    "'x parse_ext_scheme \<Rightarrow> string \<Rightarrow> (bytes \<times> int) list \<Rightarrow> (darkside_error, get_raw_transaction option) result" where
  "find_tx X tid [] = Inr None"
| "find_tx X tid (th # ths) =
     (case th of (tx, height) \<Rightarrow>
        bindE (map_err DsParse (txid_display X tx)) (\<lambda>shown.
          if shown = tid then Inr (Some \<lparr>grt_hex = hex_encode X tx, grt_height = height\<rparr>) else find_tx X tid ths))"

text \<open>The loop over staged blocks, which splits each block as it comes to it.\<close>

primrec find_staged ::
    "'x parse_ext_scheme \<Rightarrow> string \<Rightarrow> bytes list \<Rightarrow> (darkside_error, get_raw_transaction option) result" where
  "find_staged X tid [] = Inr None"
| "find_staged X tid (raw # raws) =
     bindE (map_err DsParse (split_block X raw)) (\<lambda>(_, txs).
     bindE (raw_block_height X raw) (\<lambda>height.
     bindE (find_tx X tid (map (\<lambda>tx. (tx, as_i64 (int height))) txs)) (\<lambda>found.
       case found of Some r \<Rightarrow> Inr (Some r) | None \<Rightarrow> find_staged X tid raws)))"

text \<open>What remains to search when nothing was found.\<close>

definition or_else :: "('e, 'a option) result \<Rightarrow> ('e, 'a) result \<Rightarrow> ('e, 'a) result" where
  "or_else r rest = bindE r (\<lambda>found. case found of Some x \<Rightarrow> Inr x | None \<Rightarrow> rest)"

definition raw_transaction_of ::
    "'x parse_ext_scheme \<Rightarrow> darkside_state \<Rightarrow> string \<Rightarrow> (darkside_error, get_raw_transaction) result" where
  "raw_transaction_of X st tid =
     or_else (find_tx X tid (concat (map (\<lambda>(offset, block).
         map (\<lambda>tx. (tx, as_i64 (int (u64_add (dk_start_height st) offset)))) (ab_txs block)) (enumerate 0 (dk_active st)))))
     (or_else (find_staged X tid (dk_staged_blocks st))
     (or_else (find_tx X tid (map (\<lambda>(_, raw). (raw, 0)) (dk_staged_txs st)))
     (or_else (find_tx X tid (map (\<lambda>(_, raw, height). (raw, as_i64 (int height))) (dk_addr_txs st)))
       (Inl (DsInvalid ''-5: No information available about transaction'' [])))))"

definition address_txids ::
    "'x parse_ext_scheme \<Rightarrow> darkside_state \<Rightarrow> string list \<Rightarrow> u64 \<Rightarrow> u64 \<Rightarrow> (darkside_error, string list) result" where
  "address_txids X st addresses start finish =
     mapE (\<lambda>(_, raw, _). map_err DsParse (txid_display X raw))
       (filter (\<lambda>(address, _, height). \<not> (address \<notin> set addresses \<or> height < start \<or> (finish > 0 \<and> height > finish)))
          (dk_addr_txs st))"

definition address_utxos :: "'x hex_ext_scheme \<Rightarrow> darkside_state \<Rightarrow> string list \<Rightarrow> address_utxo list" where
  "address_utxos X st addresses =
     map (\<lambda>reply. \<lparr>au_address = gu_address reply, au_txid = wire_to_display_hex X (gu_txid reply),
                   au_output_index = gu_index reply, au_script = hex_encode X (gu_script reply),
                   au_satoshis = nat (gu_value_zat reply mod 18446744073709551616), au_height = gu_height reply\<rparr>)
       (filter (\<lambda>utxo. gu_address utxo \<in> set addresses) (dk_utxos st))"

definition treestate_read :: "darkside_state \<Rightarrow> string \<Rightarrow> (darkside_error, get_tree_state) result" where
  "treestate_read st ident =
     bindE
       (if length ident < 64 then
          bindE (ok_or (DsInvalid ''error parsing height as integer'' []) (parse_u64 ident)) (\<lambda>height.
            Inr (find (\<lambda>s. ts_height s = height) (dk_treestates st)))
        else Inr (find (\<lambda>s. ts_hash s = ident) (dk_treestates st))) (\<lambda>found.
     bindE (ok_or (DsInvalid
              ''no TreeState for the given height or block hash; stage it with AddTreeState first'' []) found) (\<lambda>t.
       Inr \<lparr>gts_hash = ts_hash t, gts_height = ts_height t, gts_time = ts_time t, gts_sapling = ts_sapling_tree t,
            gts_orchard = ts_orchard_tree t, gts_ironwood = ts_ironwood_tree t\<rparr>))"

definition subtree_roots_for :: "darkside_state \<Rightarrow> int \<Rightarrow> u32 \<Rightarrow> u32 \<Rightarrow> subtree_root list" where
  "subtree_roots_for st protocol start_index max_entries =
     (case dk_subtree_roots st protocol of
        None \<Rightarrow> []
      | Some staged \<Rightarrow>
          if start_index < ss_start_index staged then []
          else
            let offset = start_index - ss_start_index staged in
            if offset \<ge> length (ss_roots staged) then []
            else
              let available = length (ss_roots staged) - offset;
                  limit = (if max_entries > 0 then min max_entries available else available) in
              take limit (drop offset (ss_roots staged)))"


section \<open>The mock node\<close>

text \<open>
  The node of a state. Sending a transaction also changes the state: \<^verbatim>\<open>push_incoming\<close> is that change,
  and the reply is its result.
\<close>

definition darkside_node :: "'x parse_ext_scheme \<Rightarrow> (darkside_error \<Rightarrow> string) \<Rightarrow> darkside_state \<Rightarrow> node_rpc" where
  "darkside_node X display st =
     (let err = darkside_to_node_error display;
          get_block_hash = (\<lambda>h. map_err err (bindE (block_verbose X st h) (\<lambda>v. Inr (gbv_hash v)))) in
      \<lparr>rpc_get_info = Inr \<lparr>gi_build = ''lightwalletd-rs-darkside'', gi_subversion = ''lightwalletd-rs-darkside''\<rparr>,
       rpc_get_blockchain_info = map_err err (blockchain_info X st),
       rpc_get_block_verbose = (\<lambda>h. map_err err (block_verbose X st h)),
       rpc_get_block_count = Inr (block_count st),
       rpc_get_block_hash = get_block_hash,
       rpc_get_block_hashes = default_get_block_hashes get_block_hash,
       rpc_get_block_raw = (\<lambda>h. map_err err (block_raw_by_hash X st h)),
       rpc_get_raw_transaction = (\<lambda>t. map_err err (raw_transaction_of X st t)),
       rpc_send_raw_transaction =
         (\<lambda>hex. bindE (map_err Hex (hex_decode X hex)) (\<lambda>raw. map_err err (snd (push_incoming X raw st)))),
       rpc_get_treestate = (\<lambda>i. map_err err (treestate_read st i)),
       rpc_get_address_balance = (\<lambda>_. Inr \<lparr>gab_balance = 0\<rparr>),
       rpc_get_address_utxos = (\<lambda>as. Inr (address_utxos X st as)),
       rpc_get_address_txids = (\<lambda>as start finish. map_err err (address_txids X st as start finish)),
       rpc_get_subtrees = (\<lambda>_ _ _. Inr []),
       rpc_get_raw_mempool = map_err err (raw_mempool X st)\<rparr>)"

end
