(* ===== verification/Darkside_Service.thy ===== *)
theory Darkside_Service
  imports Darkside_Node Framing Rust_Text
begin

text \<open>
  src/darkside/service.rs: the control plane of the mock chain. Each handler changes the shared state and
  answers with an empty reply or a status. A client's stream is the list of its items; the body behind a
  URL is the result of fetching it.
\<close>

type_synonym 'a control_result = "darkside_state \<times> (status, 'a) result"

definition decode_hex_arg :: "'x hex_ext_scheme \<Rightarrow> string \<Rightarrow> string \<Rightarrow> (status, bytes) result" where
  "decode_hex_arg X value context =
     map_err (\<lambda>error. mk_status InvalidArgument ''bad {} hex: {}'' [Str context, hex_error_msg error]) (hex_decode X value)"

definition parse_hex_lines :: "'x hex_ext_scheme \<Rightarrow> string \<Rightarrow> string \<Rightarrow> (status, bytes list) result" where
  "parse_hex_lines X body context =
     foldE (\<lambda>line raws.
         let line = str_trim line in
         if line = [] then Inr raws
         else if line = ''404: Not Found'' then Inl (mk_status NotFound ''404: Not Found'' [])
         else bindE (decode_hex_arg X line context) (\<lambda>raw. Inr (raws @ [raw])))
       (str_lines body) []"

definition is_ascii_hexdigit :: "char \<Rightarrow> bool" where
  "is_ascii_hexdigit c =
     (let n = (of_char c :: nat) in 48 \<le> n \<and> n \<le> 57 \<or> 65 \<le> n \<and> n \<le> 70 \<or> 97 \<le> n \<and> n \<le> 102)"


section \<open>The handlers\<close>

definition svc_reset :: "darkside_meta_state \<Rightarrow> darkside_state \<Rightarrow> unit control_result" where
  "svc_reset meta st =
     thenD (st, failIf (dm_branch_id meta = [] \<or> \<not> list_all is_ascii_hexdigit (dm_branch_id meta))
                  (mk_status InvalidArgument ''Reset: invalid BranchID (must be hex): {}'' [Str (dm_branch_id meta)])) (\<lambda>_ st.
     thenD (st, failIf (dm_chain_name meta = [] \<or> \<not> list_all is_ascii_alphanumeric (dm_chain_name meta))
                  (mk_status InvalidArgument ''invalid chain name'' [])) (\<lambda>_ st.
       (darkside_reset meta, Inr ())))"

definition svc_stage_blocks_stream :: "'x parse_ext_scheme \<Rightarrow> string items \<Rightarrow> darkside_state \<Rightarrow> unit control_result" where
  "svc_stage_blocks_stream X incoming st =
     loopD (\<lambda>item st.
         thenD (st, item) (\<lambda>block st.
         thenD (st, decode_hex_arg X block ''block'') (\<lambda>raw st.
           map_errD darkside_to_status (stage_block X raw st))))
       incoming st"

definition svc_stage_blocks ::
    "'x parse_ext_scheme \<Rightarrow> (status, string) result \<Rightarrow> darkside_state \<Rightarrow> unit control_result" where
  "svc_stage_blocks X fetched st =
     thenD (st, fetched) (\<lambda>body st.
     thenD (st, parse_hex_lines X body ''block'') (\<lambda>raws st.
       loopD (\<lambda>raw st. map_errD darkside_to_status (stage_block X raw st)) raws st))"

definition svc_stage_blocks_create :: "'x parse_ext_scheme \<Rightarrow> int \<Rightarrow> int \<Rightarrow> int \<Rightarrow> darkside_state \<Rightarrow> unit control_result" where
  "svc_stage_blocks_create X height nonce cnt st =
     map_errD darkside_to_status (stage_blocks_create X height nonce cnt st)"

definition svc_stage_transactions_stream ::
    "'x parse_ext_scheme \<Rightarrow> raw_transaction items \<Rightarrow> darkside_state \<Rightarrow> unit control_result" where
  "svc_stage_transactions_stream X incoming st =
     loopD (\<lambda>item st.
         thenD (st, item) (\<lambda>tx st.
           map_errD darkside_to_status (stage_transaction X (rt_height tx) (rt_data tx) st)))
       incoming st"

definition svc_stage_transactions ::
    "'x parse_ext_scheme \<Rightarrow> int \<Rightarrow> (status, string) result \<Rightarrow> darkside_state \<Rightarrow> unit control_result" where
  "svc_stage_transactions X arg_height fetched st =
     thenD (st, fetched) (\<lambda>body st.
       let height = nat (max arg_height 0) in
     thenD (st, parse_hex_lines X body ''transaction'') (\<lambda>raws st.
       loopD (\<lambda>raw st. map_errD darkside_to_status (stage_transaction X height raw st)) raws st))"

definition svc_apply_staged :: "'x parse_ext_scheme \<Rightarrow> int \<Rightarrow> darkside_state \<Rightarrow> unit control_result" where
  "svc_apply_staged X height st = map_errD darkside_to_status (apply_staged X height st)"

definition svc_get_incoming :: "darkside_state \<Rightarrow> raw_transaction items" where
  "svc_get_incoming st = map (\<lambda>data. Inr \<lparr>rt_data = data, rt_height = 0\<rparr>) (dk_incoming_txs st)"

text \<open>The control calls, and the transaction a wallet sends through the mock node.\<close>

datatype control =
    Reset darkside_meta_state
  | StageBlocksStream "string items"
  | StageBlocks "(status, string) result"
  | StageBlocksCreate int int int
  | StageTransactionsStream "raw_transaction items"
  | StageTransactions int "(status, string) result"
  | ApplyStaged int
  | ClearIncoming
  | AddUtxo get_address_utxos_reply
  | ClearUtxos
  | AddAddrTx string bytes u64
  | ClearAddrTxs
  | AddTreeState tree_state
  | RemoveTreeState u64 bytes
  | ClearTreeStates
  | SetSubtreeRoots int u32 "subtree_root list"
  | SendTransaction bytes

fun control_step :: "'x parse_ext_scheme \<Rightarrow> control \<Rightarrow> darkside_state \<Rightarrow> darkside_state" where
  "control_step X (Reset meta) st = fst (svc_reset meta st)"
| "control_step X (StageBlocksStream incoming) st = fst (svc_stage_blocks_stream X incoming st)"
| "control_step X (StageBlocks fetched) st = fst (svc_stage_blocks X fetched st)"
| "control_step X (StageBlocksCreate height nonce cnt) st = fst (svc_stage_blocks_create X height nonce cnt st)"
| "control_step X (StageTransactionsStream incoming) st = fst (svc_stage_transactions_stream X incoming st)"
| "control_step X (StageTransactions height fetched) st = fst (svc_stage_transactions X height fetched st)"
| "control_step X (ApplyStaged height) st = fst (svc_apply_staged X height st)"
| "control_step X ClearIncoming st = clear_incoming st"
| "control_step X (AddUtxo reply) st = add_utxo reply st"
| "control_step X ClearUtxos st = clear_utxos st"
| "control_step X (AddAddrTx address raw height) st = add_addr_tx address raw height st"
| "control_step X ClearAddrTxs st = clear_addr_txs st"
| "control_step X (AddTreeState t) st = fst (add_treestate t st)"
| "control_step X (RemoveTreeState height wire_hash) st = remove_treestate X height wire_hash st"
| "control_step X ClearTreeStates st = clear_treestates st"
| "control_step X (SetSubtreeRoots protocol start_index roots) st = set_subtree_roots protocol start_index roots st"
| "control_step X (SendTransaction raw) st = fst (push_incoming X raw st)"

definition control_run :: "'x parse_ext_scheme \<Rightarrow> control list \<Rightarrow> darkside_state" where
  "control_run X calls = fold (control_step X) calls darkside_new"

end
