(* ===== verification/Darkside_Laws.thy ===== *)
theory Darkside_Laws
  imports Darkside_Service Ingestor_Sync
begin

text \<open>
  The invariant of the mock chain, and what its node serves: every control call keeps the active blocks
  well formed at consecutive heights with tree sizes that add up, and applying what is staged links them.
\<close>

section \<open>The invariant\<close>

type_synonym sizes = "u32 \<times> u32 \<times> u32"

definition add_sizes :: "sizes \<Rightarrow> sizes \<Rightarrow> sizes" where
  "add_sizes a b =
     (u32_add (fst a) (fst b), u32_add (fst (snd a)) (fst (snd b)), u32_add (snd (snd a)) (snd (snd b)))"

definition ab_sizes :: "active_block \<Rightarrow> sizes" where
  "ab_sizes b = (ab_sapling_size b, ab_orchard_size b, ab_ironwood_size b)"

definition start_sizes :: "darkside_state \<Rightarrow> sizes" where
  "start_sizes st = (dk_start_sapling_size st, dk_start_orchard_size st, dk_start_ironwood_size st)"

definition tx_counts :: "'x parse_ext_scheme \<Rightarrow> bytes \<Rightarrow> sizes" where
  "tx_counts X t = projr (shielded_counts X t)"

definition tally :: "'x parse_ext_scheme \<Rightarrow> bytes list \<Rightarrow> sizes \<Rightarrow> sizes" where
  "tally X txs z = foldl (\<lambda>z t. add_sizes z (tx_counts X t)) z txs"

definition block_ok :: "'x parse_ext_scheme \<Rightarrow> u64 \<Rightarrow> active_block \<Rightarrow> bool" where
  "block_ok X h b \<longleftrightarrow> header_wf X (ab_header b) \<and> ab_txs b \<noteq> [] \<and> (\<forall>t \<in> set (ab_txs b). exact_tx X t) \<and>
     coinbase_height_from_raw X (hd (ab_txs b)) = Inr h"

definition prev_sizes :: "sizes \<Rightarrow> active_block list \<Rightarrow> nat \<Rightarrow> sizes" where
  "prev_sizes z bs i = (if i = 0 then z else ab_sizes (bs ! (i - 1)))"

definition chain_ok :: "'x parse_ext_scheme \<Rightarrow> u64 \<Rightarrow> sizes \<Rightarrow> active_block list \<Rightarrow> bool" where
  "chain_ok X start z bs \<longleftrightarrow>
     (\<forall>i < length bs. block_ok X (start + i) (bs ! i) \<and> ab_sizes (bs ! i) = tally X (ab_txs (bs ! i)) (prev_sizes z bs i))"

definition dark_inv :: "'x parse_ext_scheme \<Rightarrow> darkside_state \<Rightarrow> bool" where
  "dark_inv X st \<longleftrightarrow> chain_ok X (dk_start_height st) (start_sizes st) (dk_active st) \<and>
     (\<forall>ht \<in> set (dk_staged_txs st). exact_tx X (snd ht))"

definition linked_active :: "'x parse_ext_scheme \<Rightarrow> active_block list \<Rightarrow> bool" where
  "linked_active X bs \<longleftrightarrow>
     (\<forall>i. Suc i < length bs \<longrightarrow> take 32 (drop 4 (ab_header (bs ! Suc i))) = active_hash X (bs ! i))"


section \<open>Tree sizes\<close>

lemma u32_add_swap: "u32_add (u32_add a b) c = u32_add (u32_add a c) b"
  unfolding u32_add_def mod_add_left_eq by (simp add: ac_simps)

lemma add_sizes_swap: "add_sizes (add_sizes a b) c = add_sizes (add_sizes a c) b"
  by (simp add: add_sizes_def u32_add_swap)

lemma tally_shift: "tally X txs (add_sizes z c) = add_sizes (tally X txs z) c"
proof (induction txs arbitrary: z)
  case (Cons t txs)
  then show ?case using Cons.IH [of "add_sizes z (tx_counts X t)"] by (simp add: tally_def add_sizes_swap)
qed (simp add: tally_def)

lemma tally_snoc: "tally X (txs @ [t]) z = add_sizes (tally X txs z) (tx_counts X t)"
  by (simp add: tally_def)

lemma grow_by_sel [simp]:
  "ab_sizes (grow_by c b) = add_sizes (ab_sizes b) c" "ab_header (grow_by c b) = ab_header b"
  "ab_txs (grow_by c b) = ab_txs b"
  by (cases c; simp add: grow_by_def ab_sizes_def add_sizes_def)+

lemma mine_into_sel [simp]:
  "ab_sizes (mine_into raw b) = ab_sizes b" "ab_txs (mine_into raw b) = ab_txs b @ [raw]"
  "ab_header (mine_into raw b) = (ab_header b)[68 := ab_header b ! 68 + 1]"
  by (simp_all add: mine_into_def ab_sizes_def)

lemma block_ok_grow [simp]: "block_ok X h (grow_by c b) \<longleftrightarrow> block_ok X h b"
  by (simp add: block_ok_def)

lemma exact_counts: "exact_tx X t \<Longrightarrow> shielded_counts X t = Inr (tx_counts X t)"
  by (auto simp: exact_tx_def tx_counts_def shielded_counts_def)

lemma count_txs_tally:
  "\<forall>t \<in> set txs. exact_tx X t \<Longrightarrow> count_txs X txs z = Inr (tally X txs z)"
proof (induction txs arbitrary: z)
  case (Cons t txs)
  then show ?case
    using exact_counts [of X t]
    by (cases "tx_counts X t"; cases z) (auto simp: count_txs_def tally_def add_sizes_def)
qed (simp add: count_txs_def tally_def)


section \<open>Every operation keeps the invariant\<close>

lemma chain_ok_take_snoc:
  assumes "chain_ok X start z bs" "k \<le> length bs" "block_ok X (start + k) b"
    and "ab_sizes b = tally X (ab_txs b) (prev_sizes z bs k)"
  shows "chain_ok X start z (take k bs @ [b])"
proof -
  have "prev_sizes z (take k bs @ [b]) i = prev_sizes z bs i" if "i \<le> k" for i
    using that assms(2) by (auto simp: prev_sizes_def nth_append min_def)
  then show ?thesis
    using assms by (auto simp: chain_ok_def nth_append min_def less_Suc_eq)
qed

lemma apply_blocks_start: "dk_start_height (fst (apply_staged_blocks X st)) = dk_start_height st"
proof -
  have "dk_start_height (fst (add_block_active X raw s)) = dk_start_height s" for raw s
    by (auto simp: add_block_active_def place_block_def thenD_pair Let_def split: sum.splits prod.splits)
  then have "dk_start_height (fst (loopD (add_block_active X) (dk_staged_blocks st) (st\<lparr>dk_staged_blocks := []\<rparr>))) =
      dk_start_height st"
    by (intro loopD_preserves [where P = "\<lambda>s. dk_start_height s = dk_start_height st"]) simp_all
  then show ?thesis by (auto simp: apply_staged_blocks_def thenD_def split: prod.splits sum.splits)
qed

lemma mine_staged_frame:
  "dk_start_height (fst (mine_staged_transactions X st)) = dk_start_height st \<and>
   length (dk_active (fst (mine_staged_transactions X st))) = length (dk_active st)"
proof -
  have "dk_start_height (fst (mine_tx X ht s)) = dk_start_height s \<and>
      length (dk_active (fst (mine_tx X ht s))) = length (dk_active s)" for ht s
    by (cases ht) (auto simp: mine_tx_def thenD_pair Let_def split: sum.splits)
  then show ?thesis
    unfolding mine_staged_transactions_def Let_def
    by (intro loopD_preserves
        [where P = "\<lambda>s. dk_start_height s = dk_start_height st \<and> length (dk_active s) = length (dk_active st)"]) simp_all
qed

context parse_contract
begin

lemma place_block_inv:
  assumes "dark_inv X st" and split: "split_block X raw = Inr (header, txs)"
    and txs: "txs = coinbase # rest" "coinbase_height_from_raw X coinbase = Inr height"
    and height: "height \<le> u64_add (dk_start_height st) (length (dk_active st))" "dk_start_height st \<le> height"
  shows "dark_inv X (fst (place_block X header txs height st))"
proof -
  define k where "k = height - dk_start_height st"
  have "u64_add (dk_start_height st) (length (dk_active st)) \<le> dk_start_height st + length (dk_active st)"
    by (simp add: u64_add_def)
  then have k: "k \<le> length (dk_active st)" "dk_start_height st + k = height" using height by (simp_all add: k_def)
  have exact: "\<forall>t \<in> set txs. exact_tx X t"
    using split_block_concat(3) [OF split] by (simp add: exact_tx_def)
  define z where "z = tally X txs (prev_sizes (start_sizes st) (dk_active st) k)"
  define b where "b = \<lparr>ab_header = header, ab_txs = txs, ab_sapling_size = fst z, ab_orchard_size = fst (snd z),
    ab_ironwood_size = snd (snd z)\<rparr>"
  have run: "fst (place_block X header txs height st) = st\<lparr>dk_active := take k (dk_active st) @ [b]\<rparr>"
    using count_txs_tally [OF exact]
    by (simp add: place_block_def k_def [symmetric] b_def z_def prev_sizes_def ab_sizes_def start_sizes_def Let_def
        split_beta)
  have "block_ok X (dk_start_height st + k) b"
    using split_header_wf [OF split] exact txs k(2) by (auto simp: block_ok_def b_def)
  moreover have "ab_sizes b = tally X (ab_txs b) (prev_sizes (start_sizes st) (dk_active st) k)"
    by (simp add: ab_sizes_def b_def z_def)
  ultimately have "chain_ok X (dk_start_height st) (start_sizes st) (take k (dk_active st) @ [b])"
    using assms(1) k(1) by (intro chain_ok_take_snoc) (simp_all add: dark_inv_def)
  then show ?thesis using assms(1) by (simp add: dark_inv_def start_sizes_def run)
qed

lemma add_block_active_inv:
  "dark_inv X st \<Longrightarrow> dark_inv X (fst (add_block_active X raw st))"
  by (auto simp: add_block_active_def thenD_pair result_simps not_less split: sum.splits list.splits
      intro: place_block_inv)

lemma mine_tx_inv:
  assumes "dark_inv X st" "exact_tx X raw"
  shows "dark_inv X (fst (mine_tx X (h, raw) st))"
proof (cases "h < dk_start_height st \<or> h - dk_start_height st \<ge> length (dk_active st)")
  case True
  then show ?thesis
    using assms(1) by (cases "h < dk_start_height st") (auto simp: mine_tx_def Let_def)
next
  case False
  define k where "k = h - dk_start_height st"
  define c where "c = tx_counts X raw"
  define bs where "bs = dk_active st"
  define bs' where "bs' = take k (bs[k := mine_into raw (bs ! k)]) @ map (grow_by c) (drop k (bs[k := mine_into raw (bs ! k)]))"
  have k: "k < length bs" using False by (simp add: k_def bs_def)
  have run: "fst (mine_tx X (h, raw) st) = st\<lparr>dk_active := bs'\<rparr>"
    using False exact_counts [OF assms(2)] by (simp add: mine_tx_def Let_def bs'_def bs_def k_def c_def)
  have nth: "bs' ! i = (if i < k then bs ! i else if i = k then grow_by c (mine_into raw (bs ! k)) else grow_by c (bs ! i))"
    if "i < length bs" for i
    using k that by (auto simp: bs'_def nth_append)
  have len: "length bs' = length bs" using k by (simp add: bs'_def)
  have inv: "block_ok X (dk_start_height st + i) (bs ! i)"
    "ab_sizes (bs ! i) = tally X (ab_txs (bs ! i)) (prev_sizes (start_sizes st) bs i)" if "i < length bs" for i
    using assms(1) that by (simp_all add: dark_inv_def chain_ok_def bs_def)
  have prev: "prev_sizes (start_sizes st) bs' i =
      (if i \<le> k then prev_sizes (start_sizes st) bs i else add_sizes (prev_sizes (start_sizes st) bs i) c)" if "i < length bs" for i
    using that nth [of "i - 1"] by (auto simp: prev_sizes_def)
  have "block_ok X (dk_start_height st + i) (bs' ! i)" if "i < length bs" for i
    using inv(1) [OF that] assms(2) by (auto simp: nth [OF that] block_ok_def header_wf_byte)
  moreover have "ab_sizes (bs' ! i) = tally X (ab_txs (bs' ! i)) (prev_sizes (start_sizes st) bs' i)" if "i < length bs" for i
    using inv(2) [OF that] by (auto simp: nth [OF that] prev [OF that] tally_snoc tally_shift c_def)
  ultimately have "chain_ok X (dk_start_height st) (start_sizes st) bs'"
    by (simp add: chain_ok_def len)
  then show ?thesis using assms(1) by (simp add: run dark_inv_def start_sizes_def)
qed

lemma set_prevhash_ok:
  assumes "chain_ok X start z bs"
  shows "chain_ok X start z (set_prevhash X bs) \<and> linked_active X (set_prevhash X bs)"
proof -
  define bs' where "bs' = set_prevhash X bs"
  have len: "length bs' = length bs" by (simp add: bs'_def set_prevhash_def)
  have nth: "bs' ! i = (if i = 0 then bs ! 0 else
      (bs ! i)\<lparr>ab_header := take 4 (ab_header (bs ! i)) @ active_hash X (bs' ! (i - 1)) @ drop 36 (ab_header (bs ! i))\<rparr>)"
    if "i < length bs" for i
    using link_from_nth [OF that, of X None] by (auto simp: bs'_def set_prevhash_def)
  have ok: "block_ok X (start + i) (bs ! i)" "ab_sizes (bs ! i) = tally X (ab_txs (bs ! i)) (prev_sizes z bs i)"
    if "i < length bs" for i
    using assms that by (simp_all add: chain_ok_def)
  have same: "ab_sizes (bs' ! i) = ab_sizes (bs ! i)" "ab_txs (bs' ! i) = ab_txs (bs ! i)" if "i < length bs" for i
    by (simp_all add: nth [OF that] ab_sizes_def)
  have "prev_sizes z bs' i = prev_sizes z bs i" if "i < length bs" for i
    using same(1) [of "i - 1"] that by (simp add: prev_sizes_def)
  moreover have "header_wf X (ab_header (bs' ! i))" if "i < length bs" for i
    using ok(1) [OF that] by (auto simp: nth [OF that] block_ok_def active_hash_def sha256d_length intro!: header_wf_prevhash)
  ultimately have "chain_ok X start z bs'"
    using ok same by (simp add: chain_ok_def len block_ok_def)
  moreover have "take 32 (drop 4 (ab_header (bs' ! Suc i))) = active_hash X (bs' ! i)" if "Suc i < length bs" for i
    using ok(1) [OF that] by (simp add: nth [OF that] block_ok_def header_wf_def active_hash_def sha256d_length)
  ultimately show ?thesis by (simp add: linked_active_def len bs'_def [symmetric])
qed

lemma apply_staged_blocks_inv: "dark_inv X st \<Longrightarrow> dark_inv X (fst (apply_staged_blocks X st))"
proof -
  assume "dark_inv X st"
  then have "dark_inv X (st\<lparr>dk_staged_blocks := []\<rparr>)" by (simp add: dark_inv_def start_sizes_def)
  then have "dark_inv X (fst (loopD (add_block_active X) (dk_staged_blocks st) (st\<lparr>dk_staged_blocks := []\<rparr>)))"
    by (intro loopD_preserves [where P = "dark_inv X"] add_block_active_inv)
  then show ?thesis
    by (auto simp: apply_staged_blocks_def thenD_def split: prod.splits sum.splits)
qed

lemma mine_staged_inv: "dark_inv X st \<Longrightarrow> dark_inv X (fst (mine_staged_transactions X st))"
proof -
  assume inv: "dark_inv X st"
  then have "dark_inv X (st\<lparr>dk_staged_txs := []\<rparr>)" by (simp add: dark_inv_def start_sizes_def)
  moreover have "dark_inv X (fst (mine_tx X ht s))" if "ht \<in> set (dk_staged_txs st)" "dark_inv X s" for ht s
    using that inv mine_tx_inv [of s "snd ht" "fst ht"] by (simp add: dark_inv_def [of X st])
  ultimately show ?thesis
    unfolding mine_staged_transactions_def Let_def by (intro loopD_preserves [where P = "dark_inv X"])
qed

lemma apply_staged_inv: "dark_inv X st \<Longrightarrow> dark_inv X (fst (apply_staged X target st))"
proof -
  assume "dark_inv X st"
  note inv = apply_staged_blocks_inv [OF this] mine_staged_inv [OF apply_staged_blocks_inv [OF this]] this
  have "dark_inv X (fst (thenD (mine_staged_transactions X s) (\<lambda>_ st.
       let st = st\<lparr>dk_active := set_prevhash X (dk_active st)\<rparr>;
           max_height = int (dk_start_height st) + int (length (dk_active st)) - 1 in
       (st\<lparr>dk_latest_height := min target max_height\<rparr>, Inr ()))))" if "dark_inv X s" for s
    by (rule thenD_preserves [where P = "dark_inv X", OF mine_staged_inv [OF that]])
      (use set_prevhash_ok in \<open>simp add: dark_inv_def start_sizes_def Let_def\<close>)
  then have "dark_inv X (fst (thenD (apply_staged_blocks X st) (\<lambda>_ st.
     thenD (mine_staged_transactions X st) (\<lambda>_ st.
       let st = st\<lparr>dk_active := set_prevhash X (dk_active st)\<rparr>;
           max_height = int (dk_start_height st) + int (length (dk_active st)) - 1 in
       (st\<lparr>dk_latest_height := min target max_height\<rparr>, Inr ())))))"
    by (intro thenD_preserves [where P = "dark_inv X", OF inv(1)])
  then show ?thesis
    using inv(3) by (auto simp: apply_staged_def thenD_pair check_reset_def split: sum.splits)
qed

text \<open>Applying what is staged, when it succeeds: a linked chain, with the tip at the target or its end.\<close>

lemma apply_staged_ok:
  assumes "dark_inv X st0" and "apply_staged X target st0 = (st, Inr ())"
  shows "dark_inv X st \<and> linked_active X (dk_active st) \<and> dk_active st \<noteq> [] \<and>
    dk_latest_height st = min target (int (dk_start_height st) + int (length (dk_active st)) - 1) \<and>
    int (dk_start_height st) \<le> dk_latest_height st"
proof -
  have inv: "dark_inv X st" using apply_staged_inv [OF assms(1), of target] assms(2) by simp
  from assms(2) obtain s1 s2 where
    s: "int (dk_start_height st0) \<le> target" "apply_staged_blocks X st0 = (s1, Inr ())"
      "mine_staged_transactions X s1 = (s2, Inr ())"
    and st: "st = s2\<lparr>dk_active := set_prevhash X (dk_active s2),
      dk_latest_height := min target (int (dk_start_height s2) + int (length (set_prevhash X (dk_active s2))) - 1)\<rparr>"
    by (auto simp: apply_staged_def thenD_Inr result_simps Let_def not_less)
  have s1: "dk_active s1 \<noteq> []" "dk_start_height s1 = dk_start_height st0"
    using s(2) apply_blocks_start [of X st0] by (auto simp: apply_staged_blocks_def thenD_Inr result_simps Let_def)
  have s2: "dk_start_height s2 = dk_start_height s1" "length (dk_active s2) = length (dk_active s1)"
    using s(3) mine_staged_frame [of X s1] by simp_all
  have "linked_active X (dk_active st)"
    using mine_staged_inv [OF apply_staged_blocks_inv [OF assms(1)]] s(2,3) st
      set_prevhash_ok [of "dk_start_height s2" "start_sizes s2" "dk_active s2"] by (simp add: dark_inv_def)
  moreover have "length (set_prevhash X (dk_active s2)) = length (dk_active s2)" by (simp add: set_prevhash_def)
  ultimately show ?thesis
    using inv s(1) s1 s2 st by (auto simp flip: length_greater_0_conv)
qed


lemma stage_frame:
  "dark_inv X st \<Longrightarrow> dark_inv X (fst (stage_block X raw st))"
  "dark_inv X st \<Longrightarrow> exact_tx X raw \<Longrightarrow> dark_inv X (fst (stage_transaction X h raw st))"
  by (auto simp: stage_block_def stage_transaction_def thenD_pair dark_inv_def start_sizes_def split: sum.splits)

lemma stage_create_frame: "dark_inv X st \<Longrightarrow> dark_inv X (fst (stage_blocks_create X h n c st))"
proof -
  assume inv: "dark_inv X st"
  have "dark_inv X (fst (thenD (s, synthetic_block X k n) (\<lambda>raw st. stage_block X raw st)))" if "dark_inv X s" for k s
    using that stage_frame(1) by (auto simp: thenD_pair split: sum.splits)
  then have "dark_inv X (fst (loopD (\<lambda>height st. thenD (st, synthetic_block X height n) (\<lambda>raw st. stage_block X raw st)) ks st))" for ks
    using inv by (intro loopD_preserves [where P = "dark_inv X"])
  with inv show ?thesis by (auto simp: stage_blocks_create_def thenD_pair split: sum.splits)
qed

end


section \<open>Control calls\<close>

text \<open>The fields the invariant does not read.\<close>

lemma dark_inv_frame:
  "dark_inv X (st\<lparr>dk_incoming_txs := a\<rparr>) = dark_inv X st" "dark_inv X (st\<lparr>dk_utxos := b\<rparr>) = dark_inv X st"
  "dark_inv X (st\<lparr>dk_addr_txs := c\<rparr>) = dark_inv X st" "dark_inv X (st\<lparr>dk_treestates := d\<rparr>) = dark_inv X st"
  "dark_inv X (st\<lparr>dk_subtree_roots := e\<rparr>) = dark_inv X st"
  by (simp_all add: dark_inv_def start_sizes_def)

text \<open>Staged transactions are exact: the reader consumes each to its last byte.\<close>

fun stages_exact :: "'x parse_ext_scheme \<Rightarrow> control \<Rightarrow> bool" where
  "stages_exact X (StageTransactionsStream incoming) = (\<forall>tx. Inr tx \<in> set incoming \<longrightarrow> exact_tx X (rt_data tx))"
| "stages_exact X (StageTransactions height fetched) =
     (\<forall>body raws. fetched = Inr body \<longrightarrow> parse_hex_lines X body ''transaction'' = Inr raws \<longrightarrow> (\<forall>raw \<in> set raws. exact_tx X raw))"
| "stages_exact X _ = True"

context parse_contract
begin

lemma control_step_inv:
  assumes "dark_inv X st" "stages_exact X call"
  shows "dark_inv X (control_step X call st)"
proof (cases call)
  case (StageBlocksStream incoming)
  have "dark_inv X (fst (thenD (s, item) (\<lambda>block st. thenD (st, decode_hex_arg X block ''block'') (\<lambda>raw st.
      map_errD darkside_to_status (stage_block X raw st)))))" if "dark_inv X s" for s item
    using that stage_frame(1) by (auto simp: thenD_pair split: sum.splits)
  then show ?thesis
    using StageBlocksStream assms(1)
    by (auto simp: svc_stage_blocks_stream_def intro!: loopD_preserves [where P = "dark_inv X"])
next
  case (StageBlocks fetched)
  have "dark_inv X (fst (loopD (\<lambda>raw st. map_errD darkside_to_status (stage_block X raw st)) raws st))" for raws
    using assms(1) stage_frame(1) by (intro loopD_preserves [where P = "dark_inv X"]) simp_all
  then show ?thesis
    using StageBlocks assms(1) by (auto simp: svc_stage_blocks_def thenD_pair split: sum.splits)
next
  case (StageTransactionsStream incoming)
  have "dark_inv X (fst (thenD (s, item) (\<lambda>tx st.
      map_errD darkside_to_status (stage_transaction X (rt_height tx) (rt_data tx) st))))"
    if "dark_inv X s" "item \<in> set incoming" for s item
    using that stage_frame(2) assms(2) StageTransactionsStream by (auto simp: thenD_pair split: sum.splits)
  then show ?thesis
    using StageTransactionsStream assms(1)
    by (auto simp: svc_stage_transactions_stream_def intro!: loopD_preserves [where P = "dark_inv X"])
next
  case (StageTransactions height fetched)
  have "dark_inv X (fst (loopD (\<lambda>raw st. map_errD darkside_to_status (stage_transaction X h raw st)) raws st))"
    if "\<forall>raw \<in> set raws. exact_tx X raw" for raws h
    using assms(1) stage_frame(2) that by (intro loopD_preserves [where P = "dark_inv X"]) simp_all
  then show ?thesis
    using StageTransactions assms by (auto simp: svc_stage_transactions_def thenD_pair Let_def split: sum.splits)
next
  case (Reset meta)
  have "dark_inv X (darkside_reset meta)" by (simp add: darkside_reset_def dark_inv_def chain_ok_def)
  then show ?thesis using Reset assms(1) by (auto simp: svc_reset_def thenD_pair split: sum.splits)
next
  case (StageBlocksCreate height nonce cnt)
  then show ?thesis using assms(1) stage_create_frame by (simp add: svc_stage_blocks_create_def)
next
  case (ApplyStaged height)
  then show ?thesis using assms(1) apply_staged_inv by (simp add: svc_apply_staged_def)
next
  case (AddTreeState t)
  then show ?thesis using assms(1) by (auto simp: add_treestate_def thenD_pair dark_inv_frame split: sum.splits)
next
  case (SendTransaction raw)
  then show ?thesis using assms(1) by (auto simp: push_incoming_def thenD_pair dark_inv_frame split: sum.splits)
qed (use assms(1) in \<open>simp_all add: dark_inv_frame clear_incoming_def add_utxo_def clear_utxos_def add_addr_tx_def
       clear_addr_txs_def remove_treestate_def clear_treestates_def set_subtree_roots_def Let_def\<close>)

lemma control_run_inv:
  assumes "\<forall>call \<in> set calls. stages_exact X call"
  shows "dark_inv X (control_run X calls)"
  using assms
proof (induction calls rule: rev_induct)
  case Nil
  then show ?case by (simp add: control_run_def darkside_new_def dark_inv_def chain_ok_def)
next
  case (snoc call calls)
  then show ?case using control_step_inv by (simp add: control_run_def)
qed

end


section \<open>What the mock node serves\<close>

definition metadata_of :: "sizes \<Rightarrow> chain_metadata" where
  "metadata_of z = \<lparr>sapling_commitment_tree_size = fst z, orchard_commitment_tree_size = fst (snd z),
     ironwood_commitment_tree_size = snd (snd z)\<rparr>"

text \<open>The compact block that an active block stands for at its height: its hash, the hash its header names
  as the one before, its time, its transactions in order, and the tree sizes after it.\<close>

definition compact_of :: "'x parse_ext_scheme \<Rightarrow> u64 \<Rightarrow> active_block \<Rightarrow> compact_block" where
  "compact_of X h b =
     \<lparr>cb_height = h, cb_hash = active_hash X b, cb_prev_hash = take 32 (drop 4 (ab_header b)),
      cb_time = of_le_bytes (take 4 (drop 100 (ab_header b))), cb_header = [], cb_vtx = compacted X 0 (ab_txs b),
      cb_chain_metadata = Some (metadata_of (ab_sizes b))\<rparr>"

definition dark_block :: "'x parse_ext_scheme \<Rightarrow> darkside_state \<Rightarrow> u64 \<Rightarrow> compact_block" where
  "dark_block X st h = compact_of X h (dk_active st ! (h - dk_start_height st))"

definition presentable :: "'x parse_ext_scheme \<Rightarrow> darkside_state \<Rightarrow> bool" where
  "presentable X st \<longleftrightarrow> distinct (map (active_hash X) (dk_active st)) \<and>
     (\<forall>b \<in> set (dk_active st). length (ab_txs b) \<le> MAX_COMPACT_SIZE)"

lemma find_distinct:
  assumes "distinct (map f xs)" "i < length xs"
  shows "find (\<lambda>x. f x = f (xs ! i)) xs = Some (xs ! i)"
  using assms by (auto simp: find_Some_iff nth_eq_iff_index_eq distinct_conv_nth intro!: exI [of _ i])

context parse_contract
begin

lemma dark_fetch:
  assumes "dark_inv X st" "presentable X st" "i < length (dk_active st)"
    and "int (dk_start_height st + i) \<le> dk_latest_height st"
  shows "compact_block_fetch X None (darkside_node X display st) (dk_start_height st + i) =
    Inr (dark_block X st (dk_start_height st + i))"
proof -
  let ?blk = "dk_active st ! i" and ?h = "dk_start_height st + i"
  have ok: "block_ok X ?h ?blk" using assms(1,3) by (simp add: dark_inv_def chain_ok_def)
  have at: "active_at st ?h = Inr ?blk"
    using assms(3,4) by (auto simp: active_at_def result_simps Let_def nat_le_iff)
  have "find (\<lambda>b. active_hash X b = active_hash X ?blk) (dk_active st) = Some ?blk"
    using assms(2,3) by (intro find_distinct) (simp_all add: presentable_def)
  then have raw: "block_raw_by_hash X st (display_hash X ?blk) = Inr (to_raw ?blk)"
    by (simp add: block_raw_by_hash_def display_hash_def wire_to_display_hex_inj)
  have "to_compact_block X (to_raw ?blk) = Inr (compact_of X ?h ?blk\<lparr>cb_chain_metadata := Some (metadata_of (0, 0, 0))\<rparr>)"
    using to_compact_block_of_parts [of "ab_header ?blk" "ab_txs ?blk" ?h] ok assms(2,3)
    by (auto simp: block_ok_def to_raw_def active_hash_def presentable_def compact_of_def metadata_of_def)
  then show ?thesis
    using at raw
    by (simp add: compact_block_fetch_def darkside_node_def block_verbose_def Let_def display_hash_def
        metadata_of_def ab_sizes_def dark_block_def compact_of_def)
qed

lemma dark_serves:
  assumes "dark_inv X st" "presentable X st" "linked_active X (dk_active st)"
    and "int (dk_start_height st) \<le> dk_latest_height st"
    and "dk_latest_height st < int (dk_start_height st + length (dk_active st))"
  shows "serves X (darkside_node X display st) (dark_block X st) (dk_start_height st) (nat (dk_latest_height st))"
proof -
  let ?start = "dk_start_height st" and ?tip = "nat (dk_latest_height st)"
  have at: "compact_block_fetch X None (darkside_node X display st) h = Inr (dark_block X st h)"
    if "?start \<le> h" "h \<le> ?tip" for h
  proof -
    have "h - ?start < length (dk_active st)" "int (?start + (h - ?start)) \<le> dk_latest_height st" "?start + (h - ?start) = h"
      using that assms(4,5) by linarith+
    with dark_fetch [OF assms(1,2) this(1,2), of display] show ?thesis by simp
  qed
  have "links (dark_block X st h) (dark_block X st (Suc h))" if "?start \<le> h" "h < ?tip" for h
  proof -
    have "Suc (h - ?start) < length (dk_active st)" using that assms(4,5) by linarith
    then show ?thesis
      using that assms(3) by (simp add: linked_active_def Suc_diff_le links_def dark_block_def compact_of_def)
  qed
  moreover have "tip_index st = Some (?tip - ?start)"
    using assms(4,5) by (auto simp: tip_index_def Let_def nat_diff_distrib)
  then have "\<exists>info. rpc_get_blockchain_info (darkside_node X display st) = Inr info \<and> gbi_blocks info = ?tip \<and>
      display_hex_to_wire X (gbi_bestblockhash info) = Inr (cb_hash (dark_block X st ?tip))"
    by (simp add: darkside_node_def blockchain_info_def Let_def display_hash_def display_wire_roundtrip
        dark_block_def compact_of_def)
  ultimately show ?thesis using at by (simp add: serves_def)
qed

end

section \<open>The mock node as a node\<close>

text \<open>A state whose active blocks are a linked chain that can be presented, with a tip within it.\<close>

locale staged_chain = parse_contract X
  for X :: "'x parse_ext_scheme" +
  fixes st :: darkside_state
  assumes inv: "dark_inv X st" and shown: "presentable X st" and linked: "linked_active X (dk_active st)"
    and tip_above: "int (dk_start_height st) \<le> dk_latest_height st"
    and tip_within: "dk_latest_height st < int (dk_start_height st + length (dk_active st))"

sublocale staged_chain \<subseteq> chain_node X "darkside_node X display st" "dark_block X st" "dk_start_height st"
    "nat (dk_latest_height st)" for display
  by unfold_locales (rule dark_serves [OF inv shown linked tip_above tip_within])

context staged_chain
begin

lemma staged_chain_node:
  "chain_node X (darkside_node X display st) (dark_block X st) (dk_start_height st) (nat (dk_latest_height st))"
  by (rule chain_node_axioms)

end

context parse_contract
begin

lemma control_run_staged:
  assumes "\<forall>call \<in> set calls. stages_exact X call"
    and "apply_staged X target (control_run X calls) = (st, Inr ())" and "presentable X st"
  shows "staged_chain X st"
  using apply_staged_ok [OF control_run_inv [OF assms(1)] assms(2)] assms(3)
  by unfold_locales auto

end

end
