(* ===== verification/Darkside_Presented.thy ===== *)
theory Darkside_Presented
  imports Darkside_Laws
begin

text \<open>
  What the control calls promise, stated on the calls and the staged bytes: what each call stages, and the
  chain an ApplyStaged makes of it. Every mutation of src/darkside/state.rs is shown to keep the promise.
\<close>

section \<open>What a call stages\<close>

text \<open>The blocks a call offers, in order; nothing after the first it cannot decode is looked at.\<close>

definition ok_option :: "('e, 'a) result \<Rightarrow> 'a option" where
  "ok_option r = (case r of Inr x \<Rightarrow> Some x | Inl _ \<Rightarrow> None)"

fun offered_blocks :: "'x parse_ext_scheme \<Rightarrow> control \<Rightarrow> bytes option list" where
  "offered_blocks X (StageBlocksStream incoming) =
     map (\<lambda>item. ok_option (bindE item (\<lambda>block. decode_hex_arg X block ''block''))) incoming"
| "offered_blocks X (StageBlocks fetched) =
     (case bindE fetched (\<lambda>body. parse_hex_lines X body ''block'') of Inl _ \<Rightarrow> [] | Inr raws \<Rightarrow> map Some raws)"
| "offered_blocks X (StageBlocksCreate height nonce cnt) =
     map (\<lambda>k. ok_option (synthetic_block X (as_i32 (height + int k)) nonce)) [0..<nat (max cnt 0)]"
| "offered_blocks X _ = []"

fun offered_txs :: "'x parse_ext_scheme \<Rightarrow> control \<Rightarrow> (u64 \<times> bytes) option list" where
  "offered_txs X (StageTransactionsStream incoming) =
     map (\<lambda>item. map_option (\<lambda>tx. (rt_height tx, rt_data tx)) (ok_option item)) incoming"
| "offered_txs X (StageTransactions height fetched) =
     (case bindE fetched (\<lambda>body. parse_hex_lines X body ''transaction'') of
        Inl _ \<Rightarrow> [] | Inr raws \<Rightarrow> map (\<lambda>raw. Some (nat (max height 0), raw)) raws)"
| "offered_txs X _ = []"

text \<open>What is taken: everything up to the first that is not acceptable, and nothing before a Reset.\<close>

definition accepted :: "('a \<Rightarrow> bool) \<Rightarrow> darkside_state \<Rightarrow> 'a option list \<Rightarrow> 'a list" where
  "accepted good st offered =
     (if dk_was_reset st then map the (takeWhile (\<lambda>x. case x of Some y \<Rightarrow> good y | None \<Rightarrow> False) offered) else [])"

definition good_block :: "'x parse_ext_scheme \<Rightarrow> darkside_state \<Rightarrow> bytes \<Rightarrow> bool" where
  "good_block X st raw \<longleftrightarrow> (\<exists>h. raw_block_height X raw = Inr h \<and> dk_start_height st \<le> h)"

definition good_tx :: "'x parse_ext_scheme \<Rightarrow> u64 \<times> bytes \<Rightarrow> bool" where
  "good_tx X tx \<longleftrightarrow> is_ok (shielded_counts X (snd tx))"


section \<open>What an ApplyStaged makes of it\<close>

text \<open>A staged block takes the place of what the chain has from its height up.\<close>

definition overlay_block ::
    "'x parse_ext_scheme \<Rightarrow> u64 \<Rightarrow> bytes \<Rightarrow> (bytes \<times> bytes list) list \<Rightarrow> (bytes \<times> bytes list) list" where
  "overlay_block X start raw chain =
     (case (split_block X raw, raw_block_height X raw) of
        (Inr block, Inr h) \<Rightarrow> take (h - start) chain @ [block]
      | _ \<Rightarrow> chain)"

definition parts :: "active_block list \<Rightarrow> (bytes \<times> bytes list) list" where
  "parts = map (\<lambda>b. (ab_header b, ab_txs b))"

definition overlaid :: "'x parse_ext_scheme \<Rightarrow> darkside_state \<Rightarrow> (bytes \<times> bytes list) list" where
  "overlaid X st = fold (overlay_block X (dk_start_height st)) (dk_staged_blocks st) (parts (dk_active st))"

text \<open>The transactions staged for a height, in the order they were staged.\<close>

definition mined_at :: "(u64 \<times> bytes) list \<Rightarrow> u64 \<Rightarrow> bytes list" where
  "mined_at staged h = map snd (filter (\<lambda>tx. fst tx = h) staged)"

text \<open>A block with transactions mined into it: byte 68 of its header counts them.\<close>

definition mined_header :: "bytes \<Rightarrow> nat \<Rightarrow> bytes" where
  "mined_header header n = header[68 := header ! 68 + of_nat n]"

text \<open>
  The chain \<^term>\<open>st\<close> presents is what was staged in \<^term>\<open>st0\<close>: each block has its own transactions and
  then those staged for its height; its header is its own but for the count of mined transactions and, above
  the first block, the hash of the block before it; its tree sizes are those of the block before plus the
  notes of all its transactions.
\<close>

definition presented ::
    "'x parse_ext_scheme \<Rightarrow> darkside_state \<Rightarrow> active_block list \<Rightarrow> nat \<Rightarrow> bytes \<times> bytes list \<Rightarrow> bool" where
  "presented X st0 active i staged \<longleftrightarrow>
     (case staged of (header, txs) \<Rightarrow>
        let mined = mined_at (dk_staged_txs st0) (dk_start_height st0 + i);
            header' = mined_header header (length mined) in
        ab_txs (active ! i) = txs @ mined \<and>
        ab_header (active ! i) =
          (if i = 0 then header' else take 4 header' @ active_hash X (active ! (i - 1)) @ drop 36 header') \<and>
        ab_sizes (active ! i) = tally X (txs @ mined) (prev_sizes (start_sizes st0) active i))"

definition presents :: "'x parse_ext_scheme \<Rightarrow> darkside_state \<Rightarrow> darkside_state \<Rightarrow> bool" where
  "presents X st0 st \<longleftrightarrow>
     dk_start_height st = dk_start_height st0 \<and> start_sizes st = start_sizes st0 \<and>
     dk_staged_blocks st = [] \<and> dk_staged_txs st = [] \<and>
     length (dk_active st) = length (overlaid X st0) \<and>
     (\<forall>i < length (dk_active st). presented X st0 (dk_active st) i (overlaid X st0 ! i))"

text \<open>What a control call does to what is staged and presented; a failing ApplyStaged promises nothing.\<close>

definition staged_by :: "'x parse_ext_scheme \<Rightarrow> control \<Rightarrow> darkside_state \<Rightarrow> darkside_state \<Rightarrow> bool" where
  "staged_by X call st st' \<longleftrightarrow>
     (case call of
        Reset meta \<Rightarrow> st' = (if is_ok (snd (svc_reset meta st)) then darkside_reset meta else st)
      | ApplyStaged target \<Rightarrow> is_ok (snd (apply_staged X target st)) \<longrightarrow> presents X st st'
      | _ \<Rightarrow>
          dk_was_reset st' = dk_was_reset st \<and> dk_start_height st' = dk_start_height st \<and>
          start_sizes st' = start_sizes st \<and> dk_active st' = dk_active st \<and>
          dk_latest_height st' = dk_latest_height st \<and>
          dk_staged_blocks st' = dk_staged_blocks st @ accepted (good_block X st) st (offered_blocks X call) \<and>
          dk_staged_txs st' = dk_staged_txs st @ accepted (good_tx X) st (offered_txs X call))"


section \<open>Staging\<close>

text \<open>A loop that takes what it is offered up to the first that is not acceptable.\<close>

lemma loopD_takes:
  assumes "\<And>x s. P s \<Longrightarrow> case g x of
      Some y \<Rightarrow> if good y then f x s = (app y s, Inr ()) \<and> P (app y s) else fst (f x s) = s \<and> \<not> is_ok (snd (f x s))
    | None \<Rightarrow> fst (f x s) = s \<and> \<not> is_ok (snd (f x s))"
    and "P s"
  shows "fst (loopD f xs s) =
    fold app (map the (takeWhile (\<lambda>x. case x of Some y \<Rightarrow> good y | None \<Rightarrow> False) (map g xs))) s"
  using assms(2)
proof (induction xs arbitrary: s)
  case (Cons x xs)
  show ?case
    using assms(1) [OF Cons.prems, of x] Cons.IH
    by (cases "g x"; cases "f x s"; cases "snd (f x s)") (auto split: if_splits)
qed simp

text \<open>Staging one block or one transaction, as a step of such a loop.\<close>

definition frame_of :: "darkside_state \<Rightarrow> darkside_state \<Rightarrow> bool" where
  "frame_of st s \<longleftrightarrow> dk_was_reset s = dk_was_reset st \<and> dk_start_height s = dk_start_height st"

definition push_block :: "bytes \<Rightarrow> darkside_state \<Rightarrow> darkside_state" where
  "push_block raw st = st\<lparr>dk_staged_blocks := dk_staged_blocks st @ [raw]\<rparr>"

definition push_tx :: "u64 \<times> bytes \<Rightarrow> darkside_state \<Rightarrow> darkside_state" where
  "push_tx tx st = st\<lparr>dk_staged_txs := dk_staged_txs st @ [tx]\<rparr>"

lemma fold_push:
  "fold push_block raws st = st\<lparr>dk_staged_blocks := dk_staged_blocks st @ raws\<rparr>"
  "fold push_tx txs st = st\<lparr>dk_staged_txs := dk_staged_txs st @ txs\<rparr>"
  by (induction raws arbitrary: st, simp_all add: push_block_def)
    (induction txs arbitrary: st, simp_all add: push_tx_def)

lemma stage_block_takes:
  assumes "frame_of st s"
  shows "if dk_was_reset st \<and> good_block X st raw
    then stage_block X raw s = (push_block raw s, Inr ()) \<and> frame_of st (push_block raw s)
    else fst (stage_block X raw s) = s \<and> \<not> is_ok (snd (stage_block X raw s))"
  using assms
  by (auto simp: stage_block_def check_reset_def good_block_def thenD_pair failIf_def frame_of_def push_block_def
      split: sum.splits)

lemma stage_tx_takes:
  assumes "frame_of st s"
  shows "if dk_was_reset st \<and> good_tx X (h, raw)
    then stage_transaction X h raw s = (push_tx (h, raw) s, Inr ()) \<and> frame_of st (push_tx (h, raw) s)
    else fst (stage_transaction X h raw s) = s \<and> \<not> is_ok (snd (stage_transaction X h raw s))"
  using assms
  by (auto simp: stage_transaction_def check_reset_def good_tx_def thenD_pair failIf_def frame_of_def push_tx_def
      is_ok_def map_err_def split: sum.splits)

lemma is_ok_unit: "is_ok (snd m) \<Longrightarrow> m = (fst m, Inr ())" for m :: "'s \<times> ('e, unit) result"
  by (cases m; cases "snd m") auto

lemma accepted_reset:
  "accepted good st offered =
     map the (takeWhile (\<lambda>x. case x of Some y \<Rightarrow> dk_was_reset st \<and> good y | None \<Rightarrow> False) offered)"
  by (cases "dk_was_reset st"; cases offered)
    (auto simp: accepted_def split: option.splits cong: option.case_cong)

text \<open>The loops of the control plane: an item that is no block or transaction ends the loop.\<close>

lemma loop_blocks:
  assumes "\<And>x s. case g x of
      Some raw \<Rightarrow> fst (f x s) = fst (stage_block X raw s) \<and> is_ok (snd (f x s)) = is_ok (snd (stage_block X raw s))
    | None \<Rightarrow> fst (f x s) = s \<and> \<not> is_ok (snd (f x s))"
  shows "fst (loopD f xs st) =
    st\<lparr>dk_staged_blocks := dk_staged_blocks st @ accepted (good_block X st) st (map g xs)\<rparr>"
  unfolding accepted_reset fold_push(1) [symmetric]
proof (rule loopD_takes [where P = "frame_of st"])
  fix x s assume fr: "frame_of st s"
  show "case g x of
      Some y \<Rightarrow> if dk_was_reset st \<and> good_block X st y then f x s = (push_block y s, Inr ()) \<and> frame_of st (push_block y s)
        else fst (f x s) = s \<and> \<not> is_ok (snd (f x s))
    | None \<Rightarrow> fst (f x s) = s \<and> \<not> is_ok (snd (f x s))"
    using assms [of x s] stage_block_takes [OF fr, of X "the (g x)"] is_ok_unit [of "f x s"]
    by (cases "g x") (auto split: if_splits)
qed (simp add: frame_of_def)

lemma loop_txs:
  assumes "\<And>x s. case g x of
      Some tx \<Rightarrow> fst (f x s) = fst (stage_transaction X (fst tx) (snd tx) s) \<and>
        is_ok (snd (f x s)) = is_ok (snd (stage_transaction X (fst tx) (snd tx) s))
    | None \<Rightarrow> fst (f x s) = s \<and> \<not> is_ok (snd (f x s))"
  shows "fst (loopD f xs st) =
    st\<lparr>dk_staged_txs := dk_staged_txs st @ accepted (good_tx X) st (map g xs)\<rparr>"
  unfolding accepted_reset fold_push(2) [symmetric]
proof (rule loopD_takes [where P = "frame_of st"])
  fix x s assume fr: "frame_of st s"
  show "case g x of
      Some y \<Rightarrow> if dk_was_reset st \<and> good_tx X y then f x s = (push_tx y s, Inr ()) \<and> frame_of st (push_tx y s)
        else fst (f x s) = s \<and> \<not> is_ok (snd (f x s))
    | None \<Rightarrow> fst (f x s) = s \<and> \<not> is_ok (snd (f x s))"
    using assms [of x s] stage_tx_takes [OF fr, of X "fst (the (g x))" "snd (the (g x))"] is_ok_unit [of "f x s"]
    by (cases "g x") (auto split: if_splits)
qed (simp add: frame_of_def)

lemma map_errD_ok [simp]: "is_ok (snd (map_errD h m)) = is_ok (snd m)"
  by (cases m) (auto simp: map_errD_def map_err_def is_ok_def split: sum.splits)

lemma staged_by_staging:
  "staged_by X (StageBlocksStream incoming) st (control_step X (StageBlocksStream incoming) st)"
  "staged_by X (StageBlocks fetched) st (control_step X (StageBlocks fetched) st)"
  "staged_by X (StageBlocksCreate height nonce cnt) st (control_step X (StageBlocksCreate height nonce cnt) st)"
  "staged_by X (StageTransactionsStream txs) st (control_step X (StageTransactionsStream txs) st)"
  "staged_by X (StageTransactions height fetched) st (control_step X (StageTransactions height fetched) st)"
proof -
  have none: "accepted good st [] = []" for good :: "'b \<Rightarrow> bool" by (simp add: accepted_def)
  show "staged_by X (StageBlocksStream incoming) st (control_step X (StageBlocksStream incoming) st)"
    using loop_blocks [where g = "\<lambda>item. ok_option (bindE item (\<lambda>block. decode_hex_arg X block ''block''))" and
        f = "\<lambda>item st. thenD (st, item) (\<lambda>block st. thenD (st, decode_hex_arg X block ''block'') (\<lambda>raw st.
           map_errD darkside_to_status (stage_block X raw st)))" and xs = incoming and st = st and X = X]
    by (simp add: staged_by_def svc_stage_blocks_stream_def none start_sizes_def ok_option_def thenD_pair
        split: sum.splits)
  show "staged_by X (StageBlocks fetched) st (control_step X (StageBlocks fetched) st)"
    using loop_blocks [where g = Some and f = "\<lambda>raw st. map_errD darkside_to_status (stage_block X raw st)" and st = st and X = X]
    by (auto simp: staged_by_def svc_stage_blocks_def none start_sizes_def thenD_pair split: sum.splits)
  show "staged_by X (StageBlocksCreate height nonce cnt) st (control_step X (StageBlocksCreate height nonce cnt) st)"
    using loop_blocks [where g = "\<lambda>k. ok_option (synthetic_block X k nonce)" and
        f = "\<lambda>height st. thenD (st, synthetic_block X height nonce) (\<lambda>raw st. stage_block X raw st)" and st = st and X = X
        and xs = "map (\<lambda>k. as_i32 (height + int k)) [0..<nat (max cnt 0)]"]
    by (auto simp: staged_by_def svc_stage_blocks_create_def stage_blocks_create_def check_reset_def none start_sizes_def
        ok_option_def thenD_pair failIf_def comp_def accepted_def split: sum.splits)
  show "staged_by X (StageTransactionsStream txs) st (control_step X (StageTransactionsStream txs) st)"
    using loop_txs [where g = "\<lambda>item. map_option (\<lambda>tx. (rt_height tx, rt_data tx)) (ok_option item)" and
        f = "\<lambda>item st. thenD (st, item) (\<lambda>tx st.
           map_errD darkside_to_status (stage_transaction X (rt_height tx) (rt_data tx) st))" and xs = txs and st = st and X = X]
    by (simp add: staged_by_def svc_stage_transactions_stream_def none start_sizes_def ok_option_def thenD_pair
        split: sum.splits)
  show "staged_by X (StageTransactions height fetched) st (control_step X (StageTransactions height fetched) st)"
    using loop_txs [where g = "\<lambda>raw. Some (nat (max height 0), raw)" and
        f = "\<lambda>raw st. map_errD darkside_to_status (stage_transaction X (nat (max height 0)) raw st)" and st = st and X = X]
    by (auto simp: staged_by_def svc_stage_transactions_def none start_sizes_def thenD_pair Let_def split: sum.splits)
qed


section \<open>Applying\<close>

definition same_frame :: "darkside_state \<Rightarrow> darkside_state \<Rightarrow> bool" where
  "same_frame s t \<longleftrightarrow> dk_start_height t = dk_start_height s \<and> start_sizes t = start_sizes s \<and>
     dk_staged_blocks t = dk_staged_blocks s \<and> dk_staged_txs t = dk_staged_txs s"

lemma same_frame_trans: "same_frame s t \<Longrightarrow> same_frame t u \<Longrightarrow> same_frame s u"
  by (simp add: same_frame_def)

lemma add_block_overlays:
  assumes "add_block_active X raw st = (st', Inr ())"
  shows "parts (dk_active st') = overlay_block X (dk_start_height st) raw (parts (dk_active st)) \<and> same_frame st st'"
proof -
  from assms obtain header txs height where split: "split_block X raw = Inr (header, txs)"
    and h: "raw_block_height X raw = Inr height" and place: "place_block X header txs height st = (st', Inr ())"
    by (auto simp: add_block_active_def raw_block_height_def thenD_Inr result_simps)
  from place show ?thesis
    by (auto simp: place_block_def thenD_Inr overlay_block_def split h parts_def take_map same_frame_def start_sizes_def
        Let_def)
qed

lemma add_blocks_overlay:
  assumes "loopD (add_block_active X) raws st = (st', Inr ())"
  shows "parts (dk_active st') = fold (overlay_block X (dk_start_height st)) raws (parts (dk_active st)) \<and> same_frame st st'"
  using assms
proof (induction raws arbitrary: st)
  case (Cons raw raws)
  then obtain s where "add_block_active X raw st = (s, Inr ())" "loopD (add_block_active X) raws s = (st', Inr ())"
    by (auto simp: thenD_Inr)
  with add_block_overlays [of X raw st s] Cons.IH [of s] show ?case
    by (auto simp: same_frame_def)
qed (simp add: same_frame_def)

lemma mined_header_add: "mined_header (mined_header header m) n = mined_header header (m + n)"
  by (cases "68 < length header") (simp_all add: mined_header_def ac_simps list_update_beyond)

lemma mined_header_0 [simp]: "mined_header header 0 = header"
  by (simp add: mined_header_def)

text \<open>A run of the mining loop, block by block.\<close>

lemma mine_tx_active:
  assumes "mine_tx X (h, raw) st = (st', Inr ())"
  shows "length (dk_active st') = length (dk_active st) \<and> same_frame st st' \<and>
    (\<forall>i < length (dk_active st).
       ab_txs (dk_active st' ! i) = ab_txs (dk_active st ! i) @ (if h = dk_start_height st + i then [raw] else []) \<and>
       ab_header (dk_active st' ! i) =
         mined_header (ab_header (dk_active st ! i)) (if h = dk_start_height st + i then 1 else 0))"
  using assms
  by (auto simp: mine_tx_def thenD_Inr result_simps Let_def same_frame_def start_sizes_def nth_append
      nth_list_update mined_header_def)

lemma mine_txs_active:
  assumes "loopD (mine_tx X) hts st = (st', Inr ())"
  shows "length (dk_active st') = length (dk_active st) \<and> same_frame st st' \<and>
    (\<forall>i < length (dk_active st).
       ab_txs (dk_active st' ! i) = ab_txs (dk_active st ! i) @ mined_at hts (dk_start_height st + i) \<and>
       ab_header (dk_active st' ! i) =
         mined_header (ab_header (dk_active st ! i)) (length (mined_at hts (dk_start_height st + i))))"
  using assms
proof (induction hts arbitrary: st)
  case Nil
  then show ?case by (simp add: same_frame_def mined_at_def)
next
  case (Cons ht hts)
  obtain h raw where ht: "ht = (h, raw)" by (cases ht)
  from Cons.prems ht obtain s where s: "mine_tx X (h, raw) st = (s, Inr ())" "loopD (mine_tx X) hts s = (st', Inr ())"
    by (auto simp: thenD_Inr)
  have start: "dk_start_height s = dk_start_height st" using mine_tx_active [OF s(1)] by (simp add: same_frame_def)
  have at: "mined_at (ht # hts) k = (if h = k then [raw] else []) @ mined_at hts k" for k
    by (simp add: mined_at_def ht)
  show ?case
    using mine_tx_active [OF s(1)] Cons.IH [OF s(2)]
    by (auto simp: at start mined_header_add intro: same_frame_trans)
qed

lemma set_prevhash_nth:
  assumes "i < length bs"
  shows "ab_txs (set_prevhash X bs ! i) = ab_txs (bs ! i)"
    and "ab_header (set_prevhash X bs ! i) =
      (if i = 0 then ab_header (bs ! i)
       else take 4 (ab_header (bs ! i)) @ active_hash X (set_prevhash X bs ! (i - 1)) @ drop 36 (ab_header (bs ! i)))"
  using link_from_nth [OF assms, of X None] by (auto simp: set_prevhash_def)

context parse_contract
begin

lemma apply_staged_presents:
  assumes "dark_inv X st0" and "apply_staged X target st0 = (st, Inr ())"
  shows "presents X st0 st"
proof -
  from assms(2) obtain s1 s2 where
    s: "loopD (add_block_active X) (dk_staged_blocks st0) (st0\<lparr>dk_staged_blocks := []\<rparr>) = (s1, Inr ())"
      "loopD (mine_tx X) (dk_staged_txs s1) (s1\<lparr>dk_staged_txs := []\<rparr>) = (s2, Inr ())"
    and st: "dk_active st = set_prevhash X (dk_active s2)" "same_frame s2 st"
    by (auto simp: apply_staged_def apply_staged_blocks_def mine_staged_transactions_def thenD_Inr result_simps Let_def
        same_frame_def start_sizes_def)
  have len: "length (set_prevhash X bs) = length bs" for bs by (simp add: set_prevhash_def)
  have s1: "parts (dk_active s1) = overlaid X st0" "dk_start_height s1 = dk_start_height st0"
    "start_sizes s1 = start_sizes st0" "dk_staged_blocks s1 = []" "dk_staged_txs s1 = dk_staged_txs st0"
    using add_blocks_overlay [OF s(1)] by (simp_all add: overlaid_def same_frame_def start_sizes_def)
  have inv: "chain_ok X (dk_start_height st) (start_sizes st) (dk_active st)"
    using apply_staged_inv [OF assms(1), of target] assms(2) by (simp add: dark_inv_def)
  note s2 = mine_txs_active [OF s(2)]
  have frame: "dk_start_height st = dk_start_height st0" "start_sizes st = start_sizes st0" "dk_staged_blocks st = []"
    "dk_staged_txs st = []"
    using s2 st(2) s1 by (simp_all add: same_frame_def start_sizes_def)
  have nth: "overlaid X st0 ! i = (ab_header (dk_active s1 ! i), ab_txs (dk_active s1 ! i))" if "i < length (dk_active s1)" for i
    using that by (simp add: s1(1) [symmetric] parts_def)
  have lens: "length (dk_active st) = length (dk_active s1)" "length (overlaid X st0) = length (dk_active s1)"
    using s2 len st(1) by (simp_all add: s1(1) [symmetric] parts_def)
  have "presented X st0 (dk_active st) i (overlaid X st0 ! i)" if "i < length (dk_active st)" for i
    using that s2 inv set_prevhash_nth [of i "dk_active s2" X] nth [of i]
    by (cases "i = 0") (simp_all add: presented_def frame lens s1 chain_ok_def st(1) [symmetric])
  then show ?thesis by (simp add: presents_def frame lens)
qed

lemma control_step_staged:
  assumes "dark_inv X st"
  shows "staged_by X call st (control_step X call st)"
proof (cases call)
  case (ApplyStaged target)
  then show ?thesis
    using apply_staged_presents [OF assms, of target] is_ok_unit [of "apply_staged X target st"]
    by (auto simp: staged_by_def svc_apply_staged_def)
next
  case (AddTreeState t)
  then show ?thesis
    by (auto simp: staged_by_def accepted_def add_treestate_def thenD_pair start_sizes_def split: sum.splits)
next
  case (SendTransaction raw)
  then show ?thesis
    by (auto simp: staged_by_def accepted_def push_incoming_def thenD_pair start_sizes_def split: sum.splits)
next
  case (Reset meta)
  then show ?thesis by (auto simp: staged_by_def svc_reset_def thenD_pair split: sum.splits)
next
  case (StageBlocksStream incoming)
  then show ?thesis by (simp only: staged_by_staging)
next
  case (StageBlocks fetched)
  then show ?thesis by (simp only: staged_by_staging)
next
  case (StageBlocksCreate height nonce cnt)
  then show ?thesis by (simp only: staged_by_staging)
next
  case (StageTransactionsStream txs)
  then show ?thesis by (simp only: staged_by_staging)
next
  case (StageTransactions height fetched)
  then show ?thesis by (simp only: staged_by_staging)
qed (simp_all add: staged_by_def accepted_def start_sizes_def clear_incoming_def add_utxo_def
       clear_utxos_def add_addr_tx_def clear_addr_txs_def remove_treestate_def clear_treestates_def
       set_subtree_roots_def Let_def)

lemma control_run_staged_by:
  assumes "\<forall>call \<in> set calls. stages_exact X call" and "k < length calls"
  shows "staged_by X (calls ! k) (control_run X (take k calls)) (control_run X (take (Suc k) calls))"
proof -
  have "dark_inv X (control_run X (take k calls))"
    using assms(1) by (intro control_run_inv) (blast dest: in_set_takeD)
  moreover have "control_run X (take (Suc k) calls) = control_step X (calls ! k) (control_run X (take k calls))"
    using assms(2) by (simp add: control_run_def take_Suc_conv_app_nth)
  ultimately show ?thesis using control_step_staged by simp
qed

end

end
