(* ===== verification/Darkside_Props.thy ===== *)
theory Darkside_Props
  imports Darkside_Presented
begin

text \<open>The properties of the mock chain.\<close>

section \<open>The chain it serves\<close>

text \<open>
  C26: the mock chain is the staged chain. Every control call stages exactly the blocks and transactions it
  offers, in order, up to the first it refuses. An ApplyStaged that succeeds then leaves a mock node that
  serves, through the same checked fetch as a real node, one linked chain from the activation height to the
  target height, or to the end of what is staged when that is lower. Its blocks are the staged blocks laid
  over the blocks before, each from its height up; each has its own transactions and then the ones staged
  for its height, in order, and the tree sizes served with it are those of the block before it plus the
  notes of all of them; its header is the staged one but for the byte that counts the mined transactions
  and the hash of the block before. Two conditions: the staged transactions are ones the reader consumes to
  their last byte, and no two blocks of the chain share a hash nor has one more transactions than a block
  can hold.
\<close>

theorem darkside_chain_served:
  assumes "parse_contract X" and "\<forall>call \<in> set calls. stages_exact X call"
    and "apply_staged X target (control_run X calls) = (st, Inr ())" and "presentable X st"
    and "st0 = control_run X calls"
  shows "(\<forall>k < length calls. staged_by X (calls ! k) (control_run X (take k calls)) (control_run X (take (Suc k) calls))) \<and>
    presents X st0 st \<and>
    serves X (darkside_node X display st) (dark_block X st) (dk_start_height st) (nat (dk_latest_height st)) \<and>
    dk_latest_height st = min target (int (dk_start_height st + length (overlaid X st0)) - 1) \<and>
    (\<forall>i. int (dk_start_height st + i) \<le> dk_latest_height st \<longrightarrow>
       (let txs = snd (overlaid X st0 ! i) @ mined_at (dk_staged_txs st0) (dk_start_height st + i) in
        cb_vtx (dark_block X st (dk_start_height st + i)) = compacted X 0 txs \<and>
        cb_chain_metadata (dark_block X st (dk_start_height st + i)) =
          Some (metadata_of (tally X txs (prev_sizes (start_sizes st0) (dk_active st) i)))))"
proof -
  note inv = parse_contract.control_run_inv [OF assms(1,2)]
  note st = parse_contract.apply_staged_ok [OF assms(1) inv assms(3)]
  have presents: "presents X st0 st"
    unfolding assms(5) by (rule parse_contract.apply_staged_presents [OF assms(1) inv assms(3)])
  have serves: "serves X (darkside_node X display st) (dark_block X st) (dk_start_height st) (nat (dk_latest_height st))"
    by (rule chain_node.node_serves [OF staged_chain.staged_chain_node [OF parse_contract.control_run_staged [OF assms(1-4)]]])
  have block: "let txs = snd (overlaid X st0 ! i) @ mined_at (dk_staged_txs st0) (dk_start_height st + i) in
      cb_vtx (dark_block X st (dk_start_height st + i)) = compacted X 0 txs \<and>
      cb_chain_metadata (dark_block X st (dk_start_height st + i)) =
        Some (metadata_of (tally X txs (prev_sizes (start_sizes st0) (dk_active st) i)))"
    if "int (dk_start_height st + i) \<le> dk_latest_height st" for i
  proof -
    have "i < length (dk_active st)" using that st by linarith
    with presents show ?thesis
      by (simp add: presents_def presented_def dark_block_def compact_of_def Let_def split_beta)
  qed
  have "dk_latest_height st = min target (int (dk_start_height st + length (overlaid X st0)) - 1)"
    using st presents by (simp add: presents_def)
  then show ?thesis
    by (intro conjI allI impI presents serves block parse_contract.control_run_staged_by [OF assms(1,2)]) assumption+
qed

definition ref_meta :: darkside_meta_state where
  "ref_meta = \<lparr>dm_sapling_activation = 42, dm_branch_id = ''76b809bb'', dm_chain_name = ''main'',
     dm_start_sapling_commitment_tree_size = 5, dm_start_orchard_commitment_tree_size = 0,
     dm_start_ironwood_commitment_tree_size = 0\<rparr>"

text \<open>Two blocks, at heights 42 and 43, and a transaction staged for the second.\<close>

definition ref_second_block :: bytes where
  "ref_second_block = replicate 139 0 @ [7, 0, 1, 2, 1, 0, 0, 1, 43]"

definition ref_mined_tx :: bytes where
  "ref_mined_tx = [1, 3, 2, 1, 9]"

definition ref_calls :: "bytes \<Rightarrow> control list" where
  "ref_calls tx =
     [Reset ref_meta,
      StageBlocksStream [Inr (ref_hex_encode ref_raw_block), Inr (ref_hex_encode ref_second_block)],
      StageTransactionsStream [Inr \<lparr>rt_data = tx, rt_height = 43\<rparr>]]"

text \<open>The calls with their hex decoded.\<close>

lemma stage_stream_encoded:
  "fst (svc_stage_blocks_stream ref_parse (map (\<lambda>r. Inr (ref_hex_encode r)) raws) st) =
     fst (loopD (stage_block ref_parse) raws st)"
proof (induction raws arbitrary: st)
  case (Cons r raws)
  have "decode_hex_arg ref_parse (ref_hex_encode r) ''block'' = Inr r"
    by (simp add: decode_hex_arg_def ref_parse_def ref_hex_decode_encode)
  then show ?case
    using Cons [of "fst (stage_block ref_parse r st)"]
    by (cases "stage_block ref_parse r st"; cases "snd (stage_block ref_parse r st)")
      (auto simp: svc_stage_blocks_stream_def map_errD_def)
qed (simp add: svc_stage_blocks_stream_def)

lemma control_run_ref:
  "control_run ref_parse (ref_calls tx) =
     fst (svc_stage_transactions_stream ref_parse [Inr \<lparr>rt_data = tx, rt_height = 43\<rparr>]
       (fst (loopD (stage_block ref_parse) [ref_raw_block, ref_second_block] (darkside_reset ref_meta))))"
proof -
  have "list_all is_ascii_hexdigit (dm_branch_id ref_meta)" "list_all is_ascii_alphanumeric (dm_chain_name ref_meta)"
    "dm_branch_id ref_meta \<noteq> []" "dm_chain_name ref_meta \<noteq> []"
    by code_simp+
  then have "fst (svc_reset ref_meta st) = darkside_reset ref_meta" for st by (simp add: svc_reset_def)
  with stage_stream_encoded [of "[ref_raw_block, ref_second_block]" "darkside_reset ref_meta"] show ?thesis
    by (simp add: control_run_def ref_calls_def del: loopD.simps)
qed

lemma ref_applied:
  obtains st where "apply_staged ref_parse 50 (control_run ref_parse (ref_calls ref_mined_tx)) = (st, Inr ())"
    "presentable ref_parse st" "dk_latest_height st = 43" "dk_start_height st = 42"
    "is_ok (compact_block_fetch ref_parse None (darkside_node ref_parse (\<lambda>_. '''') st) 43)"
proof -
  have "case apply_staged ref_parse 50 (control_run ref_parse (ref_calls ref_mined_tx)) of
      (st, Inr _) \<Rightarrow> presentable ref_parse st \<and> dk_latest_height st = 43 \<and> dk_start_height st = 42 \<and>
        is_ok (compact_block_fetch ref_parse None (darkside_node ref_parse (\<lambda>_. '''') st) 43) | _ \<Rightarrow> False"
    unfolding control_run_ref by code_simp
  then show thesis using that by (auto split: prod.splits sum.splits)
qed

lemma ref_calls_exact: "\<forall>call \<in> set (ref_calls ref_mined_tx). stages_exact ref_parse call"
  by (auto simp: ref_calls_def exact_tx_def ref_mined_tx_def ref_parse_def Let_def)

lemma ref_staged:
  "snd (overlaid ref_parse (control_run ref_parse (ref_calls ref_mined_tx)) ! 1) = [[2, 1, 0, 0, 1, 43]] \<and>
   mined_at (dk_staged_txs (control_run ref_parse (ref_calls ref_mined_tx))) 43 = [ref_mined_tx]"
  unfolding control_run_ref by code_simp

theorem darkside_chain_served_witness:
  "\<exists>st. apply_staged ref_parse 50 (control_run ref_parse (ref_calls ref_mined_tx)) = (st, Inr ()) \<and>
     dk_latest_height st = 43 \<and>
     serves ref_parse (darkside_node ref_parse (\<lambda>_. '''') st) (dark_block ref_parse st) 42 43 \<and>
     map txid (cb_vtx (dark_block ref_parse st 43)) =
       map (\<lambda>t. tx_txid (fst (projr (transaction_read ref_parse t)))) [[2, 1, 0, 0, 1, 43], ref_mined_tx]"
proof -
  obtain st where st: "apply_staged ref_parse 50 (control_run ref_parse (ref_calls ref_mined_tx)) = (st, Inr ())"
    "presentable ref_parse st" "dk_latest_height st = 43" "dk_start_height st = 42"
    by (rule ref_applied)
  note served = darkside_chain_served [OF rp.parse_contract_axioms ref_calls_exact st(1,2) refl]
  have "cb_vtx (dark_block ref_parse st 43) = compacted ref_parse 0 [[2, 1, 0, 0, 1, 43], ref_mined_tx]"
    using served [THEN conjunct2, THEN conjunct2, THEN conjunct2, THEN conjunct2, THEN spec [of _ 1]] st ref_staged
    by (simp add: Let_def)
  then show ?thesis using served st by (auto simp: compacted_def to_compact_tx_def)
qed

text \<open>
  Staging does not check that a transaction ends where its bytes do. A transaction followed by one
  stray byte is accepted and applied, and the block it was mined into can then not be fetched: with the
  stray byte the mock node serves a block that does not parse, without it the same calls serve it.
\<close>

theorem stage_transaction_trailing:
  "\<exists>st st'. apply_staged ref_parse 50 (control_run ref_parse (ref_calls (ref_mined_tx @ [0]))) = (st, Inr ()) \<and>
     compact_block_fetch ref_parse None (darkside_node ref_parse (\<lambda>_. '''') st) 43 = Inl (FetchParse TrailingData) \<and>
     apply_staged ref_parse 50 (control_run ref_parse (ref_calls ref_mined_tx)) = (st', Inr ()) \<and>
     is_ok (compact_block_fetch ref_parse None (darkside_node ref_parse (\<lambda>_. '''') st') 43)"
proof -
  have "case apply_staged ref_parse 50 (control_run ref_parse (ref_calls (ref_mined_tx @ [0]))) of
      (st, Inr _) \<Rightarrow>
        (case compact_block_fetch ref_parse None (darkside_node ref_parse (\<lambda>_. '''') st) 43 of
           Inl (FetchParse TrailingData) \<Rightarrow> True | _ \<Rightarrow> False) | _ \<Rightarrow> False"
    unfolding control_run_ref by code_simp
  then obtain st where "apply_staged ref_parse 50 (control_run ref_parse (ref_calls (ref_mined_tx @ [0]))) = (st, Inr ())"
    "compact_block_fetch ref_parse None (darkside_node ref_parse (\<lambda>_. '''') st) 43 = Inl (FetchParse TrailingData)"
    by (auto split: prod.splits sum.splits fetch_error.splits parse_error.splits)
  moreover obtain st' where "apply_staged ref_parse 50 (control_run ref_parse (ref_calls ref_mined_tx)) = (st', Inr ())"
    "is_ok (compact_block_fetch ref_parse None (darkside_node ref_parse (\<lambda>_. '''') st') 43)"
    by (rule ref_applied)
  ultimately show ?thesis by blast
qed

end
