(* ===== verification/Snapshot_Serve.thy ===== *)
theory Snapshot_Serve
  imports Export_Props
begin

text \<open>
  src/snapshot/serve.rs: the two HTTP routes that publish the cache, the writer that hands an epoch body
  to the response in chunks, and the cap on concurrent downloads. The HTTP server, its compression layer
  and the JSON serializer are not part of the repository; the serializer is an argument. When a client
  stops reading is an argument too: how many chunks it takes.
\<close>

section \<open>The chunk writer\<close>

definition CHUNK_SIZE :: usize where
  "CHUNK_SIZE = 64 * 1024"

definition IMMUTABLE :: string where
  "IMMUTABLE = ''public, max-age=31536000, immutable''"

record chunk_writer =
  cw_sent :: "bytes list"
  cw_buffer :: bytes
  cw_takes :: "nat option"

definition chunk_new :: "nat option \<Rightarrow> chunk_writer" where
  "chunk_new takes = \<lparr>cw_sent = [], cw_buffer = [], cw_takes = takes\<rparr>"

text \<open>A chunk is lost when the receiver is gone.\<close>

definition chunk_send :: "chunk_writer \<Rightarrow> (io_error, chunk_writer) result" where
  "chunk_send w =
     (if cw_buffer w = [] then Inr w
      else if (case cw_takes w of None \<Rightarrow> False | Some n \<Rightarrow> n \<le> length (cw_sent w))
      then Inl (IoError ''the client stopped reading'')
      else Inr (w\<lparr>cw_sent := cw_sent w @ [cw_buffer w], cw_buffer := []\<rparr>))"

definition chunk_write :: "chunk_writer writer" where
  "chunk_write buf w =
     (let w = w\<lparr>cw_buffer := cw_buffer w @ buf\<rparr> in
      if length (cw_buffer w) \<ge> CHUNK_SIZE then chunk_send w else Inr w)"

definition chunk_flush :: "chunk_writer \<Rightarrow> (io_error, chunk_writer) result" where
  "chunk_flush w = chunk_send w"


section \<open>The routes\<close>

text \<open>A body that ended early is cut: the status line is out by then, so it is no error of the response.\<close>

datatype http_body = NoBody | Text string | Json bytes | Chunks "bytes list" | CutShort

record http_response =
  hr_status :: nat
  hr_headers :: "(string \<times> string) list"
  hr_content_length :: "u64 option"
  hr_body :: http_body

definition status_only :: "nat \<Rightarrow> http_response" where
  "status_only code = \<lparr>hr_status = code, hr_headers = [], hr_content_length = None, hr_body = NoBody\<rparr>"

definition manifest_route ::
    "('b, 'm) cache_ext \<Rightarrow> 'x hex_ext_scheme \<Rightarrow> (manifest \<Rightarrow> bytes option) \<Rightarrow> faults \<times> faults \<Rightarrow> ('b, 'm) db \<times> ('b, 'm) db
      \<Rightarrow> string \<Rightarrow> http_response" where
  "manifest_route E X to_json flt dbs chain =
     (case manifest_of E X (fst flt) (snd flt) (fst dbs) (snd dbs) chain of
        Inl _ \<Rightarrow> status_only 500
      | Inr manifest \<Rightarrow>
          (case to_json manifest of
             Some body \<Rightarrow>
               \<lparr>hr_status = 200,
                hr_headers = [(''content-type'', ''application/json''), (''cache-control'', ''no-cache'')],
                hr_content_length = Some (length body), hr_body = Json body\<rparr>
           | None \<Rightarrow> status_only 500))"

text \<open>
  What one epoch request sees: the cache when the handler reads the digest row, and when the export reads
  the row and the blocks.
\<close>

record ('b, 'm) epoch_env =
  ee_handler :: "faults \<times> ('b, 'm) db"
  ee_row :: "faults \<times> ('b, 'm) db"
  ee_body :: "faults \<times> ('b, 'm) db"
  ee_takes :: "nat option"

definition export_chunks ::
    "('b, 'm) cache_ext \<Rightarrow> ('b, 'm) epoch_env \<Rightarrow> string \<Rightarrow> u64 \<Rightarrow> http_body" where
  "export_chunks E env chain index =
     (case write_epoch E (fst (ee_row env)) (fst (ee_body env)) (snd (ee_row env)) (snd (ee_body env)) chain index
             chunk_write (chunk_new (ee_takes env)) of
        Inl _ \<Rightarrow> CutShort
      | Inr w \<Rightarrow> (case chunk_flush w of Inl _ \<Rightarrow> CutShort | Inr w \<Rightarrow> Chunks (cw_sent w)))"

text \<open>The free download slots before the request and, with the response, after it.\<close>

definition epoch_route ::
    "('b, 'm) cache_ext \<Rightarrow> ('b, 'm) epoch_env \<Rightarrow> string \<Rightarrow> u64 \<Rightarrow> nat \<Rightarrow> nat \<times> http_response" where
  "epoch_route E env chain index slots =
     (case epoch_digest E (fst (ee_handler env)) (snd (ee_handler env)) index of
        Inl _ \<Rightarrow> (slots, status_only 500)
      | Inr None \<Rightarrow> (slots, status_only 404)
      | Inr (Some stored) \<Rightarrow>
          (case row_decode stored of
             None \<Rightarrow> (slots, status_only 500)
           | Some digest \<Rightarrow>
               if slots = 0 then
                 (slots, \<lparr>hr_status = 429, hr_headers = [], hr_content_length = None,
                          hr_body = Text (''snapshot download slots are all busy; retry shortly'' @ [CHR 0x0A])\<rparr>)
               else
                 (slots - 1,
                  \<lparr>hr_status = 200,
                   hr_headers = [(''content-type'', ''application/octet-stream''), (''cache-control'', IMMUTABLE),
                                 (''vary'', ''accept-encoding'')],
                   hr_content_length = Some (er_bytes digest),
                   hr_body = export_chunks E env chain index\<rparr>)))"

text \<open>
  The server as requests come and exports end: the free slots and the exports running. A slot is given
  back when its export ends, however it ends.
\<close>

inductive download_step :: "('b, 'm) cache_ext \<Rightarrow> string \<Rightarrow> nat \<times> nat \<Rightarrow> nat \<times> nat \<Rightarrow> bool" for E chain where
  request: "epoch_route E env chain index slots = (slots', response) \<Longrightarrow>
     running' = (if hr_status response = 200 then Suc running else running) \<Longrightarrow>
     download_step E chain (slots, running) (slots', running')"
| ended: "download_step E chain (slots, Suc running) (Suc slots, running)"

inductive download_reach :: "('b, 'm) cache_ext \<Rightarrow> string \<Rightarrow> nat \<Rightarrow> nat \<times> nat \<Rightarrow> bool" for E chain cap where
  start: "download_reach E chain cap (cap, 0)"
| step: "download_reach E chain cap s \<Longrightarrow> download_step E chain s s' \<Longrightarrow> download_reach E chain cap s'"


section \<open>One body, two writers\<close>

text \<open>What the exporter does to one sink it does to another that keeps up with it on writes of bounded length.\<close>

definition keeps_up :: "nat \<Rightarrow> ('s \<Rightarrow> 't \<Rightarrow> bool) \<Rightarrow> 's writer \<Rightarrow> 't writer \<Rightarrow> bool" where
  "keeps_up n R v w \<longleftrightarrow>
     (\<forall>buf s t s'. length buf \<le> n \<longrightarrow> R s t \<longrightarrow> v buf s = Inr s' \<longrightarrow> (\<exists>t'. w buf t = Inr t' \<and> R s' t'))"

lemma keeps_upE:
  assumes "keeps_up n R v w" "R s t" "v buf s = Inr s'" "length buf \<le> n"
  obtains t' where "w buf t = Inr t'" "R s' t'"
  using assms unfolding keeps_up_def by blast

lemma write_header_sim:
  assumes "keeps_up n R v w" "R s t" "write_header v chain start cnt s = Inr s'" and "255 \<le> n"
  shows "\<exists>t'. write_header w chain start cnt t = Inr t' \<and> R s' t'"
proof -
  from assms(3) obtain s1 s2 s3 s4 where v: "v MAGIC s = Inr s1" "v [of_nat (length chain)] s1 = Inr s2"
    "v (str_bytes chain) s2 = Inr s3" "v (le_bytes 8 start) s3 = Inr s4" "v (le_bytes 4 cnt) s4 = Inr s'"
    and ok: "\<not> (chain = [] \<or> \<not> is_ascii chain \<or> length chain > 255)"
    by (auto simp: write_header_def result_simps)
  have small: "length MAGIC \<le> n" "length [of_nat (length chain) :: 8 word] \<le> n" "length (str_bytes chain) \<le> n"
    "length (le_bytes 8 start) \<le> n" "length (le_bytes 4 cnt) \<le> n"
    using assms(4) ok by (simp_all add: MAGIC_def str_bytes_def)
  obtain t1 where t1: "w MAGIC t = Inr t1" "R s1 t1" by (rule keeps_upE [OF assms(1,2) v(1) small(1)])
  obtain t2 where t2: "w [of_nat (length chain)] t1 = Inr t2" "R s2 t2" by (rule keeps_upE [OF assms(1) t1(2) v(2) small(2)])
  obtain t3 where t3: "w (str_bytes chain) t2 = Inr t3" "R s3 t3" by (rule keeps_upE [OF assms(1) t2(2) v(3) small(3)])
  obtain t4 where t4: "w (le_bytes 8 start) t3 = Inr t4" "R s4 t4" by (rule keeps_upE [OF assms(1) t3(2) v(4) small(4)])
  obtain t5 where t5: "w (le_bytes 4 cnt) t4 = Inr t5" "R s' t5" by (rule keeps_upE [OF assms(1) t4(2) v(5) small(5)])
  show ?thesis using ok t1 t2 t3 t4 t5 by (simp add: write_header_def)
qed

lemma write_record_sim:
  assumes "keeps_up n R v w" "R s t" "write_record v block s = Inr s'" and "255 \<le> n" and "length block \<le> n"
  shows "\<exists>t'. write_record w block t = Inr t' \<and> R s' t'"
proof -
  from assms(3) obtain s1 where v: "v (le_bytes 4 (length block)) s = Inr s1" "v block s1 = Inr s'"
    and ok: "\<not> length block > u32_max"
    by (auto simp: write_record_def result_simps)
  obtain t1 where t1: "w (le_bytes 4 (length block)) t = Inr t1" "R s1 t1" by (rule keeps_upE [OF assms(1,2) v(1)]) (use assms(4) in simp)
  obtain t2 where t2: "w block t1 = Inr t2" "R s' t2" by (rule keeps_upE [OF assms(1) t1(2) v(2) assms(5)])
  show ?thesis using ok t1 t2 by (simp add: write_record_def)
qed

lemma foldE_sim:
  assumes "foldE f xs s = Inr s'" "R s t"
    and "\<And>x s t s'. x \<in> set xs \<Longrightarrow> R s t \<Longrightarrow> f x s = Inr s' \<Longrightarrow> \<exists>t'. g x t = Inr t' \<and> R s' t'"
  shows "\<exists>t'. foldE g xs t = Inr t' \<and> R s' t'"
  using assms
proof (induction xs arbitrary: s t)
  case (Cons x xs)
  then obtain s1 where s1: "f x s = Inr s1" "foldE f xs s1 = Inr s'" by (auto simp: result_simps)
  obtain t1 where t1: "g x t = Inr t1" "R s1 t1" using Cons.prems(3) [OF _ Cons.prems(2) s1(1)] by auto
  have "\<exists>t'. foldE g xs t1 = Inr t' \<and> R s' t'"
    by (rule Cons.IH [OF s1(2) t1(2)]) (use Cons.prems(3) in simp)
  then show ?case using t1(1) by simp
qed simp

text \<open>The blocks an export of the epoch reads are at most so long.\<close>

definition blocks_fit ::
    "('b, 'm) cache_ext \<Rightarrow> faults \<Rightarrow> ('b, 'm) db \<Rightarrow> ('b, 'm) db \<Rightarrow> u64 \<Rightarrow> nat \<Rightarrow> bool" where
  "blocks_fit E flt_row db_row db_body index n \<longleftrightarrow>
     (\<forall>row digest. epoch_digest E flt_row db_row index = Inr (Some row) \<longrightarrow> row_decode row = Some digest \<longrightarrow>
       (\<forall>e \<in> set (tbl_range (blocks_ops E) (db_blocks db_body) (er_start digest) (er_end digest)). length (snd e) \<le> n))"

lemma blocks_fit_ex: "\<exists>n \<ge> 255. blocks_fit E flt_row db_row db_body index n"
proof (cases "\<exists>row digest. epoch_digest E flt_row db_row index = Inr (Some row) \<and> row_decode row = Some digest")
  case True
  then obtain row digest where d: "epoch_digest E flt_row db_row index = Inr (Some row)" "row_decode row = Some digest"
    by blast
  let ?xs = "tbl_range (blocks_ops E) (db_blocks db_body) (er_start digest) (er_end digest)"
  have "\<forall>e \<in> set ?xs. length (snd e) \<le> sum_list (map (length \<circ> snd) ?xs)"
    by (force intro!: member_le_sum_list)
  then have "blocks_fit E flt_row db_row db_body index (max 255 (sum_list (map (length \<circ> snd) ?xs)))"
    using d by (auto simp: blocks_fit_def le_max_iff_disj)
  then show ?thesis by (intro exI conjI) simp_all
qed (auto simp: blocks_fit_def)

lemma write_epoch_sim:
  assumes "keeps_up n R v w" "R s t"
    and "write_epoch E flt_row flt_body db_row db_body chain index v s = Inr s'"
    and "255 \<le> n" and "blocks_fit E flt_row db_row db_body index n"
  shows "\<exists>t'. write_epoch E flt_row flt_body db_row db_body chain index w t = Inr t' \<and> R s' t'"
proof -
  let ?visit = "\<lambda>w (height, value) st. bindE (map_err SnapCache (redb_try flt_body (TableNext height))) (\<lambda>_.
      case st of (out, u, written) \<Rightarrow>
        bindE (write_record w value out) (\<lambda>out. bindE (Inr u) (\<lambda>u. Inr (out, u :: unit, u64_add written 1))))"
  let ?entries = "\<lambda>low high. tbl_range (blocks_ops E) (db_blocks db_body) low high"
  let ?R = "\<lambda>(a, _, m) (b, _, n). R a b \<and> m = (n :: nat)"
  have step: "\<exists>y'. ?visit w x y = Inr y' \<and> ?R z' y'" if "?R z y" "?visit v x z = Inr z'" "length (snd x) \<le> n" for x z y z'
    using that write_record_sim [OF assms(1) _ _ assms(4)]
    by (cases x; cases z; cases y) (fastforce simp: result_simps)
  from assms(3) obtain row digest cnt s1 wr where
    row: "epoch_digest E flt_row db_row index = Inr (Some row)" "row_decode row = Some digest"
    and cnt: "(case checked_sub (er_end digest) (er_start digest) of None \<Rightarrow> None
       | Some span \<Rightarrow> (case checked_add64 span 1 of None \<Rightarrow> None
           | Some c \<Rightarrow> if c \<le> u32_max then Some c else None)) = Some cnt"
    and head: "write_header v chain (er_start digest) cnt s = Inr s1"
    and reads: "read_blocks flt_body = Inr ()" "redb_try flt_body TableRead = Inr ()"
    and loop: "foldE (?visit v) (?entries (er_start digest) (er_end digest)) (s1, (), 0) = Inr (s', (), wr)"
    and all: "wr = cnt"
    by (auto simp: write_epoch_def write_body_def for_each_raw_def cache_try_def decode_row_def result_simps)
  obtain t1 where t1: "write_header w chain (er_start digest) cnt t = Inr t1" "R s1 t1"
    using write_header_sim [OF assms(1,2) head assms(4)] by blast
  have "\<exists>y'. foldE (?visit w) (?entries (er_start digest) (er_end digest)) (t1, (), 0) = Inr y' \<and> ?R (s', (), wr) y'"
  proof (rule foldE_sim [OF loop])
    show "?R (s1, (), 0) (t1, (), 0)" using t1(2) by simp
    show "\<exists>y'. ?visit w x y = Inr y' \<and> ?R z' y'"
      if "x \<in> set (?entries (er_start digest) (er_end digest))" "?R z y" "?visit v x z = Inr z'" for x z y z'
      using that assms(5) row by (intro step) (auto simp: blocks_fit_def)
  qed
  then obtain t2 where t2: "foldE (?visit w) (?entries (er_start digest) (er_end digest)) (t1, (), 0) = Inr (t2, (), wr)"
    "R s' t2" by auto
  show ?thesis
    using row cnt t1 t2 reads all
    by (simp add: write_epoch_def write_body_def for_each_raw_def cache_try_def decode_row_def)
qed

text \<open>The chunks sent and the buffer are the bytes written so far, cut at the first write past the chunk size.\<close>

definition chunked :: "nat \<Rightarrow> bytes \<Rightarrow> chunk_writer \<Rightarrow> bool" where
  "chunked n s w \<longleftrightarrow> concat (cw_sent w) @ cw_buffer w = s \<and> cw_takes w = None \<and> length (cw_buffer w) < CHUNK_SIZE \<and>
     (\<forall>c \<in> set (cw_sent w). CHUNK_SIZE \<le> length c \<and> length c < CHUNK_SIZE + n)"

lemma chunk_keeps_up: "0 < n \<Longrightarrow> keeps_up n (chunked n) vec_writer chunk_write"
  by (auto simp: keeps_up_def chunked_def vec_writer_def chunk_write_def chunk_send_def CHUNK_SIZE_def Let_def)

lemma export_chunks_bounded:
  assumes "ee_takes env = None"
    and "write_epoch E (fst (ee_row env)) (fst (ee_body env)) (snd (ee_row env)) (snd (ee_body env)) chain index
      vec_writer [] = Inr body"
    and "255 \<le> n" and "blocks_fit E (fst (ee_row env)) (snd (ee_row env)) (snd (ee_body env)) index n"
  shows "\<exists>chunks. export_chunks E env chain index = Chunks chunks \<and> concat chunks = body \<and> [] \<notin> set chunks \<and>
    (\<forall>c \<in> set (butlast chunks). 65536 \<le> length c) \<and> (\<forall>c \<in> set chunks. length c < 65536 + n)"
proof -
  have "chunked n [] (chunk_new None)" by (simp add: chunked_def chunk_new_def CHUNK_SIZE_def)
  from write_epoch_sim [OF chunk_keeps_up this assms(2-4)] assms(3) obtain w where
    w: "write_epoch E (fst (ee_row env)) (fst (ee_body env)) (snd (ee_row env)) (snd (ee_body env)) chain index
      chunk_write (chunk_new None) = Inr w" "chunked n body w" by auto
  define chunks where "chunks = (if cw_buffer w = [] then cw_sent w else cw_sent w @ [cw_buffer w])"
  have "export_chunks E env chain index = Chunks chunks"
    using w assms(1) by (simp add: export_chunks_def chunk_flush_def chunk_send_def chunked_def chunks_def)
  moreover have "concat chunks = body" "[] \<notin> set chunks" "\<forall>c \<in> set (butlast chunks). 65536 \<le> length c"
    "\<forall>c \<in> set chunks. length c < 65536 + n"
    using w(2) by (auto simp: chunks_def chunked_def CHUNK_SIZE_def butlast_append dest: in_set_butlastD)
  ultimately show ?thesis by blast
qed

lemma export_chunks_body:
  assumes "ee_takes env = None"
    and "write_epoch E (fst (ee_row env)) (fst (ee_body env)) (snd (ee_row env)) (snd (ee_body env)) chain index
      vec_writer [] = Inr body"
  shows "\<exists>chunks. export_chunks E env chain index = Chunks chunks \<and> concat chunks = body"
proof -
  obtain n where "255 \<le> n" "blocks_fit E (fst (ee_row env)) (snd (ee_row env)) (snd (ee_body env)) index n"
    using blocks_fit_ex by blast
  from export_chunks_bounded [OF assms this] show ?thesis by blast
qed

lemma downloads_balance:
  assumes "download_reach E chain cap s"
  shows "fst s + snd s = cap"
  using assms
proof (induction rule: download_reach.induct)
  case (step s s')
  from step.hyps(2) step.IH show ?case
    by (cases rule: download_step.cases)
      (auto simp: epoch_route_def status_only_def split: sum.splits option.splits if_splits)
qed simp


section \<open>Properties\<close>

text \<open>
  C33: what the epoch route answers. A digest row that cannot be read or does not decode is a 500, an epoch
  without one a 404, and a published epoch a 429 when no download slot is free; none of these takes a slot.
  With a slot free the answer is a 200 that takes one, with the stored length as its content length, an
  immutable cache directive and a vary on the encoding. When the export succeeds and the client reads on, the
  chunks put together are exactly the body the exporter writes to a plain buffer: no chunk is empty, each but
  the last has at least 64 KiB, and each has less than 64 KiB more than the longest single write, a block or
  the 255 bytes a chain name may have.
\<close>

theorem epoch_route_streams:
  assumes "255 \<le> largest" and "blocks_fit E (fst (ee_row env)) (snd (ee_row env)) (snd (ee_body env)) index largest"
  shows "case epoch_digest E (fst (ee_handler env)) (snd (ee_handler env)) index of
      Inl _ \<Rightarrow> epoch_route E env chain index slots = (slots, status_only 500)
    | Inr None \<Rightarrow> epoch_route E env chain index slots = (slots, status_only 404)
    | Inr (Some row) \<Rightarrow>
        (case row_decode row of
           None \<Rightarrow> epoch_route E env chain index slots = (slots, status_only 500)
         | Some digest \<Rightarrow>
             if slots = 0 then \<exists>response. epoch_route E env chain index slots = (0, response) \<and> hr_status response = 429
             else \<exists>response. epoch_route E env chain index slots = (slots - 1, response) \<and> hr_status response = 200 \<and>
               hr_content_length response = Some (er_bytes digest) \<and>
               {(''cache-control'', ''public, max-age=31536000, immutable''), (''vary'', ''accept-encoding'')}
                 \<subseteq> set (hr_headers response) \<and>
               (\<forall>body. ee_takes env = None \<and>
                  write_epoch E (fst (ee_row env)) (fst (ee_body env)) (snd (ee_row env)) (snd (ee_body env)) chain index
                    vec_writer [] = Inr body \<longrightarrow>
                  (\<exists>chunks. hr_body response = Chunks chunks \<and> concat chunks = body \<and> [] \<notin> set chunks \<and>
                     (\<forall>c \<in> set (butlast chunks). 65536 \<le> length c) \<and> (\<forall>c \<in> set chunks. length c < 65536 + largest))))"
  using export_chunks_bounded [OF _ _ assms, of chain]
  by (auto simp: epoch_route_def IMMUTABLE_def split: sum.splits option.splits)

definition ref_epoch_env :: "((u64, bytes) otable, (string, bytes) otable) db \<Rightarrow> ((u64, bytes) otable, (string, bytes) otable) epoch_env" where
  "ref_epoch_env d = \<lparr>ee_handler = (no_faults, d), ee_row = (no_faults, d), ee_body = (no_faults, d), ee_takes = None\<rparr>"

definition ref_digest_row :: epoch_row where
  "ref_digest_row = \<lparr>er_start = 9998, er_end = 9999, er_bytes = 60, er_content = replicate 32 0, er_anchor = replicate 32 0\<rparr>"

definition ref_served_db :: "((u64, bytes) otable, (string, bytes) otable) db" where
  "ref_served_db = projr (set_epoch_digest ref_cache no_faults ref_export_db 0 (row_encode ref_digest_row))"

lemma ref_served_row:
  obtains row digest where "epoch_digest ref_cache no_faults ref_served_db 0 = Inr (Some row)" "row_decode row = Some digest"
proof -
  have "case epoch_digest ref_cache no_faults ref_served_db 0 of Inr (Some row) \<Rightarrow> row_decode row \<noteq> None | _ \<Rightarrow> False"
    by code_simp
  then show thesis using that by (auto split: sum.splits option.splits)
qed

theorem epoch_route_streams_witness:
  "\<exists>response chunks. epoch_route ref_cache (ref_epoch_env ref_served_db) ''main'' 0 3 = (2, response) \<and>
     hr_status response = 200 \<and> hr_body response = Chunks chunks \<and> chunks \<noteq> []"
proof -
  obtain row digest where
    row: "epoch_digest ref_cache no_faults ref_served_db 0 = Inr (Some row)" "row_decode row = Some digest"
    by (rule ref_served_row)
  have "case write_epoch ref_cache no_faults no_faults ref_served_db ref_served_db ''main'' 0 vec_writer [] of
      Inr body \<Rightarrow> body \<noteq> [] | Inl _ \<Rightarrow> False"
    by code_simp
  then obtain body where body: "write_epoch ref_cache no_faults no_faults ref_served_db ref_served_db ''main'' 0 vec_writer [] = Inr body"
    "body \<noteq> []"
    by (auto split: sum.splits)
  obtain n where n: "255 \<le> n" "blocks_fit ref_cache no_faults ref_served_db ref_served_db 0 n"
    using blocks_fit_ex by blast
  show ?thesis
    using epoch_route_streams [of n ref_cache "ref_epoch_env ref_served_db" 0 "''main''" 3] n row body
    by (fastforce simp: ref_epoch_env_def)
qed

text \<open>
  Downloads are bounded. However requests arrive and exports end, the exports running and the free
  slots together are the configured cap, so at most that many run at once; and a request for a published
  epoch is refused with 429 exactly when that many are running.
\<close>

theorem downloads_bounded:
  assumes "download_reach E chain cap (slots, running)"
    and "epoch_digest E (fst (ee_handler env)) (snd (ee_handler env)) index = Inr (Some row)" "row_decode row = Some digest"
  shows "running \<le> cap \<and> (hr_status (snd (epoch_route E env chain index slots)) = 429 \<longleftrightarrow> running = cap) \<and>
    (hr_status (snd (epoch_route E env chain index slots)) = 200 \<longleftrightarrow> running < cap)"
  using downloads_balance [OF assms(1)] assms(2,3) by (auto simp: epoch_route_def)

theorem downloads_bounded_witness:
  "\<exists>slots running. download_reach ref_cache ''main'' 1 (slots, running) \<and>
     hr_status (snd (epoch_route ref_cache (ref_epoch_env ref_served_db) ''main'' 0 slots)) = 429"
proof -
  obtain row digest where r: "epoch_digest ref_cache no_faults ref_served_db 0 = Inr (Some row)"
    "row_decode row = Some digest" by (rule ref_served_row)
  obtain response where first: "epoch_route ref_cache (ref_epoch_env ref_served_db) ''main'' 0 1 = (0, response)"
    "hr_status response = 200"
    using r by (simp add: epoch_route_def ref_epoch_env_def)
  have "download_reach ref_cache ''main'' 1 (0, Suc 0)"
    by (rule download_reach.step [OF download_reach.start], rule download_step.request [OF first(1)]) (simp add: first(2))
  from downloads_bounded [OF this, of "ref_epoch_env ref_served_db" 0 row digest] r this
  show ?thesis by (auto simp: ref_epoch_env_def)
qed

end
