(* ===== verification/Node_Client.thy ===== *)
theory Node_Client
  imports Node_Rpc Service_Chain "HOL-Library.Multiset"
begin

text \<open>
  The JSON-RPC client of src/node/mod.rs, over the HTTP client and serde_json, which are not part of the
  repository: \<^verbatim>\<open>client_ext\<close> gives the reply to a posted request as the chunks of its body, and the
  decoders of a body and of a result value, whose type is left open.
\<close>

section \<open>Requests and replies\<close>

datatype json = JNum int | JStr string | JArr "json list" | JObj "(string \<times> json) list"

record rpc_request =
  rq_jsonrpc :: string
  rq_id :: string
  rq_method :: string
  rq_params :: json

record batch_request =
  bq_jsonrpc :: string
  bq_id :: usize
  bq_method :: string
  bq_params :: json

record rpc_error_object =
  eo_code :: int
  eo_message :: string

record 'v rpc_response =
  rr_result :: "'v option"
  rr_error :: "rpc_error_object option"

record 'v batch_response =
  bp_id :: "usize option"
  bp_result :: "'v option"
  bp_error :: "rpc_error_object option"

text \<open>The chunks of a response body; the transport may fail before the first or between two.\<close>

type_synonym http_reply = "(string, (string, bytes) result list) result"

record 'v client_ext =
  post_request :: "rpc_request \<Rightarrow> http_reply"
  post_batch :: "batch_request list \<Rightarrow> http_reply"
  parse_response :: "bytes \<Rightarrow> (string, 'v rpc_response) result"
  parse_batch :: "bytes \<Rightarrow> (string, 'v batch_response list) result"
  as_string :: "'v \<Rightarrow> (string, string) result"
  as_strings :: "'v \<Rightarrow> (string, string list) result"
  as_u64 :: "'v \<Rightarrow> (string, u64) result"
  as_info :: "'v \<Rightarrow> (string, get_info) result"
  as_blockchain_info :: "'v \<Rightarrow> (string, get_blockchain_info) result"
  as_block_verbose :: "'v \<Rightarrow> (string, get_block_verbose) result"
  as_raw_transaction :: "'v \<Rightarrow> (string, get_raw_transaction) result"
  as_tree_state :: "'v \<Rightarrow> (string, get_tree_state) result"
  as_balance :: "'v \<Rightarrow> (string, get_address_balance) result"
  as_utxos :: "'v \<Rightarrow> (string, address_utxo list) result"
  as_subtrees :: "'v \<Rightarrow> (string, subtree list) result"


section \<open>The client\<close>

definition MAX_RESPONSE_BYTES :: u64 where
  "MAX_RESPONSE_BYTES = 64 * 1024 * 1024"

definition read_capped :: "(string, bytes) result list \<Rightarrow> u64 \<Rightarrow> (node_error, bytes) result" where
  "read_capped stream max_bytes =
     foldE (\<lambda>chunk body.
         bindE (map_err Http chunk) (\<lambda>chunk.
         bindE (failIf (length body + length chunk > max_bytes) (ResponseTooLarge max_bytes)) (\<lambda>_.
           Inr (body @ chunk))))
       stream []"

definition raw_request :: "'v client_ext \<Rightarrow> string \<Rightarrow> json \<Rightarrow> (node_error, 'v) result" where
  "raw_request C method params =
     (let req = \<lparr>rq_jsonrpc = ''1.0'', rq_id = ''lwd'', rq_method = method, rq_params = params\<rparr> in
      bindE (map_err Http (post_request C req)) (\<lambda>stream.
      bindE (read_capped stream MAX_RESPONSE_BYTES) (\<lambda>body.
      bindE (map_err NodeDecode (parse_response C body)) (\<lambda>response.
        case rr_error response of
          Some error \<Rightarrow> Inl (Rpc (eo_code error) (eo_message error))
        | None \<Rightarrow> ok_or EmptyResult (rr_result response)))))"

text \<open>One reply of a batch goes to the slot its id names.\<close>

definition place_reply :: "'v batch_response \<Rightarrow> 'v option list \<Rightarrow> (node_error, 'v option list) result" where
  "place_reply response results =
     (case bp_error response of
        Some error \<Rightarrow> Inl (Rpc (eo_code error) (eo_message error))
      | None \<Rightarrow>
          (case bp_id response of
             Some i \<Rightarrow> if i < length results then Inr (results[i := bp_result response]) else Inl EmptyResult
           | None \<Rightarrow> Inl EmptyResult))"

text \<open>collect into an Option: all the replies, or nothing.\<close>

definition collect_all :: "'v option list \<Rightarrow> 'v list option" where
  "collect_all results = (if None \<in> set results then None else Some (map the results))"

definition batch_request_call :: "'v client_ext \<Rightarrow> string \<Rightarrow> json list \<Rightarrow> (node_error, 'v list) result" where
  "batch_request_call C method calls =
     (if calls = [] then Inr []
      else
        let requests = map (\<lambda>(i, params). \<lparr>bq_jsonrpc = ''2.0'', bq_id = i, bq_method = method, bq_params = params\<rparr>)
                         (enumerate 0 calls) in
        bindE (map_err Http (post_batch C requests)) (\<lambda>stream.
        bindE (read_capped stream MAX_RESPONSE_BYTES) (\<lambda>body.
        bindE (map_err NodeDecode (parse_batch C body)) (\<lambda>responses.
        bindE (foldE place_reply responses (replicate (length calls) None)) (\<lambda>results.
          ok_or EmptyResult (collect_all results))))))"

definition request ::
    "'v client_ext \<Rightarrow> ('v \<Rightarrow> (string, 'a) result) \<Rightarrow> string \<Rightarrow> json \<Rightarrow> (node_error, 'a) result" where
  "request C decode method params =
     bindE (raw_request C method params) (\<lambda>value. map_err NodeDecode (decode value))"

definition addresses_param :: "string list \<Rightarrow> json" where
  "addresses_param addresses = JArr (map JStr addresses)"

definition client_node :: "'x hex_ext_scheme \<Rightarrow> 'v client_ext \<Rightarrow> node_rpc" where
  "client_node X C =
     \<lparr>rpc_get_info = request C (as_info C) ''getinfo'' (JArr []),
      rpc_get_blockchain_info = request C (as_blockchain_info C) ''getblockchaininfo'' (JArr []),
      rpc_get_block_verbose =
        (\<lambda>height. request C (as_block_verbose C) ''getblock'' (JArr [JStr (dec_string height), JNum 1])),
      rpc_get_block_count = request C (as_u64 C) ''getblockcount'' (JArr []),
      rpc_get_block_hash = (\<lambda>height. request C (as_string C) ''getblockhash'' (JArr [JNum (int height)])),
      rpc_get_block_hashes =
        (\<lambda>heights.
           bindE (batch_request_call C ''getblockhash'' (map (\<lambda>height. JArr [JNum (int height)]) heights)) (\<lambda>replies.
             mapE (\<lambda>value. map_err NodeDecode (as_string C value)) replies)),
      rpc_get_block_raw =
        (\<lambda>hash. bindE (request C (as_string C) ''getblock'' (JArr [JStr hash, JNum 0])) (\<lambda>hex_str.
           map_err Hex (hex_decode X hex_str))),
      rpc_get_raw_transaction =
        (\<lambda>tid. request C (as_raw_transaction C) ''getrawtransaction'' (JArr [JStr tid, JNum 1])),
      rpc_send_raw_transaction = (\<lambda>hex. request C (as_string C) ''sendrawtransaction'' (JArr [JStr hex])),
      rpc_get_treestate = (\<lambda>i. request C (as_tree_state C) ''z_gettreestate'' (JArr [JStr i])),
      rpc_get_address_balance =
        (\<lambda>addresses. request C (as_balance C) ''getaddressbalance''
           (JArr [JObj [(''addresses'', addresses_param addresses)]])),
      rpc_get_address_utxos =
        (\<lambda>addresses. request C (as_utxos C) ''getaddressutxos''
           (JArr [JObj [(''addresses'', addresses_param addresses)]])),
      rpc_get_address_txids =
        (\<lambda>addresses start finish. request C (as_strings C) ''getaddresstxids''
           (JArr [JObj ([(''addresses'', addresses_param addresses), (''start'', JNum (int start))] @
              (if finish \<noteq> 0 then [(''end'', JNum (int finish))] else []))])),
      rpc_get_subtrees =
        (\<lambda>protocol start_index max_entries. request C (as_subtrees C) ''z_getsubtreesbyindex''
           (JArr ([JStr protocol, JNum (int start_index)] @
              (if max_entries > 0 then [JNum (int max_entries)] else [])))),
      rpc_get_raw_mempool = request C (as_strings C) ''getrawmempool'' (JArr [])\<rparr>"


section \<open>Lemmas\<close>

lemma read_capped_bound: "read_capped stream m = Inr body \<Longrightarrow> length body \<le> m"
  unfolding read_capped_def
  by (rule foldE_invariant [where P = "\<lambda>body. length body \<le> m"]) (auto simp: result_simps)

text \<open>A reply that answers one call.\<close>

definition answer :: "nat \<Rightarrow> 'v \<Rightarrow> 'v batch_response" where
  "answer i v = \<lparr>bp_id = Some i, bp_result = Some v, bp_error = None\<rparr>"

lemma place_all:
  assumes "distinct (map fst ivs)" "\<forall>(i, v) \<in> set ivs. i < length results"
  shows "\<exists>out. foldE place_reply (map (\<lambda>(i, v). answer i v) ivs) results = Inr out \<and> length out = length results \<and>
    (\<forall>(i, v) \<in> set ivs. out ! i = Some v) \<and>
    (\<forall>j < length results. j \<notin> fst ` set ivs \<longrightarrow> out ! j = results ! j)"
  using assms
proof (induction ivs arbitrary: results)
  case (Cons iv ivs)
  obtain i v where iv: "iv = (i, v)" by (cases iv)
  have i: "i < length results" "i \<notin> fst ` set ivs" using Cons.prems iv by auto
  obtain out where out: "foldE place_reply (map (\<lambda>(i, v). answer i v) ivs) (results[i := Some v]) = Inr out"
    "length out = length results" "\<forall>(i, v) \<in> set ivs. out ! i = Some v"
    "\<forall>j < length results. j \<notin> fst ` set ivs \<longrightarrow> out ! j = results[i := Some v] ! j"
    using Cons.IH [of "results[i := Some v]"] Cons.prems iv by auto
  moreover have "place_reply (answer i v) results = Inr (results[i := Some v])"
    using i(1) by (simp add: place_reply_def answer_def)
  ultimately show ?case using i iv by (intro exI [of _ out]) auto
qed simp

lemma place_permuted:
  assumes "mset responses = mset (map (\<lambda>(i, v). answer i v) (enumerate 0 replies))"
  shows "foldE place_reply responses (replicate (length replies) None) = Inr (map Some replies)"
proof -
  define ivs where "ivs = map (\<lambda>r. (the (bp_id r), the (bp_result r))) responses"
  have set: "set responses = (\<lambda>(i, v). answer i v) ` set (enumerate 0 replies)"
    using arg_cong [OF assms, of set_mset] by simp
  have "map (\<lambda>(i, v). answer i v) ivs = map id responses"
    unfolding ivs_def map_map by (intro map_cong refl) (auto simp: set answer_def)
  then have responses: "responses = map (\<lambda>(i, v). answer i v) ivs" by simp
  have "mset ivs = image_mset (\<lambda>r. (the (bp_id r), the (bp_result r))) (mset responses)" by (simp add: ivs_def)
  also have "\<dots> = mset (enumerate 0 replies)"
    unfolding assms by (simp add: multiset.map_comp o_def split_beta answer_def)
  finally have m: "mset ivs = mset (enumerate 0 replies)" .
  then have "mset (map fst ivs) = mset [0..<length replies]" by (metis mset_map map_fst_enumerate add_0)
  then have "distinct (map fst ivs)" using distinct_upt mset_eq_imp_distinct_iff by blast
  moreover have ivs: "set ivs = set (enumerate 0 replies)" using m mset_eq_setD by blast
  moreover have "\<forall>(i, v) \<in> set ivs. i < length (replicate (length replies) (None :: 'a option))"
    unfolding ivs by (auto simp: in_set_enumerate_eq)
  ultimately obtain out where out: "foldE place_reply responses (replicate (length replies) None) = Inr out"
    "length out = length replies" "\<forall>(i, v) \<in> set (enumerate 0 replies). out ! i = Some v"
    using place_all [of ivs "replicate (length replies) None"] responses by auto
  have "out = map Some replies"
    using out(2,3) by (intro nth_equalityI) (auto simp: in_set_enumerate_eq split_beta Ball_def)
  with out(1) show ?thesis by simp
qed

lemma place_reply_sound:
  assumes "foldE place_reply responses results = Inr out" and "i < length results" "out ! i = Some v"
  shows "results ! i = Some v \<or>
    (\<exists>r \<in> set responses. bp_id r = Some i \<and> bp_result r = Some v)"
  using assms
proof (induction responses arbitrary: results)
  case (Cons r responses)
  then obtain results' where step: "place_reply r results = Inr results'" "foldE place_reply responses results' = Inr out"
    by (auto simp: result_simps)
  then obtain j where j: "bp_id r = Some j" "results' = results[j := bp_result r]" "j < length results"
    by (auto simp: place_reply_def split: option.splits if_splits)
  from Cons.IH [OF step(2)] Cons.prems j show ?case by (cases "i = j") auto
qed simp

lemma place_reply_length: "foldE place_reply responses results = Inr out \<Longrightarrow> length out = length results"
  by (rule foldE_invariant [where P = "\<lambda>out. length out = length results"])
    (auto simp: place_reply_def split: option.splits if_splits)


section \<open>Properties\<close>

text \<open>
  C35: a batch is answered in the order asked. Whatever order the node answers a batch of block-hash
  lookups in, and whatever the sizes of the chunks within the cap, the hashes returned are those of the
  heights asked for, in that order; and hashes are only ever returned when every one of them came with the
  id of its height and the reply fits the cap of 64 MiB.
\<close>

theorem block_hashes_in_order:
  defines "asked \<equiv> \<lambda>heights. map (\<lambda>(i, height). \<lparr>bq_jsonrpc = ''2.0'', bq_id = i, bq_method = ''getblockhash'',
     bq_params = JArr [JNum (int height)]\<rparr>) (enumerate 0 heights)"
  assumes "heights \<noteq> []" and "post_batch C (asked heights) = Inr stream"
    and "read_capped stream MAX_RESPONSE_BYTES = Inr body" and "parse_batch C body = Inr responses"
  shows "(\<forall>replies hashes. mset responses = mset (map (\<lambda>(i, v). answer i v) (enumerate 0 replies)) \<longrightarrow>
      length replies = length heights \<longrightarrow> list_all2 (\<lambda>v h. as_string C v = Inr h) replies hashes \<longrightarrow>
      rpc_get_block_hashes (client_node X C) heights = Inr hashes) \<and>
    (\<forall>hashes. rpc_get_block_hashes (client_node X C) heights = Inr hashes \<longrightarrow>
      length hashes = length heights \<and> length body \<le> 67108864 \<and>
      (\<forall>i < length heights. \<exists>r v. r \<in> set responses \<and> bp_id r = Some i \<and> bp_result r = Some v \<and>
         as_string C v = Inr (hashes ! i)))"
proof -
  let ?n = "length heights"
  have asked: "map (\<lambda>(i, params). \<lparr>bq_jsonrpc = ''2.0'', bq_id = i, bq_method = ''getblockhash'', bq_params = params\<rparr>)
      (enumerate 0 (map (\<lambda>height. JArr [JNum (int height)]) heights)) = asked heights"
    by (simp add: asked_def enumerate_eq_zip zip_map2 split_beta)
  have call: "batch_request_call C ''getblockhash'' (map (\<lambda>height. JArr [JNum (int height)]) heights) =
      bindE (foldE place_reply responses (replicate ?n None)) (\<lambda>results. ok_or EmptyResult (collect_all results))"
    using assms(2-5) asked by (simp add: batch_request_call_def Let_def)
  show ?thesis
  proof (intro conjI allI impI)
    fix replies hashes
    assume m: "mset responses = mset (map (\<lambda>(i, v). answer i v) (enumerate 0 replies))" and len: "length replies = ?n"
      and strings: "list_all2 (\<lambda>v h. as_string C v = Inr h) replies hashes"
    have "batch_request_call C ''getblockhash'' (map (\<lambda>height. JArr [JNum (int height)]) heights) = Inr replies"
      unfolding call using place_permuted [OF m] len by (simp add: collect_all_def o_def image_iff)
    moreover have "mapE (\<lambda>value. map_err NodeDecode (as_string C value)) replies = Inr hashes"
      using strings by (simp add: mapE_Inr_iff result_simps)
    ultimately show "rpc_get_block_hashes (client_node X C) heights = Inr hashes" by (simp add: client_node_def)
  next
    fix hashes
    assume "rpc_get_block_hashes (client_node X C) heights = Inr hashes"
    then obtain results where results: "foldE place_reply responses (replicate ?n None) = Inr results" "None \<notin> set results"
      and strings: "list_all2 (\<lambda>v h. as_string C v = Inr h) (map the results) hashes"
      using call by (auto simp: client_node_def result_simps mapE_Inr_iff collect_all_def split: if_splits)
    have n: "length results = ?n" using place_reply_length [OF results(1)] by simp
    then show "length hashes = ?n" using list_all2_lengthD [OF strings] by simp
    show "length body \<le> 67108864" using read_capped_bound [OF assms(4)] by (simp add: MAX_RESPONSE_BYTES_def)
    fix i assume i: "i < ?n"
    then obtain v where v: "results ! i = Some v" using results(2) n by (metis nth_mem option.exhaust)
    then have "\<exists>r \<in> set responses. bp_id r = Some i \<and> bp_result r = Some v"
      using place_reply_sound [OF results(1), of i v] i by auto
    moreover have "as_string C v = Inr (hashes ! i)"
      using list_all2_nthD [OF strings, of i] i n v by simp
    ultimately show "\<exists>r v. r \<in> set responses \<and> bp_id r = Some i \<and> bp_result r = Some v \<and> as_string C v = Inr (hashes ! i)"
      by blast
  qed
qed

text \<open>A node that answers a batch of two in reverse, each body one byte.\<close>

definition ref_client :: "string client_ext" where
  "ref_client =
     \<lparr>post_request = (\<lambda>_. Inl ''''), post_batch = (\<lambda>_. Inr [Inr [1]]), parse_response = (\<lambda>_. Inl ''''),
      parse_batch = (\<lambda>_. Inr [answer 1 ''8'', answer 0 ''7'']), as_string = Inr, as_strings = (\<lambda>_. Inl ''''),
      as_u64 = (\<lambda>_. Inl ''''), as_info = (\<lambda>_. Inl ''''), as_blockchain_info = (\<lambda>_. Inl ''''),
      as_block_verbose = (\<lambda>_. Inl ''''), as_raw_transaction = (\<lambda>_. Inl ''''), as_tree_state = (\<lambda>_. Inl ''''),
      as_balance = (\<lambda>_. Inl ''''), as_utxos = (\<lambda>_. Inl ''''), as_subtrees = (\<lambda>_. Inl '''')\<rparr>"

theorem block_hashes_in_order_witness:
  "rpc_get_block_hashes (client_node ref_hex ref_client) [70, 80] = Inr [''7'', ''8'']"
  using block_hashes_in_order [of "[70, 80]" ref_client "[Inr [1]]" "[1]" "[answer 1 ''8'', answer 0 ''7'']" ref_hex,
      THEN conjunct1, rule_format, of "[''7'', ''8'']" "[''7'', ''8'']"]
  by (simp add: ref_client_def read_capped_def MAX_RESPONSE_BYTES_def add_mset_commute)

end
