(* ===== verification/Node_Calls.thy ===== *)
theory Node_Calls
  imports Node_Rpc
begin

text \<open>
  The calls of the \<^verbatim>\<open>NodeRpc\<close> trait (src/node/mod.rs) as values: which method is called with which arguments, and
  the reply of a node to it. What is said of every method of a node is said once, of a call.
\<close>

datatype node_call =
    CallGetInfo
  | CallGetBlockchainInfo
  | CallGetBlockVerbose u64
  | CallGetBlockCount
  | CallGetBlockHash u64
  | CallGetBlockHashes "u64 list"
  | CallGetBlockRaw string
  | CallGetRawTransaction string
  | CallSendRawTransaction string
  | CallGetTreestate string
  | CallGetAddressBalance "string list"
  | CallGetAddressUtxos "string list"
  | CallGetAddressTxids "string list" u64 u64
  | CallGetSubtrees string u32 u32
  | CallGetRawMempool

datatype node_reply =
    InfoReply get_info
  | BlockchainInfoReply get_blockchain_info
  | BlockVerboseReply get_block_verbose
  | CountReply u64
  | TextReply string
  | TextsReply "string list"
  | BytesReply bytes
  | RawTransactionReply get_raw_transaction
  | TreeStateReply get_tree_state
  | BalanceReply get_address_balance
  | UtxosReply "address_utxo list"
  | SubtreesReply "subtree list"

definition reply_as :: "('a \<Rightarrow> node_reply) \<Rightarrow> (node_error, 'a) result \<Rightarrow> (node_error, node_reply) result" where
  "reply_as C r = bindE r (\<lambda>x. Inr (C x))"

fun invoke :: "node_rpc \<Rightarrow> node_call \<Rightarrow> (node_error, node_reply) result" where
  "invoke node CallGetInfo = reply_as InfoReply (rpc_get_info node)"
| "invoke node CallGetBlockchainInfo = reply_as BlockchainInfoReply (rpc_get_blockchain_info node)"
| "invoke node (CallGetBlockVerbose height) = reply_as BlockVerboseReply (rpc_get_block_verbose node height)"
| "invoke node CallGetBlockCount = reply_as CountReply (rpc_get_block_count node)"
| "invoke node (CallGetBlockHash height) = reply_as TextReply (rpc_get_block_hash node height)"
| "invoke node (CallGetBlockHashes heights) = reply_as TextsReply (rpc_get_block_hashes node heights)"
| "invoke node (CallGetBlockRaw hash) = reply_as BytesReply (rpc_get_block_raw node hash)"
| "invoke node (CallGetRawTransaction tid) = reply_as RawTransactionReply (rpc_get_raw_transaction node tid)"
| "invoke node (CallSendRawTransaction hex) = reply_as TextReply (rpc_send_raw_transaction node hex)"
| "invoke node (CallGetTreestate i) = reply_as TreeStateReply (rpc_get_treestate node i)"
| "invoke node (CallGetAddressBalance addresses) = reply_as BalanceReply (rpc_get_address_balance node addresses)"
| "invoke node (CallGetAddressUtxos addresses) = reply_as UtxosReply (rpc_get_address_utxos node addresses)"
| "invoke node (CallGetAddressTxids addresses start finish) =
     reply_as TextsReply (rpc_get_address_txids node addresses start finish)"
| "invoke node (CallGetSubtrees protocol start_index max_entries) =
     reply_as SubtreesReply (rpc_get_subtrees node protocol start_index max_entries)"
| "invoke node CallGetRawMempool = reply_as TextsReply (rpc_get_raw_mempool node)"

lemma reply_as_simps [simp]:
  "reply_as C (Inr x) = Inr (C x)"
  "reply_as C (Inl e) = Inl e"
  by (simp_all add: reply_as_def)

end
