(* ===== verification/Bulkhead.thy ===== *)
theory Bulkhead
  imports Service_Errors Node_Calls
begin

text \<open>
  src/node/bulkhead.rs: the two pools of permits in front of the node for the calls made on behalf of
  wallets. When the semaphore hands a call its permit and how the task holding it ends are arguments of a
  call; the pools over time, with the calls that queue for a permit, are a state machine.
\<close>

section \<open>Calls under a permit\<close>

text \<open>The wait for a permit, in milliseconds.\<close>

definition PERMIT_WAIT :: nat where
  "PERMIT_WAIT = 250"

definition SCAN_CLASS :: string where
  "SCAN_CLASS = ''transparent-address''"

definition GENERAL_CLASS :: string where
  "GENERAL_CLASS = ''node''"

text \<open>What comes of asking a semaphore: a permit after some time in its queue, its closing, or neither ever.\<close>

datatype acquired = PermitAfter nat | PoolClosed | NeverGranted

definition admit :: "acquired \<Rightarrow> string \<Rightarrow> (node_error, unit) result" where
  "admit acquired cls =
     (case acquired of
        PermitAfter waited \<Rightarrow> if waited \<le> PERMIT_WAIT then Inr () else Inl (Overloaded cls)
      | PoolClosed \<Rightarrow> Inl (Overloaded cls)
      | NeverGranted \<Rightarrow> Inl (Overloaded cls))"

definition hold :: "join_error option \<Rightarrow> (node_error, 'a) result \<Rightarrow> (node_error, 'a) result" where
  "hold task call = (case task of Some e \<Rightarrow> Inl (TaskError e) | None \<Rightarrow> call)"

text \<open>What a call would meet in either pool, and how its task ends.\<close>

record permit_env =
  pe_scans :: acquired
  pe_general :: acquired
  pe_task :: "join_error option"

definition bh_scan :: "permit_env \<Rightarrow> (node_error, 'a) result \<Rightarrow> (node_error, 'a) result" where
  "bh_scan env call = bindE (admit (pe_scans env) SCAN_CLASS) (\<lambda>_. hold (pe_task env) call)"

definition bh_general :: "permit_env \<Rightarrow> (node_error, 'a) result \<Rightarrow> (node_error, 'a) result" where
  "bh_general env call = bindE (admit (pe_general env) GENERAL_CLASS) (\<lambda>_. hold (pe_task env) call)"

definition bulkhead_node :: "permit_env \<Rightarrow> node_rpc \<Rightarrow> node_rpc" where
  "bulkhead_node env inner =
     \<lparr>rpc_get_info = bh_general env (rpc_get_info inner),
      rpc_get_blockchain_info = bh_general env (rpc_get_blockchain_info inner),
      rpc_get_block_verbose = (\<lambda>height. bh_general env (rpc_get_block_verbose inner height)),
      rpc_get_block_count = bh_general env (rpc_get_block_count inner),
      rpc_get_block_hash = (\<lambda>height. bh_general env (rpc_get_block_hash inner height)),
      rpc_get_block_hashes = (\<lambda>heights. bh_general env (rpc_get_block_hashes inner heights)),
      rpc_get_block_raw = (\<lambda>hash. bh_general env (rpc_get_block_raw inner hash)),
      rpc_get_raw_transaction = (\<lambda>tid. bh_general env (rpc_get_raw_transaction inner tid)),
      rpc_send_raw_transaction = (\<lambda>hex. bh_general env (rpc_send_raw_transaction inner hex)),
      rpc_get_treestate = (\<lambda>i. bh_general env (rpc_get_treestate inner i)),
      rpc_get_address_balance = (\<lambda>addresses. bh_scan env (rpc_get_address_balance inner addresses)),
      rpc_get_address_utxos = (\<lambda>addresses. bh_scan env (rpc_get_address_utxos inner addresses)),
      rpc_get_address_txids = (\<lambda>addresses start finish. bh_scan env (rpc_get_address_txids inner addresses start finish)),
      rpc_get_subtrees =
        (\<lambda>protocol start_index max_entries. bh_general env (rpc_get_subtrees inner protocol start_index max_entries)),
      rpc_get_raw_mempool = bh_general env (rpc_get_raw_mempool inner)\<rparr>"


section \<open>The permits\<close>

record client_node_limits =
  cnl_concurrency :: nat
  cnl_scan_concurrency :: nat

text \<open>The permits of the two pools, as the semaphores are sized.\<close>

definition bulkhead_new :: "client_node_limits \<Rightarrow> nat \<times> nat" where
  "bulkhead_new limits = (max (cnl_scan_concurrency limits) 1, max (cnl_concurrency limits) 1)"

datatype pool = Scans | General

definition pool_size :: "client_node_limits \<Rightarrow> pool \<Rightarrow> nat" where
  "pool_size limits p = (case p of Scans \<Rightarrow> fst (bulkhead_new limits) | General \<Rightarrow> snd (bulkhead_new limits))"

text \<open>The pool a call asks: that of the transparent addresses for the three calls whose cost the caller does not bound.\<close>

fun pool_of :: "node_call \<Rightarrow> pool" where
  "pool_of (CallGetAddressBalance _) = Scans"
| "pool_of (CallGetAddressUtxos _) = Scans"
| "pool_of (CallGetAddressTxids _ _ _) = Scans"
| "pool_of _ = General"

definition pool_class :: "pool \<Rightarrow> string" where
  "pool_class p = (case p of Scans \<Rightarrow> SCAN_CLASS | General \<Rightarrow> GENERAL_CLASS)"

definition asked_of :: "permit_env \<Rightarrow> pool \<Rightarrow> acquired" where
  "asked_of env p = (case p of Scans \<Rightarrow> pe_scans env | General \<Rightarrow> pe_general env)"

text \<open>
  The bulkhead over time: the clock, the free permits of each pool, the calls queued with the time they
  asked, the calls running at the node with how long they queued and whether their caller still waits, and
  the replies, with how long the call queued and how its task ended when it was admitted.
\<close>

record bulkhead_state =
  bk_now :: nat
  bk_free :: "pool \<Rightarrow> nat"
  bk_queued :: "nat \<rightharpoonup> node_call \<times> nat"
  bk_running :: "nat \<rightharpoonup> node_call \<times> nat \<times> bool"
  bk_replies :: "nat \<rightharpoonup> node_call \<times> nat \<times> join_error option option \<times> (node_error, node_reply) result"

definition bulkhead_start :: "client_node_limits \<Rightarrow> bulkhead_state" where
  "bulkhead_start limits = \<lparr>bk_now = 0, bk_free = pool_size limits, bk_queued = Map.empty, bk_running = Map.empty,
     bk_replies = Map.empty\<rparr>"

text \<open>
  A call queues for a permit of its pool, is granted one or is refused; a caller may go away while its call
  queues or runs; and a call that runs gives its permit back when the node has answered or its task has died,
  whether or not the caller is still there. The reply of a call is that of the wrapped node's method; what the
  other pool would have said is arbitrary, as is the node behind.
\<close>

inductive bulkhead_step :: "bulkhead_state \<Rightarrow> bulkhead_state \<Rightarrow> bool" where
  tick: "bulkhead_step s (s\<lparr>bk_now := bk_now s + 1\<rparr>)"
| asks: "bk_queued s c = None \<Longrightarrow> bk_running s c = None \<Longrightarrow> bk_replies s c = None \<Longrightarrow>
    bulkhead_step s (s\<lparr>bk_queued := (bk_queued s)(c \<mapsto> (call, bk_now s))\<rparr>)"
| granted: "bk_queued s c = Some (call, since) \<Longrightarrow> 0 < bk_free s (pool_of call) \<Longrightarrow>
    admit (PermitAfter (bk_now s - since)) (pool_class (pool_of call)) = Inr () \<Longrightarrow>
    bulkhead_step s (s\<lparr>bk_free := (bk_free s)(pool_of call := bk_free s (pool_of call) - 1),
      bk_queued := (bk_queued s)(c := None), bk_running := (bk_running s)(c \<mapsto> (call, bk_now s - since, True))\<rparr>)"
| refused: "bk_queued s c = Some (call, since) \<Longrightarrow> PERMIT_WAIT \<le> bk_now s - since \<Longrightarrow>
    asked_of env (pool_of call) = NeverGranted \<Longrightarrow>
    bulkhead_step s (s\<lparr>bk_queued := (bk_queued s)(c := None),
      bk_replies := (bk_replies s)(c \<mapsto> (call, bk_now s - since, None, invoke (bulkhead_node env node) call))\<rparr>)"
| gave_up: "bk_queued s c = Some (call, since) \<Longrightarrow> bulkhead_step s (s\<lparr>bk_queued := (bk_queued s)(c := None)\<rparr>)"
| abandoned: "bk_running s c = Some (call, waited, here) \<Longrightarrow>
    bulkhead_step s (s\<lparr>bk_running := (bk_running s)(c \<mapsto> (call, waited, False))\<rparr>)"
| answered: "bk_running s c = Some (call, waited, here) \<Longrightarrow> asked_of env (pool_of call) = PermitAfter waited \<Longrightarrow>
    bulkhead_step s (s\<lparr>bk_free := (bk_free s)(pool_of call := bk_free s (pool_of call) + 1),
      bk_running := (bk_running s)(c := None),
      bk_replies := (if here then (bk_replies s)(c \<mapsto> (call, waited, Some (pe_task env), invoke (bulkhead_node env node) call))
                     else bk_replies s)\<rparr>)"

inductive bulkhead_reach :: "client_node_limits \<Rightarrow> bulkhead_state \<Rightarrow> bool" for limits where
  start: "bulkhead_reach limits (bulkhead_start limits)"
| step: "bulkhead_reach limits s \<Longrightarrow> bulkhead_step s s' \<Longrightarrow> bulkhead_reach limits s'"


section \<open>Lemmas\<close>

text \<open>The calls of a pool that are running at the node, abandoned ones included.\<close>

definition running_in :: "bulkhead_state \<Rightarrow> pool \<Rightarrow> nat set" where
  "running_in s p = {c. \<exists>call waited here. bk_running s c = Some (call, waited, here) \<and> pool_of call = p}"

text \<open>A method of the bulkhead asks its own pool and no other, and reaches the node only with a permit.\<close>

lemma invoke_bulkhead:
  "invoke (bulkhead_node env node) call =
     bindE (admit (asked_of env (pool_of call)) (pool_class (pool_of call))) (\<lambda>_. hold (pe_task env) (invoke node call))"
proof -
  have scan: "reply_as C (bh_scan env r) = bindE (admit (pe_scans env) SCAN_CLASS) (\<lambda>_. hold (pe_task env) (reply_as C r))"
    and general: "reply_as C (bh_general env r) =
      bindE (admit (pe_general env) GENERAL_CLASS) (\<lambda>_. hold (pe_task env) (reply_as C r))"
    for C and r :: "(node_error, 'a) result"
    by (cases "admit (pe_scans env) SCAN_CLASS"; cases "admit (pe_general env) GENERAL_CLASS"; cases "pe_task env"; cases r;
        simp add: bh_scan_def bh_general_def hold_def)+
  show ?thesis
    by (cases call) (simp_all add: bulkhead_node_def asked_of_def pool_class_def scan general)
qed

text \<open>What a recorded reply can be.\<close>

definition fair_reply :: "node_call \<Rightarrow> nat \<Rightarrow> join_error option option \<Rightarrow> (node_error, node_reply) result \<Rightarrow> bool" where
  "fair_reply call waited task reply \<longleftrightarrow>
     (case task of
        None \<Rightarrow> 250 \<le> waited \<and> reply = Inl (Overloaded (pool_class (pool_of call)))
      | Some (Some e) \<Rightarrow> waited \<le> 250 \<and> reply = Inl (TaskError e)
      | Some None \<Rightarrow> waited \<le> 250 \<and> (\<exists>node. reply = invoke node call))"

definition bulkhead_inv :: "client_node_limits \<Rightarrow> bulkhead_state \<Rightarrow> bool" where
  "bulkhead_inv limits s \<longleftrightarrow>
     finite (dom (bk_running s)) \<and> (\<forall>p. bk_free s p + card (running_in s p) = pool_size limits p) \<and>
     (\<forall>c. bk_queued s c \<noteq> None \<longrightarrow> bk_running s c = None) \<and>
     (\<forall>c call waited here. bk_running s c = Some (call, waited, here) \<longrightarrow> waited \<le> 250) \<and>
     (\<forall>c call waited task reply. bk_replies s c = Some (call, waited, task, reply) \<longrightarrow> fair_reply call waited task reply)"

lemma running_in_finite: "finite (dom (bk_running s)) \<Longrightarrow> finite (running_in s p)"
  by (rule finite_subset [of _ "dom (bk_running s)"]) (auto simp: running_in_def)

lemma running_in_add:
  "bk_running s c = None \<Longrightarrow> running_in (s\<lparr>bk_running := (bk_running s)(c \<mapsto> (call, w, here))\<rparr>) p =
     (if p = pool_of call then insert c (running_in s p) else running_in s p)"
  by (auto simp: running_in_def)

lemma running_in_remove:
  "bk_running s c = Some (call, w, here) \<Longrightarrow> running_in (s\<lparr>bk_running := (bk_running s)(c := None)\<rparr>) p =
     (if p = pool_of call then running_in s p - {c} else running_in s p)"
  by (auto simp: running_in_def)

lemma running_in_only: "bk_running s' = bk_running s \<Longrightarrow> running_in s' = running_in s"
  by (simp add: running_in_def fun_eq_iff)

lemma bulkhead_step_inv:
  assumes "bulkhead_step s s'" and "bulkhead_inv limits s"
  shows "bulkhead_inv limits s'"
  using assms
proof (induction rule: bulkhead_step.induct)
  case (granted s c call since)
  have c: "bk_running s c = None" "c \<notin> running_in s p" for p using granted by (auto simp: bulkhead_inv_def running_in_def)
  define s1 where "s1 = s\<lparr>bk_running := (bk_running s)(c \<mapsto> (call, bk_now s - since, True))\<rparr>"
  have "card (running_in s1 p) = card (running_in s p) + (if p = pool_of call then 1 else 0)" for p
    using c running_in_finite [of s] granted.prems by (auto simp: s1_def running_in_add bulkhead_inv_def)
  moreover have "bk_now s - since \<le> 250" using granted.hyps(3) by (simp add: admit_def PERMIT_WAIT_def split: if_splits)
  moreover have "0 < pool_size limits (pool_of call)"
    using granted.prems granted.hyps(2) unfolding bulkhead_inv_def by (metis add_gr_0)
  ultimately show ?case
    using granted.prems granted.hyps(2)
      running_in_only [of "s\<lparr>bk_free := (bk_free s)(pool_of call := bk_free s (pool_of call) - 1),
        bk_queued := (bk_queued s)(c := None), bk_running := (bk_running s)(c \<mapsto> (call, bk_now s - since, True))\<rparr>" s1]
    by (auto simp: bulkhead_inv_def s1_def)
next
  case (refused s c call since env node)
  then show ?case
    using running_in_only [of "s\<lparr>bk_queued := (bk_queued s)(c := None),
      bk_replies := (bk_replies s)(c \<mapsto> (call, bk_now s - since, None, invoke (bulkhead_node env node) call))\<rparr>" s]
    by (auto simp: bulkhead_inv_def fair_reply_def invoke_bulkhead admit_def PERMIT_WAIT_def)
next
  case (abandoned s c call waited here)
  have "running_in (s\<lparr>bk_running := (bk_running s)(c \<mapsto> (call, waited, False))\<rparr>) = running_in s"
    using abandoned.hyps by (auto simp: running_in_def fun_eq_iff)
  moreover have "waited \<le> 250" using abandoned unfolding bulkhead_inv_def by blast
  ultimately show ?case using abandoned by (auto simp: bulkhead_inv_def)
next
  case (answered s c call waited here env node)
  define s1 where "s1 = s\<lparr>bk_running := (bk_running s)(c := None)\<rparr>"
  have c: "c \<in> running_in s (pool_of call)" using answered.hyps(1) by (auto simp: running_in_def)
  then have "card (running_in s (pool_of call)) = Suc (card (running_in s (pool_of call) - {c}))"
    using running_in_finite [of s] answered.prems by (intro card.remove) (simp_all add: bulkhead_inv_def)
  then have "Suc (bk_free s (pool_of call) + card (running_in s1 (pool_of call))) = pool_size limits (pool_of call)"
    "p \<noteq> pool_of call \<Longrightarrow> bk_free s p + card (running_in s1 p) = pool_size limits p" for p
    using answered.prems running_in_remove [OF answered.hyps(1)]
    by (auto simp: s1_def bulkhead_inv_def dest!: spec [of _ "pool_of call"])
  moreover have "waited \<le> 250" using answered unfolding bulkhead_inv_def by blast
  then have "fair_reply call waited (Some (pe_task env)) (invoke (bulkhead_node env node) call)"
    using answered.hyps(2)
    by (cases "pe_task env") (auto simp: fair_reply_def invoke_bulkhead admit_def PERMIT_WAIT_def hold_def)
  ultimately show ?case
    using answered.prems
      running_in_only [of "s\<lparr>bk_free := (bk_free s)(pool_of call := bk_free s (pool_of call) + 1),
        bk_running := (bk_running s)(c := None), bk_replies := r\<rparr>" s1 for r]
    by (auto simp: bulkhead_inv_def s1_def)
qed (auto simp: bulkhead_inv_def running_in_def)

lemma bulkhead_reach_inv: "bulkhead_reach limits s \<Longrightarrow> bulkhead_inv limits s"
proof (induction rule: bulkhead_reach.induct)
  case start
  then show ?case by (simp add: bulkhead_inv_def bulkhead_start_def running_in_def)
qed (rule bulkhead_step_inv)


section \<open>Properties\<close>

text \<open>
  C34: wallets take a bounded share of the node. Over any interleaving of calls that queue, are granted a
  permit, are refused, are abandoned while they queue or run and are answered, the free permits of a pool and
  its calls running at the node, abandoned ones included, always add up to the size the limits give the pool:
  one at least. A call is of the pool of its method, and reaches the node only with a permit of that pool: a
  call that is refused has queued for the 250 milliseconds and is told that its pool is exhausted, whatever the
  node; one that is admitted queued no longer than that and gets the node's own answer, or the failure of its
  task. A call that queues in time while its pool is not full can be admitted, however full the other pool is.
\<close>

theorem bulkhead_bounds:
  assumes "bulkhead_reach limits s"
  shows "bk_free s Scans + card (running_in s Scans) = max (cnl_scan_concurrency limits) 1 \<and>
    bk_free s General + card (running_in s General) = max (cnl_concurrency limits) 1 \<and>
    (\<forall>c call waited reply. bk_replies s c = Some (call, waited, None, reply) \<longrightarrow>
       250 \<le> waited \<and> reply = Inl (Overloaded (pool_class (pool_of call)))) \<and>
    (\<forall>c call waited task reply. bk_replies s c = Some (call, waited, Some task, reply) \<longrightarrow>
       waited \<le> 250 \<and> (case task of Some e \<Rightarrow> reply = Inl (TaskError e) | None \<Rightarrow> \<exists>node. reply = invoke node call)) \<and>
    (\<forall>env node call. (\<exists>w. asked_of env (pool_of call) = PermitAfter w \<and> w \<le> 250) \<and> pe_task env = None \<longrightarrow>
       invoke (bulkhead_node env node) call = invoke node call) \<and>
    (\<forall>c call since. bk_queued s c = Some (call, since) \<and> bk_now s - since \<le> 250 \<and>
       card (running_in s (pool_of call)) < pool_size limits (pool_of call) \<longrightarrow>
       (\<exists>s'. bulkhead_step s s' \<and> c \<in> running_in s' (pool_of call))) \<and>
    st_code (node_to_status (Overloaded cls)) = ResourceExhausted"
proof (intro conjI allI impI)
  note inv = bulkhead_reach_inv [OF assms, unfolded bulkhead_inv_def]
  show "bk_free s Scans + card (running_in s Scans) = max (cnl_scan_concurrency limits) 1"
    "bk_free s General + card (running_in s General) = max (cnl_concurrency limits) 1"
    using inv by (simp_all add: pool_size_def bulkhead_new_def)
  show "250 \<le> waited" "reply = Inl (Overloaded (pool_class (pool_of call)))"
    if "bk_replies s c = Some (call, waited, None, reply)" for c call waited reply
    using inv that by (fastforce simp: fair_reply_def)+
  show "waited \<le> 250" "case task of Some e \<Rightarrow> reply = Inl (TaskError e) | None \<Rightarrow> \<exists>node. reply = invoke node call"
    if "bk_replies s c = Some (call, waited, Some task, reply)" for c call waited task reply
    using inv that by (fastforce simp: fair_reply_def split: option.splits)+
  show "invoke (bulkhead_node env node) call = invoke node call"
    if "(\<exists>w. asked_of env (pool_of call) = PermitAfter w \<and> w \<le> 250) \<and> pe_task env = None" for env node call
    using that by (auto simp: invoke_bulkhead admit_def PERMIT_WAIT_def hold_def)
  show "\<exists>s'. bulkhead_step s s' \<and> c \<in> running_in s' (pool_of call)"
    if "bk_queued s c = Some (call, since) \<and> bk_now s - since \<le> 250 \<and>
      card (running_in s (pool_of call)) < pool_size limits (pool_of call)" for c call since
  proof -
    have "bk_free s (pool_of call) + card (running_in s (pool_of call)) = pool_size limits (pool_of call)"
      using inv by blast
    then have "bulkhead_step s (s\<lparr>bk_free := (bk_free s)(pool_of call := bk_free s (pool_of call) - 1),
        bk_queued := (bk_queued s)(c := None), bk_running := (bk_running s)(c \<mapsto> (call, bk_now s - since, True))\<rparr>)"
      using that by (intro bulkhead_step.granted) (auto simp: admit_def PERMIT_WAIT_def)
    then show ?thesis by (intro exI conjI) (assumption, auto simp: running_in_def)
  qed
qed simp

text \<open>A pool of one permit whose only call was abandoned by its caller: the permit is still out.\<close>

theorem bulkhead_bounds_witness:
  "\<exists>s. bulkhead_reach \<lparr>cnl_concurrency = 8, cnl_scan_concurrency = 0\<rparr> s \<and>
     bk_running s 4 = Some (CallGetAddressUtxos [], 0, False) \<and> bk_free s Scans = 0 \<and> bk_free s General = 8"
proof -
  let ?L = "\<lparr>cnl_concurrency = 8, cnl_scan_concurrency = 0\<rparr>"
  let ?call = "CallGetAddressUtxos []"
  define s0 where "s0 = bulkhead_start ?L"
  define s1 where "s1 = s0\<lparr>bk_queued := (bk_queued s0)(4 \<mapsto> (?call, bk_now s0))\<rparr>"
  define s2 where "s2 = s1\<lparr>bk_free := (bk_free s1)(pool_of ?call := bk_free s1 (pool_of ?call) - 1),
      bk_queued := (bk_queued s1)(4 := None), bk_running := (bk_running s1)(4 \<mapsto> (?call, bk_now s1 - 0, True))\<rparr>"
  define s3 where "s3 = s2\<lparr>bk_running := (bk_running s2)(4 \<mapsto> (?call, 0, False))\<rparr>"
  note defs = s0_def s1_def s2_def s3_def bulkhead_start_def
  have "bulkhead_step s0 s1" unfolding s1_def by (rule bulkhead_step.asks) (simp_all add: s0_def bulkhead_start_def)
  moreover have "bulkhead_step s1 s2" unfolding s2_def
    by (rule bulkhead_step.granted)
      (simp_all add: s1_def s0_def bulkhead_start_def pool_size_def bulkhead_new_def admit_def)
  moreover have "bulkhead_step s2 s3" unfolding s3_def
    by (rule bulkhead_step.abandoned [of _ _ _ 0 True]) (simp add: s2_def s1_def s0_def bulkhead_start_def)
  ultimately have reach: "bulkhead_reach ?L s3" unfolding s0_def by (meson bulkhead_reach.intros)
  have running: "bk_running s3 = [4 \<mapsto> (?call, 0, False)]" by (simp add: defs fun_eq_iff)
  then have "running_in s3 Scans = {4}" "running_in s3 General = {}" by (auto simp: running_in_def split: if_splits)
  with bulkhead_bounds [OF reach] have "bk_free s3 Scans = 0 \<and> bk_free s3 General = 8" by simp
  then show ?thesis using reach running by (intro exI [of _ s3]) simp
qed

end
