(* ===== verification/Config.thy ===== *)
theory Config
  imports Rust_Text Ingestor Bulkhead Snapshot_Format
begin

text \<open>
  src/config.rs: the command line and an optional zcash.conf resolved into the runtime configuration. The
  parsing of the command line itself is clap's; a \<^verbatim>\<open>cli\<close> is what it yields. Socket addresses and paths are
  their text, durations are in seconds. An error is the text of its outermost context.
\<close>

section \<open>Secrets\<close>

datatype redacted_string = RedactedString string

definition redacted_from_str :: "string \<Rightarrow> redacted_string" where
  "redacted_from_str value = RedactedString value"

primrec into_inner :: "redacted_string \<Rightarrow> string" where
  "into_inner (RedactedString secret) = secret"

definition redacted_debug :: "redacted_string \<Rightarrow> string" where
  "redacted_debug s = ''***''"


section \<open>The command line and the configuration\<close>

definition DEFAULT_SNAPSHOT_BIND :: string where
  "DEFAULT_SNAPSHOT_BIND = ''127.0.0.1:9069''"

definition MAX_COMPRESSION_LEVEL :: int where
  "MAX_COMPRESSION_LEVEL = 22"

datatype backend = Rpc | Readstate

record cli =
  cli_grpc_bind :: string
  cli_rpc_url :: "string option"
  cli_rpc_host :: "string option"
  cli_rpc_port :: "nat option"
  cli_rpc_user :: "redacted_string option"
  cli_rpc_password :: "redacted_string option"
  cli_zcash_conf :: "string option"
  cli_data_dir :: string
  cli_start_height :: "u64 option"
  cli_sync_from_height :: "u64 option"
  cli_redownload :: bool
  cli_tls_cert :: "string option"
  cli_tls_key :: "string option"
  cli_no_tls :: bool
  cli_gen_cert :: bool
  cli_grpc_web :: bool
  cli_grpc_web_allow_origin :: "string list"
  cli_metrics_bind :: string
  cli_no_metrics :: bool
  cli_snapshot_serve :: bool
  cli_snapshot_bind :: "string option"
  cli_snapshot_max_concurrent_downloads :: usize
  cli_snapshot_compression_level :: int
  cli_snapshot_url :: "string option"
  cli_darkside :: bool
  cli_darkside_timeout_minutes :: u64
  cli_nocache :: bool
  cli_ping_enable :: bool
  cli_donation_address :: "string option"
  cli_max_concurrent_streams :: u32
  cli_keepalive_interval_secs :: u64
  cli_keepalive_timeout_secs :: u64
  cli_ingest_window :: usize
  cli_ingest_concurrency :: usize
  cli_client_node_concurrency :: usize
  cli_client_scan_concurrency :: usize
  cli_log_level :: string
  cli_log_file :: "string option"
  cli_backend :: backend
  cli_zebra_state_dir :: "string option"
  cli_zebra_indexer_url :: "string option"

datatype backend_config = RpcBackend | ReadstateBackend "string option" string

datatype grpc_web_origins = AnyOrigin | OnlyOrigins "string list"

record snapshot_serve_config =
  ss_bind :: string
  ss_max_concurrent_downloads :: usize
  ss_compression_level :: int

record server_limits =
  sl_max_concurrent_streams :: u32
  sl_keepalive_interval :: nat
  sl_keepalive_timeout :: nat

datatype tls_config = TlsEnabled string string | GeneratedInsecure string string | TlsDisabled

record node_config =
  nc_url :: string
  nc_user :: string
  nc_password :: string

record config =
  cf_grpc_bind :: string
  cf_node :: node_config
  cf_data_dir :: string
  cf_start_height :: "u64 option"
  cf_sync_from_height :: "u64 option"
  cf_redownload :: bool
  cf_tls :: tls_config
  cf_grpc_web :: "grpc_web_origins option"
  cf_metrics_bind :: "string option"
  cf_snapshot :: "snapshot_serve_config option"
  cf_snapshot_url :: "string option"
  cf_darkside :: bool
  cf_darkside_timeout :: nat
  cf_nocache :: bool
  cf_ping_enable :: bool
  cf_donation_address :: "string option"
  cf_limits :: server_limits
  cf_ingest :: ingest_config
  cf_client_node :: client_node_limits
  cf_backend :: backend_config

text \<open>The hand-written Debug of the two types that hold a secret: the name and the fields printed.\<close>

fun tls_debug :: "tls_config \<Rightarrow> string \<times> (string \<times> string) list" where
  "tls_debug (TlsEnabled cert key) = (''Enabled'', [(''cert'', cert), (''key'', key)])"
| "tls_debug (GeneratedInsecure cert_pem key_pem) =
     (''GeneratedInsecure'', [(''cert_pem'', cert_pem), (''key_pem'', ''***'')])"
| "tls_debug TlsDisabled = (''Disabled'', [])"

definition node_debug :: "node_config \<Rightarrow> string \<times> (string \<times> string) list" where
  "node_debug c = (''NodeConfig'', [(''url'', nc_url c), (''user'', nc_user c), (''password'', ''***'')])"


section \<open>What the resolution asks the world\<close>

text \<open>
  A parsed URL as the resolution reads it: its scheme, and the serialization of its origin with whether
  that is one a browser can send. The record holds the URL parser, the certificate generator, the decoder
  of unified addresses and the file system.
\<close>

record parsed_url =
  pu_scheme :: string
  pu_origin :: string
  pu_is_tuple :: bool

record config_world =
  url_parse :: "string \<Rightarrow> (string, parsed_url) result"
  self_signed :: "string \<Rightarrow> (string, string \<times> string) result"
  ua_decode :: "string \<Rightarrow> (string, unit) result"
  read_to_string :: "string \<Rightarrow> (string, string) result"


section \<open>zcash.conf\<close>

record zcash_conf =
  zc_rpcuser :: "string option"
  zc_rpcpassword :: "string option"
  zc_rpcbind :: "string option"
  zc_rpcport :: "nat option"

definition default_conf :: zcash_conf where
  "default_conf = \<lparr>zc_rpcuser = None, zc_rpcpassword = None, zc_rpcbind = None, zc_rpcport = None\<rparr>"

definition not_ini_style_error :: "string \<Rightarrow> detail" where
  "not_ini_style_error path =
     (''--zcash-conf {} looks like a zebrad TOML config, not an ini-style zcash.conf (rpcuser/rpcpassword/rpcbind/rpcport key=value pairs); parsing it would silently yield no credentials and fall back to 127.0.0.1:8232 with no auth. For zebrad, drop --zcash-conf and set --rpc-url (or --rpc-host/--rpc-port) and, if zebrad's RPC has auth enabled, --rpc-user/--rpc-password instead.'', [Str path])"

text \<open>
  Path::extension on a Unix path: of the last component, ignoring empty and single-dot ones, what follows
  its last dot, unless nothing precedes that dot.
\<close>

fun path_components :: "string \<Rightarrow> string \<Rightarrow> string list" where
  "path_components acc [] = [acc]"
| "path_components acc (c # cs) =
     (if c = CHR ''/'' then acc # path_components [] cs else path_components (acc @ [c]) cs)"

definition path_extension :: "string \<Rightarrow> string option" where
  "path_extension path =
     (case rev (filter (\<lambda>c. c \<noteq> [] \<and> c \<noteq> ''.'') (path_components [] path)) of
        [] \<Rightarrow> None
      | name # _ \<Rightarrow>
          if name = ''..'' then None
          else (case split_once (CHR ''.'') (rev name) of
                  None \<Rightarrow> None
                | Some (after, before) \<Rightarrow> if before = [] then None else Some (rev after)))"

definition looks_like_toml :: "string \<Rightarrow> bool" where
  "looks_like_toml text =
     list_ex (\<lambda>line.
         let line = str_trim line in
         line \<noteq> [] \<and> hd line = CHR ''['' \<and> last line = CHR '']'' \<and> CHR ''='' \<notin> set line)
       (str_lines text)"

definition conf_line :: "zcash_conf \<Rightarrow> string \<Rightarrow> zcash_conf" where
  "conf_line conf line =
     (let line = str_trim line in
      if line = [] \<or> hd line = CHR ''#'' then conf
      else case split_once (CHR ''='') line of
        None \<Rightarrow> conf
      | Some (key, value) \<Rightarrow>
          (let value = str_trim value; key = str_trim key in
           if key = ''rpcuser'' then conf\<lparr>zc_rpcuser := Some value\<rparr>
           else if key = ''rpcpassword'' then conf\<lparr>zc_rpcpassword := Some value\<rparr>
           else if key = ''rpcbind'' then conf\<lparr>zc_rpcbind := Some value\<rparr>
           else if key = ''rpcport'' then conf\<lparr>zc_rpcport := parse_u16 value\<rparr>
           else conf))"

definition parse_zcash_conf :: "config_world \<Rightarrow> string \<Rightarrow> (detail, zcash_conf) result" where
  "parse_zcash_conf W path =
     bindE (failIf (path_extension path = Some ''toml'') (not_ini_style_error path)) (\<lambda>_.
     bindE (map_err (\<lambda>_. (''reading zcash.conf at {}'', [Str path])) (read_to_string W path)) (\<lambda>text.
     bindE (failIf (looks_like_toml text) (not_ini_style_error path)) (\<lambda>_.
       Inr (foldl conf_line default_conf (str_lines text)))))"


section \<open>Resolution\<close>

definition validate_origin :: "config_world \<Rightarrow> string \<Rightarrow> (detail, string) result" where
  "validate_origin W origin =
     bindE (map_err (\<lambda>_. (''--grpc-web-allow-origin {:?} is not a valid origin (scheme://host[:port])'', [Str origin]))
              (url_parse W origin)) (\<lambda>parsed.
       let serialized = pu_origin parsed in
     bindE (failIf (\<not> pu_is_tuple parsed)
              (''--grpc-web-allow-origin {:?} has no origin a browser could send; use a scheme://host[:port] origin such as https://wallet.example'', [Str origin])) (\<lambda>_.
     bindE (failIf (serialized \<noteq> origin)
              (''--grpc-web-allow-origin {:?} is not what a browser sends in its Origin header; pass {:?} instead'',
               [Str origin, Str serialized])) (\<lambda>_.
       Inr serialized)))"

definition validate_snapshot_url :: "config_world \<Rightarrow> string \<Rightarrow> (detail, unit) result" where
  "validate_snapshot_url W url =
     bindE (map_err (\<lambda>_. (''--snapshot-url {:?} is not a valid URL'', [Str url])) (url_parse W url)) (\<lambda>parsed.
       failIf (pu_scheme parsed \<noteq> ''https'' \<and> pu_scheme parsed \<noteq> ''http'')
         (''--snapshot-url scheme {:?} is not supported; a snapshot peer is reached over https or http'', [Str (pu_scheme parsed)]))"

definition resolve_grpc_web :: "config_world \<Rightarrow> cli \<Rightarrow> (detail, grpc_web_origins option) result" where
  "resolve_grpc_web W cli =
     (if \<not> cli_grpc_web cli then
        (case cli_grpc_web_allow_origin cli of
           origin # _ \<Rightarrow> Inl (''--grpc-web-allow-origin {} has no effect without --grpc-web; pass --grpc-web to serve the browser transport too'', [Str origin])
         | [] \<Rightarrow> Inr None)
      else if cli_grpc_web_allow_origin cli = [] then Inr (Some AnyOrigin)
      else bindE (mapE (validate_origin W) (cli_grpc_web_allow_origin cli)) (\<lambda>origins.
             Inr (Some (OnlyOrigins origins))))"

definition resolve_snapshot :: "cli \<Rightarrow> (detail, snapshot_serve_config option) result" where
  "resolve_snapshot cli =
     (if \<not> cli_snapshot_serve cli then
        (case cli_snapshot_bind cli of
           Some bind \<Rightarrow> Inl (''--snapshot-bind {} has no effect without --snapshot-serve; pass --snapshot-serve to publish this instance's cache'', [Str bind])
         | None \<Rightarrow> Inr None)
      else
     bindE (failIf (cli_nocache cli) (''--snapshot-serve cannot be combined with --nocache: that mode keeps the cache in a throwaway directory and never spawns the ingestor, so the published snapshot would stay empty forever'', [])) (\<lambda>_.
     bindE (failIf (cli_darkside cli) (''--snapshot-serve cannot be combined with darkside mode: a mock chain is not one any consumer could verify a snapshot against'', [])) (\<lambda>_.
     bindE (failIf (cli_snapshot_max_concurrent_downloads cli = 0)
              (''--snapshot-max-concurrent-downloads must be greater than 0'', [])) (\<lambda>_.
     bindE (failIf (cli_snapshot_compression_level cli < 0 \<or> MAX_COMPRESSION_LEVEL < cli_snapshot_compression_level cli)
              (''--snapshot-compression-level must be between 0 (uncompressed) and {}'', [Sgn MAX_COMPRESSION_LEVEL])) (\<lambda>_.
       Inr (Some \<lparr>ss_bind = (case cli_snapshot_bind cli of Some bind \<Rightarrow> bind | None \<Rightarrow> DEFAULT_SNAPSHOT_BIND),
                  ss_max_concurrent_downloads = cli_snapshot_max_concurrent_downloads cli,
                  ss_compression_level = cli_snapshot_compression_level cli\<rparr>))))))"

text \<open>The steps of resolve, in its order.\<close>

definition resolve_url :: "cli \<Rightarrow> zcash_conf \<Rightarrow> string" where
  "resolve_url cli conf =
     (case cli_rpc_url cli of
        Some url \<Rightarrow> url
      | None \<Rightarrow>
          let host = (case cli_rpc_host cli of
                        Some h \<Rightarrow> h
                      | None \<Rightarrow> (case zc_rpcbind conf of Some h \<Rightarrow> h | None \<Rightarrow> ''127.0.0.1''));
              port = (case cli_rpc_port cli of
                        Some p \<Rightarrow> p
                      | None \<Rightarrow> (case zc_rpcport conf of Some p \<Rightarrow> p | None \<Rightarrow> 8232)) in
          ''http://'' @ host @ '':'' @ dec_string port)"

definition resolve_secret :: "redacted_string option \<Rightarrow> string option \<Rightarrow> string" where
  "resolve_secret flag value =
     (case map_option into_inner flag of
        Some s \<Rightarrow> s
      | None \<Rightarrow> (case value of Some s \<Rightarrow> s | None \<Rightarrow> []))"

definition TLS_REQUIRED :: detail where
  "TLS_REQUIRED = (''TLS is required: pass --tls-cert and --tls-key, --gen-cert-very-insecure for a self-signed certificate, or --no-tls-very-insecure for plaintext'', [])"

definition resolve_tls :: "config_world \<Rightarrow> cli \<Rightarrow> (detail, tls_config) result" where
  "resolve_tls W cli =
     bindE (failIf (cli_gen_cert cli \<and> cli_no_tls cli)
              (''--gen-cert-very-insecure and --no-tls-very-insecure select mutually exclusive transport modes (self-signed TLS vs. plaintext); pass only one'', [])) (\<lambda>_.
     bindE (failIf (cli_gen_cert cli \<and> (cli_tls_cert cli \<noteq> None \<or> cli_tls_key cli \<noteq> None))
              (''--gen-cert-very-insecure cannot be combined with --tls-cert/--tls-key; pass either an on-disk certificate or --gen-cert-very-insecure, not both'', [])) (\<lambda>_.
       if cli_no_tls cli then Inr TlsDisabled
       else if cli_gen_cert cli then
         bindE (map_err (\<lambda>_. (''generating a self-signed TLS certificate'', [])) (self_signed W ''localhost''))
           (\<lambda>(cert_pem, key_pem). Inr (GeneratedInsecure cert_pem key_pem))
       else
         bindE (ok_or TLS_REQUIRED (cli_tls_cert cli)) (\<lambda>cert.
         bindE (ok_or TLS_REQUIRED (cli_tls_key cli)) (\<lambda>key.
           Inr (TlsEnabled cert key)))))"

definition resolve_backend :: "cli \<Rightarrow> (detail, backend_config) result" where
  "resolve_backend cli =
     (case cli_backend cli of
        Rpc \<Rightarrow> Inr RpcBackend
      | Readstate \<Rightarrow>
          bindE (failIf (cli_darkside cli) (''--backend readstate cannot be combined with darkside mode'', [])) (\<lambda>_.
          bindE (ok_or (''--backend readstate requires --zebra-indexer-url (the zebrad indexer_listen_addr; enable it in zebrad.toml under [rpc])'', []) (cli_zebra_indexer_url cli)) (\<lambda>url.
            Inr (ReadstateBackend (cli_zebra_state_dir cli) url))))"

definition check_limits :: "config_world \<Rightarrow> cli \<Rightarrow> (detail, unit) result" where
  "check_limits W cli =
     bindE (case cli_donation_address cli of
              Some address \<Rightarrow>
                map_err (\<lambda>error. (''donation-address is not a valid Zcash unified address: {}'', [Str error]))
                  (ua_decode W address)
            | None \<Rightarrow> Inr ()) (\<lambda>_.
     bindE (failIf (cli_max_concurrent_streams cli = 0)
              (''--max-concurrent-streams must be greater than 0'', [])) (\<lambda>_.
     bindE (failIf (cli_keepalive_interval_secs cli = 0 \<or> cli_keepalive_timeout_secs cli = 0)
              (''--keepalive-interval-secs and --keepalive-timeout-secs must be greater than 0'', [])) (\<lambda>_.
     bindE (failIf (cli_ingest_window cli = 0 \<or> cli_ingest_concurrency cli = 0)
              (''--ingest-window and --ingest-concurrency must be greater than 0'', [])) (\<lambda>_.
       failIf (cli_client_node_concurrency cli = 0 \<or> cli_client_scan_concurrency cli = 0)
         (''--client-node-concurrency and --client-scan-concurrency must be greater than 0'', [])))))"

definition config_of ::
    "cli \<Rightarrow> zcash_conf \<Rightarrow> snapshot_serve_config option \<Rightarrow> grpc_web_origins option \<Rightarrow> tls_config \<Rightarrow> backend_config \<Rightarrow> config" where
  "config_of cli conf snapshot grpc_web tls backend = \<lparr>
     cf_grpc_bind = cli_grpc_bind cli,
     cf_node = \<lparr>nc_url = resolve_url cli conf,
                nc_user = resolve_secret (cli_rpc_user cli) (zc_rpcuser conf),
                nc_password = resolve_secret (cli_rpc_password cli) (zc_rpcpassword conf)\<rparr>,
     cf_data_dir = cli_data_dir cli,
     cf_start_height = cli_start_height cli,
     cf_sync_from_height = cli_sync_from_height cli,
     cf_redownload = cli_redownload cli,
     cf_tls = tls,
     cf_grpc_web = grpc_web,
     cf_metrics_bind = (if cli_no_metrics cli then None else Some (cli_metrics_bind cli)),
     cf_snapshot = snapshot,
     cf_snapshot_url = cli_snapshot_url cli,
     cf_darkside = cli_darkside cli,
     cf_darkside_timeout = min (cli_darkside_timeout_minutes cli * 60) u64_max,
     cf_nocache = cli_nocache cli,
     cf_ping_enable = cli_ping_enable cli,
     cf_donation_address = cli_donation_address cli,
     cf_limits = \<lparr>sl_max_concurrent_streams = cli_max_concurrent_streams cli,
                  sl_keepalive_interval = cli_keepalive_interval_secs cli,
                  sl_keepalive_timeout = cli_keepalive_timeout_secs cli\<rparr>,
     cf_ingest = \<lparr>window = cli_ingest_window cli, concurrency = cli_ingest_concurrency cli\<rparr>,
     cf_client_node = \<lparr>cnl_concurrency = cli_client_node_concurrency cli,
                       cnl_scan_concurrency = cli_client_scan_concurrency cli\<rparr>,
     cf_backend = backend\<rparr>"

definition check_snapshot_url :: "config_world \<Rightarrow> cli \<Rightarrow> (detail, unit) result" where
  "check_snapshot_url W cli =
     (case cli_snapshot_url cli of
        Some url \<Rightarrow>
          bindE (validate_snapshot_url W url) (\<lambda>_.
            failIf (cli_nocache cli \<or> cli_darkside cli)
              (''--snapshot-url cannot be combined with --nocache or darkside mode: the imported blocks would land in a throwaway cache, or in a mock chain'', []))
      | None \<Rightarrow> Inr ())"

definition cli_resolve :: "config_world \<Rightarrow> cli \<Rightarrow> (detail, config) result" where
  "cli_resolve W cli =
     bindE (resolve_snapshot cli) (\<lambda>snapshot.
     bindE (resolve_grpc_web W cli) (\<lambda>grpc_web.
     bindE (check_snapshot_url W cli) (\<lambda>_.
     bindE (case cli_zcash_conf cli of Some path \<Rightarrow> parse_zcash_conf W path | None \<Rightarrow> Inr default_conf) (\<lambda>conf.
     bindE (resolve_tls W cli) (\<lambda>tls.
     bindE (check_limits W cli) (\<lambda>_.
     bindE (resolve_backend cli) (\<lambda>backend.
       Inr (config_of cli conf snapshot grpc_web tls backend))))))))"

end
