(* ===== verification/Startup.thy ===== *)
theory Startup
  imports Ingestor_Sync Service_Address Import_Props Config
begin

text \<open>
  The startup of src/lib.rs up to the point where the ingestor and the service run: reaching the node, the
  ingest floor, the cache's open-time check and the operator's reset levers, the snapshot bootstrap and the
  wiring of what then runs. The activation heights compiled into the Zcash libraries are an argument.
\<close>

section \<open>Reaching the node\<close>

text \<open>Delays in seconds. The loop over the replies so far: the first answer, if there is one, and the sleeps.\<close>

primrec connect_loop ::
    "nat \<Rightarrow> (node_error, get_blockchain_info) result list \<Rightarrow> get_blockchain_info option \<times> nat list" where
  "connect_loop delay [] = (None, [])"
| "connect_loop delay (reply # replies) =
     (case reply of
        Inr info \<Rightarrow> (Some info, [])
      | Inl _ \<Rightarrow> (let (found, sleeps) = connect_loop (min (delay * 2) 30) replies in (found, delay # sleeps)))"

definition connect_with_retry ::
    "(node_error, get_blockchain_info) result list \<Rightarrow> get_blockchain_info option \<times> nat list" where
  "connect_with_retry replies = connect_loop 1 replies"


section \<open>The ingest floor\<close>

record chain_params =
  main_sapling :: "u32 option"
  test_sapling :: "u32 option"

definition local_sapling_activation :: "chain_params \<Rightarrow> string \<Rightarrow> u64 option" where
  "local_sapling_activation P chain =
     (if chain = ''main'' then main_sapling P else if chain = ''test'' then test_sapling P else None)"

text \<open>The height the node reports is only compared and logged.\<close>

definition default_start_height :: "chain_params \<Rightarrow> get_blockchain_info \<Rightarrow> u64" where
  "default_start_height P chain_info =
     (case local_sapling_activation P (gbi_chain chain_info) of None \<Rightarrow> 0 | Some local \<Rightarrow> local)"

definition effective_start_height :: "u64 \<Rightarrow> u64 option \<Rightarrow> u64" where
  "effective_start_height configured snapshot_base =
     (case snapshot_base of
        Some base \<Rightarrow> if base > configured then base else configured
      | None \<Rightarrow> configured)"

definition validate_chain_name :: "string \<Rightarrow> (string, unit) result" where
  "validate_chain_name chain =
     failIf (chain = [] \<or> \<not> list_all (\<lambda>c. is_ascii_alphanumeric c \<or> c = CHR ''_'' \<or> c = CHR ''-'') chain)
       ''node returned an invalid chain name''"


section \<open>The cache\<close>

text \<open>
  What startup meets: the temporary directory of a run without a cache, the failures of each store call, what the constructor of the HTTP source gives, what
  the import meets, and the epoch before which a stop signal drops the import, if one arrives.
\<close>

record startup_env =
  su_tempdir :: "(string, unit) result"
  su_open :: faults
  su_validate :: faults
  su_scan :: faults
  su_reorg :: faults
  su_truncate :: faults
  su_source :: "(snapshot_error, epoch_source) result"
  su_import_tip :: faults
  su_import :: import_env
  su_stop :: "u64 option"
  su_base :: faults

definition repair_on_open ::
    "('b, 'm) cache_ext \<Rightarrow> startup_env \<Rightarrow> ('b, 'm) db \<Rightarrow> (cache_error, ('b, 'm) db) result" where
  "repair_on_open E env db =
     (case validate_light E (su_validate env) db of
        Inr _ \<Rightarrow> Inr db
      | Inl _ \<Rightarrow>
          bindE (lowest_corrupt_height E (su_scan env) db) (\<lambda>corrupt.
            case corrupt of
              Some corrupt \<Rightarrow> reorg E (su_reorg env) db (sat_sub corrupt 1)
            | None \<Rightarrow> Inr db))"

definition apply_levers ::
    "('b, 'm) cache_ext \<Rightarrow> startup_env \<Rightarrow> config \<Rightarrow> ('b, 'm) db \<Rightarrow> (cache_error, ('b, 'm) db) result" where
  "apply_levers E env config db =
     (if cf_redownload config then truncate_from E (su_truncate env) db 0
      else
        (case cf_sync_from_height config of
           Some height \<Rightarrow> truncate_from E (su_truncate env) db height
         | None \<Rightarrow> Inr db))"

text \<open>
  The cache of a run: under \<^verbatim>\<open>--nocache\<close> a fresh one, otherwise the one on disk, repaired and cut back.
\<close>

definition open_cache ::
    "('b, 'm) cache_ext \<Rightarrow> startup_env \<Rightarrow> config \<Rightarrow> 'b option \<Rightarrow> 'm option \<Rightarrow> (cache_error, ('b, 'm) db) result" where
  "open_cache E env config stored_blocks stored_meta =
     (if cf_nocache config then cache_open E (su_open env) None None
      else
        bindE (cache_open E (su_open env) stored_blocks stored_meta) (\<lambda>db.
        bindE (repair_on_open E env db) (\<lambda>db.
          apply_levers E env config db)))"

text \<open>
  The bootstrap is never fatal. A stop signal drops the import at whatever it waits for; epochs commit one
  at a time, so the database it leaves is that of an import whose peer fails from that epoch on.
\<close>

definition stopped_source :: "u64 \<Rightarrow> epoch_source \<Rightarrow> epoch_source" where
  "stopped_source stop source = source\<lparr>src_epoch :=
     (\<lambda>index max_bytes. if index < stop then src_epoch source index max_bytes else Inl (UnknownEpoch index))\<rparr>"

definition bootstrap_from_snapshot ::
    "('b, 'm) cache_ext \<Rightarrow> 'x parse_ext_scheme \<Rightarrow> startup_env \<Rightarrow> node_rpc \<Rightarrow> ('b, 'm) db \<Rightarrow> ('b, 'm) db \<times> bool" where
  "bootstrap_from_snapshot E X env node db =
     (case su_source env of
        Inl _ \<Rightarrow> (db, False)
      | Inr source \<Rightarrow>
          (case su_stop env of
             None \<Rightarrow> (fst (import_snapshot E X source node (su_import_tip env) (su_import env) db), False)
           | Some stop \<Rightarrow>
               (fst (import_snapshot E X (stopped_source stop source) node (su_import_tip env) (su_import env) db),
                True)))"


section \<open>The wiring\<close>

text \<open>
  What is running once startup is over: the database, the floor the ingestor was started with, if it was,
  the service with its share of the node, and whether the cache is published.
\<close>

record ('b, 'm) server =
  srv_db :: "('b, 'm) db"
  srv_ingestor :: "(u64 \<times> ingest_config) option"
  srv_streamer :: streamer
  srv_pools :: "nat \<times> nat"
  srv_publishes :: bool

datatype startup_error = BadChainName string | NoTempDir string | StartupCache cache_error

text \<open>The service of a run; the bulkhead guards its calls only.\<close>

definition build_streamer :: "config \<Rightarrow> string \<Rightarrow> u64 \<Rightarrow> streamer" where
  "build_streamer config chain start_height =
     (let streamer = with_donation_address
                       (with_ping_enabled (with_mempool_monitor (streamer_new chain False)) (cf_ping_enable config))
                       (cf_donation_address config) in
      if cf_nocache config then streamer
      else with_ingest_floor (with_repair_signal streamer) start_height)"

definition server_of :: "config \<Rightarrow> string \<Rightarrow> u64 \<Rightarrow> ('b, 'm) db \<Rightarrow> ('b, 'm) server" where
  "server_of config chain start_height db = \<lparr>
     srv_db = db,
     srv_ingestor = (if cf_nocache config then None else Some (start_height, cf_ingest config)),
     srv_streamer = build_streamer config chain start_height,
     srv_pools = bulkhead_new (cf_client_node config),
     srv_publishes = (cf_snapshot config \<noteq> None)\<rparr>"

text \<open>From the node's answer to the running server; None when a stop signal came during the bootstrap.\<close>

definition startup ::
    "('b, 'm) cache_ext \<Rightarrow> 'x parse_ext_scheme \<Rightarrow> chain_params \<Rightarrow> startup_env \<Rightarrow> config \<Rightarrow> node_rpc
      \<Rightarrow> get_blockchain_info \<Rightarrow> 'b option \<Rightarrow> 'm option
      \<Rightarrow> (startup_error, ('b, 'm) db \<times> ('b, 'm) server option) result" where
  "startup E X P env config node chain_info stored_blocks stored_meta =
     bindE (map_err BadChainName (validate_chain_name (gbi_chain chain_info))) (\<lambda>_.
       let start_height = (case cf_start_height config of
                             Some h \<Rightarrow> h
                           | None \<Rightarrow> default_start_height P chain_info) in
     bindE (if cf_nocache config then map_err NoTempDir (su_tempdir env) else Inr ()) (\<lambda>_.
     bindE (map_err StartupCache (open_cache E env config stored_blocks stored_meta)) (\<lambda>db.
       let (db, interrupted) = (if cf_snapshot_url config = None then (db, False)
                                else bootstrap_from_snapshot E X env node db) in
       if interrupted then Inr (db, None)
       else
     bindE (map_err StartupCache (snapshot_base_height E (su_base env) db)) (\<lambda>base.
       Inr (db, Some (server_of config (gbi_chain chain_info) (effective_start_height start_height base) db))))))"


section \<open>Lemmas\<close>

text \<open>No store call fails.\<close>

definition fault_free :: "startup_env \<Rightarrow> bool" where
  "fault_free env \<longleftrightarrow> su_open env = no_faults \<and> su_validate env = no_faults \<and> su_scan env = no_faults \<and>
     su_reorg env = no_faults \<and> su_truncate env = no_faults \<and> su_base env = no_faults"

text \<open>What the levers keep of the cached blocks.\<close>

definition kept :: "config \<Rightarrow> compact_block list \<Rightarrow> compact_block list" where
  "kept config bs =
     (if cf_redownload config then []
      else case cf_sync_from_height config of
        Some h \<Rightarrow> takeWhile (\<lambda>b. cb_height b < h) bs | None \<Rightarrow> bs)"

lemma connect_sleeps: "delay \<le> 30 \<Longrightarrow> s \<in> set (snd (connect_loop delay replies)) \<Longrightarrow> s \<le> 30"
proof (induction replies arbitrary: delay)
  case (Cons r replies)
  then show ?case
    using Cons.IH [of "min (delay * 2) 30"] by (auto simp: Let_def split_beta split: sum.splits)
qed simp

lemma connect_first:
  "fst (connect_loop delay replies) = find (\<lambda>_. True) (concat (map (\<lambda>r. case r of Inr i \<Rightarrow> [i] | Inl _ \<Rightarrow> []) replies)) \<and>
   length (snd (connect_loop delay replies)) = length (takeWhile (\<lambda>r. \<not> is_ok r) replies)"
  by (induction replies arbitrary: delay) (auto simp: Let_def split_beta split: sum.splits)

lemma bad_chain_name:
  assumes "c \<in> {CHR ''/'', CHR ''.'', CHR 0x5C, CHR 0x00}" and "c \<in> set chain"
  shows "validate_chain_name chain = Inl ''node returned an invalid chain name''"
proof -
  have "\<not> (is_ascii_alphanumeric c \<or> c = CHR ''_'' \<or> c = CHR ''-'')"
    using assms(1) by (auto simp: is_ascii_alphanumeric_def)
  then have "\<not> list_all (\<lambda>c. is_ascii_alphanumeric c \<or> c = CHR ''_'' \<or> c = CHR ''-'') chain"
    using assms(2) by (auto simp: list_all_iff)
  then show ?thesis by (simp add: validate_chain_name_def)
qed

lemma effective_start_max: "effective_start_height h base = max h (case base of None \<Rightarrow> 0 | Some b \<Rightarrow> b)"
  by (simp add: effective_start_height_def split: option.splits)

lemma startup_server:
  assumes "startup E X P env config node info stored_blocks stored_meta = Inr (d, Some s)"
  shows "\<exists>floor. s = server_of config (gbi_chain info) floor d"
proof -
  obtain db where db: "open_cache E env config stored_blocks stored_meta = Inr db"
    using assms by (auto simp: startup_def result_simps Let_def)
  obtain d' i where boot: "(if cf_snapshot_url config = None then (db, False)
      else bootstrap_from_snapshot E X env node db) = (d', i)" by fastforce
  show ?thesis
    using assms db boot by (auto simp: startup_def result_simps Let_def split: if_splits)
qed

context cache_contract
begin

lemma apply_levers_healthy:
  assumes "healthy E d bs" and "fault_free env"
  shows "\<exists>d'. apply_levers E env config d = Inr d' \<and> healthy E d' (kept config bs)"
proof -
  have "\<exists>d'. truncate_from E no_faults d h = Inr d' \<and> healthy E d' (takeWhile (\<lambda>b. cb_height b < h) bs)" for h
    using remove_from_total [OF assms(1), of h] healthy_remove [OF assms(1)] by (auto simp: truncate_from_def)
  then obtain cut where cut: "truncate_from E no_faults d h = Inr (cut h)"
    "healthy E (cut h) (takeWhile (\<lambda>b. cb_height b < h) bs)" for h by metis
  have "takeWhile (\<lambda>b. cb_height b < 0) bs = []" by (cases bs) simp_all
  then have "healthy E (cut 0) []" using cut(2) [of 0] by simp
  then show ?thesis
    using assms cut by (simp add: apply_levers_def kept_def fault_free_def split: option.splits)
qed

lemma open_cache_healthy:
  assumes "healthy E d bs" and "fault_free env" and "\<not> cf_nocache config"
  shows "\<exists>d'. open_cache E env config (Some (db_blocks d)) (Some (db_meta d)) = Inr d' \<and> healthy E d' (kept config bs)"
proof -
  have "cache_open E (su_open env) (Some (db_blocks d)) (Some (db_meta d)) = Inr d"
    using assms(2) by (simp add: cache_open_def fault_free_def)
  moreover have "repair_on_open E env d = Inr d"
    using validate_light_stores [of d bs] assms(1,2) by (simp add: repair_on_open_def fault_free_def healthy_def)
  ultimately show ?thesis
    using apply_levers_healthy [OF assms(1,2), of config] assms(3) by (simp add: open_cache_def)
qed

text \<open>The bootstrap, stopped or not, only adds blocks the node vouches for.\<close>

lemma bootstrap_healthy:
  assumes "healthy E d bs" and "\<forall>info. rpc_get_blockchain_info node = Inr info \<longrightarrow> gbi_blocks info < u64_max"
    and "bootstrap_from_snapshot E X env node d = (d', interrupted)"
  shows "\<exists>new. healthy E d' (bs @ new) \<and> (\<forall>b \<in> set new. \<exists>epoch. vouched X (ie_node (su_import env) epoch) b)"
proof -
  have "d' = d \<or> (\<exists>source. d' = fst (import_snapshot E X source node (su_import_tip env) (su_import env) d))"
    using assms(3) by (auto simp: bootstrap_from_snapshot_def split: sum.splits option.splits)
  then show ?thesis
  proof (elim disjE exE)
    assume "d' = d"
    then show ?thesis using assms(1) by (intro exI [of _ "[]"]) simp
  next
    fix source
    assume d': "d' = fst (import_snapshot E X source node (su_import_tip env) (su_import env) d)"
    obtain d1 r where "import_snapshot E X source node (su_import_tip env) (su_import env) d = (d1, r)"
      by (cases "import_snapshot E X source node (su_import_tip env) (su_import env) d")
    with d' import_snapshot_sound [OF assms(1,2) this] obtain new where "healthy E d' (bs @ new)"
      "\<forall>b \<in> set new. (\<exists>info. rpc_get_blockchain_info node = Inr info \<and> cb_height b \<le> gbi_blocks info) \<and>
         (\<exists>epoch. vouched X (ie_node (su_import env) epoch) b)"
      by (elim exE conjE) simp
    then show ?thesis by (intro exI [of _ new]) simp
  qed
qed

end


lemma known_chain_name:
  "local_sapling_activation P chain = Some activation \<Longrightarrow> validate_chain_name chain = Inr ()"
  by (auto simp: local_sapling_activation_def validate_chain_name_def is_ascii_alphanumeric_def split: if_splits)

text \<open>Startup over a healthy cache; only a stop signal during a bootstrap keeps it from serving.\<close>

lemma startup_ready:
  assumes "cache_contract E" and "healthy E d bs" and "fault_free env"
    and "local_sapling_activation P (gbi_chain info) = Some activation"
    and "\<forall>i. rpc_get_blockchain_info node = Inr i \<longrightarrow> gbi_blocks i < u64_max" and cached: "\<not> cf_nocache config"
  shows "\<exists>d' srv new. startup E X P env config node info (Some (db_blocks d)) (Some (db_meta d)) = Inr (d', srv) \<and>
    healthy E d' (kept config bs @ new) \<and>
    (\<forall>b \<in> set new. \<exists>epoch. vouched X (ie_node (su_import env) epoch) b) \<and> (cf_snapshot_url config = None \<longrightarrow> new = []) \<and>
    (srv = None \<longrightarrow> cf_snapshot_url config \<noteq> None \<and> su_stop env \<noteq> None) \<and>
    (\<forall>s. srv = Some s \<longrightarrow> srv_db s = d' \<and> (\<exists>base floor. snapshot_base_height E no_faults d' = Inr base \<and>
       floor = max (case cf_start_height config of Some h \<Rightarrow> h | None \<Rightarrow> activation) (case base of None \<Rightarrow> 0 | Some b \<Rightarrow> b) \<and>
       srv_ingestor s = Some (floor, cf_ingest config) \<and> sr_ingest_floor (srv_streamer s) = Some floor \<and>
       sr_repair (srv_streamer s)))"
proof -
  obtain d1 where opened: "open_cache E env config (Some (db_blocks d)) (Some (db_meta d)) = Inr d1"
    and ok1: "healthy E d1 (kept config bs)"
    using cache_contract.open_cache_healthy [OF assms(1-3) cached] by blast
  obtain d' interrupted where boot: "(if cf_snapshot_url config = None then (d1, False)
      else bootstrap_from_snapshot E X env node d1) = (d', interrupted)" by fastforce
  obtain new where ok: "healthy E d' (kept config bs @ new)"
    "\<forall>b \<in> set new. \<exists>epoch. vouched X (ie_node (su_import env) epoch) b" "cf_snapshot_url config = None \<longrightarrow> new = []"
  proof (cases "cf_snapshot_url config = None")
    case True
    then show ?thesis using that [of "[]"] boot ok1 by simp
  next
    case False
    then show ?thesis
      using that boot cache_contract.bootstrap_healthy [OF assms(1) ok1 assms(5), of X env d' interrupted] by auto
  qed
  obtain base where base: "snapshot_base_height E no_faults d' = Inr base"
    using ok(1) by (auto simp: healthy_def snapshot_base_get is_ok_def split: sum.splits)
  define floor where "floor = max (case cf_start_height config of Some h \<Rightarrow> h | None \<Rightarrow> activation)
    (case base of None \<Rightarrow> 0 | Some b \<Rightarrow> b)"
  have name: "validate_chain_name (gbi_chain info) = Inr ()" by (rule known_chain_name [OF assms(4)])
  have stop: "interrupted \<Longrightarrow> cf_snapshot_url config \<noteq> None \<and> su_stop env \<noteq> None"
    using boot by (auto simp: bootstrap_from_snapshot_def split: if_splits sum.splits option.splits)
  have "startup E X P env config node info (Some (db_blocks d)) (Some (db_meta d)) =
      Inr (d', if interrupted then None else Some (server_of config (gbi_chain info) floor d'))"
    using name opened boot base assms(3,4) cached
    by (simp add: startup_def default_start_height_def fault_free_def effective_start_max floor_def
        Let_def cong: option.case_cong)
  then show ?thesis
    using ok base cached stop
    by (intro exI [of _ d'] exI [of _ "if interrupted then None else _"] exI [of _ new])
      (auto simp: server_of_def build_streamer_def with_ingest_floor_def with_repair_signal_def floor_def Let_def)
qed


section \<open>Properties\<close>

text \<open>
  C37: startup hands on a sound cache and one floor. With no store failure, a healthy cache on disk comes out
  of startup healthy: its blocks below the height the operator asked to sync from (none under a redownload),
  then only blocks the operator's own node vouches for, also when a stop signal cuts the bootstrap short.
  The floor is the larger of the configured height, or else the compiled-in Sapling activation, and the base
  of an imported snapshot; the ingestor fills from exactly the floor below which the service refuses ranges.
  Without a cache neither exists. What activation heights the node reports changes nothing, and a chain name
  that could leave the data directory stops the startup.
\<close>

theorem startup_sound:
  assumes "cache_contract E" and "healthy E d bs" and "fault_free env"
    and "local_sapling_activation P (gbi_chain info) = Some activation"
    and "\<forall>i. rpc_get_blockchain_info node = Inr i \<longrightarrow> gbi_blocks i < u64_max"
    and "run = (\<lambda>i. startup E X P env config node i (Some (db_blocks d)) (Some (db_meta d)))"
  shows "(\<not> cf_nocache config \<longrightarrow> (\<exists>d' srv new. run info = Inr (d', srv) \<and> healthy E d' (kept config bs @ new) \<and>
       (\<forall>b \<in> set new. \<exists>epoch. vouched X (ie_node (su_import env) epoch) b) \<and> (cf_snapshot_url config = None \<longrightarrow> new = []) \<and>
       (\<forall>s. srv = Some s \<longrightarrow> srv_db s = d' \<and> (\<exists>base floor. snapshot_base_height E no_faults d' = Inr base \<and>
          floor = max (case cf_start_height config of Some h \<Rightarrow> h | None \<Rightarrow> activation) (case base of None \<Rightarrow> 0 | Some b \<Rightarrow> b) \<and>
          srv_ingestor s = Some (floor, cf_ingest config) \<and> sr_ingest_floor (srv_streamer s) = Some floor \<and>
          sr_repair (srv_streamer s))))) \<and>
    (\<forall>d' s. cf_nocache config \<longrightarrow> run info = Inr (d', Some s) \<longrightarrow>
       srv_ingestor s = None \<and> sr_ingest_floor (srv_streamer s) = None \<and> \<not> sr_repair (srv_streamer s)) \<and>
    run (info\<lparr>gbi_upgrades := reported\<rparr>) = run info \<and>
    (\<forall>c. c \<in> {CHR ''/'', CHR ''.'', CHR 0x5C, CHR 0x00} \<longrightarrow> c \<in> set chain \<longrightarrow>
      run (info\<lparr>gbi_chain := chain\<rparr>) = Inl (BadChainName ''node returned an invalid chain name''))"
proof (intro conjI allI impI)
  have "gbi_chain (info\<lparr>gbi_upgrades := reported\<rparr>) = gbi_chain info" by simp
  then show "run (info\<lparr>gbi_upgrades := reported\<rparr>) = run info"
    by (simp only: assms(6) startup_def default_start_height_def)
  show "run (info\<lparr>gbi_chain := chain\<rparr>) = Inl (BadChainName ''node returned an invalid chain name'')"
    if "c \<in> {CHR ''/'', CHR ''.'', CHR 0x5C, CHR 0x00}" "c \<in> set chain" for c
    using bad_chain_name [OF that] by (simp add: assms(6) startup_def)
  show "srv_ingestor s = None" "sr_ingest_floor (srv_streamer s) = None" "\<not> sr_repair (srv_streamer s)"
    if "cf_nocache config" "run info = Inr (d', Some s)" for d' s
    using that(1) startup_server [OF that(2) [unfolded assms(6)]]
    by (auto simp: server_of_def build_streamer_def streamer_new_def with_mempool_monitor_def with_ping_enabled_def
        with_donation_address_def)
  show "\<exists>d' srv new. run info = Inr (d', srv) \<and> healthy E d' (kept config bs @ new) \<and>
       (\<forall>b \<in> set new. \<exists>epoch. vouched X (ie_node (su_import env) epoch) b) \<and> (cf_snapshot_url config = None \<longrightarrow> new = []) \<and>
       (\<forall>s. srv = Some s \<longrightarrow> srv_db s = d' \<and> (\<exists>base floor. snapshot_base_height E no_faults d' = Inr base \<and>
          floor = max (case cf_start_height config of Some h \<Rightarrow> h | None \<Rightarrow> activation) (case base of None \<Rightarrow> 0 | Some b \<Rightarrow> b) \<and>
          srv_ingestor s = Some (floor, cf_ingest config) \<and> sr_ingest_floor (srv_streamer s) = Some floor \<and>
          sr_repair (srv_streamer s)))" if "\<not> cf_nocache config"
  proof -
    from startup_ready [OF assms(1-5) that, of X] show ?thesis unfolding assms(6) by (elim exE conjE) (intro exI conjI; assumption)
  qed
qed

text \<open>A bootstrap from the reference peer into an empty cache on mainnet, above a configured start height.\<close>

definition ref_startup_config :: config where
  "ref_startup_config = \<lparr>
     cf_grpc_bind = ''127.0.0.1:9067'', cf_node = \<lparr>nc_url = ''http://127.0.0.1:8232'', nc_user = '''', nc_password = ''''\<rparr>,
     cf_data_dir = ''data'', cf_start_height = Some 5, cf_sync_from_height = None, cf_redownload = False,
     cf_tls = TlsDisabled, cf_grpc_web = None, cf_metrics_bind = None, cf_snapshot = None,
     cf_snapshot_url = Some ''https://peer.example:9069'', cf_darkside = False, cf_darkside_timeout = 1800,
     cf_nocache = False, cf_ping_enable = False, cf_donation_address = None,
     cf_limits = \<lparr>sl_max_concurrent_streams = 256, sl_keepalive_interval = 60, sl_keepalive_timeout = 20\<rparr>,
     cf_ingest = \<lparr>window = 64, concurrency = 8\<rparr>, cf_client_node = \<lparr>cnl_concurrency = 8, cnl_scan_concurrency = 2\<rparr>,
     cf_backend = RpcBackend\<rparr>"

definition ref_startup_env :: "epoch_row \<Rightarrow> startup_env" where
  "ref_startup_env row = \<lparr>su_tempdir = Inr (), su_open = no_faults, su_validate = no_faults, su_scan = no_faults, su_reorg = no_faults,
     su_truncate = no_faults, su_source = Inr (ref_source row), su_import_tip = no_faults,
     su_import = ref_import_env, su_stop = None, su_base = no_faults\<rparr>"

definition ref_chain_info :: get_blockchain_info where
  "ref_chain_info = \<lparr>gbi_chain = ''main'', gbi_blocks = 10000, gbi_bestblockhash = '''', gbi_estimatedheight = 10000,
     gbi_consensus_chaintip = '''', gbi_upgrades = []\<rparr>"

theorem startup_sound_witness:
  "\<exists>row d' s new floor. ref_row = Some row \<and>
     startup ref_cache ref_parse \<lparr>main_sapling = Some 419200, test_sapling = Some 280000\<rparr> (ref_startup_env row)
       ref_startup_config ref_import_node ref_chain_info (Some (db_blocks ref_empty)) (Some (db_meta ref_empty)) =
       Inr (d', Some s) \<and>
     healthy ref_cache d' new \<and> (\<forall>b \<in> set new. vouched ref_parse ref_import_node b) \<and>
     srv_ingestor s = Some (floor, \<lparr>window = 64, concurrency = 8\<rparr>) \<and> sr_ingest_floor (srv_streamer s) = Some floor"
proof -
  obtain row where row: "ref_row = Some row" using ref_row_ok by (auto split: option.splits)
  let ?P = "\<lparr>main_sapling = Some 419200, test_sapling = Some 280000\<rparr>"
  have free: "fault_free (ref_startup_env row)" by (simp add: fault_free_def ref_startup_env_def)
  have act: "local_sapling_activation ?P (gbi_chain ref_chain_info) = Some 419200"
    by (simp add: local_sapling_activation_def ref_chain_info_def)
  have low: "\<forall>i. rpc_get_blockchain_info ref_import_node = Inr i \<longrightarrow> gbi_blocks i < u64_max"
    by (simp add: ref_import_node_def u64_max_def)
  have cached: "\<not> cf_nocache ref_startup_config" by (simp add: ref_startup_config_def)
  have sel: "ie_node (su_import (ref_startup_env row)) e = ref_import_node" "kept ref_startup_config [] = []"
    "cf_ingest ref_startup_config = \<lparr>window = 64, concurrency = 8\<rparr>" for e
    by (simp_all add: ref_startup_env_def ref_import_env_def kept_def ref_startup_config_def)
  note sound = startup_sound [OF rc.cache_contract_axioms ref_empty_healthy free act low refl,
      where X = ref_parse and config = ref_startup_config]
  from conjunct1 [OF sound, rule_format, OF cached] obtain d' srv new where
    run: "startup ref_cache ref_parse ?P (ref_startup_env row) ref_startup_config ref_import_node ref_chain_info
       (Some (db_blocks ref_empty)) (Some (db_meta ref_empty)) = Inr (d', srv)"
    and ok: "healthy ref_cache d' new" "\<forall>b \<in> set new. vouched ref_parse ref_import_node b"
    and srv: "\<forall>s. srv = Some s \<longrightarrow> (\<exists>floor. srv_ingestor s = Some (floor, \<lparr>window = 64, concurrency = 8\<rparr>) \<and>
       sr_ingest_floor (srv_streamer s) = Some floor)"
    unfolding sel append_Nil by blast
  have "srv \<noteq> None"
    using run
    by (auto simp: startup_def result_simps Let_def bootstrap_from_snapshot_def ref_startup_env_def
        ref_startup_config_def split: prod.splits)
  then show ?thesis using row run ok srv by blast
qed

end
