(* ===== verification/Config_Props.thy ===== *)
theory Config_Props
  imports Config
begin

text \<open>
  The properties of the configuration: what a resolved configuration guarantees to the components it is
  handed to, and how the node's credentials are read from zcash.conf.
\<close>

section \<open>Lines and trimming\<close>

lemma split_lines_line:
  "CHR 0x0A \<notin> set l \<Longrightarrow> split_lines acc (l @ CHR 0x0A # rest) = (acc @ l) # split_lines [] rest"
  by (induction l arbitrary: acc) auto

lemma split_lines_lines:
  "\<forall>l \<in> set ls. CHR 0x0A \<notin> set l \<Longrightarrow> split_lines [] (concat (map (\<lambda>l. l @ [CHR 0x0A]) ls)) = ls"
  by (induction ls) (simp_all add: split_lines_line)

lemma str_lines_lines:
  assumes "\<forall>l \<in> set ls. CHR 0x0A \<notin> set l"
  shows "str_lines (concat (map (\<lambda>l. l @ [CHR 0x0A]) ls)) = map strip_cr ls"
proof -
  have "last (concat (map (\<lambda>l. l @ [CHR 0x0A]) ls)) = CHR 0x0A" if "ls \<noteq> []"
    using that by (cases ls rule: rev_cases) simp_all
  then show ?thesis
    using split_lines_lines [OF assms] by (cases "ls = []") (simp_all add: str_lines_def)
qed

lemma trim_start_length: "length (trim_start ws s) \<le> length s"
proof (induction ws s rule: trim_start.induct)
  case (1 ws s)
  show ?case
  proof (cases "find (\<lambda>w. w \<noteq> [] \<and> take (length w) s = w) ws")
    case (Some w)
    then show ?thesis using 1 by (subst trim_start.simps) (auto intro: order_trans)
  qed (subst trim_start.simps, simp)
qed

lemma trim_start_id: "trim_start ws s = s \<longleftrightarrow> (\<forall>w \<in> set ws. w \<noteq> [] \<longrightarrow> take (length w) s \<noteq> w)"
proof (cases "find (\<lambda>w. w \<noteq> [] \<and> take (length w) s = w) ws")
  case None
  then have "trim_start ws s = s" by (subst trim_start.simps) simp
  then show ?thesis using None by (auto simp: find_None_iff)
next
  case (Some w)
  then obtain i where i: "i < length ws" "w = ws ! i" "w \<noteq> []" "take (length w) s = w"
    by (auto simp: find_Some_iff)
  have "length (trim_start ws (drop (length w) s)) < length s"
    using trim_start_length [of ws "drop (length w) s"] i(3,4) by (cases s; cases w) auto
  then have "trim_start ws s \<noteq> s" using Some by (subst trim_start.simps) auto
  moreover have "w \<in> set ws" using i(1,2) by simp
  ultimately show ?thesis using i(3,4) by blast
qed

lemma str_trim_id:
  "str_trim s = s \<longleftrightarrow> trim_start white_space s = s \<and> trim_start (map rev white_space) (rev s) = rev s"
proof
  assume t: "str_trim s = s"
  have "length (str_trim s) \<le> length (trim_start white_space s)"
    using trim_start_length [of "map rev white_space" "rev (trim_start white_space s)"] by (simp add: str_trim_def)
  then have len: "length (trim_start white_space s) = length s"
    using t trim_start_length [of white_space s] by simp
  have "trim_start white_space s = s"
  proof (rule ccontr)
    assume n: "trim_start white_space s \<noteq> s"
    then obtain w where w: "find (\<lambda>w. w \<noteq> [] \<and> take (length w) s = w) white_space = Some w"
      by (cases "find (\<lambda>w. w \<noteq> [] \<and> take (length w) s = w) white_space") (subst (asm) trim_start.simps, auto)
    have "trim_start white_space s = trim_start white_space (drop (length w) s)"
      using w by (subst trim_start.simps) simp
    then have "length (trim_start white_space s) \<le> length s - length w"
      using trim_start_length [of white_space "drop (length w) s"] by simp
    moreover have "0 < length w" "length w \<le> length s"
      using w by (auto simp: find_Some_iff) (metis length_take min.cobounded1)
    ultimately show False using len by linarith
  qed
  then show "trim_start white_space s = s \<and> trim_start (map rev white_space) (rev s) = rev s"
    using t by (metis rev_rev_ident str_trim_def)
qed (simp add: str_trim_def)

text \<open>An assignment is trimmed when its key starts with no white space and its value is trimmed.\<close>

lemma white_space_free:
  "list_all (\<lambda>w. CHR ''='' \<notin> set w \<and> w \<noteq> [] \<and> hd w \<noteq> CHR ''r'') white_space"
  "list_all (\<lambda>w. CHR 0x0D \<noteq> hd w \<or> w = [CHR 0x0D]) white_space" "[CHR 0x0D] \<in> set white_space"
  by code_simp+

lemma trim_assignment:
  assumes "str_trim v = v" and "k = CHR ''r'' # ks"
  shows "str_trim (k @ CHR ''='' # v) = k @ CHR ''='' # v"
proof -
  have "take (length w) (k @ CHR ''='' # v) \<noteq> w" if "w \<in> set white_space" "w \<noteq> []" for w
    using white_space_free(1) that assms(2) by (cases w) (auto simp: list_all_iff)
  then have front: "trim_start white_space (k @ CHR ''='' # v) = k @ CHR ''='' # v"
    by (simp add: trim_start_id)
  have "take (length w) (rev v @ CHR ''='' # rev k) \<noteq> w" if "w \<in> set (map rev white_space)" "w \<noteq> []" for w
  proof (cases "length w \<le> length v")
    case True
    then show ?thesis using assms(1) that by (auto simp: str_trim_id trim_start_id)
  next
    case False
    have "CHR ''='' \<notin> set w" using white_space_free(1) that(1) by (auto simp: list_all_iff)
    moreover have "CHR ''='' \<in> set (take (length w) (rev v @ CHR ''='' # rev k))"
      using False by (cases "length w - length v") auto
    ultimately show ?thesis by metis
  qed
  then have "trim_start (map rev white_space) (rev (k @ CHR ''='' # v)) = rev (k @ CHR ''='' # v)"
    by (simp add: trim_start_id)
  then show ?thesis using front by (simp add: str_trim_id)
qed

lemma trimmed_last: "str_trim v = v \<Longrightarrow> v \<noteq> [] \<Longrightarrow> last v \<noteq> CHR 0x0D"
proof
  assume v: "str_trim v = v" "v \<noteq> []" "last v = CHR 0x0D"
  have "[CHR 0x0D] \<in> set (map rev white_space)" using white_space_free(3) by force
  then have "take (length [CHR 0x0D]) (rev v) \<noteq> [CHR 0x0D]"
    using v(1) unfolding str_trim_id trim_start_id by blast
  then show False using v(2,3) by (cases v rule: rev_cases) simp_all
qed

lemma split_once_first: "sep \<notin> set a \<Longrightarrow> split_once sep (a @ sep # b) = Some (a, b)"
  by (induction a) auto


section \<open>A zcash.conf\<close>

definition conf_assignments :: "zcash_conf \<Rightarrow> (string \<times> string) list" where
  "conf_assignments c =
     (case zc_rpcuser c of Some v \<Rightarrow> [(''rpcuser'', v)] | None \<Rightarrow> []) @
     (case zc_rpcpassword c of Some v \<Rightarrow> [(''rpcpassword'', v)] | None \<Rightarrow> []) @
     (case zc_rpcbind c of Some v \<Rightarrow> [(''rpcbind'', v)] | None \<Rightarrow> []) @
     (case zc_rpcport c of Some p \<Rightarrow> [(''rpcport'', dec_string p)] | None \<Rightarrow> [])"

definition print_conf :: "zcash_conf \<Rightarrow> string" where
  "print_conf c = concat (map (\<lambda>l. l @ [CHR 0x0A]) (map (\<lambda>(k, v). k @ CHR ''='' # v) (conf_assignments c)))"

definition clean :: "string \<Rightarrow> bool" where
  "clean v \<longleftrightarrow> str_trim v = v \<and> CHR 0x0A \<notin> set v"

definition clean_conf :: "zcash_conf \<Rightarrow> bool" where
  "clean_conf c \<longleftrightarrow>
     (\<forall>v \<in> set_option (zc_rpcuser c) \<union> set_option (zc_rpcpassword c) \<union> set_option (zc_rpcbind c). clean v) \<and>
     (\<forall>p \<in> set_option (zc_rpcport c). p \<le> 65535)"

definition conf_keys :: "string list" where
  "conf_keys = [''rpcuser'', ''rpcpassword'', ''rpcbind'', ''rpcport'']"

lemma conf_keys_facts:
  "list_all (\<lambda>k. k \<noteq> [] \<and> hd k = CHR ''r'' \<and> CHR ''='' \<notin> set k \<and> CHR 0x0A \<notin> set k \<and> str_trim k = k) conf_keys"
  by code_simp

lemma clean_dec: "clean (dec_string n)"
proof -
  have digits: "\<forall>c \<in> set (dec_string n). 48 \<le> (of_char c :: nat) \<and> (of_char c :: nat) \<le> 57"
    using dec_string_chars by blast
  have ws: "list_all (\<lambda>w. w = [] \<or> \<not> (48 \<le> (of_char (hd w) :: nat) \<and> (of_char (hd w) :: nat) \<le> 57) \<and>
      \<not> (48 \<le> (of_char (last w) :: nat) \<and> (of_char (last w) :: nat) \<le> 57)) white_space" by code_simp
  have "take (length w) (dec_string n) \<noteq> w" "take (length w) (rev (dec_string n)) \<noteq> rev w"
    if "w \<in> set white_space" "w \<noteq> []" for w
  proof -
    have w: "hd w \<notin> set (dec_string n)" "last w \<notin> set (dec_string n)" using ws that digits by (auto simp: list_all_iff)
    show "take (length w) (dec_string n) \<noteq> w" using w(1) that(2) by (metis hd_in_set in_set_takeD)
    show "take (length w) (rev (dec_string n)) \<noteq> rev w"
      using w(2) that(2) by (metis hd_in_set hd_rev in_set_takeD rev_is_Nil_conv set_rev)
  qed
  then have "str_trim (dec_string n) = dec_string n" by (auto simp: str_trim_id trim_start_id)
  moreover have "CHR 0x0A \<notin> set (dec_string n)" using digits by auto
  ultimately show ?thesis by (simp add: clean_def)
qed

lemma assignments_clean:
  assumes "clean_conf c" and "(k, v) \<in> set (conf_assignments c)"
  shows "k \<in> set conf_keys" "clean v"
  using assms clean_dec
  by (auto simp: conf_assignments_def clean_conf_def conf_keys_def split: option.splits)

text \<open>One line of the file.\<close>

lemma assignment_line:
  assumes "k \<in> set conf_keys" and "clean v"
  shows "strip_cr (k @ CHR ''='' # v) = k @ CHR ''='' # v" "CHR 0x0A \<notin> set (k @ CHR ''='' # v)"
    "str_trim (k @ CHR ''='' # v) = k @ CHR ''='' # v"
    "split_once (CHR ''='') (k @ CHR ''='' # v) = Some (k, v)" "str_trim k = k" "hd (k @ CHR ''='' # v) = CHR ''r''"
proof -
  obtain ks where k: "k = CHR ''r'' # ks" "CHR ''='' \<notin> set k" "CHR 0x0A \<notin> set k" "str_trim k = k"
    using conf_keys_facts assms(1) by (cases k) (auto simp: list_all_iff)
  show "strip_cr (k @ CHR ''='' # v) = k @ CHR ''='' # v"
    using trimmed_last [of v] assms(2) by (auto simp: strip_cr_def clean_def)
  show "CHR 0x0A \<notin> set (k @ CHR ''='' # v)" using k(3) assms(2) by (simp add: clean_def)
  show "str_trim (k @ CHR ''='' # v) = k @ CHR ''='' # v"
    using trim_assignment [OF _ k(1)] assms(2) by (simp add: clean_def)
  show "split_once (CHR ''='') (k @ CHR ''='' # v) = Some (k, v)" using k(2) by (rule split_once_first)
  show "str_trim k = k" by (rule k(4))
  show "hd (k @ CHR ''='' # v) = CHR ''r''" using k(1) by simp
qed

lemma conf_line_assignment:
  assumes "k \<in> set conf_keys" and "clean v"
  shows "conf_line conf (k @ CHR ''='' # v) =
    (if k = ''rpcuser'' then conf\<lparr>zc_rpcuser := Some v\<rparr>
     else if k = ''rpcpassword'' then conf\<lparr>zc_rpcpassword := Some v\<rparr>
     else if k = ''rpcbind'' then conf\<lparr>zc_rpcbind := Some v\<rparr>
     else conf\<lparr>zc_rpcport := parse_u16 v\<rparr>)"
  using assignment_line [OF assms] assms by (auto simp: conf_line_def clean_def conf_keys_def Let_def)

lemma print_conf_lines:
  assumes "clean_conf c"
  shows "str_lines (print_conf c) = map (\<lambda>(k, v). k @ CHR ''='' # v) (conf_assignments c)"
proof -
  have line: "strip_cr l = l \<and> CHR 0x0A \<notin> set l"
    if "l \<in> set (map (\<lambda>(k, v). k @ CHR ''='' # v) (conf_assignments c))" for l
    using that assignments_clean [OF assms] assignment_line(1,2) by (clarsimp, metis)
  then show ?thesis
    unfolding print_conf_def by (subst str_lines_lines) (auto intro!: map_idI)
qed

lemma print_conf_parses:
  assumes "clean_conf c" and "path_extension path \<noteq> Some ''toml''" and "read_to_string W path = Inr (print_conf c)"
  shows "parse_zcash_conf W path = Inr c"
proof -
  let ?ls = "map (\<lambda>(k, v). k @ CHR ''='' # v) (conf_assignments c)"
  have "\<not> looks_like_toml (print_conf c)"
    using assignments_clean [OF assms(1)] assignment_line(3)
    by (auto simp: looks_like_toml_def print_conf_lines [OF assms(1)] list_ex_iff Let_def)
  moreover have "foldl conf_line default_conf ?ls =
      foldl (\<lambda>conf (k, v).
        if k = ''rpcuser'' then conf\<lparr>zc_rpcuser := Some v\<rparr>
        else if k = ''rpcpassword'' then conf\<lparr>zc_rpcpassword := Some v\<rparr>
        else if k = ''rpcbind'' then conf\<lparr>zc_rpcbind := Some v\<rparr>
        else conf\<lparr>zc_rpcport := parse_u16 v\<rparr>) default_conf (conf_assignments c)"
    unfolding foldl_map
    using assignments_clean [OF assms(1)] conf_line_assignment by (intro foldl_cong) auto
  moreover have "\<dots> = c"
    using assms(1)
    by (cases c) (auto simp: conf_assignments_def default_conf_def clean_conf_def parse_u16_dec split: option.splits)
  ultimately show ?thesis
    using assms by (simp add: parse_zcash_conf_def print_conf_lines)
qed


section \<open>A reference command line\<close>

text \<open>
  A server that publishes its cache and bootstraps from a peer, with one allowed origin and a zcash.conf;
  the world parses the two URLs it is given and reads the one file.
\<close>

definition ref_conf :: zcash_conf where
  "ref_conf = \<lparr>zc_rpcuser = Some ''alice'', zc_rpcpassword = Some ''s3cret'', zc_rpcbind = None, zc_rpcport = Some 18232\<rparr>"

definition ref_world :: config_world where
  "ref_world = \<lparr>
     url_parse = (\<lambda>u. if u = ''https://peer.example:9069'' \<or> u = ''https://wallet.example''
                      then Inr \<lparr>pu_scheme = ''https'', pu_origin = u, pu_is_tuple = True\<rparr>
                      else Inl ''relative URL without a base''),
     self_signed = (\<lambda>_. Inl []),
     ua_decode = (\<lambda>_. Inl []),
     read_to_string = (\<lambda>path. if path = ''/etc/zcash.conf'' then Inr (print_conf ref_conf) else Inl ''No such file'')\<rparr>"

definition ref_cli :: cli where
  "ref_cli = \<lparr>cli_grpc_bind = ''127.0.0.1:9067'', cli_rpc_url = None, cli_rpc_host = None, cli_rpc_port = None,
     cli_rpc_user = None, cli_rpc_password = Some (redacted_from_str ''flag''), cli_zcash_conf = Some ''/etc/zcash.conf'',
     cli_data_dir = ''./data'', cli_start_height = None, cli_sync_from_height = None, cli_redownload = False,
     cli_tls_cert = Some ''cert.pem'', cli_tls_key = Some ''key.pem'', cli_no_tls = False, cli_gen_cert = False,
     cli_grpc_web = True, cli_grpc_web_allow_origin = [''https://wallet.example''],
     cli_metrics_bind = ''127.0.0.1:9068'', cli_no_metrics = False, cli_snapshot_serve = True, cli_snapshot_bind = None,
     cli_snapshot_max_concurrent_downloads = 4, cli_snapshot_compression_level = 3,
     cli_snapshot_url = Some ''https://peer.example:9069'', cli_darkside = False, cli_darkside_timeout_minutes = 30,
     cli_nocache = False, cli_ping_enable = False, cli_donation_address = None, cli_max_concurrent_streams = 256,
     cli_keepalive_interval_secs = 60, cli_keepalive_timeout_secs = 20, cli_ingest_window = 64,
     cli_ingest_concurrency = 8, cli_client_node_concurrency = 8, cli_client_scan_concurrency = 2,
     cli_log_level = ''info'', cli_log_file = None, cli_backend = Rpc, cli_zebra_state_dir = None,
     cli_zebra_indexer_url = None\<rparr>"

lemma ref_cli_parts:
  "bindE (cli_resolve ref_world ref_cli)
     (\<lambda>cf. Inr (cf_tls cf, cf_backend cf, cf_redownload cf, cf_sync_from_height cf, cf_snapshot cf \<noteq> None)) =
   Inr (TlsEnabled ''cert.pem'' ''key.pem'', RpcBackend, False, None, True)"
  by code_simp

lemma ref_cli_resolves: "is_ok (cli_resolve ref_world ref_cli)"
  using ref_cli_parts by (auto simp: result_simps is_ok_def)

lemma ref_conf_facts:
  "clean_conf ref_conf" "path_extension ''/etc/zcash.conf'' \<noteq> Some ''toml''"
proof -
  have "str_trim ''alice'' = ''alice''" "str_trim ''s3cret'' = ''s3cret''" by code_simp+
  then show "clean_conf ref_conf" by (simp add: clean_conf_def clean_def ref_conf_def)
  show "path_extension ''/etc/zcash.conf'' \<noteq> Some ''toml''" by code_simp
qed


section \<open>Properties\<close>

text \<open>What each part of a resolved configuration was checked for.\<close>

lemma cli_resolve_parts:
  assumes "cli_resolve W cli = Inr cf"
  shows "\<exists>snapshot grpc_web conf tls backend.
    resolve_snapshot cli = Inr snapshot \<and> resolve_grpc_web W cli = Inr grpc_web \<and> check_snapshot_url W cli = Inr () \<and>
    resolve_tls W cli = Inr tls \<and> check_limits W cli = Inr () \<and> resolve_backend cli = Inr backend \<and>
    cf = config_of cli conf snapshot grpc_web tls backend"
  using assms by (auto simp: cli_resolve_def result_simps)

lemma check_limits_ok:
  assumes "check_limits W cli = Inr ()"
  shows "cli_max_concurrent_streams cli \<noteq> 0" "cli_keepalive_interval_secs cli \<noteq> 0" "cli_keepalive_timeout_secs cli \<noteq> 0"
    "cli_ingest_window cli \<noteq> 0" "cli_ingest_concurrency cli \<noteq> 0" "cli_client_node_concurrency cli \<noteq> 0"
    "cli_client_scan_concurrency cli \<noteq> 0"
    "\<forall>a. cli_donation_address cli = Some a \<longrightarrow> ua_decode W a = Inr ()"
  using assms by (auto simp: check_limits_def result_simps split: option.splits)

lemma resolve_grpc_web_ok:
  assumes "resolve_grpc_web W cli = Inr grpc_web"
  shows "grpc_web = (if \<not> cli_grpc_web cli then None
      else if cli_grpc_web_allow_origin cli = [] then Some AnyOrigin
      else Some (OnlyOrigins (cli_grpc_web_allow_origin cli))) \<and>
    (\<forall>x \<in> set (cli_grpc_web_allow_origin cli). \<exists>u. url_parse W x = Inr u \<and> pu_is_tuple u \<and> pu_origin u = x)"
proof -
  have one: "validate_origin W x = Inr y \<Longrightarrow> y = x \<and> (\<exists>u. url_parse W x = Inr u \<and> pu_is_tuple u \<and> pu_origin u = x)" for x y
    by (auto simp: validate_origin_def result_simps Let_def)
  have all: "origins = xs \<and> (\<forall>x \<in> set xs. \<exists>u. url_parse W x = Inr u \<and> pu_is_tuple u \<and> pu_origin u = x)"
    if "mapE (validate_origin W) xs = Inr origins" for xs origins
    using that one by (induction xs arbitrary: origins) (fastforce simp: result_simps)+
  show ?thesis
  proof (cases "cli_grpc_web cli \<and> cli_grpc_web_allow_origin cli \<noteq> []")
    case True
    then obtain origins where "mapE (validate_origin W) (cli_grpc_web_allow_origin cli) = Inr origins"
      "grpc_web = Some (OnlyOrigins origins)"
      using assms by (auto simp: resolve_grpc_web_def result_simps)
    then show ?thesis using all True by simp
  next
    case False
    then show ?thesis using assms by (auto simp: resolve_grpc_web_def split: if_splits list.splits)
  qed
qed

text \<open>
  C38: what a resolved configuration promises. When the command line resolves, every bound the server is
  built with is positive, so the bulkhead's pools are exactly as large as configured; a cache is published
  or bootstrapped only with an on-disk cache of a real chain, from a peer reached over http or https, with a
  compression level that exists; plaintext is served exactly when it was asked for; every allowed browser
  origin is byte for byte one a browser sends; a read-state backend never runs in darkside mode; and an
  advertised donation address decodes.
\<close>

theorem resolve_sound:
  assumes "cli_resolve W cli = Inr cf"
  shows "0 < window (cf_ingest cf) \<and> 0 < concurrency (cf_ingest cf) \<and>
    bulkhead_new (cf_client_node cf) = (cli_client_scan_concurrency cli, cli_client_node_concurrency cli) \<and>
    0 < sl_max_concurrent_streams (cf_limits cf) \<and>
    0 < sl_keepalive_interval (cf_limits cf) \<and> 0 < sl_keepalive_timeout (cf_limits cf) \<and>
    (\<forall>s. cf_snapshot cf = Some s \<longrightarrow> 0 < ss_max_concurrent_downloads s \<and>
       ss_compression_level s \<in> {0..22} \<and> \<not> cf_nocache cf \<and> \<not> cf_darkside cf) \<and>
    (\<forall>url. cf_snapshot_url cf = Some url \<longrightarrow> \<not> cf_nocache cf \<and> \<not> cf_darkside cf \<and>
       (\<exists>u. url_parse W url = Inr u \<and> pu_scheme u \<in> {''http'', ''https''})) \<and>
    (\<forall>origins. cf_grpc_web cf = Some (OnlyOrigins origins) \<longrightarrow> origins \<noteq> [] \<and>
       (\<forall>origin \<in> set origins. \<exists>u. url_parse W origin = Inr u \<and> pu_is_tuple u \<and> pu_origin u = origin)) \<and>
    (cf_tls cf = TlsDisabled \<longleftrightarrow> cli_no_tls cli) \<and>
    (\<forall>dir url. cf_backend cf = ReadstateBackend dir url \<longrightarrow> \<not> cf_darkside cf) \<and>
    (\<forall>a. cf_donation_address cf = Some a \<longrightarrow> ua_decode W a = Inr ())"
proof -
  from cli_resolve_parts [OF assms] obtain snapshot grpc_web conf tls backend where
    parts: "resolve_snapshot cli = Inr snapshot" "resolve_grpc_web W cli = Inr grpc_web"
      "check_snapshot_url W cli = Inr ()" "resolve_tls W cli = Inr tls" "check_limits W cli = Inr ()"
      "resolve_backend cli = Inr backend"
    and cf: "cf = config_of cli conf snapshot grpc_web tls backend" by blast
  note limits = check_limits_ok [OF parts(5)]
  have published: "\<forall>s. snapshot = Some s \<longrightarrow> 0 < ss_max_concurrent_downloads s \<and>
       ss_compression_level s \<in> {0..22} \<and> \<not> cli_nocache cli \<and> \<not> cli_darkside cli"
    using parts(1) by (auto simp: resolve_snapshot_def MAX_COMPRESSION_LEVEL_def result_simps split: if_splits option.splits)
  have url: "\<forall>url. cli_snapshot_url cli = Some url \<longrightarrow> \<not> cli_nocache cli \<and> \<not> cli_darkside cli \<and>
       (\<exists>u. url_parse W url = Inr u \<and> pu_scheme u \<in> {''http'', ''https''})"
    using parts(3) by (auto simp: check_snapshot_url_def validate_snapshot_url_def result_simps split: option.splits)
  have origins: "\<forall>origins. grpc_web = Some (OnlyOrigins origins) \<longrightarrow> origins \<noteq> [] \<and>
       (\<forall>x \<in> set origins. \<exists>u. url_parse W x = Inr u \<and> pu_is_tuple u \<and> pu_origin u = x)"
    using resolve_grpc_web_ok [OF parts(2)] by (auto split: if_splits)
  have tls: "tls = TlsDisabled \<longleftrightarrow> cli_no_tls cli"
    using parts(4) by (auto simp: resolve_tls_def result_simps split: if_splits)
  have backend: "\<forall>dir url. backend = ReadstateBackend dir url \<longrightarrow> \<not> cli_darkside cli"
    using parts(6) by (auto simp: resolve_backend_def result_simps split: backend.splits)
  show ?thesis
    using limits published url origins tls backend
    by (simp add: cf config_of_def bulkhead_new_def)
qed

theorem resolve_sound_witness:
  "\<exists>cf s. cli_resolve ref_world ref_cli = Inr cf \<and> cf_snapshot cf = Some s \<and> 0 < ss_max_concurrent_downloads s \<and>
     bulkhead_new (cf_client_node cf) = (2, 8) \<and> cf_tls cf \<noteq> TlsDisabled"
proof -
  obtain cf where cf: "cli_resolve ref_world ref_cli = Inr cf" using ref_cli_resolves by (auto simp: is_ok_def split: sum.splits)
  obtain s where "cf_snapshot cf = Some s" using ref_cli_parts cf by auto
  then show ?thesis using resolve_sound [OF cf] cf by (auto simp: ref_cli_def)
qed

text \<open>
  C39: the node's credentials. A zcash.conf written as key and value lines (values free of line feeds and of
  surrounding white space) reads back as it was written, and in a configuration resolved with it a flag
  always wins over the file, which wins over the default; the debug text of the result does not depend on
  the password.
\<close>

theorem node_credentials:
  assumes "clean_conf c" and "path_extension path \<noteq> Some ''toml''" and "read_to_string W path = Inr (print_conf c)"
    and "cli_zcash_conf cli = Some path" and "cli_resolve W cli = Inr cf"
  shows "parse_zcash_conf W path = Inr c \<and>
    nc_user (cf_node cf) = (case cli_rpc_user cli of
        Some (RedactedString u) \<Rightarrow> u
      | None \<Rightarrow> (case zc_rpcuser c of Some u \<Rightarrow> u | None \<Rightarrow> [])) \<and>
    nc_password (cf_node cf) = (case cli_rpc_password cli of
        Some (RedactedString p) \<Rightarrow> p
      | None \<Rightarrow> (case zc_rpcpassword c of Some p \<Rightarrow> p | None \<Rightarrow> [])) \<and>
    (cli_rpc_url cli = None \<longrightarrow> nc_url (cf_node cf) =
       ''http://'' @
       (case cli_rpc_host cli of Some h \<Rightarrow> h | None \<Rightarrow> (case zc_rpcbind c of Some h \<Rightarrow> h | None \<Rightarrow> ''127.0.0.1'')) @ '':'' @
       dec_string (case cli_rpc_port cli of Some p \<Rightarrow> p | None \<Rightarrow> (case zc_rpcport c of Some p \<Rightarrow> p | None \<Rightarrow> 8232))) \<and>
    (\<forall>url. cli_rpc_url cli = Some url \<longrightarrow> nc_url (cf_node cf) = url) \<and>
    node_debug ((cf_node cf)\<lparr>nc_password := secret\<rparr>) = node_debug (cf_node cf)"
proof -
  note parsed = print_conf_parses [OF assms(1-3)]
  obtain snapshot grpc_web tls backend where cf: "cf = config_of cli c snapshot grpc_web tls backend"
    using assms(4,5) parsed by (auto simp: cli_resolve_def result_simps)
  have secret: "resolve_secret flag v = (case flag of Some (RedactedString u) \<Rightarrow> u | None \<Rightarrow> (case v of Some u \<Rightarrow> u | None \<Rightarrow> []))"
    for flag v by (auto simp: resolve_secret_def split: option.splits redacted_string.splits)
  show ?thesis
    by (simp add: parsed cf config_of_def secret resolve_url_def node_debug_def)
qed

theorem node_credentials_witness:
  "\<exists>cf. cli_resolve ref_world ref_cli = Inr cf \<and> nc_user (cf_node cf) = ''alice'' \<and> nc_password (cf_node cf) = ''flag'' \<and>
     nc_url (cf_node cf) = ''http://127.0.0.1:18232''"
proof -
  obtain cf where cf: "cli_resolve ref_world ref_cli = Inr cf" using ref_cli_resolves by (auto simp: is_ok_def split: sum.splits)
  have read: "read_to_string ref_world ''/etc/zcash.conf'' = Inr (print_conf ref_conf)" by (simp add: ref_world_def)
  have port: "dec_string 18232 = ''18232''" by code_simp
  from node_credentials [OF ref_conf_facts read _ cf] show ?thesis
    using cf port by (simp add: ref_cli_def ref_conf_def redacted_from_str_def)
qed

end
