(* ===== verification/Blocks_Complete.thy ===== *)
theory Blocks_Complete
  imports Blocks_Props Ingestor_Sync
begin

text \<open>
  The converse of the soundness of a range stream: when the cache and the node agree on one chain and
  nothing fails, a range is served completely.
\<close>

section \<open>Serving from one chain\<close>

text \<open>
  Every chunk is read without a fault from a cache whose blocks within the heights are those of the chain,
  the node serves the chain's block at each height the cache does not hold, and consecutive blocks are
  linked.
\<close>

definition agrees_with ::
    "('b, 'm) cache_ext \<Rightarrow> 'x parse_ext_scheme \<Rightarrow> ('b, 'm) range_env \<Rightarrow> (u64 \<Rightarrow> compact_block) \<Rightarrow> u64 set \<Rightarrow> bool" where
  "agrees_with E X env C H \<longleftrightarrow>
     (\<forall>k. fst (re_view env k) = no_faults \<and>
        (\<exists>cached. stores E (db_blocks (snd (re_view env k))) cached \<and>
           (\<forall>b \<in> set cached. cb_height b \<in> H \<longrightarrow> b = C (cb_height b)) \<and>
           (\<forall>h \<in> H. (\<exists>b \<in> set cached. cb_height b = h) \<or>
              compact_block_fetch X (re_task env h) (re_node env h) h = Inr (C h)))) \<and>
     (\<forall>h. h \<in> H \<longrightarrow> Suc h \<in> H \<longrightarrow> links (C h) (C (Suc h)))"

text \<open>The link a stream carries after a block of the chain, when the heights to come continue it.\<close>

definition carried :: "bool \<Rightarrow> (u64 \<Rightarrow> compact_block) \<Rightarrow> u64 list \<Rightarrow> chain_link option \<Rightarrow> bool" where
  "carried descending C hs link \<longleftrightarrow>
     (case link of
        None \<Rightarrow> True
      | Some l \<Rightarrow> \<exists>h source. l = link_after h (C h) descending source \<and>
          (hs \<noteq> [] \<longrightarrow> dir_link descending (C h) (C (hd hs))))"

lemma dir_chain_append:
  "dir_chain descending (xs @ ys) \<longleftrightarrow> dir_chain descending xs \<and> dir_chain descending ys \<and>
     (xs \<noteq> [] \<and> ys \<noteq> [] \<longrightarrow> dir_link descending (last xs) (hd ys))"
  by (induction xs rule: induct_list012) (cases ys; auto)+

lemma serve_heights_complete:
  assumes "\<forall>h \<in> set hs. cached h = None \<longrightarrow> compact_block_fetch X (re_task env h) (re_node env h) h = Inr (C h)"
    and "\<forall>h \<in> set hs. \<forall>stored. cached h = Some stored \<longrightarrow> block_decode E stored = Inr (C h)"
    and "dir_chain descending (map C hs)" and "carried descending C hs link"
  shows "\<exists>link'. foldE (serve_height E X env repair transform descending cached) hs (out, link) =
      Inr (out @ map (\<lambda>h. transform (C h)) hs, link') \<and>
    (if hs = [] then link' = link else \<exists>source. link' = Some (link_after (last hs) (C (last hs)) descending source))"
  using assms
proof (induction hs arbitrary: out link)
  case (Cons h hs)
  have check: "link_check l (C h) h descending source repair = Inr ()" if "link = Some l" for l source
    using Cons.prems(4) that by (auto simp: carried_def link_check_ok)
  obtain source where one: "serve_height E X env repair transform descending cached h (out, link) =
      Inr (out @ [transform (C h)], Some (link_after h (C h) descending source))"
    using Cons.prems(1,2) check
    by (cases "cached h"; cases link) (auto simp: serve_height_def)
  have rest: "dir_chain descending (map C hs)" "hs \<noteq> [] \<longrightarrow> dir_link descending (C h) (C (hd hs))"
    using Cons.prems(3) by (cases hs; simp)+
  have "carried descending C hs (Some (link_after h (C h) descending source))"
    using rest(2) by (auto simp: carried_def)
  from Cons.IH [OF _ _ rest(1) this, of "out @ [transform (C h)]"] Cons.prems(1,2) obtain link' where
    "foldE (serve_height E X env repair transform descending cached) hs
       (out @ [transform (C h)], Some (link_after h (C h) descending source)) =
       Inr ((out @ [transform (C h)]) @ map (\<lambda>h. transform (C h)) hs, link')"
    "if hs = [] then link' = Some (link_after h (C h) descending source)
     else \<exists>source. link' = Some (link_after (last hs) (C (last hs)) descending source)"
    by auto
  then show ?case using one by (auto split: if_splits)
qed simp

text \<open>What a run yields before it ends, from what was yielded and what was left: all of it, or less.\<close>

definition yields :: "(range_failure, range_state) result \<Rightarrow> nat \<Rightarrow> nat \<Rightarrow> bool" where
  "yields r before left \<longleftrightarrow>
     (case r of Inr (out, _) \<Rightarrow> length out = before + left | Inl (out, _, _) \<Rightarrow> length out < before + left)"

lemma serve_heights_yield:
  "yields (foldE (serve_height E X env repair transform descending cached) hs st) (length (fst st)) (length hs)"
proof (induction hs arbitrary: st)
  case Nil
  then show ?case by (cases st) (simp add: yields_def)
next
  case (Cons h hs)
  obtain out link where st: "st = (out, link)" by (cases st)
  show ?case
  proof (cases "serve_height E X env repair transform descending cached h st")
    case (Inl failure)
    then have "fst failure = out" by (auto simp: serve_height_def st result_simps split: option.splits)
    then show ?thesis using Inl st by (cases failure) (simp add: yields_def)
  next
    case (Inr st')
    then have "length (fst st') = Suc (length out)" by (auto simp: serve_height_def st result_simps)
    then show ?thesis using Cons.IH [of st'] Inr st by (simp add: yields_def split: sum.splits prod.splits)
  qed
qed

lemma chunk_loop_total: "\<exists>r. chunk_loop no_faults max_bytes es blocks held = Inr r"
  by (induction es arbitrary: blocks held) auto

lemma read_chunk_total: "\<exists>c. read_chunk E no_faults db lo hi descending max_bytes = Inr c"
  using chunk_loop_total [of max_bytes _ "[]" 0]
  by (fastforce simp: read_chunk_def Let_def result_simps)

lemma heights_dir_chain:
  assumes "heights = (if start \<le> finish then [start..<Suc finish] else rev [finish..<Suc start])"
    and "\<forall>h. h \<in> set heights \<longrightarrow> Suc h \<in> set heights \<longrightarrow> links (C h) (C (Suc h))"
  shows "dir_chain (finish < start) (map C heights)"
proof -
  have up: "dir_chain False (map C [i..<j])" if "\<forall>h. i \<le> h \<longrightarrow> Suc h < j \<longrightarrow> links (C h) (C (Suc h))" for i j
    using that
  proof (induction j)
    case (Suc j)
    then show ?case by (cases j) (auto simp: dir_chain_snoc dir_link_def last_map)
  qed simp
  have down: "dir_chain True (map C (rev [i..<j]))" if "\<forall>h. i \<le> h \<longrightarrow> Suc h < j \<longrightarrow> links (C h) (C (Suc h))" for i j
    using that
  proof (induction j)
    case (Suc j)
    have "dir_chain True (C j # map C (rev [i..<j]))" if "i \<le> j"
    proof (cases "i < j")
      case True
      then obtain k where k: "j = Suc k" "i \<le> k" by (cases j) auto
      then show ?thesis using Suc by (auto simp: dir_link_def)
    qed (use that in simp)
    then show ?case by auto
  qed simp
  show ?thesis using assms up [of start "Suc finish"] down [of finish "Suc start"] by (auto simp del: upt_Suc)
qed

context cache_contract
begin

lemma chunk_agrees:
  assumes "stores E (db_blocks (snd (re_view env k))) cached" and "\<forall>b \<in> set cached. cb_height b \<in> H \<longrightarrow> b = C (cb_height b)"
    and "read_chunk E flt (snd (re_view env k)) lo hi descending max_bytes = Inr c" and "lo \<le> hi" and "hi \<le> u64_max"
    and "map_of (chunk_blocks c) h = Some stored" and "h \<in> H"
  shows "block_decode E stored = Inr (C h)"
proof -
  have "chunk_blocks c =
      (let es = tbl_range (blocks_ops E) (db_blocks (snd (re_view env k))) (fst (covered c)) (snd (covered c)) in
       if descending then rev es else es)"
    using read_chunk_covers [OF assms(3-5)] by blast
  then have entry: "(h, stored) \<in> set (tbl_iter (blocks_ops E) (db_blocks (snd (re_view env k))))"
    using map_of_SomeD [OF assms(6)] by (auto simp: Let_def blk.range_iter split: if_splits)
  have "\<exists>b \<in> set cached. block_decode E stored = Inr b \<and> cb_height b = h"
    using list_all2_partner [OF _ entry] assms(1) by (fastforce simp: stores_def decodes_to_def)
  then show ?thesis using assms(2,7) by auto
qed

lemma chunk_holds:
  assumes "stores E (db_blocks (snd (re_view env k))) cached" and "b \<in> set cached"
    and "read_chunk E flt (snd (re_view env k)) lo hi descending max_bytes = Inr c" and "lo \<le> hi" and "hi \<le> u64_max"
    and "fst (covered c) \<le> cb_height b" and "cb_height b \<le> snd (covered c)"
  shows "map_of (chunk_blocks c) (cb_height b) \<noteq> None"
proof -
  have "chunk_blocks c =
      (let es = tbl_range (blocks_ops E) (db_blocks (snd (re_view env k))) (fst (covered c)) (snd (covered c)) in
       if descending then rev es else es)"
    using read_chunk_covers [OF assms(3-5)] by blast
  moreover have "list_all2 (\<lambda>b e. decodes_to E e b) cached (tbl_iter (blocks_ops E) (db_blocks (snd (re_view env k))))"
    using assms(1) by (auto simp: stores_def list_all2_conv_all_nth)
  from list_all2_partner [OF this assms(2)] obtain e where
    "e \<in> set (tbl_iter (blocks_ops E) (db_blocks (snd (re_view env k))))" "fst e = cb_height b"
    by (auto simp: decodes_to_def)
  ultimately have "e \<in> set (chunk_blocks c)" "fst e = cb_height b"
    using assms(6,7) by (auto simp: Let_def blk.range_iter split: if_splits)
  then show ?thesis by (auto simp: map_of_eq_None_iff image_iff intro!: bexI [of _ e])
qed

text \<open>A chunk of heights on the chain is served completely, with a link that the chain continues.\<close>

lemma chunk_complete:
  assumes "agrees_with E X env C H" and "chunk_at env descending k c hs" and "set (hs @ rest) \<subseteq> H"
    and "dir_chain descending (map C (hs @ rest))" and "carried descending C (hs @ rest) (snd st)"
  shows "\<exists>link. foldE (serve_height E X env repair transform descending (map_of (chunk_blocks c))) hs st =
      Inr (fst st @ map (\<lambda>h. transform (C h)) hs, link) \<and> carried descending C rest link"
proof -
  from assms(1) obtain cached where view: "stores E (db_blocks (snd (re_view env k))) cached"
    "\<forall>b \<in> set cached. cb_height b \<in> H \<longrightarrow> b = C (cb_height b)"
    "\<forall>h \<in> H. (\<exists>b \<in> set cached. cb_height b = h) \<or> compact_block_fetch X (re_task env h) (re_node env h) h = Inr (C h)"
    unfolding agrees_with_def by blast
  from assms(2) obtain lo hi where w: "lo \<le> hi" "hi \<le> u64_max"
    and rd: "read_chunk E (fst (re_view env k)) (snd (re_view env k)) lo hi descending CACHE_READ_CHUNK_BYTES = Inr c"
    and reach: "set hs = {fst (covered c)..snd (covered c)}"
    unfolding chunk_at_def by blast
  have "fst (covered c) \<le> snd (covered c)" using read_chunk_covers [OF rd w] by (elim conjE)
  then have hs: "hs \<noteq> []" using reach by (cases hs) auto
  have sub: "set hs \<subseteq> H" using assms(3) by simp
  have served: "\<forall>h \<in> set hs. map_of (chunk_blocks c) h = None \<longrightarrow>
      compact_block_fetch X (re_task env h) (re_node env h) h = Inr (C h)"
  proof (intro ballI impI)
    fix h assume h: "h \<in> set hs" and none: "map_of (chunk_blocks c) h = None"
    have "\<not> (\<exists>b \<in> set cached. cb_height b = h)"
      using h none reach by (auto dest: chunk_holds [OF view(1) _ rd w])
    then show "compact_block_fetch X (re_task env h) (re_node env h) h = Inr (C h)"
      using view(3) sub h by blast
  qed
  have decoded: "\<forall>h \<in> set hs. \<forall>stored. map_of (chunk_blocks c) h = Some stored \<longrightarrow> block_decode E stored = Inr (C h)"
    using sub chunk_agrees [OF view(1,2) rd w] by blast
  have chain: "dir_chain descending (map C hs)" "carried descending C hs (snd st)"
    "rest \<noteq> [] \<longrightarrow> dir_link descending (C (last hs)) (C (hd rest))"
    using assms(4,5) hs by (auto simp: dir_chain_append carried_def last_map hd_map split: option.splits)
  from serve_heights_complete [OF served decoded chain(1,2), of repair transform "fst st"] hs obtain source where
    "foldE (serve_height E X env repair transform descending (map_of (chunk_blocks c))) hs st =
      Inr (fst st @ map (\<lambda>h. transform (C h)) hs, Some (link_after (last hs) (C (last hs)) descending source))" by auto
  moreover have "carried descending C rest (Some (link_after (last hs) (C (last hs)) descending source))"
    using chain(3) by (auto simp: carried_def)
  ultimately show ?thesis by blast
qed

lemma block_range_stream_complete:
  assumes "start \<le> u64_max" and "finish \<le> u64_max"
    and "heights = (if start \<le> finish then [start..<Suc finish] else rev [finish..<Suc start])"
    and "agrees_with E X env C (set heights)"
  shows "block_range_stream E X encoded_len env repair start finish transform =
    Some \<lparr>rs_items = map (\<lambda>h. Inr (transform (C h))) heights, rs_report = None\<rparr>"
proof -
  let ?down = "finish < start" and ?H = "set heights"
  define Q where "Q hs st r \<longleftrightarrow>
      (set hs \<subseteq> ?H \<and> dir_chain ?down (map C hs) \<and> carried ?down C hs (snd st) \<longrightarrow>
        (\<exists>link. r = Inr (fst st @ map (\<lambda>h. transform (C h)) hs, link)))"
    for hs st and r :: "(range_failure, range_state) result"
  have got: "\<exists>link. foldE (serve_height E X env repair transform ?down (map_of (chunk_blocks c))) hs st =
        Inr (fst st @ map (\<lambda>h. transform (C h)) hs, link) \<and> carried ?down C rest link"
    if "chunk_at env ?down k c hs" "set (hs @ rest) \<subseteq> ?H" "dir_chain ?down (map C (hs @ rest))"
      "carried ?down C (hs @ rest) (snd st)" for k c hs rest st
    using chunk_complete [OF assms(4) that] by blast
  have "\<exists>r. block_range_stream E X encoded_len env repair start finish transform = Some (stream_of r) \<and>
      Q heights ([], None) r"
  proof (rule block_range_stream_rule [OF assms(1-3)])
    show "Q hs st (Inl (fst st, cache_to_status e, None))"
      if "read_chunk E (fst (re_view env k)) (snd (re_view env k)) lo hi ?down CACHE_READ_CHUNK_BYTES = Inl e" for k lo hi hs st e
      using that assms(4) read_chunk_total by (metis agrees_with_def sum.distinct(1))
    fix k hs rest st f st' r and c :: cached_chunk
    let ?got = "foldE (serve_height E X env repair transform ?down (map_of (chunk_blocks c))) hs st"
    assume c: "chunk_at env ?down k c hs"
    show "Q (hs @ rest) st (Inl f)" if "?got = Inl f" using got [OF c, of rest st] that by (auto simp: Q_def)
    show "Q hs st (Inr st')" if "?got = Inr st'" using got [OF c, of "[]" st] that by (auto simp: Q_def)
    show "Q (hs @ rest) st r" if "?got = Inr st'" "Q rest st' r"
      using got [OF c, of rest st] that by (auto simp: Q_def dir_chain_append)
  qed
  moreover have "dir_chain ?down (map C heights)"
    using assms(4) unfolding agrees_with_def by (intro heights_dir_chain [OF assms(3)]) blast
  ultimately show ?thesis by (auto simp: Q_def stream_of_def carried_def)
qed

lemma block_range_stream_total:
  assumes "start \<le> u64_max" and "finish \<le> u64_max"
  shows "\<exists>r. block_range_stream E X encoded_len env repair start finish transform = Some r \<and>
    length (rs_items r) \<le> Suc (abs_diff start finish)"
proof -
  define heights where "heights = (if start \<le> finish then [start..<Suc finish] else rev [finish..<Suc start])"
  define Q where "Q hs st r \<longleftrightarrow> yields r (length (fst st)) (length hs)"
    for hs :: "u64 list" and st :: range_state and r
  have "\<exists>r. block_range_stream E X encoded_len env repair start finish transform = Some (stream_of r) \<and>
      Q heights ([], None) r"
  proof (rule block_range_stream_rule [OF assms heights_def])
    show "Q hs st (Inl (fst st, cache_to_status e, None))" if "hs \<noteq> []" for hs st e
      using that by (simp add: Q_def yields_def)
    fix hs rest :: "u64 list" and st f st' r and c :: cached_chunk
    let ?got = "foldE (serve_height E X env repair transform (finish < start) (map_of (chunk_blocks c))) hs st"
    note y = serve_heights_yield [of E X env repair transform "finish < start" "map_of (chunk_blocks c)" hs st]
    show "Q (hs @ rest) st (Inl f)" if "?got = Inl f" using y that by (auto simp: Q_def yields_def)
    show "Q hs st (Inr st')" if "?got = Inr st'" using y that by (simp add: Q_def)
    show "Q (hs @ rest) st r" if "?got = Inr st'" "Q rest st' r"
      using y that by (auto simp: Q_def yields_def split: sum.splits)
  qed
  moreover have "length heights = Suc (abs_diff start finish)" by (auto simp: heights_def abs_diff_def)
  ultimately show ?thesis by (auto simp: Q_def yields_def stream_of_def split: sum.splits)
qed

lemma cache_range_eq:
  assumes "stores E (db_blocks db) bs"
  shows "cache_range E no_faults db = Inr (if bs = [] then None else Some (cb_height (hd bs), cb_height (last bs)))"
  using stores_first [OF assms] stores_last [OF assms]
  by (auto simp: cache_range_def split: option.splits if_splits)

text \<open>The ingest floor admits every height the cache reaches down to.\<close>

lemma floor_admits:
  assumes "stores E (db_blocks db) bs" and "bs \<noteq> []" and "cb_height (hd bs) \<le> low"
  shows "check_ingest_floor E no_faults db s rpc_method low = Inr ()"
  using assms(2,3) by (simp add: check_ingest_floor_def cache_range_eq [OF assms(1)] split: option.splits)

end

section \<open>The range methods\<close>

lemma validate_block_range_accepts:
  assumes "0 < start" and "0 < finish" and "abs_diff start finish < MAX_BLOCK_RANGE"
  shows "validate_block_range start finish = Inr ()"
  using assms by (simp add: validate_block_range_def result_simps Let_def MAX_BLOCK_RANGE_def u64_add_def u64_max_def)

lemma range_methods_complete:
  assumes "cache_contract E" and "br_start rng = Some a" and "br_end rng = Some b"
    and "0 < bi_height a" and "0 < bi_height b" and "bi_height a \<le> u64_max" and "bi_height b \<le> u64_max"
    and "abs_diff (bi_height a) (bi_height b) < MAX_BLOCK_RANGE"
    and "validate_pool_types (br_pool_types rng) = Inr ()"
    and "\<And>rpc_method. check_ingest_floor E (fst (re_floor env)) (snd (re_floor env)) s rpc_method
           (min (bi_height a) (bi_height b)) = Inr ()"
    and "heights = (if bi_height a \<le> bi_height b then [bi_height a..<Suc (bi_height b)]
                    else rev [bi_height b..<Suc (bi_height a)])"
    and "agrees_with E X env C (set heights)"
  shows "get_block_range E X encoded_len env s rng =
      Inr (Some \<lparr>rs_items =
        map (\<lambda>h. Inr (filter_block_to_pools (C h) (from_pool_types (br_pool_types rng)))) heights, rs_report = None\<rparr>)"
    and "get_block_range_nullifiers E X encoded_len env s rng =
      Inr (Some \<lparr>rs_items =
        map (\<lambda>h. Inr (filter_block_to_pools_nullifiers_only (C h)
          (from_pool_types_dropping_transparent (br_pool_types rng)))) heights, rs_report = None\<rparr>)"
  using validate_block_range_accepts [OF assms(4,5,8)] assms(2,3,9,10)
    cache_contract.block_range_stream_complete [OF assms(1,6,7,11,12)]
  by (simp_all add: get_block_range_def get_block_range_nullifiers_def)

text \<open>
  C30: a range request ends. Whatever the cache holds, corrupt blocks included, however it changes between
  the chunks, and whatever the node answers, the stream of an accepted request comes to an end, with at
  most one item (a block or the final error) for each height asked for, so never more than 10000.
\<close>

theorem range_request_ends:
  assumes "cache_contract E" and "br_start rng = Some a" and "br_end rng = Some b"
    and "bi_height a \<le> u64_max" and "bi_height b \<le> u64_max"
    and "get_block_range E X encoded_len env s rng = Inr stream \<or>
         get_block_range_nullifiers E X encoded_len env s rng = Inr stream"
  shows "\<exists>r. stream = Some r \<and> length (rs_items r) \<le> Suc (abs_diff (bi_height a) (bi_height b)) \<and>
    length (rs_items r) \<le> 10000"
proof -
  from assms(2,3,6) obtain transform where
    ok: "validate_block_range (bi_height a) (bi_height b) = Inr ()"
    and stream: "stream = block_range_stream E X encoded_len env (sr_repair s) (bi_height a) (bi_height b) transform"
    by (auto simp: get_block_range_def get_block_range_nullifiers_def result_simps Let_def)
  have "Suc (abs_diff (bi_height a) (bi_height b)) \<le> 10000"
    using validate_block_range_ok [OF ok assms(4,5)] by (simp add: MAX_BLOCK_RANGE_def)
  with cache_contract.block_range_stream_total [OF assms(1,4,5)] stream show ?thesis
    by (meson order_trans)
qed

theorem range_request_ends_witness:
  "\<exists>r. get_block_range ref_cache ref_parse (\<lambda>_. 10) ref_range_env ref_service (ref_range 7 9) = Inr (Some r) \<and>
     length (rs_items r) \<le> 3"
proof -
  obtain r where r: "get_block_range ref_cache ref_parse (\<lambda>_. 10) ref_range_env ref_service (ref_range 7 9) = Inr (Some r)"
    using ref_range_runs by (auto split: sum.splits option.splits)
  from range_request_ends [OF rc.cache_contract_axioms _ _ _ _ disjI1 [OF r],
      of "\<lparr>bi_height = 7, bi_hash = []\<rparr>" "\<lparr>bi_height = 9, bi_hash = []\<rparr>"]
  show ?thesis using r by (simp add: ref_range_def u64_max_def abs_diff_def)
qed

text \<open>A node that serves one chain, over a cache that holds nothing else.\<close>

context chain_node
begin

lemma serves_agrees:
  assumes "H \<subseteq> {start..tip}"
    and "\<forall>k. re_view env k = (no_faults, db)" and "stores E (db_blocks db) cached"
    and "\<forall>b \<in> set cached. cb_height b \<in> H \<longrightarrow> b = C (cb_height b)"
    and "\<forall>h \<in> H. (\<exists>b \<in> set cached. cb_height b = h) \<or> re_node env h = node \<and> re_task env h = None"
  shows "agrees_with E X env C H"
proof -
  have "\<exists>b \<in> set cached. cb_height b = h" if "h \<in> H" and "compact_block_fetch X (re_task env h) (re_node env h) h \<noteq> Inr (C h)" for h
  proof (rule ccontr)
    assume "\<not> (\<exists>b \<in> set cached. cb_height b = h)"
    then have "re_node env h = node" "re_task env h = None" using assms(5) that(1) by auto
    moreover have "compact_block_fetch X None node h = Inr (C h)"
      using subsetD [OF assms(1) that(1)] by (intro served) simp_all
    ultimately show False using that(2) by simp
  qed
  moreover have "links (C h) (C (Suc h))" if "h \<in> H" "Suc h \<in> H" for h
  proof -
    have "start \<le> h" "h < tip" using subsetD [OF assms(1) that(1)] subsetD [OF assms(1) that(2)] by simp_all
    then show ?thesis by (rule served_links)
  qed
  ultimately show ?thesis using assms(2-4) unfolding agrees_with_def by auto
qed

end

end
