(* ===== verification/Readstate.thy ===== *)
theory Readstate
  imports Ingestor_Sync Rust_Text "HOL-Library.AList"
begin

text \<open>
  src/node/readstate.rs: the second backend, which answers the chain reads from the state of a zebrad on
  the same machine and leaves the mempool, transaction submission and getinfo to the JSON-RPC client.

  The state service, zebra's parsers and its network tables are third-party: they are the record
  \<^verbatim>\<open>zebra_ext\<close>. A value of a zebra type is the record of what its accessors return, a transparent
  address is its display form and a hash is its bytes. The reply of the state to each request is a function
  of the request: no method issues the same request twice, so a state that moves between the reads of one
  call is one of these functions too.
\<close>

section \<open>What the state service and its types offer\<close>

type_synonym u16 = nat

definition u16_max :: u16 where
  "u16_max = 65535"

datatype hash_or_height = IdHash bytes | IdHeight u32

record zebra_block =
  zb_hash :: bytes
  zb_coinbase_height :: "u32 option"
  zb_timestamp :: int
  zb_serialized :: "(string, bytes) result"

record zebra_tree =
  zt_count :: u64
  zt_rpc_bytes :: bytes

record mined_tx =
  mt_serialized :: "(string, bytes) result"
  mt_height :: u32

record state_utxo =
  su_address :: string
  su_txid :: bytes
  su_output_index :: u32
  su_lock_script :: bytes
  su_value :: u64
  su_height :: u32

record subtree_data =
  sd_root :: bytes
  sd_end_height :: u32

datatype read_request =
    RqBlock hash_or_height
  | RqTransactionIdsForBlock hash_or_height
  | RqBestChainBlockHash u32
  | RqTransaction bytes
  | RqSaplingTree hash_or_height
  | RqOrchardTree hash_or_height
  | RqIronwoodTree hash_or_height
  | RqAddressBalance "string set"
  | RqUtxosByAddresses "string set"
  | RqTransactionIdsByAddresses "string set" u32 u32
  | RqSaplingSubtrees u16 "u16 option"
  | RqOrchardSubtrees u16 "u16 option"
  | RqIronwoodSubtrees u16 "u16 option"

datatype read_response =
    RsBlock "zebra_block option"
  | RsTransactionIdsForBlock "bytes list option"
  | RsBlockHash "bytes option"
  | RsTransaction "mined_tx option"
  | RsSaplingTree "zebra_tree option"
  | RsOrchardTree "zebra_tree option"
  | RsIronwoodTree "zebra_tree option"
  | RsAddressBalance int
  | RsAddressUtxos "state_utxo list"
  | RsAddressesTransactionIds "bytes list"
  | RsSaplingSubtrees "subtree_data list"
  | RsOrchardSubtrees "subtree_data list"
  | RsIronwoodSubtrees "subtree_data list"
  | RsOther

record network_upgrade =
  nu_json :: "string option"
  nu_display :: string
  nu_branch_id :: "string option"

datatype network_kind = Mainnet | Testnet (is_default_testnet: bool) (is_regtest: bool)

record network =
  net_kind :: network_kind
  net_full_activation_list :: "(u32 \<times> network_upgrade) list"
  net_current :: "u32 \<Rightarrow> network_upgrade"
  net_sapling_activation :: "u32 option"
  net_nu5_activation :: "u32 option"
  net_nu6_3_activation :: "u32 option"

record zebra_ext =
  ze_read :: "read_request \<Rightarrow> (string, read_response) result"
  ze_chain_tip :: "(u32 \<times> bytes) option"
  ze_network :: network
  ze_height_max :: u32
  ze_hash_display :: "bytes \<Rightarrow> string"
  ze_parse_id :: "string \<Rightarrow> hash_or_height option"
  ze_parse_txid :: "string \<Rightarrow> bytes option"
  ze_parse_address :: "string \<Rightarrow> string option"
  ze_root_hex :: "bytes \<Rightarrow> string"
  ze_debug :: "read_response \<Rightarrow> string"


section \<open>Helpers\<close>

definition RPC_BLOCK_NOT_FOUND :: int where
  "RPC_BLOCK_NOT_FOUND = -8"

definition RPC_MISC_NOT_FOUND :: int where
  "RPC_MISC_NOT_FOUND = -5"

text \<open>The tip source of the chain tip watch, and the node's tip over it.\<close>

definition latest_chain_tip :: "zebra_ext \<Rightarrow> (u64 \<times> string) option" where
  "latest_chain_tip Z = map_option (\<lambda>(height, hash). (height, ze_hash_display Z hash)) (ze_chain_tip Z)"

definition best_tip :: "zebra_ext \<Rightarrow> (node_error, u64 \<times> string) result" where
  "best_tip Z = ok_or (State ''read state has no chain tip yet'') (latest_chain_tip Z)"

definition state_read :: "zebra_ext \<Rightarrow> read_request \<Rightarrow> (node_error, read_response) result" where
  "state_read Z request = map_err State (ze_read Z request)"

definition unexpected :: "zebra_ext \<Rightarrow> read_response \<Rightarrow> node_error" where
  "unexpected Z response = State (''unexpected read response: '' @ ze_debug Z response)"

definition block_not_found :: node_error where
  "block_not_found = Rpc RPC_BLOCK_NOT_FOUND ''Block not found''"

definition state_block :: "zebra_ext \<Rightarrow> hash_or_height \<Rightarrow> (node_error, zebra_block) result" where
  "state_block Z block_id =
     bindE (state_read Z (RqBlock block_id)) (\<lambda>response.
       case response of
         RsBlock (Some block) \<Rightarrow> Inr block
       | RsBlock None \<Rightarrow> Inl block_not_found
       | other \<Rightarrow> Inl (unexpected Z other))"

definition sapling_tree :: "zebra_ext \<Rightarrow> hash_or_height \<Rightarrow> (node_error, zebra_tree option) result" where
  "sapling_tree Z block_id =
     bindE (state_read Z (RqSaplingTree block_id)) (\<lambda>response.
       case response of RsSaplingTree tree \<Rightarrow> Inr tree | other \<Rightarrow> Inl (unexpected Z other))"

definition orchard_tree :: "zebra_ext \<Rightarrow> hash_or_height \<Rightarrow> (node_error, zebra_tree option) result" where
  "orchard_tree Z block_id =
     bindE (state_read Z (RqOrchardTree block_id)) (\<lambda>response.
       case response of RsOrchardTree tree \<Rightarrow> Inr tree | other \<Rightarrow> Inl (unexpected Z other))"

definition ironwood_tree :: "zebra_ext \<Rightarrow> hash_or_height \<Rightarrow> (node_error, zebra_tree option) result" where
  "ironwood_tree Z block_id =
     bindE (state_read Z (RqIronwoodTree block_id)) (\<lambda>response.
       case response of RsIronwoodTree tree \<Rightarrow> Inr tree | other \<Rightarrow> Inl (unexpected Z other))"

definition tree_count :: "zebra_tree option \<Rightarrow> u32" where
  "tree_count tree = (case tree of None \<Rightarrow> 0 | Some t \<Rightarrow> zt_count t mod 2 ^ 32)"

definition tree_sizes :: "zebra_ext \<Rightarrow> hash_or_height \<Rightarrow> (node_error, trees) result" where
  "tree_sizes Z block_id =
     bindE (sapling_tree Z block_id) (\<lambda>sapling.
     bindE (orchard_tree Z block_id) (\<lambda>orchard.
     bindE (ironwood_tree Z block_id) (\<lambda>ironwood.
       Inr \<lparr>tr_sapling = tree_count sapling, tr_orchard = tree_count orchard, tr_ironwood = tree_count ironwood\<rparr>)))"

definition parse_hash_or_height :: "zebra_ext \<Rightarrow> string \<Rightarrow> (node_error, hash_or_height) result" where
  "parse_hash_or_height Z s = ok_or (Rpc RPC_BLOCK_NOT_FOUND (''invalid block id: '' @ s)) (ze_parse_id Z s)"

definition parse_addresses :: "zebra_ext \<Rightarrow> string list \<Rightarrow> (node_error, string set) result" where
  "parse_addresses Z addresses =
     bindE (mapE (\<lambda>address. ok_or (Rpc RPC_MISC_NOT_FOUND (''Invalid address: '' @ address))
              (ze_parse_address Z address)) addresses)
       (\<lambda>parsed. Inr (set parsed))"

definition state_height :: "zebra_ext \<Rightarrow> u64 \<Rightarrow> u32 option" where
  "state_height Z height = (if height \<le> u32_max \<and> height \<le> ze_height_max Z then Some height else None)"

definition upgrade_name :: "network_upgrade \<Rightarrow> string" where
  "upgrade_name upgrade = (case nu_json upgrade of Some name \<Rightarrow> name | None \<Rightarrow> nu_display upgrade)"

definition pool_active :: "u32 option \<Rightarrow> u32 \<Rightarrow> bool" where
  "pool_active activation height = (case activation of None \<Rightarrow> False | Some a \<Rightarrow> a \<le> height)"

definition chain_name_of :: "network \<Rightarrow> string" where
  "chain_name_of network =
     (case net_kind network of
        Mainnet \<Rightarrow> ''main''
      | Testnet is_default regtest \<Rightarrow> if is_default then ''test'' else if regtest then ''regtest'' else ''test'')"


section \<open>The methods\<close>

definition upgrade_table :: "u64 \<Rightarrow> (u32 \<times> network_upgrade) list \<Rightarrow> (string \<times> upgrade) list" where
  "upgrade_table blocks activations =
     fold (\<lambda>(height, upgrade) upgrades.
         case nu_branch_id upgrade of
           None \<Rightarrow> upgrades
         | Some branch_id \<Rightarrow>
             AList.update branch_id
               \<lparr>up_name = upgrade_name upgrade, up_activationheight = height,
                up_status = (if height \<le> blocks then ''active'' else ''pending'')\<rparr> upgrades)
       activations []"

definition state_blockchain_info :: "zebra_ext \<Rightarrow> (node_error, get_blockchain_info) result" where
  "state_blockchain_info Z =
     bindE (best_tip Z) (\<lambda>(blocks, bestblockhash).
       let tip_height = (case state_height Z blocks of Some h \<Rightarrow> h | None \<Rightarrow> ze_height_max Z) in
       Inr \<lparr>gbi_chain = chain_name_of (ze_network Z), gbi_blocks = blocks, gbi_bestblockhash = bestblockhash,
            gbi_estimatedheight = blocks,
            gbi_consensus_chaintip =
              (case nu_branch_id (net_current (ze_network Z) tip_height) of None \<Rightarrow> [] | Some branch_id \<Rightarrow> branch_id),
            gbi_upgrades = upgrade_table blocks (net_full_activation_list (ze_network Z))\<rparr>)"

definition state_block_verbose :: "zebra_ext \<Rightarrow> u64 \<Rightarrow> (node_error, get_block_verbose) result" where
  "state_block_verbose Z height =
     bindE (ok_or block_not_found (state_height Z height)) (\<lambda>height.
     bindE (state_block Z (IdHeight height)) (\<lambda>block.
     bindE (bindE (state_read Z (RqTransactionIdsForBlock (IdHeight height))) (\<lambda>response.
              case response of
                RsTransactionIdsForBlock (Some ids) \<Rightarrow> Inr (map (ze_hash_display Z) ids)
              | RsTransactionIdsForBlock None \<Rightarrow> Inr []
              | other \<Rightarrow> Inl (unexpected Z other))) (\<lambda>tx.
     bindE (tree_sizes Z (IdHeight height)) (\<lambda>sizes.
       Inr \<lparr>gbv_hash = ze_hash_display Z (zb_hash block), gbv_tx = tx, gbv_trees = sizes\<rparr>))))"

definition state_block_hash :: "zebra_ext \<Rightarrow> u64 \<Rightarrow> (node_error, string) result" where
  "state_block_hash Z height =
     bindE (ok_or block_not_found (state_height Z height)) (\<lambda>height.
     bindE (state_read Z (RqBestChainBlockHash height)) (\<lambda>response.
       case response of
         RsBlockHash (Some hash) \<Rightarrow> Inr (ze_hash_display Z hash)
       | RsBlockHash None \<Rightarrow> Inl block_not_found
       | other \<Rightarrow> Inl (unexpected Z other)))"

definition state_block_raw :: "zebra_ext \<Rightarrow> string \<Rightarrow> (node_error, bytes) result" where
  "state_block_raw Z hash =
     bindE (parse_hash_or_height Z hash) (\<lambda>block_id.
     bindE (state_block Z block_id) (\<lambda>block.
       map_err (\<lambda>error. State (''serializing block: '' @ error)) (zb_serialized block)))"

definition state_raw_transaction ::
    "'x hex_ext_scheme \<Rightarrow> zebra_ext \<Rightarrow> node_rpc \<Rightarrow> string \<Rightarrow> (node_error, get_raw_transaction) result" where
  "state_raw_transaction X Z rpc tx_id =
     bindE (ok_or (Rpc RPC_MISC_NOT_FOUND (''invalid txid: '' @ tx_id)) (ze_parse_txid Z tx_id)) (\<lambda>hash.
     bindE (state_read Z (RqTransaction hash)) (\<lambda>response.
       case response of
         RsTransaction (Some mined) \<Rightarrow>
           bindE (map_err (\<lambda>error. State (''serializing tx: '' @ error)) (mt_serialized mined)) (\<lambda>hex.
             Inr \<lparr>grt_hex = hex_encode X hex, grt_height = int (mt_height mined)\<rparr>)
       | RsTransaction None \<Rightarrow> rpc_get_raw_transaction rpc tx_id
       | other \<Rightarrow> Inl (unexpected Z other)))"

definition pool_state :: "'x hex_ext_scheme \<Rightarrow> u32 option \<Rightarrow> u32 \<Rightarrow> zebra_tree option \<Rightarrow> string" where
  "pool_state X activation height tree =
     (if pool_active activation height
      then (case tree of None \<Rightarrow> [] | Some t \<Rightarrow> hex_encode X (zt_rpc_bytes t)) else [])"

definition state_treestate :: "'x hex_ext_scheme \<Rightarrow> zebra_ext \<Rightarrow> string \<Rightarrow> (node_error, get_tree_state) result" where
  "state_treestate X Z s =
     bindE (parse_hash_or_height Z s) (\<lambda>block_id.
     bindE (state_block Z block_id) (\<lambda>block.
     bindE (ok_or (State ''block has no coinbase height'') (zb_coinbase_height block)) (\<lambda>height.
     bindE (sapling_tree Z block_id) (\<lambda>sapling.
     bindE (orchard_tree Z block_id) (\<lambda>orchard.
     bindE (ironwood_tree Z block_id) (\<lambda>ironwood.
       Inr \<lparr>gts_hash = ze_hash_display Z (zb_hash block), gts_height = height,
            gts_time = nat (zb_timestamp block mod 2 ^ 32),
            gts_sapling = pool_state X (net_sapling_activation (ze_network Z)) height sapling,
            gts_orchard = pool_state X (net_nu5_activation (ze_network Z)) height orchard,
            gts_ironwood = pool_state X (net_nu6_3_activation (ze_network Z)) height ironwood\<rparr>))))))"

definition state_address_balance :: "zebra_ext \<Rightarrow> string list \<Rightarrow> (node_error, get_address_balance) result" where
  "state_address_balance Z addresses =
     bindE (parse_addresses Z addresses) (\<lambda>parsed.
     bindE (state_read Z (RqAddressBalance parsed)) (\<lambda>response.
       case response of RsAddressBalance balance \<Rightarrow> Inr \<lparr>gab_balance = balance\<rparr> | other \<Rightarrow> Inl (unexpected Z other)))"

definition utxo_of :: "'x hex_ext_scheme \<Rightarrow> zebra_ext \<Rightarrow> state_utxo \<Rightarrow> address_utxo" where
  "utxo_of X Z u = \<lparr>au_address = su_address u, au_txid = ze_hash_display Z (su_txid u),
     au_output_index = int (su_output_index u), au_script = hex_encode X (su_lock_script u),
     au_satoshis = su_value u, au_height = su_height u\<rparr>"

definition state_address_utxos ::
    "'x hex_ext_scheme \<Rightarrow> zebra_ext \<Rightarrow> string list \<Rightarrow> (node_error, address_utxo list) result" where
  "state_address_utxos X Z addresses =
     bindE (parse_addresses Z addresses) (\<lambda>parsed.
     bindE (state_read Z (RqUtxosByAddresses parsed)) (\<lambda>response.
       case response of RsAddressUtxos utxos \<Rightarrow> Inr (map (utxo_of X Z) utxos) | other \<Rightarrow> Inl (unexpected Z other)))"

text \<open>zebrad's height range: both ends clamped to the tip, an end of 0 being the tip.\<close>

definition clamp_height :: "zebra_ext \<Rightarrow> u32 \<Rightarrow> u64 \<Rightarrow> u32" where
  "clamp_height Z tip height = (case state_height Z height of None \<Rightarrow> tip | Some h \<Rightarrow> min h tip)"

definition height_debug :: "u32 \<Rightarrow> string" where
  "height_debug h = ''Height('' @ dec_string h @ '')''"

definition state_address_txids ::
    "zebra_ext \<Rightarrow> string list \<Rightarrow> u64 \<Rightarrow> u64 \<Rightarrow> (node_error, string list) result" where
  "state_address_txids Z addresses start finish =
     bindE (parse_addresses Z addresses) (\<lambda>parsed.
     bindE (best_tip Z) (\<lambda>(tip, _).
       let tip = (case state_height Z tip of Some h \<Rightarrow> h | None \<Rightarrow> ze_height_max Z);
           start = clamp_height Z tip start;
           finish = (if finish = 0 then tip else clamp_height Z tip finish) in
       bindE (failIf (start > finish)
                (Rpc (-1) (''start '' @ height_debug start @ '' must be less than or equal to end '' @ height_debug finish)))
         (\<lambda>_.
       bindE (state_read Z (RqTransactionIdsByAddresses parsed start finish)) (\<lambda>response.
         case response of
           RsAddressesTransactionIds ids \<Rightarrow> Inr (map (ze_hash_display Z) ids)
         | other \<Rightarrow> Inl (unexpected Z other)))))"

definition subtree_of :: "(bytes \<Rightarrow> string) \<Rightarrow> subtree_data \<Rightarrow> subtree" where
  "subtree_of show_root data = \<lparr>sub_root = show_root (sd_root data), sub_end_height = sd_end_height data\<rparr>"

definition state_subtrees ::
    "'x hex_ext_scheme \<Rightarrow> zebra_ext \<Rightarrow> string \<Rightarrow> u32 \<Rightarrow> u32 \<Rightarrow> (node_error, subtree list) result" where
  "state_subtrees X Z protocol start_index max_entries =
     (if start_index > u16_max then Inr []
      else
        let limit = (if max_entries > 0 then Some (min max_entries u16_max) else None) in
        if protocol = ''sapling'' then
          bindE (state_read Z (RqSaplingSubtrees start_index limit)) (\<lambda>response.
            case response of
              RsSaplingSubtrees data \<Rightarrow> Inr (map (subtree_of (hex_encode X)) data)
            | other \<Rightarrow> Inl (unexpected Z other))
        else if protocol = ''orchard'' then
          bindE (state_read Z (RqOrchardSubtrees start_index limit)) (\<lambda>response.
            case response of
              RsOrchardSubtrees data \<Rightarrow> Inr (map (subtree_of (ze_root_hex Z)) data)
            | other \<Rightarrow> Inl (unexpected Z other))
        else if protocol = ''ironwood'' then
          bindE (state_read Z (RqIronwoodSubtrees start_index limit)) (\<lambda>response.
            case response of
              RsIronwoodSubtrees data \<Rightarrow> Inr (map (subtree_of (ze_root_hex Z)) data)
            | other \<Rightarrow> Inl (unexpected Z other))
        else Inl (Rpc (-1)
          (''invalid pool name, must be one of: [\"sapling\", \"orchard\", \"ironwood\"], got: '' @ protocol)))"

text \<open>The backend: \<^verbatim>\<open>rpc\<close> is the JSON-RPC client it keeps for the rest.\<close>

definition zebra_state_node :: "'x hex_ext_scheme \<Rightarrow> zebra_ext \<Rightarrow> node_rpc \<Rightarrow> node_rpc" where
  "zebra_state_node X Z rpc =
     \<lparr>rpc_get_info = rpc_get_info rpc,
      rpc_get_blockchain_info = state_blockchain_info Z,
      rpc_get_block_verbose = state_block_verbose Z,
      rpc_get_block_count = bindE (best_tip Z) (\<lambda>(height, _). Inr height),
      rpc_get_block_hash = state_block_hash Z,
      rpc_get_block_hashes = default_get_block_hashes (state_block_hash Z),
      rpc_get_block_raw = state_block_raw Z,
      rpc_get_raw_transaction = state_raw_transaction X Z rpc,
      rpc_send_raw_transaction = rpc_send_raw_transaction rpc,
      rpc_get_treestate = state_treestate X Z,
      rpc_get_address_balance = state_address_balance Z,
      rpc_get_address_utxos = state_address_utxos X Z,
      rpc_get_address_txids = state_address_txids Z,
      rpc_get_subtrees = state_subtrees X Z,
      rpc_get_raw_mempool = rpc_get_raw_mempool rpc\<rparr>"

end
