(* ===== verification/Readstate_Props.thy ===== *)
theory Readstate_Props
  imports Readstate Blocks_Complete Node_Calls
begin

text \<open>
  The properties of the state backend: over a state that holds a chain it is a node that serves that chain
  through every check of the fetch, and what each call asks of the state is exactly what the call names, or
  nothing where the state cannot have it.
\<close>

section \<open>What zebra documents of its types\<close>

text \<open>
  A hash is displayed in reversed byte order, a displayed hash parses back to the hash, a parsed height is
  in the height domain, and that domain is one of u32 values.
\<close>

locale state_contract = parse_contract X
  for X :: "'x parse_ext_scheme" +
  fixes Z :: zebra_ext
  assumes hash_display: "ze_hash_display Z h = wire_to_display_hex X h"
    and parse_display: "length h = 32 \<Longrightarrow> ze_parse_id Z (ze_hash_display Z h) = Some (IdHash h)"
    and parse_bounded: "ze_parse_id Z s = Some (IdHeight n) \<Longrightarrow> n \<le> ze_height_max Z"
    and height_max: "ze_height_max Z \<le> u32_max"


section \<open>A state that holds a chain\<close>

text \<open>
  At every height from \<^term>\<open>start\<close> to \<^term>\<open>tip\<close> the state has the block \<^term>\<open>B h\<close>, by height and by
  hash; its bytes parse to \<^term>\<open>P h\<close>, with the height and the hash the state knows it by; the state lists
  its txids and has its trees \<^term>\<open>T h\<close>.
\<close>

definition state_holds ::
    "'x parse_ext_scheme \<Rightarrow> zebra_ext \<Rightarrow> (u64 \<Rightarrow> zebra_block) \<Rightarrow> (u64 \<Rightarrow> compact_block)
      \<Rightarrow> (u64 \<Rightarrow> zebra_tree option \<times> zebra_tree option \<times> zebra_tree option) \<Rightarrow> u64 \<Rightarrow> u64 \<Rightarrow> bool" where
  "state_holds X Z B P T start tip \<longleftrightarrow>
     ze_chain_tip Z = Some (tip, zb_hash (B tip)) \<and> tip \<le> u32_max \<and> tip \<le> ze_height_max Z \<and>
     (\<forall>h. start \<le> h \<and> h \<le> tip \<longrightarrow>
        ze_read Z (RqBlock (IdHeight h)) = Inr (RsBlock (Some (B h))) \<and>
        ze_read Z (RqBlock (IdHash (zb_hash (B h)))) = Inr (RsBlock (Some (B h))) \<and>
        (\<exists>raw. zb_serialized (B h) = Inr raw \<and> to_compact_block X raw = Inr (P h)) \<and>
        cb_height (P h) = h \<and> cb_hash (P h) = zb_hash (B h) \<and>
        ze_read Z (RqTransactionIdsForBlock (IdHeight h)) =
          Inr (RsTransactionIdsForBlock (Some (map txid (cb_vtx (P h))))) \<and>
        ze_read Z (RqSaplingTree (IdHeight h)) = Inr (RsSaplingTree (fst (T h))) \<and>
        ze_read Z (RqOrchardTree (IdHeight h)) = Inr (RsOrchardTree (fst (snd (T h)))) \<and>
        ze_read Z (RqIronwoodTree (IdHeight h)) = Inr (RsIronwoodTree (snd (snd (T h))))) \<and>
     (\<forall>h. start \<le> h \<and> h < tip \<longrightarrow> links (P h) (P (Suc h)))"

text \<open>The compact block served for one of them: the parsed block with the sizes of its trees.\<close>

definition state_compact ::
    "(u64 \<Rightarrow> compact_block) \<Rightarrow> (u64 \<Rightarrow> zebra_tree option \<times> zebra_tree option \<times> zebra_tree option) \<Rightarrow> u64 \<Rightarrow> compact_block" where
  "state_compact P T h = (P h)\<lparr>cb_chain_metadata := Some
     \<lparr>sapling_commitment_tree_size = tree_count (fst (T h)),
      orchard_commitment_tree_size = tree_count (fst (snd (T h))),
      ironwood_commitment_tree_size = tree_count (snd (snd (T h)))\<rparr>\<rparr>"

context state_contract
begin

lemma state_fetch:
  assumes "state_holds X Z B P T start tip" and "start \<le> h" and "h \<le> tip"
  shows "compact_block_fetch X None (zebra_state_node X Z rpc) h = Inr (state_compact P T h)"
proof -
  from assms obtain raw where
    reads: "ze_read Z (RqBlock (IdHeight h)) = Inr (RsBlock (Some (B h)))"
      "ze_read Z (RqBlock (IdHash (zb_hash (B h)))) = Inr (RsBlock (Some (B h)))"
      "ze_read Z (RqTransactionIdsForBlock (IdHeight h)) =
         Inr (RsTransactionIdsForBlock (Some (map txid (cb_vtx (P h)))))"
      "ze_read Z (RqSaplingTree (IdHeight h)) = Inr (RsSaplingTree (fst (T h)))"
      "ze_read Z (RqOrchardTree (IdHeight h)) = Inr (RsOrchardTree (fst (snd (T h))))"
      "ze_read Z (RqIronwoodTree (IdHeight h)) = Inr (RsIronwoodTree (snd (snd (T h))))"
    and raw: "zb_serialized (B h) = Inr raw" "to_compact_block X raw = Inr (P h)"
    and block: "cb_height (P h) = h" "cb_hash (P h) = zb_hash (B h)"
    and height: "state_height Z h = Some h"
    by (auto simp: state_holds_def state_height_def)
  have "length (zb_hash (B h)) = 32"
    using to_compact_block_split [OF raw(2)] block(2) sha256d_length by metis
  then have raw_at: "state_block_raw Z (ze_hash_display Z (zb_hash (B h))) = Inr raw"
    using reads(2) raw(1)
    by (simp add: state_block_raw_def parse_hash_or_height_def parse_display state_block_def state_read_def)
  have verbose: "state_block_verbose Z h = Inr
      \<lparr>gbv_hash = ze_hash_display Z (zb_hash (B h)), gbv_tx = map (\<lambda>tx. ze_hash_display Z (txid tx)) (cb_vtx (P h)),
       gbv_trees = \<lparr>tr_sapling = tree_count (fst (T h)), tr_orchard = tree_count (fst (snd (T h))),
         tr_ironwood = tree_count (snd (snd (T h)))\<rparr>\<rparr>"
    using reads height
    by (simp add: state_block_verbose_def state_block_def state_read_def tree_sizes_def sapling_tree_def
        orchard_tree_def ironwood_tree_def comp_def)
  have "check_txids X h 0 (cb_vtx (P h)) (map (\<lambda>tx. ze_hash_display Z (txid tx)) (cb_vtx (P h))) = Inr ()"
    by (simp add: check_txids_ok_iff hash_display)
  moreover note to_compact_block_metadata [OF raw(2)]
  ultimately show ?thesis
    using verbose raw_at raw(2) block
    by (auto simp: compact_block_fetch_def zebra_state_node_def hash_display state_compact_def Let_def)
qed

lemma state_serves:
  assumes "state_holds X Z B P T start tip" and "start \<le> tip"
  shows "serves X (zebra_state_node X Z rpc) (state_compact P T) start tip"
proof -
  have tip: "ze_chain_tip Z = Some (tip, zb_hash (B tip))" "cb_hash (P tip) = zb_hash (B tip)"
    using assms by (auto simp: state_holds_def)
  have "\<exists>info. rpc_get_blockchain_info (zebra_state_node X Z rpc) = Inr info \<and> gbi_blocks info = tip \<and>
      display_hex_to_wire X (gbi_bestblockhash info) = Inr (cb_hash (state_compact P T tip))"
    using tip
    by (simp add: zebra_state_node_def state_blockchain_info_def best_tip_def latest_chain_tip_def hash_display
        display_wire_roundtrip state_compact_def Let_def)
  moreover have "links (state_compact P T h) (state_compact P T (Suc h))" if "start \<le> h" "h < tip" for h
    using assms(1) that by (auto simp: state_holds_def state_compact_def links_def)
  ultimately show ?thesis using state_fetch [OF assms(1)] by (simp add: serves_def)
qed

end


text \<open>The backend over such a state is a node that serves a chain.\<close>

locale state_chain = state_contract X Z
  for X :: "'x parse_ext_scheme" and Z :: zebra_ext +
  fixes B :: "u64 \<Rightarrow> zebra_block" and P :: "u64 \<Rightarrow> compact_block"
    and T :: "u64 \<Rightarrow> zebra_tree option \<times> zebra_tree option \<times> zebra_tree option" and start tip :: u64
  assumes held: "state_holds X Z B P T start tip" and ordered: "start \<le> tip"

sublocale state_chain \<subseteq> chain_node X "zebra_state_node X Z rpc" "state_compact P T" start tip for rpc
  by unfold_locales (rule state_serves [OF held ordered])

context state_chain
begin

lemma chain_served: "serves X (zebra_state_node X Z rpc) (state_compact P T) start tip"
  by (rule node_serves)

end


section \<open>What is asked of the state\<close>

fun id_bounded :: "zebra_ext \<Rightarrow> hash_or_height \<Rightarrow> bool" where
  "id_bounded Z (IdHeight h) \<longleftrightarrow> h \<le> ze_height_max Z"
| "id_bounded Z (IdHash _) \<longleftrightarrow> True"

definition subtrees_bounded :: "u16 \<Rightarrow> u16 option \<Rightarrow> bool" where
  "subtrees_bounded start limit \<longleftrightarrow> start \<le> u16_max \<and> (\<forall>l. limit = Some l \<longrightarrow> 0 < l \<and> l \<le> u16_max)"

fun request_bounded :: "zebra_ext \<Rightarrow> read_request \<Rightarrow> bool" where
  "request_bounded Z (RqBlock i) \<longleftrightarrow> id_bounded Z i"
| "request_bounded Z (RqTransactionIdsForBlock i) \<longleftrightarrow> id_bounded Z i"
| "request_bounded Z (RqBestChainBlockHash h) \<longleftrightarrow> h \<le> ze_height_max Z"
| "request_bounded Z (RqSaplingTree i) \<longleftrightarrow> id_bounded Z i"
| "request_bounded Z (RqOrchardTree i) \<longleftrightarrow> id_bounded Z i"
| "request_bounded Z (RqIronwoodTree i) \<longleftrightarrow> id_bounded Z i"
| "request_bounded Z (RqTransactionIdsByAddresses _ lo hi) \<longleftrightarrow>
     lo \<le> hi \<and> hi \<le> ze_height_max Z \<and> (\<exists>tip. ze_chain_tip Z = Some tip \<and> hi \<le> fst tip)"
| "request_bounded Z (RqSaplingSubtrees start limit) \<longleftrightarrow> subtrees_bounded start limit"
| "request_bounded Z (RqOrchardSubtrees start limit) \<longleftrightarrow> subtrees_bounded start limit"
| "request_bounded Z (RqIronwoodSubtrees start limit) \<longleftrightarrow> subtrees_bounded start limit"
| "request_bounded Z _ \<longleftrightarrow> True"

text \<open>
  What a call may ask of the state. A height is asked for as it is, or, past the height domain, not at all;
  a range of heights is cut at the tip, an end of 0 being the tip, and not asked for when that inverts it; a
  subtree index is asked for as it is, or, past 16 bits, not at all, and a limit of 0 is none.
\<close>

definition tree_requests :: "hash_or_height \<Rightarrow> read_request set" where
  "tree_requests i = {RqSaplingTree i, RqOrchardTree i, RqIronwoodTree i}"

definition tip_height :: "zebra_ext \<Rightarrow> u32 option" where
  "tip_height Z = map_option (\<lambda>(tip, _). min tip (ze_height_max Z)) (ze_chain_tip Z)"

definition range_end :: "u32 \<Rightarrow> u64 \<Rightarrow> u32" where
  "range_end tip finish = (if finish = 0 then tip else min finish tip)"

definition subtree_limit :: "u32 \<Rightarrow> u16 option" where
  "subtree_limit max_entries = (if max_entries = 0 then None else Some (min max_entries 65535))"

definition subtree_requests :: "string \<Rightarrow> u16 \<Rightarrow> u16 option \<Rightarrow> read_request set" where
  "subtree_requests protocol i limit =
     (if protocol = ''sapling'' then {RqSaplingSubtrees i limit}
      else if protocol = ''orchard'' then {RqOrchardSubtrees i limit}
      else if protocol = ''ironwood'' then {RqIronwoodSubtrees i limit} else {})"

fun requests_of :: "zebra_ext \<Rightarrow> node_call \<Rightarrow> read_request set" where
  "requests_of Z (CallGetBlockVerbose h) =
     (if h \<le> ze_height_max Z
      then {RqBlock (IdHeight h), RqTransactionIdsForBlock (IdHeight h)} \<union> tree_requests (IdHeight h) else {})"
| "requests_of Z (CallGetBlockHash h) = (if h \<le> ze_height_max Z then {RqBestChainBlockHash h} else {})"
| "requests_of Z (CallGetBlockHashes hs) = RqBestChainBlockHash ` {h \<in> set hs. h \<le> ze_height_max Z}"
| "requests_of Z (CallGetBlockRaw s) = RqBlock ` set_option (ze_parse_id Z s)"
| "requests_of Z (CallGetRawTransaction s) = RqTransaction ` set_option (ze_parse_txid Z s)"
| "requests_of Z (CallGetTreestate s) = (\<Union>i \<in> set_option (ze_parse_id Z s). insert (RqBlock i) (tree_requests i))"
| "requests_of Z (CallGetAddressBalance addresses) = {RqAddressBalance A |A. parse_addresses Z addresses = Inr A}"
| "requests_of Z (CallGetAddressUtxos addresses) = {RqUtxosByAddresses A |A. parse_addresses Z addresses = Inr A}"
| "requests_of Z (CallGetAddressTxids addresses start finish) =
     {RqTransactionIdsByAddresses A (min start tip) (range_end tip finish) |A tip.
        parse_addresses Z addresses = Inr A \<and> tip_height Z = Some tip \<and> min start tip \<le> range_end tip finish}"
| "requests_of Z (CallGetSubtrees protocol i max_entries) =
     (if i \<le> 65535 then subtree_requests protocol i (subtree_limit max_entries) else {})"
| "requests_of Z _ = {}"

lemma state_read_replaced: "read r = ze_read Z r \<Longrightarrow> state_read (Z\<lparr>ze_read := read\<rparr>) r = state_read Z r"
  by (simp add: state_read_def)

lemma other_fields [simp]:
  "parse_hash_or_height (Z\<lparr>ze_read := read\<rparr>) = parse_hash_or_height Z"
  "parse_addresses (Z\<lparr>ze_read := read\<rparr>) = parse_addresses Z"
  "state_height (Z\<lparr>ze_read := read\<rparr>) = state_height Z"
  "best_tip (Z\<lparr>ze_read := read\<rparr>) = best_tip Z"
  "clamp_height (Z\<lparr>ze_read := read\<rparr>) = clamp_height Z"
  "unexpected (Z\<lparr>ze_read := read\<rparr>) = unexpected Z"
  "utxo_of X (Z\<lparr>ze_read := read\<rparr>) = utxo_of X Z"
  by (auto simp: parse_hash_or_height_def parse_addresses_def state_height_def best_tip_def latest_chain_tip_def
      clamp_height_def unexpected_def utxo_of_def fun_eq_iff)

lemma state_height_bounded: "state_height Z h = Some h' \<Longrightarrow> h' = h \<and> h \<le> ze_height_max Z"
  by (auto simp: state_height_def split: if_splits)

lemma reads_replaced:
  assumes "read (RqBlock i) = ze_read Z (RqBlock i)"
  shows "state_block (Z\<lparr>ze_read := read\<rparr>) i = state_block Z i"
  using assms by (simp add: state_block_def state_read_def cong: read_response.case_cong)

lemma trees_replaced:
  assumes "\<forall>r \<in> tree_requests i. read r = ze_read Z r"
  shows "sapling_tree (Z\<lparr>ze_read := read\<rparr>) i = sapling_tree Z i"
    and "orchard_tree (Z\<lparr>ze_read := read\<rparr>) i = orchard_tree Z i"
    and "ironwood_tree (Z\<lparr>ze_read := read\<rparr>) i = ironwood_tree Z i"
    and "tree_sizes (Z\<lparr>ze_read := read\<rparr>) i = tree_sizes Z i"
  using assms
  by (simp_all add: tree_requests_def sapling_tree_def orchard_tree_def ironwood_tree_def tree_sizes_def
      state_read_replaced cong: read_response.case_cong)

lemma heights_replaced:
  shows "\<forall>r \<in> requests_of Z (CallGetBlockVerbose h). read r = ze_read Z r \<Longrightarrow>
      state_block_verbose (Z\<lparr>ze_read := read\<rparr>) h = state_block_verbose Z h"
    and "\<forall>r \<in> requests_of Z (CallGetBlockHash h). read r = ze_read Z r \<Longrightarrow>
      state_block_hash (Z\<lparr>ze_read := read\<rparr>) h = state_block_hash Z h"
  using state_height_bounded [of Z h]
  by (cases "state_height Z h"; simp add: state_block_verbose_def state_block_hash_def reads_replaced trees_replaced
      state_read_replaced cong: read_response.case_cong)+

lemma foldE_cong: "(\<And>x st. x \<in> set xs \<Longrightarrow> f x st = g x st) \<Longrightarrow> foldE f xs st = foldE g xs st"
proof (induction xs arbitrary: st)
  case (Cons x xs)
  then show ?case by (cases "g x st") simp_all
qed simp

lemma hashes_replaced:
  assumes "\<forall>r \<in> requests_of Z (CallGetBlockHashes hs). read r = ze_read Z r"
  shows "default_get_block_hashes (state_block_hash (Z\<lparr>ze_read := read\<rparr>)) hs = default_get_block_hashes (state_block_hash Z) hs"
proof -
  have "state_block_hash (Z\<lparr>ze_read := read\<rparr>) h = state_block_hash Z h" if "h \<in> set hs" for h
    using assms that by (intro heights_replaced(2)) auto
  then show ?thesis unfolding default_get_block_hashes_def by (intro foldE_cong) simp_all
qed

text \<open>Both ends of a height range, as the backend computes them.\<close>

lemma clamp_height_min: "tip \<le> ze_height_max Z \<Longrightarrow> ze_height_max Z \<le> u32_max \<Longrightarrow> clamp_height Z tip h = min h tip"
  by (auto simp: clamp_height_def state_height_def)

lemma address_txids_eq:
  assumes "ze_height_max Z \<le> u32_max" and "parse_addresses Z addresses = Inr A" and "tip_height Z = Some tip"
  shows "state_address_txids Z addresses start finish =
    bindE (failIf (min start tip > range_end tip finish)
             (Rpc (-1) (''start '' @ height_debug (min start tip) @ '' must be less than or equal to end '' @
                height_debug (range_end tip finish)))) (\<lambda>_.
    bindE (state_read Z (RqTransactionIdsByAddresses A (min start tip) (range_end tip finish))) (\<lambda>response.
      case response of
        RsAddressesTransactionIds ids \<Rightarrow> Inr (map (ze_hash_display Z) ids)
      | other \<Rightarrow> Inl (unexpected Z other)))"
proof -
  obtain a hash where a: "ze_chain_tip Z = Some (a, hash)" and tip: "tip = min a (ze_height_max Z)"
    using assms(3) by (auto simp: tip_height_def)
  have "(case state_height Z a of Some h \<Rightarrow> h | None \<Rightarrow> ze_height_max Z) = tip"
    using assms(1) by (auto simp: state_height_def tip)
  then show ?thesis
    using a clamp_height_min [of tip Z, OF _ assms(1)]
    by (simp add: state_address_txids_def assms(2) best_tip_def latest_chain_tip_def Let_def tip range_end_def)
qed

lemma txids_replaced:
  assumes "ze_height_max Z \<le> u32_max"
    and "\<forall>r \<in> requests_of Z (CallGetAddressTxids addresses start finish). read r = ze_read Z r"
  shows "state_address_txids (Z\<lparr>ze_read := read\<rparr>) addresses start finish = state_address_txids Z addresses start finish"
proof (cases "parse_addresses Z addresses")
  case (Inr A)
  show ?thesis
  proof (cases "tip_height Z")
    case None
    then show ?thesis by (simp add: tip_height_def state_address_txids_def best_tip_def latest_chain_tip_def)
  next
    case (Some tip)
    have Z': "ze_height_max (Z\<lparr>ze_read := read\<rparr>) \<le> u32_max" "parse_addresses (Z\<lparr>ze_read := read\<rparr>) addresses = Inr A"
      "tip_height (Z\<lparr>ze_read := read\<rparr>) = Some tip"
      using assms(1) Inr Some by (simp_all add: tip_height_def)
    have "state_read (Z\<lparr>ze_read := read\<rparr>) (RqTransactionIdsByAddresses A (min start tip) (range_end tip finish)) =
        state_read Z (RqTransactionIdsByAddresses A (min start tip) (range_end tip finish))"
      if "\<not> range_end tip finish < min start tip"
      using assms(2) Inr Some that unfolding not_less by (auto simp: state_read_def)
    then show ?thesis
      unfolding address_txids_eq [OF Z'] address_txids_eq [OF assms(1) Inr Some]
      by (cases "range_end tip finish < min start tip") (simp_all cong: read_response.case_cong)
  qed
qed (simp add: state_address_txids_def)

lemma subtrees_replaced:
  assumes "\<forall>r \<in> requests_of Z (CallGetSubtrees protocol i n). read r = ze_read Z r"
  shows "state_subtrees X (Z\<lparr>ze_read := read\<rparr>) protocol i n = state_subtrees X Z protocol i n"
proof (cases "i \<le> 65535")
  case True
  have "(if n > 0 then Some (min n u16_max) else None) = subtree_limit n" by (simp add: subtree_limit_def u16_max_def)
  moreover have "protocol = ''sapling'' \<Longrightarrow> read (RqSaplingSubtrees i (subtree_limit n)) = ze_read Z (RqSaplingSubtrees i (subtree_limit n))"
    "protocol = ''orchard'' \<Longrightarrow> read (RqOrchardSubtrees i (subtree_limit n)) = ze_read Z (RqOrchardSubtrees i (subtree_limit n))"
    "protocol = ''ironwood'' \<Longrightarrow> read (RqIronwoodSubtrees i (subtree_limit n)) = ze_read Z (RqIronwoodSubtrees i (subtree_limit n))"
    using assms True by (simp_all add: subtree_requests_def)
  ultimately show ?thesis
    unfolding state_subtrees_def by (simp only: Let_def) (simp add: state_read_replaced cong: if_cong read_response.case_cong)
qed (simp add: state_subtrees_def u16_max_def)

lemma by_id_replaced:
  shows "\<forall>r \<in> requests_of Z (CallGetBlockRaw s). read r = ze_read Z r \<Longrightarrow>
      state_block_raw (Z\<lparr>ze_read := read\<rparr>) s = state_block_raw Z s"
    and "\<forall>r \<in> requests_of Z (CallGetTreestate s). read r = ze_read Z r \<Longrightarrow>
      state_treestate X (Z\<lparr>ze_read := read\<rparr>) s = state_treestate X Z s"
    and "\<forall>r \<in> requests_of Z (CallGetRawTransaction s). read r = ze_read Z r \<Longrightarrow>
      state_raw_transaction X (Z\<lparr>ze_read := read\<rparr>) rpc s = state_raw_transaction X Z rpc s"
  by (cases "ze_parse_id Z s"; cases "ze_parse_txid Z s"; simp add: state_block_raw_def state_treestate_def
      state_raw_transaction_def parse_hash_or_height_def ok_or_def reads_replaced trees_replaced state_read_replaced
      cong: read_response.case_cong)+

lemma addresses_replaced:
  shows "\<forall>r \<in> requests_of Z (CallGetAddressBalance addresses). read r = ze_read Z r \<Longrightarrow>
      state_address_balance (Z\<lparr>ze_read := read\<rparr>) addresses = state_address_balance Z addresses"
    and "\<forall>r \<in> requests_of Z (CallGetAddressUtxos addresses). read r = ze_read Z r \<Longrightarrow>
      state_address_utxos X (Z\<lparr>ze_read := read\<rparr>) addresses = state_address_utxos X Z addresses"
  by (cases "parse_addresses Z addresses"; simp add: state_address_balance_def state_address_utxos_def
      state_read_replaced cong: read_response.case_cong)+

lemma invoke_replaced:
  assumes "ze_height_max Z \<le> u32_max" and "\<forall>r \<in> requests_of Z call. read r = ze_read Z r"
  shows "invoke (zebra_state_node X (Z\<lparr>ze_read := read\<rparr>) rpc) call = invoke (zebra_state_node X Z rpc) call"
proof -
  have info: "state_blockchain_info (Z\<lparr>ze_read := read\<rparr>) = state_blockchain_info Z"
    by (simp add: state_blockchain_info_def cong: option.case_cong)
  note parts = heights_replaced hashes_replaced by_id_replaced addresses_replaced txids_replaced [OF assms(1)] subtrees_replaced
  show ?thesis
    using assms(2) by (cases call) (simp_all only: invoke.simps zebra_state_node_def node_rpc.simps info other_fields parts)
qed

lemma requests_bounded:
  assumes "state_contract X Z" and "r \<in> requests_of Z call"
  shows "request_bounded Z r"
proof -
  have "id_bounded Z i" if "ze_parse_id Z s = Some i" for s i
    using that state_contract.parse_bounded [OF assms(1), of s] by (cases i) auto
  then show ?thesis
    using assms(2)
    by (cases call) (auto simp: tree_requests_def tip_height_def range_end_def subtree_requests_def subtree_limit_def
        subtrees_bounded_def u16_max_def split: if_splits)
qed


section \<open>A reference state\<close>

text \<open>A state that holds the one reference block, at height 42.\<close>

definition ref_state_block :: zebra_block where
  "ref_state_block = \<lparr>zb_hash = sha256d ref_parse (replicate 140 0 @ [0]), zb_coinbase_height = Some 42,
     zb_timestamp = 0, zb_serialized = Inr ref_raw_block\<rparr>"

definition ref_parsed :: compact_block where
  "ref_parsed = projr (to_compact_block ref_parse ref_raw_block)"

definition ref_trees :: "zebra_tree option \<times> zebra_tree option \<times> zebra_tree option" where
  "ref_trees = (Some \<lparr>zt_count = 3, zt_rpc_bytes = [1]\<rparr>, None, None)"

fun ref_state_read :: "read_request \<Rightarrow> (string, read_response) result" where
  "ref_state_read (RqBlock i) =
     Inr (RsBlock (if i = IdHeight 42 \<or> i = IdHash (zb_hash ref_state_block) then Some ref_state_block else None))"
| "ref_state_read (RqTransactionIdsForBlock _) = Inr (RsTransactionIdsForBlock (Some (map txid (cb_vtx ref_parsed))))"
| "ref_state_read (RqSaplingTree _) = Inr (RsSaplingTree (fst ref_trees))"
| "ref_state_read (RqOrchardTree _) = Inr (RsOrchardTree (fst (snd ref_trees)))"
| "ref_state_read (RqIronwoodTree _) = Inr (RsIronwoodTree (snd (snd ref_trees)))"
| "ref_state_read _ = Inr RsOther"

definition ref_parse_id :: "string \<Rightarrow> hash_or_height option" where
  "ref_parse_id s =
     (case display_hex_to_wire ref_parse s of
        Inr h \<Rightarrow> if length h = 32 then Some (IdHash h) else None
      | Inl _ \<Rightarrow> (case parse_digits 0 s of Some n \<Rightarrow> if n \<le> 2147483647 then Some (IdHeight n) else None | None \<Rightarrow> None))"

definition ref_upgrade :: network_upgrade where
  "ref_upgrade = \<lparr>nu_json = Some ''Sapling'', nu_display = ''Sapling'', nu_branch_id = Some ''76b809bb''\<rparr>"

definition ref_zebra :: zebra_ext where
  "ref_zebra =
     \<lparr>ze_read = ref_state_read, ze_chain_tip = Some (42, zb_hash ref_state_block),
      ze_network = \<lparr>net_kind = Mainnet, net_full_activation_list = [(1, ref_upgrade)], net_current = (\<lambda>_. ref_upgrade),
        net_sapling_activation = Some 1, net_nu5_activation = None, net_nu6_3_activation = None\<rparr>,
      ze_height_max = 2147483647, ze_hash_display = wire_to_display_hex ref_parse, ze_parse_id = ref_parse_id,
      ze_parse_txid = (\<lambda>_. None), ze_parse_address = Some, ze_root_hex = hex_encode ref_parse, ze_debug = (\<lambda>_. [])\<rparr>"

interpretation rz: state_contract ref_parse ref_zebra
  by unfold_locales
    (auto simp: ref_zebra_def ref_parse_id_def rp.display_wire_roundtrip u32_max_def split: sum.splits option.splits if_splits)

lemma ref_state_holds: "state_holds ref_parse ref_zebra (\<lambda>_. ref_state_block) (\<lambda>_. ref_parsed) (\<lambda>_. ref_trees) 42 42"
proof -
  have "case to_compact_block ref_parse ref_raw_block of
      Inr b \<Rightarrow> cb_height b = 42 \<and> cb_hash b = zb_hash ref_state_block | Inl _ \<Rightarrow> False"
    by code_simp
  then have "to_compact_block ref_parse ref_raw_block = Inr ref_parsed" "cb_height ref_parsed = 42"
    "cb_hash ref_parsed = zb_hash ref_state_block"
    by (auto simp: ref_parsed_def split: sum.splits)
  moreover have "zb_serialized ref_state_block = Inr ref_raw_block" by (simp add: ref_state_block_def)
  ultimately show ?thesis
    by (auto simp: state_holds_def ref_zebra_def u32_max_def dest: le_antisym)
qed

interpretation rzc: state_chain ref_parse ref_zebra "\<lambda>_. ref_state_block" "\<lambda>_. ref_parsed" "\<lambda>_. ref_trees" 42 42
  by unfold_locales (simp_all add: ref_state_holds)


section \<open>Properties\<close>

text \<open>
  C28: the state backend is a node. Over a state that holds a chain, the backend serves that chain: it names
  the tip, and at every height the checked fetch (height, hash and txids compared, tree sizes filled in)
  succeeds with the state's block, whatever JSON-RPC client it keeps beside the state. What is proved of a
  node that serves a chain, of the ingestor and the range methods, holds of this backend.
\<close>

theorem zebra_state_serves:
  assumes "state_contract X Z" and "state_holds X Z B P T start tip" and "start \<le> tip"
  shows "serves X (zebra_state_node X Z rpc) (state_compact P T) start tip"
  by (rule state_chain.chain_served [OF state_chain.intro [OF assms(1) state_chain_axioms.intro [OF assms(2,3)]]])

theorem zebra_state_serves_witness:
  "serves ref_parse (zebra_state_node ref_parse ref_zebra dead_node)
     (state_compact (\<lambda>_. ref_parsed) (\<lambda>_. ref_trees)) 42 42"
  by (rule zebra_state_serves [OF rz.state_contract_axioms ref_state_holds]) simp

text \<open>
  C29: the backend asks the state for what a call names, and nothing wraps. The answer to a call depends on
  the state's replies to the requests \<^verbatim>\<open>requests_of\<close> lists for it and on no other: a block is asked for by the
  height of the call, a height past the height domain is not found without asking, both ends of an address
  scan are those of the call cut at the tip and a scan that inverts is refused, and a subtree index is that of
  the call, an index past 16 bits having no subtrees. All of these requests are ones the state can have:
  heights are in its domain, ranges are ordered and end at the tip or below, and a subtree limit fits 16 bits
  and is never 0.
\<close>

theorem zebra_requests_bounded:
  assumes "state_contract X Z"
  shows "(\<forall>call read. (\<forall>r \<in> requests_of Z call. read r = ze_read Z r) \<longrightarrow>
      invoke (zebra_state_node X (Z\<lparr>ze_read := read\<rparr>) rpc) call = invoke (zebra_state_node X Z rpc) call) \<and>
    (\<forall>call. \<forall>r \<in> requests_of Z call. request_bounded Z r) \<and>
    (\<forall>h. ze_height_max Z < h \<longrightarrow> rpc_get_block_verbose (zebra_state_node X Z rpc) h = Inl block_not_found \<and>
       rpc_get_block_hash (zebra_state_node X Z rpc) h = Inl block_not_found) \<and>
    (\<forall>addresses start finish A tip. parse_addresses Z addresses = Inr A \<and> tip_height Z = Some tip \<and>
       range_end tip finish < min start tip \<longrightarrow>
       (\<exists>message. rpc_get_address_txids (zebra_state_node X Z rpc) addresses start finish = Inl (Rpc (-1) message))) \<and>
    (\<forall>protocol i n. 65535 < i \<longrightarrow> rpc_get_subtrees (zebra_state_node X Z rpc) protocol i n = Inr [])"
proof -
  note max = state_contract.height_max [OF assms]
  have "rpc_get_block_verbose (zebra_state_node X Z rpc) h = Inl block_not_found \<and>
      rpc_get_block_hash (zebra_state_node X Z rpc) h = Inl block_not_found" if "ze_height_max Z < h" for h
    using that by (simp add: zebra_state_node_def state_block_verbose_def state_block_hash_def state_height_def)
  moreover have "\<exists>message. rpc_get_address_txids (zebra_state_node X Z rpc) addresses start finish = Inl (Rpc (-1) message)"
    if "parse_addresses Z addresses = Inr A" "tip_height Z = Some tip" "range_end tip finish < min start tip"
    for addresses start finish A tip
    using that by (simp add: zebra_state_node_def address_txids_eq [OF max])
  moreover have "rpc_get_subtrees (zebra_state_node X Z rpc) protocol i n = Inr []" if "65535 < i" for protocol i n
    using that by (simp add: zebra_state_node_def state_subtrees_def u16_max_def)
  ultimately show ?thesis using invoke_replaced [OF max] requests_bounded [OF assms] by blast
qed

theorem zebra_requests_bounded_witness:
  "invoke (zebra_state_node ref_parse (ref_zebra\<lparr>ze_read := (\<lambda>r.
       if r = RqBestChainBlockHash 42 then ref_state_read r else Inr (RsBlockHash (Some [])))\<rparr>) dead_node) (CallGetBlockHash 42) =
     invoke (zebra_state_node ref_parse ref_zebra dead_node) (CallGetBlockHash 42) \<and>
   rpc_get_block_verbose (zebra_state_node ref_parse ref_zebra dead_node) 4294967338 = Inl block_not_found"
proof -
  note bounded = zebra_requests_bounded [OF rz.state_contract_axioms, of dead_node]
  have "invoke (zebra_state_node ref_parse (ref_zebra\<lparr>ze_read := (\<lambda>r.
       if r = RqBestChainBlockHash 42 then ref_state_read r else Inr (RsBlockHash (Some [])))\<rparr>) dead_node) (CallGetBlockHash 42) =
     invoke (zebra_state_node ref_parse ref_zebra dead_node) (CallGetBlockHash 42)"
    by (rule bounded [THEN conjunct1, rule_format]) (auto simp: ref_zebra_def split: if_splits)
  moreover have "rpc_get_block_verbose (zebra_state_node ref_parse ref_zebra dead_node) 4294967338 = Inl block_not_found"
    by (rule bounded [THEN conjunct2, THEN conjunct2, THEN conjunct1, rule_format, THEN conjunct1]) (simp add: ref_zebra_def)
  ultimately show ?thesis ..
qed

text \<open>
  An absent block is the same error with either backend. A block asked for by a height that is neither
  cached nor in the state, or that the state cannot represent, is refused with OUT_OF_RANGE, as with a node
  that answers -8.
\<close>

theorem zebra_absent_block:
  assumes "cache_contract E" and "stores E (db_blocks db) cached" and "\<forall>b \<in> set cached. cb_height b \<noteq> h" and "0 < h"
    and "state_height Z h = None \<or> ze_read Z (RqBlock (IdHeight h)) = Inr (RsBlock None)"
  shows "get_block E X no_faults db task (zebra_state_node X Z rpc) \<lparr>bi_height = h, bi_hash = []\<rparr> =
    Inl (mk_status OutOfRange ''block {} is newer than the latest block'' [Num h])"
proof -
  have "find (\<lambda>b. cb_height b = h) cached = None" using assms(3) by (auto simp: find_None_iff)
  then have "cache_get E no_faults db h = Inr None"
    by (simp add: cache_contract.cache_get_eq [OF assms(1,2)])
  moreover have "state_block_verbose Z h = Inl block_not_found"
    using assms(5) by (cases "state_height Z h")
      (auto simp: state_block_verbose_def state_block_def state_read_def dest: state_height_bounded)
  ultimately show ?thesis
    using assms(4)
    by (simp add: get_block_def block_at_def compact_block_fetch_def zebra_state_node_def block_not_found_def
        block_fetch_to_status_def RPC_BLOCK_NOT_FOUND_def RPC_INVALID_PARAMETER_def)
qed

theorem zebra_absent_block_witness:
  "get_block ref_cache ref_parse no_faults ref_empty None (zebra_state_node ref_parse ref_zebra dead_node)
     \<lparr>bi_height = 43, bi_hash = []\<rparr> =
   Inl (mk_status OutOfRange ''block {} is newer than the latest block'' [Num 43])"
  by (rule zebra_absent_block [OF rc.cache_contract_axioms ref_empty_stores]) (simp_all add: ref_zebra_def)

end
