(* ===== verification/Metrics.thy ===== *)
theory Metrics
  imports Rust_Text
begin

text \<open>
  src/metrics.rs: the labels requests are recorded under and the gauge of open connections. The descriptor
  sets and their decoder are third-party (prost) and generated, so they are arguments; recording a request
  under its labels, encoding the registry and serving it over HTTP are left to the libraries.
\<close>

section \<open>The methods this build serves\<close>

record method_descriptor =
  md_name :: "string option"

record service_descriptor =
  sv_name :: "string option"
  sv_methods :: "method_descriptor list"

record file_descriptor =
  fd_package :: "string option"
  fd_services :: "service_descriptor list"

definition or_default :: "string option \<Rightarrow> string" where
  "or_default s = (case s of None \<Rightarrow> [] | Some t \<Rightarrow> t)"

definition qualified_name :: "string \<Rightarrow> string \<Rightarrow> string" where
  "qualified_name package service_name = (if package = [] then service_name else package @ ''.'' @ service_name)"

definition method_path :: "string \<Rightarrow> string \<Rightarrow> string" where
  "method_path qualified method_name = ''/'' @ qualified @ ''/'' @ method_name"

definition collect_method_paths ::
    "('d \<Rightarrow> ('e, file_descriptor list) result) \<Rightarrow> 'd \<Rightarrow> string set \<Rightarrow> ('e, string set) result" where
  "collect_method_paths decode descriptor_set paths =
     bindE (decode descriptor_set) (\<lambda>files.
       Inr (fold (\<lambda>file. fold (\<lambda>service. fold (\<lambda>rpc.
              insert (method_path (qualified_name (or_default (fd_package file)) (or_default (sv_name service)))
                (or_default (md_name rpc)))) (sv_methods service)) (fd_services file)) files paths))"

definition served_methods ::
    "('d \<Rightarrow> ('e, file_descriptor list) result) \<Rightarrow> 'd \<Rightarrow> 'd \<Rightarrow> ('e, string set) result" where
  "served_methods decode own reflection =
     bindE (collect_method_paths decode own {}) (collect_method_paths decode reflection)"


section \<open>The labels of a request\<close>

definition UNKNOWN_PATH :: string where
  "UNKNOWN_PATH = ''/unknown/unknown''"

definition OTHER_VERB :: string where
  "OTHER_VERB = ''OTHER''"

definition normalized_labels :: "string set \<Rightarrow> string \<Rightarrow> string \<Rightarrow> string \<times> string" where
  "normalized_labels served verb path =
     (if verb \<noteq> ''POST'' then (OTHER_VERB, UNKNOWN_PATH)
      else if path \<in> served then (''POST'', path) else (''POST'', UNKNOWN_PATH))"

text \<open>str::find of a character.\<close>

primrec char_find :: "char \<Rightarrow> string \<Rightarrow> usize option" where
  "char_find c [] = None"
| "char_find c (x # xs) = (if x = c then Some 0 else map_option Suc (char_find c xs))"

definition label_separator :: "string \<Rightarrow> usize option" where
  "label_separator path =
     (case strip_prefix ''/'' path of
        None \<Rightarrow> None
      | Some after_leading_slash \<Rightarrow> map_option (\<lambda>i. i + 1) (char_find (CHR ''/'') after_leading_slash))"

text \<open>The layer: what one request is recorded under.\<close>

definition recorded_labels :: "string set \<Rightarrow> string \<Rightarrow> string \<Rightarrow> string \<times> string \<times> usize option" where
  "recorded_labels served verb path =
     (let (verb, path) = normalized_labels served verb path in (verb, path, label_separator path))"

text \<open>The layered service: the call is recorded under its labels, and the service below sees the request itself.\<close>

record 'b http_request =
  rq_verb :: string
  rq_path :: string
  rq_body :: 'b

definition bounded_call ::
    "string set \<Rightarrow> ('b http_request \<Rightarrow> 'r) \<Rightarrow> 'b http_request \<Rightarrow> (string \<times> string \<times> usize option) \<times> 'r" where
  "bounded_call served inner request = (recorded_labels served (rq_verb request) (rq_path request), inner request)"

text \<open>What the endpoint answers, given what the registry encodes to.\<close>

definition encode_metrics :: "(string, string) result \<Rightarrow> string" where
  "encode_metrics encoded = (case encoded of Inr text \<Rightarrow> text | Inl _ \<Rightarrow> [])"


section \<open>The connection gauge\<close>

text \<open>The gauge, when it could be registered: a 64-bit counter that starts at 0.\<close>

definition register_connections :: "bool \<Rightarrow> int option" where
  "register_connections registered = (if registered then Some 0 else None)"

definition connection_new :: "int option \<Rightarrow> int option" where
  "connection_new gauge = map_option (\<lambda>n. as_i64 (n + 1)) gauge"

definition connection_drop :: "int option \<Rightarrow> int option" where
  "connection_drop gauge = map_option (\<lambda>n. as_i64 (n - 1)) gauge"

text \<open>The listener's stream of connections, counted as it yields them.\<close>

definition count_connections :: "('e, 'io) result list \<Rightarrow> int option \<Rightarrow> int option" where
  "count_connections incoming gauge =
     fold (\<lambda>connection g. case connection of Inr _ \<Rightarrow> connection_new g | Inl _ \<Rightarrow> g) incoming gauge"

text \<open>
  The listener yields connections (an error it yields is passed on and not counted), and each ends at some
  later point: the state is the gauge and the connections still open.
\<close>

inductive counted :: "bool \<Rightarrow> int option \<Rightarrow> 'io list \<Rightarrow> bool" for registered where
  listening: "counted registered (register_connections registered) []"
| accepted: "counted registered g live \<Longrightarrow> counted registered (connection_new g) (io # live)"
| closed: "counted registered g (xs @ io # ys) \<Longrightarrow> counted registered (connection_drop g) (xs @ ys)"


section \<open>Properties\<close>

lemma char_find_Some:
  "char_find c s = Some i \<longleftrightarrow> i < length s \<and> s ! i = c \<and> c \<notin> set (take i s)"
  by (induction s arbitrary: i) (auto simp: nth_Cons split: nat.splits)

lemma char_find_hit: "c \<in> set s \<Longrightarrow> \<exists>i. char_find c s = Some i"
  by (induction s) auto

lemma fold_insert_set: "fold (\<lambda>x. insert (f x)) xs A = A \<union> f ` set xs"
  by (induction xs arbitrary: A) auto

definition set_paths :: "file_descriptor list \<Rightarrow> string set" where
  "set_paths files = (\<Union>file \<in> set files. \<Union>service \<in> set (fd_services file).
     (\<lambda>rpc. method_path (qualified_name (or_default (fd_package file)) (or_default (sv_name service)))
       (or_default (md_name rpc))) ` set (sv_methods service))"

lemma fold_union: "(\<And>x A. g x A = A \<union> F x) \<Longrightarrow> fold g xs A = A \<union> (\<Union>x \<in> set xs. F x)"
  by (induction xs arbitrary: A) auto

lemma collect_paths_eq:
  "collect_method_paths decode descriptor_set paths = Inr r \<longleftrightarrow>
     (\<exists>files. decode descriptor_set = Inr files \<and> r = paths \<union> set_paths files)"
proof -
  have "fold (\<lambda>file. fold (\<lambda>service. fold (\<lambda>rpc.
      insert (method_path (qualified_name (or_default (fd_package file)) (or_default (sv_name service)))
        (or_default (md_name rpc)))) (sv_methods service)) (fd_services file)) files paths =
      paths \<union> set_paths files" for files
    by (simp add: fold_union [OF fold_union [OF fold_insert_set]] set_paths_def)
  then show ?thesis by (auto simp: collect_method_paths_def result_simps)
qed

lemma finite_set_paths: "finite (set_paths files)"
  by (simp add: set_paths_def)

text \<open>Every path of the form \<^verbatim>\<open>/service/method\<close> is split at the slash after its service.\<close>

lemma method_path_splits:
  "\<exists>service rpc. method_path q m = ''/'' @ service @ ''/'' @ rpc \<and>
     label_separator (method_path q m) = Some (Suc (length service)) \<and> CHR ''/'' \<notin> set service"
proof -
  define rest where "rest = q @ ''/'' @ m"
  have path: "method_path q m = ''/'' @ rest" by (simp add: method_path_def rest_def)
  obtain j where j: "char_find (CHR ''/'') rest = Some j"
    using char_find_hit [of "CHR ''/''" rest] by (auto simp: rest_def)
  then have at: "j < length rest" "rest ! j = CHR ''/''" "CHR ''/'' \<notin> set (take j rest)"
    unfolding char_find_Some by blast+
  have "rest = take j rest @ ''/'' @ drop (Suc j) rest"
    using id_take_nth_drop [OF at(1)] at(2) by simp
  moreover have "label_separator (method_path q m) = Some (Suc (length (take j rest)))"
    using j at(1) by (simp add: path label_separator_def strip_prefix_def)
  ultimately show ?thesis using at(3) path by metis
qed

lemma unknown_path: "UNKNOWN_PATH = method_path ''unknown'' ''unknown''"
  by (simp add: UNKNOWN_PATH_def method_path_def)

text \<open>
  C31: a client cannot mint metric labels. The served methods are those of the two descriptor sets, and
  whatever verb and path requests carry, they are recorded under at most two label pairs more than there
  are served methods: a request is recorded under its own path only when it is a POST of a served method,
  and otherwise under the one unknown path; and every path recorded splits at the separator handed along
  into a service without a slash and a method.
\<close>

theorem labels_bounded:
  assumes "served_methods decode own reflection = Inr served"
  shows "(\<exists>files files'. decode own = Inr files \<and> decode reflection = Inr files' \<and> served = set_paths (files @ files')) \<and>
    card (range (\<lambda>(verb, path). normalized_labels served verb path)) \<le> card served + 2 \<and>
    (\<forall>verb path.
       normalized_labels served verb path =
         (if verb = ''POST'' \<and> path \<in> served then (verb, path)
          else (if verb = ''POST'' then verb else OTHER_VERB, UNKNOWN_PATH)) \<and>
       (\<exists>service rpc. recorded_labels served verb path =
          (fst (normalized_labels served verb path), ''/'' @ service @ ''/'' @ rpc, Some (Suc (length service))) \<and>
          CHR ''/'' \<notin> set service))"
proof (intro conjI allI)
  show own: "\<exists>files files'. decode own = Inr files \<and> decode reflection = Inr files' \<and> served = set_paths (files @ files')"
    using assms by (auto simp: served_methods_def collect_paths_eq result_simps set_paths_def)
  then have finite: "finite served" using finite_set_paths by auto
  have "range (\<lambda>(verb, path). normalized_labels served verb path) \<subseteq>
      {(OTHER_VERB, UNKNOWN_PATH), (''POST'', UNKNOWN_PATH)} \<union> Pair ''POST'' ` served" (is "_ \<subseteq> ?labels")
    by (auto simp: normalized_labels_def split: if_splits)
  then have "card (range (\<lambda>(verb, path). normalized_labels served verb path)) \<le> card ?labels"
    using finite by (intro card_mono) auto
  also have "\<dots> \<le> card {(OTHER_VERB, UNKNOWN_PATH), (''POST'', UNKNOWN_PATH)} + card (Pair ''POST'' ` served)"
    by (rule card_Un_le)
  also have "\<dots> \<le> 2 + card served"
    using finite by (intro add_mono card_image_le) (auto simp: card_insert_if)
  finally show "card (range (\<lambda>(verb, path). normalized_labels served verb path)) \<le> card served + 2" by simp
  show "normalized_labels served verb path =
      (if verb = ''POST'' \<and> path \<in> served then (verb, path)
       else (if verb = ''POST'' then verb else OTHER_VERB, UNKNOWN_PATH))" for verb path
    by (simp add: normalized_labels_def)
  show "\<exists>service rpc. recorded_labels served verb path =
      (fst (normalized_labels served verb path), ''/'' @ service @ ''/'' @ rpc, Some (Suc (length service))) \<and>
      CHR ''/'' \<notin> set service" for verb path
  proof -
    have "\<exists>q m. snd (normalized_labels served verb path) = method_path q m"
      using own unknown_path by (auto simp: normalized_labels_def set_paths_def)
    then obtain q m where "normalized_labels served verb path = (fst (normalized_labels served verb path), method_path q m)"
      by (metis prod.collapse)
    moreover from method_path_splits [of q m] obtain service rpc where "method_path q m = ''/'' @ service @ ''/'' @ rpc"
      "label_separator (method_path q m) = Some (Suc (length service))" "CHR ''/'' \<notin> set service" by blast
    ultimately show ?thesis
      by (cases "normalized_labels served verb path") (auto simp: recorded_labels_def)
  qed
qed

definition ref_descriptors :: "file_descriptor list" where
  "ref_descriptors = [\<lparr>fd_package = Some ''rpc'', fd_services =
     [\<lparr>sv_name = Some ''Streamer'', sv_methods = [\<lparr>md_name = Some ''Ping''\<rparr>]\<rparr>]\<rparr>]"

theorem labels_bounded_witness:
  "card (range (\<lambda>(verb, path). normalized_labels {''/rpc.Streamer/Ping''} verb path)) \<le> 3"
proof -
  have "served_methods (\<lambda>d. Inr d :: (unit, _) result) ref_descriptors [] = Inr {''/rpc.Streamer/Ping''}"
    by (simp add: served_methods_def collect_method_paths_def ref_descriptors_def or_default_def qualified_name_def
        method_path_def)
  from conjunct1 [OF conjunct2 [OF labels_bounded [OF this]]] show ?thesis by simp
qed

text \<open>The gauge is the number of open connections, however accepts, refusals and closes interleave.\<close>

lemma as_i64_add: "as_i64 (as_i64 x + y) = as_i64 (x + y)"
  by (simp add: as_i64_def algebra_simps mod_simps)

lemma gauge_counts_connections:
  "counted registered g live \<Longrightarrow> g = (if registered then Some (as_i64 (int (length live))) else None)"
proof (induction rule: counted.induct)
  case listening
  then show ?case by (simp add: register_connections_def as_i64_def)
next
  case (accepted g live io)
  then show ?case using as_i64_add [of "int (length live)" 1] by (simp add: connection_new_def add.commute)
next
  case (closed g xs io ys)
  then show ?case
    using as_i64_add [of "1 + (int (length xs) + int (length ys))" "-1"] by (auto simp: connection_drop_def)
qed

lemma count_connections_counted:
  "counted registered g live \<Longrightarrow>
     counted registered (count_connections incoming g) (rev (List.map_filter (\<lambda>c. case c of Inr io \<Rightarrow> Some io | Inl _ \<Rightarrow> None) incoming) @ live)"
proof (induction incoming arbitrary: g live)
  case (Cons c incoming)
  show ?case
  proof (cases c)
    case (Inr io)
    then show ?thesis
      using Cons.IH [OF counted.accepted [OF Cons.prems, of io]] by (simp add: count_connections_def map_filter_simps)
  qed (use Cons in \<open>simp add: count_connections_def map_filter_simps\<close>)
qed (simp add: count_connections_def map_filter_simps)

end
