(* ===== verification/Transport.thy ===== *)
theory Transport
  imports Startup Config_Props Metrics Readstate Darkside_Node
begin

text \<open>
  The rest of src/lib.rs: the middleware stack of the server and its CORS policy, the choice of the backend,
  and the components of the darkside mode. Sockets, TLS, the gRPC library and the signals stay outside; what
  the builders are told is a record.
\<close>

section \<open>The server\<close>

record cors_policy =
  co_allow_origin :: "string \<Rightarrow> bool"
  co_allow_methods :: "string list"
  co_allow_headers :: "string list"
  co_expose_headers :: "string list"
  co_max_age :: nat

definition GRPC_WEB_PREFLIGHT_MAX_AGE :: nat where
  "GRPC_WEB_PREFLIGHT_MAX_AGE = 3600"

definition cors_layer :: "grpc_web_origins \<Rightarrow> cors_policy" where
  "cors_layer origins = \<lparr>
     co_allow_origin = (case origins of
         AnyOrigin \<Rightarrow> (\<lambda>origin. True)
       | OnlyOrigins allowed \<Rightarrow> (\<lambda>origin. list_ex (\<lambda>candidate. candidate = origin) allowed)),
     co_allow_methods = [''POST''],
     co_allow_headers = [''content-type'', ''accept'', ''authorization'', ''x-grpc-web'', ''x-user-agent'',
        ''grpc-timeout'', ''grpc-encoding'', ''grpc-accept-encoding''],
     co_expose_headers = [''grpc-status'', ''grpc-message'', ''grpc-status-details-bin'', ''grpc-encoding'',
        ''grpc-accept-encoding''],
     co_max_age = GRPC_WEB_PREFLIGHT_MAX_AGE\<rparr>"

text \<open>The layers from the outermost in; an absent one passes everything through.\<close>

record server_stack =
  st_concurrency_limit :: usize
  st_max_concurrent_streams :: u32
  st_keepalive_interval :: nat
  st_keepalive_timeout :: nat
  st_accept_http1 :: bool
  st_cors :: "cors_policy option"
  st_metrics :: "string set option"
  st_grpc_web :: bool

definition server_builder ::
    "('e, string set) result \<Rightarrow> server_limits \<Rightarrow> grpc_web_origins option \<Rightarrow> bool \<Rightarrow> ('e, server_stack) result" where
  "server_builder served limits grpc_web metrics_enabled =
     bindE (if metrics_enabled then bindE served (\<lambda>s. Inr (Some s)) else Inr None) (\<lambda>metrics_layer.
       Inr \<lparr>st_concurrency_limit = sl_max_concurrent_streams limits,
            st_max_concurrent_streams = sl_max_concurrent_streams limits,
            st_keepalive_interval = sl_keepalive_interval limits,
            st_keepalive_timeout = sl_keepalive_timeout limits,
            st_accept_http1 = (grpc_web \<noteq> None),
            st_cors = map_option cors_layer grpc_web,
            st_metrics = metrics_layer,
            st_grpc_web = (grpc_web \<noteq> None)\<rparr>)"

definition run_server :: "('e, string set) result \<Rightarrow> config \<Rightarrow> ('e, server_stack) result" where
  "run_server served config =
     server_builder served (cf_limits config) (cf_grpc_web config) (cf_metrics_bind config \<noteq> None)"


section \<open>The backend\<close>

text \<open>
  Opening zebra's state, with the network it is opened for, is third-party and may fail: the argument
  \<^verbatim>\<open>open_state\<close>. \<^verbatim>\<open>readstate_feature\<close> tells whether the build has the backend at all.
\<close>

definition readstate_network :: "string \<Rightarrow> (string, network_kind) result" where
  "readstate_network chain =
     (if chain = ''main'' then Inr Mainnet
      else if chain = ''test'' then Inr (Testnet True False)
      else Inl ''readstate backend does not support chain {other:?}'')"

definition readstate_node ::
    "'x hex_ext_scheme \<Rightarrow> (network_kind \<Rightarrow> string option \<Rightarrow> string \<Rightarrow> (string, zebra_ext) result) \<Rightarrow> string option \<Rightarrow> string
      \<Rightarrow> node_rpc \<Rightarrow> get_blockchain_info \<Rightarrow> (string, node_rpc) result" where
  "readstate_node X open_state state_dir indexer rpc chain_info =
     bindE (readstate_network (gbi_chain chain_info)) (\<lambda>network.
     bindE (open_state network state_dir indexer) (\<lambda>Z.
       Inr (zebra_state_node X Z rpc)))"

definition select_node ::
    "'x hex_ext_scheme \<Rightarrow> bool \<Rightarrow> (network_kind \<Rightarrow> string option \<Rightarrow> string \<Rightarrow> (string, zebra_ext) result) \<Rightarrow> config
      \<Rightarrow> node_rpc \<Rightarrow> get_blockchain_info \<Rightarrow> (string, node_rpc) result" where
  "select_node X readstate_feature open_state config rpc chain_info =
     (case cf_backend config of
        RpcBackend \<Rightarrow> Inr rpc
      | ReadstateBackend state_dir indexer_url \<Rightarrow>
          if readstate_feature then readstate_node X open_state state_dir indexer_url rpc chain_info
          else Inl ''--backend readstate requires a build with the `readstate` cargo feature'')"


section \<open>Darkside mode\<close>

record ('b, 'm) darkside_server =
  ds_streamer :: streamer
  ds_cache :: "('b, 'm) db"
  ds_state :: darkside_state

definition darkside_components ::
    "('b, 'm) cache_ext \<Rightarrow> faults \<Rightarrow> 'b option \<Rightarrow> 'm option \<Rightarrow> (cache_error, ('b, 'm) darkside_server) result" where
  "darkside_components E flt stored_blocks stored_meta =
     bindE (cache_open E flt stored_blocks stored_meta) (\<lambda>cache.
       Inr \<lparr>ds_streamer = streamer_new ''main'' True, ds_cache = cache, ds_state = darkside_new\<rparr>)"

definition run_darkside ::
    "('b, 'm) cache_ext \<Rightarrow> faults \<Rightarrow> config \<Rightarrow> 'b option \<Rightarrow> 'm option \<Rightarrow> (cache_error, ('b, 'm) darkside_server) result" where
  "run_darkside E flt config stored_blocks stored_meta =
     bindE (darkside_components E flt stored_blocks stored_meta) (\<lambda>components.
       Inr (components\<lparr>ds_streamer :=
         with_donation_address (with_ping_enabled (ds_streamer components) (cf_ping_enable config))
           (cf_donation_address config)\<rparr>))"


section \<open>Properties\<close>

text \<open>The mock server starts over an empty cache and without an ingest floor.\<close>

lemma run_darkside_fresh:
  assumes "cache_contract E" and "run_darkside E flt config None None = Inr ds"
  shows "stores E (db_blocks (ds_cache ds)) []" and "sr_ingest_floor (ds_streamer ds) = None"
    and "ds_state ds = darkside_new"
proof -
  have "tbl_iter (blocks_ops E) (tbl_empty (blocks_ops E)) = []"
    by (rule ordered_table.iter_empty [OF cache_contract.blocks_table [OF assms(1)]])
  then show "stores E (db_blocks (ds_cache ds)) []" "sr_ingest_floor (ds_streamer ds) = None" "ds_state ds = darkside_new"
    using assms(2)
    by (auto simp: run_darkside_def darkside_components_def cache_open_def stores_def streamer_new_def
        with_donation_address_def with_ping_enabled_def result_simps)
qed



end
