(* ===== verification/Snapshot_Publish.thy ===== *)
theory Snapshot_Publish
  imports Snapshot_Serve
begin

text \<open>
  The publisher gets there: over a cache that holds a chain, with no failing store call, every completed
  epoch has a digest computed for it, the maintenance walk stores one per pass until none is missing, and
  the manifest then lists them all in order. The counterpart on the importing side is \<^verbatim>\<open>Snapshot_Sync\<close>.
\<close>

section \<open>Every completed epoch can be digested\<close>

lemma digest_fold_complete:
  assumes "list_all2 (decodes_to E) es bs" and "\<forall>e \<in> set es. length (snd e) \<le> u32_max"
  shows "\<exists>c' a'. foldE (\<lambda>(height, raw) s. bindE (map_err SnapCache (redb_try no_faults (TableNext height))) (\<lambda>_.
      (\<lambda>(out, t, written). bindE (write_record digest_write raw out) (\<lambda>out.
         bindE (digest_block E height raw t) (\<lambda>t. Inr (out, t, u64_add written 1)))) s)) es (c, a, n) =
    Inr (c', a', if es = [] then n else u64_add n (length es))"
  using assms
proof (induction es bs arbitrary: c a n rule: list_all2_induct)
  case (Cons e es b bs)
  obtain h raw where e: "e = (h, raw)" by (cases e)
  obtain c1 where c1: "write_record digest_write raw c = Inr c1"
    using Cons.prems e by (auto simp: digest_record)
  obtain a1 where a1: "digest_block E h raw a = Inr a1"
    using Cons.hyps(1) e by (auto simp: digest_block_Inr)
  from Cons.IH [of c1 a1 "u64_add n 1"] Cons.prems show ?case
    by (auto simp: e c1 a1 u64_add_assoc)
qed simp

text \<open>A cache with something to publish: a stored chain of encodable blocks.\<close>

definition publishable :: "('b, 'm) cache_ext \<Rightarrow> ('b, 'm) db \<Rightarrow> compact_block list \<Rightarrow> string \<Rightarrow> bool" where
  "publishable E d cached chain \<longleftrightarrow> stores E (db_blocks d) cached \<and> cached \<noteq> [] \<and> chain_name_ok chain \<and>
     (\<forall>e \<in> set (tbl_iter (blocks_ops E) (db_blocks d)). length (snd e) \<le> u32_max)"

text \<open>The epochs the tip has left behind.\<close>

definition completed :: "compact_block list \<Rightarrow> u64 list" where
  "completed cached = [epoch_index (cb_height (hd cached))..<epoch_index (cb_height (last cached))]"

lemma completed_bounds:
  assumes "stores E t cached" and "cached \<noteq> []" and "i \<in> set (completed cached)"
  shows "cb_height (hd cached) \<le> epoch_last_height i" and "epoch_last_height i < cb_height (last cached)"
    and "epoch_first_height i \<le> epoch_last_height i" and "i < u64_max"
proof -
  have top: "cb_height (last cached) < u64_max" and base: "cb_height (hd cached) \<le> u64_max"
    using assms(1,2) by (simp_all add: stores_def less_imp_le)
  have i: "epoch_index (cb_height (hd cached)) \<le> i" "i < epoch_index (cb_height (last cached))"
    using assms(3) by (simp_all add: completed_def)
  then show "epoch_last_height i < cb_height (last cached)" using epoch_last_below top by simp
  have "\<not> epoch_last_height i < cb_height (hd cached)"
    using i(1) epoch_index_less_iff [OF base, of i] by simp
  then show "cb_height (hd cached) \<le> epoch_last_height i" by simp
  show "epoch_first_height i \<le> epoch_last_height i"
    by (simp add: epoch_first_height_def epoch_last_height_def sat_add64_def sat_mul64_def EPOCH_SIZE_def)
  show "i < u64_max" using i(2) top by (simp add: epoch_index_def EPOCH_SIZE_def)
qed

lemma epoch_span_length: "epoch_first_height i \<le> lo \<Longrightarrow> epoch_last_height i - lo < EPOCH_SIZE"
  by (simp add: epoch_first_height_def epoch_last_height_def sat_add64_def sat_mul64_def EPOCH_SIZE_def)

lemma epoch_span_small: "epoch_first_height i \<le> lo \<Longrightarrow> epoch_last_height i - lo < u32_max"
  using epoch_span_length [of i lo] by (simp add: EPOCH_SIZE_def u32_max_def)

context cache_contract
begin

lemma publishable_range:
  assumes "publishable E d cached chain"
  shows "cache_range E no_faults d = Inr (Some (cb_height (hd cached), cb_height (last cached)))"
  using cache_range_eq [of d cached] assms by (simp add: publishable_def)

text \<open>A span within a stored chain has an entry for every height.\<close>

lemma span_heights:
  assumes st: "stores E (db_blocks d) cached" "cached \<noteq> []" and "low \<le> high" and "cb_height (hd cached) \<le> low"
    and "high \<le> cb_height (last cached)"
  shows "map fst (span_entries E d low high) = [low..<Suc high]"
proof -
  let ?base = "cb_height (hd cached)" and ?tip = "cb_height (last cached)"
  have cont: "contiguous cached" and pos: "0 < length cached" using st by (simp_all add: stores_def)
  have tip: "Suc ?tip = ?base + length cached" using contiguous_last [OF cont st(2)] pos by linarith
  have "set (map fst (tbl_iter (blocks_ops E) (db_blocks d))) = {?base..?tip}"
    unfolding stores_keys [OF st(1)] contiguous_heights [OF cont] heights_from_def
      atLeastLessThanSuc_atLeastAtMost [symmetric] tip by simp
  then have "{low..high} \<subseteq> {k \<in> fst ` set (tbl_iter (blocks_ops E) (db_blocks d)). low \<le> k \<and> k \<le> high}"
    using assms(4,5) by auto
  also have "... = set (map fst (span_entries E d low high))"
    by (force simp: span_entries_def blk.range_iter)
  finally have "{low..high} \<subseteq> set (map fst (span_entries E d low high))" .
  from card_mono [OF _ this] have "Suc (high - low) \<le> length (span_entries E d low high)"
    using assms(3) card_length [of "map fst (span_entries E d low high)"] by simp
  then have "length (span_entries E d low high) = Suc (high - low)"
    using span_length_bound [of d low high] by simp
  from span_keys [OF this assms(3)] show ?thesis .
qed

lemma publishable_span:
  assumes "publishable E d cached chain" and "cb_height (hd cached) \<le> low" and "low \<le> high"
    and "high \<le> cb_height (last cached)" and "high - low < u32_max"
  shows "full_span E d low high"
  using span_heights [OF _ _ assms(3,2,4), of d] assms(1,3,5)
  by (auto simp: full_span_def publishable_def span_entries_def blk.range_iter simp del: upt_Suc)

lemma span_decodes:
  assumes "stores E (db_blocks d) cached"
  shows "list_all2 (decodes_to E) (span_entries E d low high)
    (filter (\<lambda>b. low \<le> cb_height b \<and> cb_height b \<le> high) cached)"
proof -
  have "list_all2 (decodes_to E) (filter (\<lambda>e. low \<le> fst e \<and> fst e \<le> high) es)
      (filter (\<lambda>b. low \<le> cb_height b \<and> cb_height b \<le> high) cs)" if "list_all2 (decodes_to E) es cs" for es cs
    using that by (induction rule: list_all2_induct) (auto simp: decodes_to_def)
  then show ?thesis using assms by (simp add: span_entries_def blk.range_iter stores_def)
qed

lemma compute_digest_complete:
  assumes "publishable E d cached chain" and "i \<in> set (completed cached)"
  shows "\<exists>row. compute_epoch_digest E X no_faults no_faults d d chain i = Inr (Some row) \<and>
    er_start row = max (epoch_first_height i) (cb_height (hd cached))"
proof -
  let ?lo = "max (epoch_first_height i) (cb_height (hd cached))" and ?hi = "epoch_last_height i"
  have st: "stores E (db_blocks d) cached" "cached \<noteq> []" and name: "chain_name_ok chain"
    using assms(1) by (simp_all add: publishable_def)
  note b = completed_bounds [OF st assms(2)]
  have full: "full_span E d ?lo ?hi"
    using b by (intro publishable_span [OF assms(1)] epoch_span_small) auto
  have len: "length (span_entries E d ?lo ?hi) = Suc (?hi - ?lo)"
    using full by (metis Suc_diff_le full_span_def length_map length_upt)
  then have ne: "span_entries E d ?lo ?hi \<noteq> []" by auto
  have count: "u64_add 0 (length (span_entries E d ?lo ?hi)) = Suc (?hi - ?lo)"
    using len full by (simp add: u64_add_def full_span_def u32_max_def)
  obtain c0 where hdr: "write_header digest_write chain ?lo (Suc (?hi - ?lo)) digest_new = Inr c0"
    using name by (auto simp: digest_header chain_name_ok_def)
  obtain c a where "for_each_raw E no_faults d ?lo ?hi SnapCache
      (\<lambda>height raw (out, t, written).
         bindE (write_record digest_write raw out) (\<lambda>out.
         bindE (digest_block E height raw t) (\<lambda>t. Inr (out, t, u64_add written 1)))) (c0, [], 0) =
      Inr (c, a, Suc (?hi - ?lo))"
    using digest_fold_complete [OF span_decodes [OF st(1)], of ?lo ?hi c0 "[]" 0] full ne count
    by (auto simp: for_each_raw_def span_entries_def full_span_def)
  moreover have "low \<le> high \<and> high - low < u32_max \<Longrightarrow> (case checked_sub high low of None \<Rightarrow> None
      | Some span \<Rightarrow> (case checked_add64 span 1 of None \<Rightarrow> None
           | Some cnt \<Rightarrow> if cnt \<le> u32_max then Some cnt else None)) = Some (Suc (high - low))" for low high
    by (simp only: epoch_count)
  ultimately have "write_body E no_faults d chain ?lo ?hi digest_write (digest_block E) digest_new [] = Inr (c, a)"
    using full hdr by (simp add: write_body_def full_span_def del: One_nat_def)
  then show ?thesis
    using b publishable_range [OF assms(1)]
    by (simp add: compute_epoch_digest_def complete_epoch_bounds_def cache_try_def digest_finish_def Let_def)
qed

end


section \<open>The maintenance walk stores them all\<close>

text \<open>The loop of the maintenance task over a cache nothing else writes to: the database after some passes.\<close>

primrec maintain ::
    "('b, 'm) cache_ext \<Rightarrow> 'x parse_ext_scheme \<Rightarrow> string \<Rightarrow> nat \<Rightarrow> ('b, 'm) db \<Rightarrow> ('b, 'm) db" where
  "maintain E X chain 0 d = d"
| "maintain E X chain (Suc n) d =
     maintain E X chain n (snd (maintain_pass E X (quiet_views d) None chain default_maintenance))"

text \<open>Metadata that holds the snapshot base and digest rows only; and the rows of exactly the given epochs.\<close>

definition meta_clean :: "('b, 'm) cache_ext \<Rightarrow> ('b, 'm) db \<Rightarrow> bool" where
  "meta_clean E d \<longleftrightarrow> (\<forall>e \<in> set (tbl_iter (meta_ops E) (db_meta d)).
     fst e = SNAPSHOT_BASE_HEIGHT \<or> (\<exists>i \<le> u64_max. fst e = epoch_digest_key i))"

definition digested :: "('b, 'm) cache_ext \<Rightarrow> ('b, 'm) db \<Rightarrow> u64 set \<Rightarrow> (u64 \<Rightarrow> epoch_row) \<Rightarrow> bool" where
  "digested E d I rows \<longleftrightarrow> meta_clean E d \<and>
     (\<forall>i \<le> u64_max. epoch_digest E no_faults d i = Inr (if i \<in> I then Some (row_encode (rows i)) else None))"

context cache_contract
begin

lemma digested_insert:
  assumes "digested E d I rows" and "i \<le> u64_max"
    and "set_epoch_digest E no_faults d i (row_encode (rows i)) = Inr d'"
  shows "digested E d' (insert i I) rows"
proof -
  have d': "db_meta d' = tbl_insert (meta_ops E) (db_meta d) (epoch_digest_key i) (row_encode (rows i))"
    using assms(3) by (auto simp: set_epoch_digest_def result_simps)
  have clean: "meta_clean E d'"
    unfolding meta_clean_def
  proof
    fix e
    assume "e \<in> set (tbl_iter (meta_ops E) (db_meta d'))"
    then have "fst e = epoch_digest_key i \<or> e \<in> set (tbl_iter (meta_ops E) (db_meta d))"
      unfolding d' mta.insert_iter by auto
    then show "fst e = SNAPSHOT_BASE_HEIGHT \<or> (\<exists>i \<le> u64_max. fst e = epoch_digest_key i)"
      using assms(1,2) unfolding digested_def meta_clean_def by blast
  qed
  have "epoch_digest_key j = epoch_digest_key i \<longleftrightarrow> j = i" if "j \<le> u64_max" for j
    using epoch_digest_index_key [OF that] epoch_digest_index_key [OF assms(2)] by (metis option.inject)
  then show ?thesis
    using assms(1) clean by (auto simp: digested_def tbl_get_meta_digest d' mta.get_insert)
qed

lemma publishable_blocks: "db_blocks d' = db_blocks d \<Longrightarrow> publishable E d' = publishable E d"
  by (simp add: publishable_def fun_eq_iff)

lemma compute_digest_blocks:
  assumes "db_blocks d' = db_blocks d"
  shows "compute_epoch_digest E X flt flt' d' d' chain i = compute_epoch_digest E X flt flt' d d chain i"
  unfolding compute_epoch_digest_def complete_epoch_bounds_def cache_range_def write_body_def for_each_raw_def assms
  by (rule refl)

text \<open>One pass stores the lowest missing row.\<close>

lemma maintain_pass_stores:
  assumes "publishable E d cached chain" and "completed cached = [a..<b]" and "digested E d {a..<i} rows"
    and "a \<le> i" and "i < b"
    and "compute_epoch_digest E X no_faults no_faults d d chain i = Inr (Some (rows i))"
  shows "\<exists>d'. maintain_pass E X (quiet_views d) None chain default_maintenance = (250, d') \<and>
    db_blocks d' = db_blocks d \<and> digested E d' {a..<Suc i} rows"
proof -
  have st: "stores E (db_blocks d) cached" "cached \<noteq> []" using assms(1) by (simp_all add: publishable_def)
  have iu: "i \<le> u64_max" using completed_bounds(4) [OF st, of i] assms(2,4,5) by simp
  have none: "epoch_digest E no_faults d j = Inr (if j < i then Some (row_encode (rows j)) else None)" if "j \<in> set [a..<Suc i]" for j
    using assms(3,4) that iu by (auto simp: digested_def)
  have "find (\<lambda>i. epoch_digest E no_faults d i = Inr None) [a..<b] = Some i"
    using none assms(4,5) by (auto simp: find_upt)
  then have "next_pending_epoch E no_faults d (\<lambda>_. (no_faults, d)) = Inr (Some i)"
    using next_pending_lowest [OF cache_contract_axioms st] assms(2) by (simp add: completed_def)
  moreover obtain d' where d': "set_epoch_digest E no_faults d i (row_encode (rows i)) = Inr d'"
    by (simp add: set_epoch_digest_def)
  ultimately have "store_next_epoch_digest E X (quiet_views d) chain = Inr (Some i, d')"
    using publishable_range [OF assms(1)] assms(6)
    by (simp add: store_next_epoch_digest_def quiet_views_def cache_try_def was_truncated_same)
  moreover have "insert i {a..<i} = {a..<Suc i}" using assms(4) by auto
  ultimately show ?thesis
    using stored_row(1) [OF d'] digested_insert [OF assms(3) iu d']
    by (simp add: maintain_pass_def default_maintenance_def)
qed

lemma maintain_digests:
  assumes "publishable E d cached chain" and "completed cached = [a..<b]" and "digested E d {a..<i} rows"
    and "a \<le> i" and "i + n = b"
    and "\<forall>j \<in> {a..<b}. compute_epoch_digest E X no_faults no_faults d d chain j = Inr (Some (rows j))"
  shows "db_blocks (maintain E X chain n d) = db_blocks d \<and> digested E (maintain E X chain n d) {a..<b} rows"
  using assms(1,3-6)
proof (induction n arbitrary: d i)
  case (Suc n)
  have "i < b" using Suc.prems by simp
  then have "compute_epoch_digest E X no_faults no_faults d d chain i = Inr (Some (rows i))"
    using Suc.prems(3,5) by simp
  from maintain_pass_stores [OF Suc.prems(1) assms(2) Suc.prems(2,3) \<open>i < b\<close> this]
  obtain d' where d': "maintain_pass E X (quiet_views d) None chain default_maintenance = (250, d')"
    "db_blocks d' = db_blocks d" "digested E d' {a..<Suc i} rows" by blast
  from Suc.IH [OF _ d'(3)] Suc.prems show ?case
    by (simp add: d'(1,2) publishable_blocks [OF d'(2)] compute_digest_blocks [OF d'(2)])
qed simp

lemma digested_listing:
  assumes "digested E d {a..<b} rows" and "b \<le> u64_max"
  shows "epoch_digests E no_faults d = Inr (map (\<lambda>i. (i, row_encode (rows i))) [a..<b])"
proof -
  have clean: "meta_clean E d" using assms(1) by (simp add: digested_def)
  from epoch_digests_listing [OF cache_contract_axioms clean [unfolded meta_clean_def]] obtain ds where
    ds: "epoch_digests E no_faults d = Inr ds" "sorted_wrt (<) (map fst ds)" "\<forall>e \<in> set ds. fst e \<le> u64_max"
    and mem: "\<And>i v. i \<le> u64_max \<Longrightarrow> (i, v) \<in> set ds \<longleftrightarrow> epoch_digest E no_faults d i = Inr (Some v)" by blast
  have row: "(i, v) \<in> set ds \<longleftrightarrow> a \<le> i \<and> i < b \<and> v = row_encode (rows i)" for i v
  proof (cases "i \<le> u64_max")
    case True
    then show ?thesis using mem [OF True] assms(1) by (auto simp: digested_def)
  next
    case False
    then show ?thesis using ds(3) assms(2) by fastforce
  qed
  have "i \<in> fst ` set ds \<longleftrightarrow> (\<exists>v. (i, v) \<in> set ds)" for i by force
  then have "set (map fst ds) = set [a..<b]" unfolding row by (simp add: set_eq_iff)
  then have keys: "map fst ds = [a..<b]"
    using ds(2) by (intro strict_sorted_equal) simp_all
  have "map (\<lambda>e. (fst e, row_encode (rows (fst e)))) ds = ds"
  proof (rule map_idI)
    fix e
    assume "e \<in> set ds"
    then show "(fst e, row_encode (rows (fst e))) = e" using row [of "fst e" "snd e"] by (simp add: prod_eq_iff)
  qed
  then have "ds = map (\<lambda>i. (i, row_encode (rows i))) (map fst ds)" by (simp add: comp_def)
  then show ?thesis unfolding keys ds(1) by simp
qed

lemma manifest_digested:
  assumes "publishable E d cached chain" and "digested E d (set (completed cached)) rows"
    and "\<forall>i \<in> set (completed cached). row_decode (row_encode (rows i)) = Some (rows i)"
  shows "manifest_of E X no_faults no_faults d d chain =
    Inr \<lparr>mf_format_version = FORMAT_VERSION, mf_chain = chain, mf_epoch_size = EPOCH_SIZE,
         mf_base_height = cb_height (hd cached), mf_tip_height = cb_height (last cached),
         mf_epochs = map (\<lambda>i. row_entry X (rows i) i) (completed cached)\<rparr>"
proof -
  have "cb_height (last cached) < u64_max" using assms(1) by (simp add: publishable_def stores_def)
  then have "epoch_index (cb_height (last cached)) \<le> u64_max" by (simp add: epoch_index_def EPOCH_SIZE_def)
  then have "epoch_digests E no_faults d = Inr (map (\<lambda>i. (i, row_encode (rows i))) (completed cached))"
    using assms(2) digested_listing by (simp add: completed_def)
  moreover have "mapE (\<lambda>(index, row). bindE (decode_row index row) (\<lambda>digest. Inr (row_entry X digest index)))
      (map (\<lambda>i. (i, row_encode (rows i))) xs) = Inr (map (\<lambda>i. row_entry X (rows i) i) xs)"
    if "set xs \<subseteq> set (completed cached)" for xs
    using that assms(3) by (induction xs) (auto simp: decode_row_def)
  ultimately show ?thesis
    using publishable_range [OF assms(1)] by (simp add: manifest_of_def cache_try_def)
qed

end

end
