(* ===== verification/Snapshot_Sync.thy ===== *)
theory Snapshot_Sync
  imports Import_Props Snapshot_Publish
begin

text \<open>
  Publisher and importer together: the importer's HTTP client reading the publisher's routes. A cache that
  bootstraps from an honest peer over a node on the same chain ends with exactly the peer's blocks of every
  completed epoch, from an empty cache as well as from one that an interrupted import left.
\<close>

section \<open>The client at the other end of the routes\<close>

text \<open>
  What a response is to the client: a failing status is an error that carries it, and a body arrives in
  chunks the network may cut differently. A body that ended early fails where it ends.
\<close>

definition reply_of :: "(bytes list \<Rightarrow> bytes list) \<Rightarrow> http_response \<Rightarrow> http_reply" where
  "reply_of net r =
     (if 400 \<le> hr_status r then Inl (Some (hr_status r))
      else
        (case hr_body r of
           NoBody \<Rightarrow> Inr []
         | Text s \<Rightarrow> Inr (map Inr (net [str_bytes s]))
         | Json body \<Rightarrow> Inr (map Inr (net [body]))
         | Chunks chunks \<Rightarrow> Inr (map Inr (net chunks))
         | CutShort \<Rightarrow> Inr [Inl None]))"

definition quiet_epoch :: "('b, 'm) db \<Rightarrow> ('b, 'm) epoch_env" where
  "quiet_epoch d = \<lparr>ee_handler = (no_faults, d), ee_row = (no_faults, d), ee_body = (no_faults, d), ee_takes = None\<rparr>"

text \<open>The source that reads a peer: its free download slots at each attempt for each epoch are an argument.\<close>

definition peer_source ::
    "('b, 'm) cache_ext \<Rightarrow> 'x parse_ext_scheme \<Rightarrow> (manifest \<Rightarrow> bytes option) \<Rightarrow> (bytes \<Rightarrow> (string, manifest) result)
      \<Rightarrow> (bytes list \<Rightarrow> bytes list) \<Rightarrow> (u64 \<Rightarrow> nat \<Rightarrow> nat) \<Rightarrow> ('b, 'm) db \<Rightarrow> string \<Rightarrow> epoch_source" where
  "peer_source E X to_json from_slice net slots d chain = \<lparr>
     src_manifest = http_manifest from_slice
       (reply_of net (manifest_route E X to_json (no_faults, no_faults) (d, d) chain)),
     src_epoch = (\<lambda>index max_bytes.
       http_epoch (\<lambda>attempt. reply_of net (snd (epoch_route E (quiet_epoch d) chain index (slots index attempt))))
         index max_bytes)\<rparr>"

lemma read_stream_complete:
  "length acc + length (concat chunks) \<le> max_bytes \<Longrightarrow>
     read_stream max_bytes too_long (map Inr chunks) acc = Inr (acc @ concat chunks)"
  by (induction chunks arbitrary: acc) auto

lemma get_capped_complete:
  "length (concat chunks) \<le> max_bytes \<Longrightarrow> get_capped (Inr (map Inr chunks)) max_bytes too_long = Inr (concat chunks)"
  using read_stream_complete [of "[]"] by (simp add: get_capped_def)

lemma epoch_retry_succeeds:
  assumes "fetch_epoch (replies k) index cap = Inr body" and "attempt \<le> k" and "k \<le> attempts"
    and "\<forall>j. attempt \<le> j \<and> j < k \<longrightarrow> (\<exists>e. fetch_epoch (replies j) index cap = Inl e \<and> is_worth_retrying e)"
  shows "fst (epoch_retry replies index cap attempts attempt delay) = Inr body"
  using assms(2,4)
proof (induction "k - attempt" arbitrary: attempt delay)
  case 0
  then show ?case using assms(1) by (simp add: epoch_retry.simps [of _ _ _ _ attempt])
next
  case (Suc n)
  then obtain e where "fetch_epoch (replies attempt) index cap = Inl e" "is_worth_retrying e" by auto
  moreover have "fst (epoch_retry replies index cap attempts (attempt + 1) (delay * 2)) = Inr body"
    using Suc.hyps(2) Suc.prems by (intro Suc.hyps(1)) auto
  moreover have "attempt < attempts" using Suc.hyps(2) assms(3) by simp
  ultimately show ?case by (simp add: epoch_retry.simps [of _ _ _ _ attempt] split_beta)
qed


section \<open>What an honest peer serves\<close>

text \<open>The manifest over the given blocks and digests.\<close>

definition served_manifest ::
    "'x hex_ext_scheme \<Rightarrow> string \<Rightarrow> compact_block list \<Rightarrow> (u64 \<Rightarrow> epoch_row) \<Rightarrow> manifest" where
  "served_manifest X chain cached rows = \<lparr>mf_format_version = FORMAT_VERSION, mf_chain = chain, mf_epoch_size = EPOCH_SIZE,
     mf_base_height = cb_height (hd cached), mf_tip_height = cb_height (last cached),
     mf_epochs = map (\<lambda>i. row_entry X (rows i) i) (completed cached)\<rparr>"

text \<open>
  A peer over a cache that holds the blocks and has the digests of every completed epoch. The serializer
  pair round-trips, the network keeps the bytes of a body, the manifest and every body stay within what the
  importer accepts, and one of the three attempts at each epoch meets a free slot.
\<close>

locale honest_peer = cache_contract E + parse_contract X
  for E :: "('b, 'm) cache_ext" and X :: "'x parse_ext_scheme" +
  fixes d :: "('b, 'm) db" and cached :: "compact_block list" and chain :: string
    and rows :: "u64 \<Rightarrow> epoch_row" and to_json :: "manifest \<Rightarrow> bytes option"
    and from_slice :: "bytes \<Rightarrow> (string, manifest) result" and net :: "bytes list \<Rightarrow> bytes list"
    and slots :: "u64 \<Rightarrow> nat \<Rightarrow> nat"
  assumes publishable: "publishable E d cached chain"
    and linked: "chained cached" "grown cached"
    and digested: "digested E d (set (completed cached)) rows"
    and computed: "i \<in> set (completed cached) \<Longrightarrow>
      compute_epoch_digest E X no_faults no_faults d d chain i = Inr (Some (rows i))"
    and json: "to_json m = Some body \<Longrightarrow> from_slice body = Inr m"
    and network: "concat (net chunks) = concat chunks"
    and manifest_fits: "manifest_of E X no_faults no_faults d d chain = Inr m \<Longrightarrow>
      \<exists>body. to_json m = Some body \<and> length body \<le> MAX_MANIFEST_BYTES"
    and bodies_fit: "i \<in> set (completed cached) \<Longrightarrow>
      length (span_body E d chain (er_start (rows i)) (er_end (rows i))) \<le> MAX_EPOCH_BYTES"
    and slot_free: "\<exists>k \<in> {1..3}. 0 < slots i k"
begin

lemma stored: "stores E (db_blocks d) cached" "cached \<noteq> []"
  using publishable by (simp_all add: publishable_def)

lemma row_bounds:
  assumes "i \<in> set (completed cached)"
  shows "er_start (rows i) = max (epoch_first_height i) (cb_height (hd cached))"
    and "er_end (rows i) = epoch_last_height i" and "er_start (rows i) \<le> er_end (rows i)"
    and "er_bytes (rows i) = length (span_body E d chain (er_start (rows i)) (er_end (rows i)))"
    and "full_span E d (er_start (rows i)) (er_end (rows i))" and "chain_name_ok chain"
proof -
  note sound = compute_digest_sound [OF computed [OF assms]]
  obtain row where "compute_epoch_digest E X no_faults no_faults d d chain i = Inr (Some row)"
    "er_start row = max (epoch_first_height i) (cb_height (hd cached))"
    using compute_digest_complete [OF publishable assms] by blast
  then show "er_start (rows i) = max (epoch_first_height i) (cb_height (hd cached))"
    using computed [OF assms] by simp
  show "er_end (rows i) = epoch_last_height i" "full_span E d (er_start (rows i)) (er_end (rows i))" "chain_name_ok chain"
    using sound by blast+
  then show "er_start (rows i) \<le> er_end (rows i)" by (simp add: full_span_def)
  show "er_bytes (rows i) = length (span_body E d chain (er_start (rows i)) (er_end (rows i)))"
    using sound bodies_fit [OF assms] by (simp add: u64_add_def MAX_EPOCH_BYTES_def)
qed

lemma peer_manifest: "src_manifest (peer_source E X to_json from_slice net slots d chain) = Inr (served_manifest X chain cached rows)"
proof -
  have "\<forall>i \<in> set (completed cached). row_decode (row_encode (rows i)) = Some (rows i)"
    using computed_row_decodes [OF parse_contract_axioms computed] by blast
  then have m: "manifest_of E X no_faults no_faults d d chain = Inr (served_manifest X chain cached rows)"
    unfolding served_manifest_def by (rule manifest_digested [OF publishable digested])
  obtain body where body: "to_json (served_manifest X chain cached rows) = Some body" "length body \<le> MAX_MANIFEST_BYTES"
    using manifest_fits [OF m] by blast
  have "concat (net [body]) = body" using network [of "[body]"] by simp
  then show ?thesis
    using get_capped_complete [of "net [body]" MAX_MANIFEST_BYTES] body json
    by (simp add: peer_source_def manifest_route_def m reply_of_def http_manifest_def)
qed

lemma peer_epoch:
  assumes "i \<in> set (completed cached)"
  shows "src_epoch (peer_source E X to_json from_slice net slots d chain) i (er_bytes (rows i)) =
    Inr (span_body E d chain (er_start (rows i)) (er_end (rows i)))"
proof -
  let ?body = "span_body E d chain (er_start (rows i)) (er_end (rows i))"
  let ?reply = "\<lambda>k. reply_of net (snd (epoch_route E (quiet_epoch d) chain i (slots i k)))"
  have iu: "i \<le> u64_max" using completed_bounds(4) [OF stored assms] by simp
  have row: "epoch_digest E no_faults d i = Inr (Some (row_encode (rows i)))" "row_decode (row_encode (rows i)) = Some (rows i)"
    using digested assms iu computed_row_decodes [OF parse_contract_axioms computed [OF assms]] by (simp_all add: digested_def)
  have "write_epoch E no_faults no_faults d d chain i vec_writer [] = Inr ?body"
    using row write_body_vec [OF row_bounds(6,5) [OF assms]] by (simp add: write_epoch_def cache_try_def decode_row_def)
  then obtain chunks where chunks: "export_chunks E (quiet_epoch d) chain i = Chunks chunks" "concat chunks = ?body"
    using export_chunks_body [of "quiet_epoch d" E chain i ?body] by (auto simp: quiet_epoch_def)
  have free: "fetch_epoch (?reply k) i (er_bytes (rows i)) = Inr ?body" if "0 < slots i k" for k
    using that row chunks network [of chunks] get_capped_complete [of "net chunks"] row_bounds(4) [OF assms]
    by (simp add: epoch_route_def quiet_epoch_def reply_of_def fetch_epoch_def)
  have busy: "\<exists>e. fetch_epoch (?reply k) i (er_bytes (rows i)) = Inl e \<and> is_worth_retrying e" if "slots i k = 0" for k
    using that row by (simp add: epoch_route_def quiet_epoch_def reply_of_def fetch_epoch_def get_capped_def is_worth_retrying_def)
  obtain k where k: "1 \<le> k" "k \<le> 3" "0 < slots i k" using slot_free [of i] by auto
  then have "\<exists>m. (1 \<le> m \<and> 0 < slots i m) \<and> (\<forall>j < m. \<not> (1 \<le> j \<and> 0 < slots i j))"
    unfolding exists_least_iff [of "\<lambda>m. 1 \<le> m \<and> 0 < slots i m", symmetric] by blast
  then obtain m where m: "1 \<le> m" "0 < slots i m" "\<forall>j < m. \<not> (1 \<le> j \<and> 0 < slots i j)" by blast
  have early: "slots i j = 0" if "1 \<le> j" "j < m" for j using m(3) that by simp
  have "\<not> k < m" using m(3) k by blast
  then have "m \<le> 3" using k(2) by simp
  have "fst (epoch_retry ?reply i (er_bytes (rows i)) FETCH_ATTEMPTS 1 RETRY_BACKOFF) = Inr ?body"
    by (rule epoch_retry_succeeds [where replies = ?reply, OF free [OF m(2)] m(1)])
      (simp add: FETCH_ATTEMPTS_def \<open>m \<le> 3\<close>, use early busy in blast)
  then show ?thesis by (simp add: peer_source_def http_epoch_def)
qed

end


section \<open>The import keeps up with it\<close>

lemma filter_split_sorted:
  "sorted (map f xs) \<Longrightarrow> lo \<le> hi \<Longrightarrow>
     filter (\<lambda>x. f x < hi) xs = filter (\<lambda>x. f x < lo) xs @ filter (\<lambda>x. lo \<le> f x \<and> f x < hi) xs"
  for f :: "'a \<Rightarrow> nat"
proof (induction xs)
  case (Cons x xs)
  then have IH: "filter (\<lambda>x. f x < hi) xs = filter (\<lambda>x. f x < lo) xs @ filter (\<lambda>x. lo \<le> f x \<and> f x < hi) xs"
    and le: "\<forall>y \<in> set xs. f x \<le> f y" by simp_all
  show ?case
  proof (cases "f x < lo")
    case False
    then have "filter (\<lambda>x. f x < lo) xs = []" using le by (fastforce simp: filter_empty_conv)
    then show ?thesis using False IH by simp
  qed (use IH Cons.prems in simp)
qed simp

text \<open>The part of a chain below a height.\<close>

definition below :: "compact_block list \<Rightarrow> u64 \<Rightarrow> compact_block list" where
  "below cached h = filter (\<lambda>b. cb_height b < h) cached"

lemma below_prefix: "contiguous cached \<Longrightarrow> \<exists>rest. cached = below cached h @ rest"
  unfolding below_def by (metis contiguous_filter_below takeWhile_dropWhile_id)

lemma below_next:
  assumes "contiguous cached" and "h \<le> h'"
  shows "below cached h' = below cached h @ filter (\<lambda>b. h \<le> cb_height b \<and> cb_height b < h') cached"
  unfolding below_def using strict_sorted_imp_sorted [OF contiguous_sorted [OF assms(1)]] assms(2)
  by (rule filter_split_sorted)

lemma below_base: "contiguous cached \<Longrightarrow> below cached h \<noteq> [] \<Longrightarrow> cb_height (hd cached) < h"
  using contiguous_first [of cached "hd (below cached h)"] hd_in_set [of "below cached h"] by (auto simp: below_def)

lemma below_ends:
  assumes "chained cached" and "cached \<noteq> []" and "cb_height (hd cached) < h" and "h \<le> Suc (cb_height (last cached))"
  shows "below cached h \<noteq> []" and "cb_height (last (below cached h)) = h - 1" and "hd (below cached h) = hd cached"
proof -
  note cont = chained_contiguous [OF assms(1)]
  have "cb_height (hd cached) \<le> h - 1" "h - 1 \<le> cb_height (last cached)" using assms(3,4) by simp_all
  from contiguous_holds [OF cont assms(2) this] obtain b where b: "b \<in> set cached" "cb_height b = h - 1" by blast
  then have in_b: "b \<in> set (below cached h)" using assms(3) by (simp add: below_def)
  then show ne: "below cached h \<noteq> []" by auto
  obtain rest where rest: "cached = below cached h @ rest" using below_prefix [OF cont] by blast
  have "cb_height b \<le> cb_height (last (below cached h))"
    using chained_top [OF _ in_b] assms(1) rest by (metis chained_append)
  moreover have "cb_height (last (below cached h)) < h" using last_in_set [OF ne] by (simp add: below_def)
  ultimately show "cb_height (last (below cached h)) = h - 1" using b(2) assms(3) by simp
  show "hd (below cached h) = hd cached" using rest ne by (metis hd_append2)
qed

lemma filter_from_upt:
  "map fst es = [lo..<hi] \<Longrightarrow> lo \<le> h \<Longrightarrow> filter (\<lambda>e. h \<le> fst e) es = drop (h - lo) es"
proof (induction es arbitrary: lo)
  case (Cons e es)
  have "lo < hi" using Cons.prems(1) by (cases "lo < hi") simp_all
  then have e: "fst e = lo" "map fst es = [Suc lo..<hi]" using Cons.prems(1) by (simp_all add: upt_conv_Cons)
  show ?case
  proof (cases "h = lo")
    case True
    have "fst x \<in> set [Suc lo..<hi]" if "x \<in> set es" for x using that unfolding e(2) [symmetric] by simp
    then have "\<forall>x \<in> set es. lo \<le> fst x" by force
    then show ?thesis using True e(1) by simp
  next
    case False
    then have "h - lo = Suc (h - Suc lo)" using Cons.prems(2) by simp
    then show ?thesis using False e Cons.IH [of "Suc lo"] Cons.prems(2) by simp
  qed
qed simp

text \<open>
  What the importer needs of its own side: a node that answers every height of the chain with the hash of
  its block, lookups that all get done (an epoch takes at most forty batches) and a store that does not fail.
\<close>

definition node_follows :: "'x hex_ext_scheme \<Rightarrow> import_env \<Rightarrow> compact_block list \<Rightarrow> bool" where
  "node_follows X env cached \<longleftrightarrow> (\<exists>f. (\<forall>b \<in> set cached. f (cb_height b) = wire_to_display_hex X (cb_hash b)) \<and>
     (\<forall>i. answers (ie_node env i) {cb_height (hd cached)..cb_height (last cached)} f \<and>
        covers_batches (ie_schedule env i) 40 \<and>
        ie_faults env i = \<lparr>jf_tip = no_faults, jf_get = no_faults, jf_add = no_faults\<rparr>))"

lemma chunks_of_count: "length xs \<le> m * n \<Longrightarrow> length (chunks_of n xs) \<le> m"
proof (induction n xs arbitrary: m rule: chunks_of.induct)
  case (1 n xs)
  show ?case
  proof (cases "xs = [] \<or> n = 0")
    case False
    then obtain m' where "m = Suc m'" using "1.prems" by (cases m) auto
    then have "length (chunks_of n (drop n xs)) \<le> m'" using False "1.prems" by (intro "1.IH") auto
    then show ?thesis using False \<open>m = Suc m'\<close> by (subst chunks_of.simps) simp
  qed (subst chunks_of.simps, simp)
qed

lemma row_entry_sel:
  "en_index (row_entry X row i) = i" "en_start (row_entry X row i) = er_start row"
  "en_end (row_entry X row i) = er_end row" "en_bytes (row_entry X row i) = er_bytes row"
  by (simp_all add: row_entry_def)

lemma answers_mono: "answers node H f \<Longrightarrow> K \<subseteq> H \<Longrightarrow> answers node K f"
  unfolding answers_def by blast

lemma covers_fewer: "covers_batches schedule n \<Longrightarrow> m \<le> n \<Longrightarrow> covers_batches schedule m"
  by (simp add: covers_batches_def)

context cache_contract
begin

lemma junction_accepts:
  assumes "healthy E d bs" and "block_decode E r = Inr b" and "bs \<noteq> [] \<Longrightarrow> cb_height b = Suc (cb_height (last bs))"
    and "bs \<noteq> [] \<Longrightarrow> links (last bs) b \<and> grows (last bs) b"
  shows "check_junction E X \<lparr>jf_tip = no_faults, jf_get = no_faults, jf_add = no_faults\<rparr> d i (Some r) = Inr ()"
proof (cases "bs = []")
  case True
  then show ?thesis
    using assms(1) latest_height_eq [of d "[]" no_faults] by (simp add: check_junction_def healthy_def cache_try_def)
next
  case False
  have st: "stores E (db_blocks d) bs" using assms(1) by (simp add: healthy_def)
  then have "cb_height (last bs) < u64_max" using False by (simp add: stores_def)
  then have "u64_add (cb_height (last bs)) 1 = cb_height b" using assms(3) [OF False] by simp
  then show ?thesis
    using False assms(2,4) stores_find_last [OF st False]
    by (simp add: check_junction_def latest_height_eq [OF st] cache_get_eq [OF st] cache_try_def
        decode_block_Inr [THEN iffD2] check_linkage_ok [THEN iffD2] check_tree_sizes_ok [THEN iffD2])
qed

end

context honest_peer
begin

lemma import_epoch_complete:
  assumes i: "i \<in> set (completed cached)" and h: "er_start (rows i) \<le> h" "h \<le> er_end (rows i)"
    and old: "healthy E d2 (below cached h)" and node: "node_follows X env cached"
  shows "\<exists>d2'. import_epoch E X (peer_source E X to_json from_slice net slots d chain) chain env (row_entry X (rows i) i)
      (if below cached h = [] then None else Some (h - 1)) h d2 = Inr d2' \<and>
    healthy E d2' (below cached (Suc (er_end (rows i))))"
proof -
  let ?lo = "er_start (rows i)" and ?hi = "er_end (rows i)" and ?bs = "below cached h"
  let ?body = "span_body E d chain ?lo ?hi" and ?es = "span_entries E d ?lo ?hi"
  define new where "new = filter (\<lambda>b. h \<le> cb_height b \<and> cb_height b < Suc ?hi) cached"
  note row = row_bounds [OF i]
  have cont: "contiguous cached" using linked by (simp add: chained_contiguous)
  have "cb_height (last cached) < u64_max" using stored by (simp add: stores_def)
  then have top: "?hi < cb_height (last cached)" "?hi < u64_max"
    using completed_bounds(2) [OF stored i] row(2) by simp_all
  have whole: "below cached (Suc ?hi) = ?bs @ new" unfolding new_def using h by (intro below_next [OF cont]) simp
  then obtain rest where whole_rest: "cached = (?bs @ new) @ rest" using below_prefix [OF cont] by metis
  then have chain: "chained (?bs @ new)" "grown (?bs @ new)" using linked by (metis chained_append, metis grown_append)
  obtain f where f: "\<forall>b \<in> set cached. f (cb_height b) = wire_to_display_hex X (cb_hash b)"
    "answers (ie_node env i) {cb_height (hd cached)..cb_height (last cached)} f"
    "covers_batches (ie_schedule env i) 40"
    "ie_faults env i = \<lparr>jf_tip = no_faults, jf_get = no_faults, jf_add = no_faults\<rparr>"
    using node by (auto simp: node_follows_def)
  have fetched: "fetch_body (peer_source E X to_json from_slice net slots d chain) (row_entry X (rows i) i) = Inr ?body"
    using peer_epoch [OF i] row(4) bodies_fit [OF i] by (simp add: fetch_body_def row_entry_def)
  have verified: "verify_epoch E X ?body (row_entry X (rows i) i) chain (ie_node env i) (ie_schedule env i) = Inr (map snd ?es)"
  proof (rule honest_epoch_accepted [OF cache_contract_axioms parse_contract_axioms stored(1) linked computed [OF i] _ f(1)])
    have "{?lo..?hi} \<subseteq> {cb_height (hd cached)..cb_height (last cached)}" using row(1) top by auto
    then show "answers (ie_node env i) {?lo..?hi} f" by (rule answers_mono [OF f(2)])
    have "length [?lo..<Suc ?hi] \<le> 40 * LOOKUP_BATCH"
      using epoch_span_length [of i ?lo] row(1,2) by (simp add: LOOKUP_BATCH_def EPOCH_SIZE_def)
    then show "covers_batches (ie_schedule env i) (length (chunks_of LOOKUP_BATCH [?lo..<Suc ?hi]))"
      by (rule covers_fewer [OF f(3) chunks_of_count])
  qed
  have "drop (h - ?lo) ?es = filter (\<lambda>e. h \<le> fst e) ?es"
    by (rule filter_from_upt [symmetric, of _ _ "Suc ?hi"]) (use row(5) h(1) in \<open>simp_all add: full_span_def\<close>)
  also have "... = span_entries E d h ?hi" unfolding span_entries_def by (rule range_sub_low [OF h(1)])
  finally have arriving: "drop (h - ?lo) ?es = span_entries E d h ?hi" .
  have "list_all2 (decodes_to E) (span_entries E d h ?hi) new"
    using span_decodes [OF stored(1), of h ?hi] by (simp add: new_def less_Suc_eq_le)
  then have decoded: "list_all2 (\<lambda>r b. block_decode E r = Inr b) (map snd (span_entries E d h ?hi)) new"
    and heights: "map cb_height new = map fst (span_entries E d h ?hi)"
    by (auto simp: list_all2_map1 decodes_to_def decodes_heights elim!: list_all2_mono)
  moreover have "full_span E d h ?hi"
    using row(1) top h epoch_span_small [of i h] row(2) by (intro publishable_span [OF publishable]) auto
  ultimately have upt: "map cb_height new = [h..<Suc ?hi]" by (simp add: full_span_def)
  then have "new \<noteq> []" using h(2) by auto
  moreover have "hd (map cb_height new) = h" unfolding upt using h(2) by (simp del: upt_Suc)
  ultimately have "new \<noteq> []" "cb_height (hd new) = h" by (simp_all add: hd_map)
  then obtain b bs where new: "new = b # bs" "cb_height b = h" by (cases new) simp_all
  obtain r rs where first: "map snd (span_entries E d h ?hi) = r # rs" "block_decode E r = Inr b"
    using decoded unfolding new(1) list_all2_Cons2 by metis
  have tip: "cb_height (last ?bs) = h - 1" "0 < h" if "?bs \<noteq> []"
    using below_base [OF cont that] below_ends(2) [OF linked(1) stored(2), of h] h(2) top by simp_all
  have junction: "check_junction E X \<lparr>jf_tip = no_faults, jf_get = no_faults, jf_add = no_faults\<rparr> d2 i (Some r) = Inr ()"
    by (rule junction_accepts [OF old first(2)]) (use chain tip new in \<open>auto simp: chained_append grown_append\<close>)
  have items: "map (\<lambda>r. map_err Decode (block_decode E r)) (map snd (span_entries E d h ?hi)) = map Inr new"
    using decoded by (induction rule: list_all2_induct) auto
  have below_top: "\<forall>b \<in> set new. cb_height b < u64_max" using top by (auto simp: new_def)
  have seam: "?bs = [] \<or> new = [] \<or> cb_height (hd new) = Suc (cb_height (last ?bs))"
    using chain(1) by (auto simp: chained_append)
  have "stores E (db_blocks d2) ?bs" "contiguous new"
    using old chain(1) by (simp_all add: healthy_def chained_append chained_contiguous)
  from append_accepts [OF this below_top seam] obtain d2' where
    added: "cache_append E no_faults d2 (map Inr new) (if ?bs = [] then Some h else None) = Inr d2'" by blast
  have "healthy E d2' (?bs @ new)"
    by (rule healthy_add_decoded [OF old added [folded items add_decoded_batch_def] decoded chain(1) below_top])
  moreover have "import_epoch E X (peer_source E X to_json from_slice net slots d chain) chain env (row_entry X (rows i) i)
      (if ?bs = [] then None else Some (h - 1)) h d2 = Inr d2'"
    using fetched verified arriving junction added first items f(4) h row(3) top
    by (cases "?bs = []")
      (simp_all add: import_epoch_def row_entry_def u64_sub_exact drop_map cache_try_def add_decoded_batch_def Let_def)
  ultimately show ?thesis using whole by simp
qed

lemma next_epoch:
  assumes "i \<in> set (completed cached)"
  shows "epoch_first_height (Suc i) = Suc (epoch_last_height i)"
proof -
  have "cb_height (last cached) < u64_max" using stored by (simp add: stores_def)
  moreover have "(i + 1) * 10000 \<le> cb_height (last cached)"
    using assms less_eq_div_iff_mult_less_eq [of 10000 "i + 1" "cb_height (last cached)"]
    by (simp add: completed_def epoch_index_def EPOCH_SIZE_def)
  ultimately have "(i + 1) * 10000 \<le> u64_max" by simp
  then show ?thesis
    by (auto simp: epoch_first_height_def epoch_last_height_def EPOCH_SIZE_def sat_mul64_def sat_add64_def min_def)
qed

lemma import_loop_complete:
  assumes "completed cached = [a..<b]" and "a \<le> i" and "i \<le> b" and "cb_height (hd cached) \<le> h"
    and "h \<le> Suc (cb_height (last cached))" and "i < b \<Longrightarrow> er_start (rows i) \<le> h"
    and "\<forall>j \<in> {a..<b}. epoch_last_height j \<le> node_tip"
    and "healthy E d2 (below cached h)" and "node_follows X env cached"
    and "h' = (if i < b then max h (Suc (epoch_last_height (b - 1))) else h)"
  shows "\<exists>d2'. import_loop E X (peer_source E X to_json from_slice net slots d chain) chain node_tip env
      (map (\<lambda>i. row_entry X (rows i) i) [i..<b]) (if below cached h = [] then None else Some (h - 1)) d2 =
      (d2', Inr (if below cached h' = [] then None else Some (h' - 1))) \<and>
    healthy E d2' (below cached h')"
  using assms(2-6,8,10)
proof (induction "b - i" arbitrary: i h d2)
  case 0
  then show ?case by simp
next
  case (Suc n)
  let ?src = "peer_source E X to_json from_slice net slots d chain"
  have ib: "i < b" and i: "i \<in> set (completed cached)" using Suc.hyps(2) Suc.prems assms(1) by auto
  note row = row_bounds [OF i]
  note base = below_base [OF chained_contiguous [OF linked(1)], of h]
  define t where "t = (if below cached h = [] then None else Some (h - 1))"
  have tip: "(case t of Some height \<Rightarrow> u64_add height 1 | None \<Rightarrow> er_start (rows i)) = h"
  proof (cases "below cached h = []")
    case True
    then have "h = cb_height (hd cached)"
      using below_ends(1) [OF linked(1) stored(2), of h] Suc.prems(3,4) by fastforce
    then show ?thesis using True Suc.prems(5) [OF ib] row(1) by (simp add: t_def)
  next
    case False
    have "cb_height (last cached) < u64_max" using stored by (simp add: stores_def)
    then show ?thesis using False base Suc.prems(4) by (simp add: t_def)
  qed
  have later: "er_start (rows (Suc i)) \<le> k" if "Suc i < b" "Suc (er_end (rows i)) \<le> k" "cb_height (hd cached) \<le> k" for k
    using row_bounds(1) [of "Suc i"] next_epoch [OF i] that row(2) Suc.prems(1) assms(1) by simp
  have mono: "Suc (er_end (rows i)) \<le> Suc (epoch_last_height (b - 1))"
    using row(2) epoch_last_mono [of i "b - 1"] ib by simp
  have last: "b - 1 = i" if "\<not> Suc i < b" using that ib by simp
  have reach: "epoch_last_height i \<le> node_tip" using assms(1,7) i by simp
  have list: "[i..<b] = i # [Suc i..<b]" using ib by (simp add: upt_conv_Cons)
  have step: "import_loop E X ?src chain node_tip env (map (\<lambda>i. row_entry X (rows i) i) [i..<b]) t d2 =
      (if er_end (rows i) < h
       then import_loop E X ?src chain node_tip env (map (\<lambda>i. row_entry X (rows i) i) [Suc i..<b]) t d2
       else case import_epoch E X ?src chain env (row_entry X (rows i) i) t h d2 of
         Inl e \<Rightarrow> (d2, Inl e)
       | Inr d1 \<Rightarrow> import_loop E X ?src chain node_tip env (map (\<lambda>i. row_entry X (rows i) i) [Suc i..<b])
           (Some (er_end (rows i))) d1)"
    unfolding list list.map import_loop.simps row_entry_sel tip Let_def
    using Suc.prems(5) [OF ib] row(2) reach by simp
  show ?case
  proof (cases "er_end (rows i) < h")
    case True
    have "h' = (if Suc i < b then max h (Suc (epoch_last_height (b - 1))) else h)"
      using Suc.prems(7) ib True last row(2) by auto
    from Suc.hyps(1) [OF _ _ _ Suc.prems(3,4) _ Suc.prems(6) this] later [of h] show ?thesis
      unfolding t_def [symmetric] step using Suc.hyps(2) Suc.prems(1,3) True ib by simp
  next
    case False
    let ?h = "Suc (er_end (rows i))"
    from import_epoch_complete [OF i Suc.prems(5) [OF ib] _ Suc.prems(6) assms(9)] False obtain d1 where
      d1: "import_epoch E X ?src chain env (row_entry X (rows i) i) t h d2 = Inr d1" "healthy E d1 (below cached ?h)"
      unfolding t_def by auto
    have top: "er_end (rows i) < cb_height (last cached)" using completed_bounds(2) [OF stored i] row(2) by simp
    then have ne: "below cached ?h \<noteq> []"
      using below_ends(1) [OF linked(1) stored(2), of ?h] Suc.prems(3) False by simp
    have "h' = (if Suc i < b then max ?h (Suc (epoch_last_height (b - 1))) else ?h)"
      using Suc.prems(7) ib False last row(2) mono by auto
    from Suc.hyps(1) [OF _ _ _ _ _ _ d1(2) this] later [of ?h] show ?thesis
      unfolding t_def [symmetric] step using Suc.hyps(2) Suc.prems(1,3) False ib d1(1) ne top by simp
  qed
qed

lemma completed_order:
  "epoch_index (cb_height (hd cached)) \<le> epoch_index (cb_height (last cached))"
  "epoch_first_height (epoch_index (cb_height (hd cached))) \<le> cb_height (hd cached)"
proof -
  have "cb_height (hd cached) \<le> cb_height (last cached)"
    using contiguous_first [OF chained_contiguous [OF linked(1)] last_in_set [OF stored(2)]] .
  then show "epoch_index (cb_height (hd cached)) \<le> epoch_index (cb_height (last cached))"
    by (simp add: epoch_index_def EPOCH_SIZE_def div_le_mono)
  show "epoch_first_height (epoch_index (cb_height (hd cached))) \<le> cb_height (hd cached)"
    using epoch_bounds(1) stored by (simp add: stores_def less_imp_le)
qed

lemma validate_epochs_complete:
  assumes "completed cached = [a..<b]" and "a \<le> i" and "i \<le> b" and "a = epoch_index (cb_height (hd cached))"
    and "previous = (if i = a then None else Some (row_entry X (rows (i - 1)) (i - 1)))"
  shows "validate_epochs (cb_height (hd cached)) previous (map (\<lambda>i. row_entry X (rows i) i) [i..<b]) = Inr ()"
  using assms(2,3,5)
proof (induction "b - i" arbitrary: i previous)
  case (Suc n)
  then have ib: "i < b" and i: "i \<in> set (completed cached)" using assms(1) by auto
  note row = row_bounds [OF i]
  have "validate_epochs (cb_height (hd cached)) (Some (row_entry X (rows i) i)) (map (\<lambda>i. row_entry X (rows i) i) [Suc i..<b]) = Inr ()"
    using Suc.hyps(2) Suc.prems by (intro Suc.hyps(1)) auto
  moreover have "er_start (rows i) = cb_height (hd cached)" if "i = a"
    using row(1) that completed_order(2) assms(4) by simp
  moreover have "er_start (rows i) = epoch_first_height i \<and> u64_add (i - 1) 1 = i" if "i \<noteq> a"
  proof -
    have j: "i - 1 \<in> set (completed cached)" using that Suc.prems ib assms(1) by auto
    from next_epoch [OF j] completed_bounds(1,4) [OF stored j] row(1) that Suc.prems(1) show ?thesis by simp
  qed
  moreover have "epoch_first_height i \<le> er_start (rows i)" using row(1) by simp
  ultimately show ?case
    using row(2,3) Suc.prems(3) ib by (auto simp: upt_conv_Cons row_entry_sel)
qed simp

lemma peer_manifest_valid: "validate_manifest (served_manifest X chain cached rows) chain = Inr ()"
  using validate_epochs_complete [OF completed_def order_refl completed_order(1) refl refl]
  by (simp add: validate_manifest_def served_manifest_def completed_def)

lemma import_reproduces:
  assumes "rpc_get_blockchain_info node = Inr info" and "gbi_chain info = chain"
    and "cb_height (last cached) \<le> gbi_blocks info" and "node_follows X env cached"
    and "healthy E d2 (below cached h)" and "cb_height (hd cached) \<le> h" and "h \<le> Suc (cb_height (last cached))"
    and "h' = max h (epoch_first_height (epoch_index (cb_height (last cached))))"
  shows "\<exists>d2'. import_snapshot E X (peer_source E X to_json from_slice net slots d chain) node no_faults env d2 =
      (d2', Inr (if below cached h' = [] then None else Some (h' - 1))) \<and>
    healthy E d2' (below cached h')"
proof -
  let ?a = "epoch_index (cb_height (hd cached))" and ?b = "epoch_index (cb_height (last cached))"
  have cont: "contiguous cached" using linked by (simp add: chained_contiguous)
  note ab = completed_order(1) and first = completed_order(2)
  have "h' = (if ?a < ?b then max h (Suc (epoch_last_height (?b - 1))) else h)"
  proof (cases "?a < ?b")
    case True
    then have "?b - 1 \<in> set (completed cached)" by (auto simp: completed_def)
    from next_epoch [OF this] True show ?thesis using assms(8) by simp
  next
    case False
    then show ?thesis using ab first assms(6,8) by simp
  qed
  moreover have "\<forall>j \<in> {?a..<?b}. epoch_last_height j \<le> gbi_blocks info"
    using completed_bounds(2) [OF stored] assms(3) by (fastforce simp: completed_def)
  moreover have "?a < ?b \<Longrightarrow> er_start (rows ?a) \<le> h"
    using row_bounds(1) [of ?a] first assms(6) by (simp add: completed_def)
  ultimately obtain d2' where
    "import_loop E X (peer_source E X to_json from_slice net slots d chain) chain (gbi_blocks info) env
      (map (\<lambda>i. row_entry X (rows i) i) (completed cached)) (if below cached h = [] then None else Some (h - 1)) d2 =
      (d2', Inr (if below cached h' = [] then None else Some (h' - 1)))" "healthy E d2' (below cached h')"
    using import_loop_complete [OF completed_def order_refl ab assms(6,7) _ _ assms(5,4)] unfolding completed_def by blast
  moreover have "latest_height E no_faults d2 = Inr (if below cached h = [] then None else Some (h - 1))"
    using latest_height_eq [of d2 "below cached h" no_faults] assms(5,7) below_base [OF cont, of h]
      below_ends(2) [OF linked(1) stored(2), of h] by (simp add: healthy_def)
  ultimately show ?thesis
    using peer_manifest peer_manifest_valid assms(1,2)
    by (simp add: import_snapshot_def cache_try_def served_manifest_def)
qed

end


section \<open>A publisher that caught up\<close>

text \<open>No epoch has a stored digest yet.\<close>

definition undigested :: "('b, 'm) cache_ext \<Rightarrow> ('b, 'm) db \<Rightarrow> bool" where
  "undigested E d \<longleftrightarrow> meta_clean E d \<and> (\<forall>i \<le> u64_max. epoch_digest E no_faults d i = Inr None)"

text \<open>A publisher whose maintenance caught up is an honest peer.\<close>

lemma published_peer:
  assumes "cache_contract E" and "parse_contract X" and "publishable E d cached chain"
    and "chained cached" and "grown cached" and "undigested E d"
    and d': "d' = maintain E X chain (length (completed cached)) d"
    and json: "\<forall>m body. to_json m = Some body \<longrightarrow> from_slice body = Inr m"
    and net: "\<forall>chunks. concat (net chunks) = concat chunks"
    and rows: "\<forall>i \<in> set (completed cached).
      compute_epoch_digest E X no_faults no_faults d d chain i = Inr (Some (rows i)) \<and>
      er_start (rows i) = max (epoch_first_height i) (cb_height (hd cached))"
    and fits: "\<forall>m. manifest_of E X no_faults no_faults d' d' chain = Inr m \<longrightarrow>
      (\<exists>body. to_json m = Some body \<and> length body \<le> MAX_MANIFEST_BYTES)"
    and small: "\<forall>i \<in> set (completed cached). length (span_body E d chain (max (epoch_first_height i) (cb_height (hd cached)))
      (epoch_last_height i)) \<le> MAX_EPOCH_BYTES"
    and free: "\<forall>i. \<exists>k \<in> {1..3}. 0 < slots i k"
  shows "honest_peer E X d' cached chain rows to_json from_slice net slots"
proof -
  let ?a = "epoch_index (cb_height (hd cached))" and ?b = "epoch_index (cb_height (last cached))"
  have st: "cached \<noteq> []" "contiguous cached" using assms(3) by (simp_all add: publishable_def stores_def)
  then have "cb_height (hd cached) \<le> cb_height (last cached)" by (simp add: contiguous_first)
  then have ab: "?a + length (completed cached) = ?b"
    by (simp add: completed_def epoch_index_def EPOCH_SIZE_def div_le_mono)
  have "digested E d {?a..<?a} rows" using assms(6) by (simp add: digested_def undigested_def)
  moreover have "\<forall>j \<in> {?a..<?b}. compute_epoch_digest E X no_faults no_faults d d chain j = Inr (Some (rows j))"
    using rows by (simp add: completed_def)
  ultimately have blocks: "db_blocks d' = db_blocks d" and dig: "digested E d' {?a..<?b} rows"
    using cache_contract.maintain_digests [OF assms(1,3) completed_def _ order_refl ab] unfolding d' by blast+
  have body: "span_body E d' = span_body E d"
    by (simp add: span_body_def span_entries_def blocks fun_eq_iff)
  show ?thesis
  proof (intro honest_peer.intro honest_peer_axioms.intro)
    show "publishable E d' cached chain" using assms(3) cache_contract.publishable_blocks [OF assms(1) blocks] by simp
    show "digested E d' (set (completed cached)) rows" using dig by (simp add: completed_def)
    show "compute_epoch_digest E X no_faults no_faults d' d' chain i = Inr (Some (rows i))" if "i \<in> set (completed cached)" for i
      unfolding cache_contract.compute_digest_blocks [OF assms(1) blocks] using rows that by blast
    show "length (span_body E d' chain (er_start (rows i)) (er_end (rows i))) \<le> MAX_EPOCH_BYTES"
      if "i \<in> set (completed cached)" for i
      using small rows that cache_contract.compute_digest_sound [OF assms(1), of X no_faults no_faults d d chain i "rows i"]
      by (simp add: body)
  qed (use assms in auto)
qed


section \<open>A small publisher\<close>

definition ref_publisher :: "((u64, bytes) otable, (string, bytes) otable) db" where
  "ref_publisher = maintain ref_cache ref_parse ''main'' (length (completed ref_sized)) (ref_db ref_sized)"

text \<open>A serializer that knows the one manifest it is given, and a node whose lookups all get done.\<close>

definition ref_manifest :: "(snapshot_error, manifest) result" where
  "ref_manifest = manifest_of ref_cache ref_parse no_faults no_faults ref_publisher ref_publisher ''main''"

definition ref_to_json :: "manifest \<Rightarrow> bytes option" where
  "ref_to_json m = (if ref_manifest = Inr m then Some [] else None)"

definition ref_from_slice :: "bytes \<Rightarrow> (string, manifest) result" where
  "ref_from_slice body = map_err (\<lambda>_. ''not a manifest'') ref_manifest"

definition ref_following :: import_env where
  "ref_following = ref_import_env\<lparr>ie_schedule := (\<lambda>_. [Inr [0..<40]])\<rparr>"

lemma ref_sized_publishable: "publishable ref_cache (ref_db ref_sized) ref_sized ''main''"
proof -
  have "\<forall>e \<in> set (tbl_iter (blocks_ops ref_cache) (db_blocks (ref_db ref_sized))). length (snd e) \<le> u32_max" by code_simp
  moreover have "ref_sized \<noteq> []" "chain_name_ok ''main''" by code_simp+
  ultimately show ?thesis using ref_sized_stores by (simp add: publishable_def)
qed

lemma ref_sized_undigested: "undigested ref_cache (ref_db ref_sized)"
  by (simp add: undigested_def meta_clean_def epoch_digest_def read_meta_def ref_db_def ref_cache_def ot_ops_def
      ot_empty.rep_eq)

lemma ref_serializes:
  "\<forall>m body. ref_to_json m = Some body \<longrightarrow> ref_from_slice body = Inr m"
  "\<forall>m. manifest_of ref_cache ref_parse no_faults no_faults ref_publisher ref_publisher ''main'' = Inr m \<longrightarrow>
     (\<exists>body. ref_to_json m = Some body \<and> length body \<le> MAX_MANIFEST_BYTES)"
  by (simp_all add: ref_to_json_def ref_from_slice_def ref_manifest_def)

lemma ref_bodies_fit:
  "\<forall>i \<in> set (completed ref_sized). length (span_body ref_cache (ref_db ref_sized) ''main''
     (max (epoch_first_height i) (cb_height (hd ref_sized))) (epoch_last_height i)) \<le> MAX_EPOCH_BYTES"
  by code_simp

lemma ref_node_follows: "node_follows ref_parse ref_following ref_sized"
  by (auto simp: node_follows_def ref_following_def ref_import_env_def answers_def ref_import_node_def covers_batches_def
      is_ok_def ref_sized_def sized_block_def ref_display_def intro!: exI [of _ ref_display])

lemma ref_sized_first: "below ref_sized 9999 = []" "completed ref_sized = [0]"
  by code_simp+

definition ref_rows :: "u64 \<Rightarrow> epoch_row" where
  "ref_rows i = (case ref_row of Some row \<Rightarrow> row
     | None \<Rightarrow> \<lparr>er_start = 0, er_end = 0, er_bytes = 0, er_content = [], er_anchor = []\<rparr>)"

interpretation hp: honest_peer ref_cache ref_parse ref_publisher ref_sized "''main''" ref_rows ref_to_json ref_from_slice
  "\<lambda>chunks. chunks" "\<lambda>_ _. 1"
proof (rule published_peer [OF rc.cache_contract_axioms rp.parse_contract_axioms ref_sized_publishable ref_sized_chain
      ref_sized_undigested ref_publisher_def ref_serializes(1) _ _ ref_serializes(2) ref_bodies_fit])
  have "case ref_row of Some row \<Rightarrow> er_start row = max (epoch_first_height 0) (cb_height (hd ref_sized)) | None \<Rightarrow> False"
    by code_simp
  then show "\<forall>i \<in> set (completed ref_sized).
      compute_epoch_digest ref_cache ref_parse no_faults no_faults (ref_db ref_sized) (ref_db ref_sized) ''main'' i =
        Inr (Some (ref_rows i)) \<and>
      er_start (ref_rows i) = max (epoch_first_height i) (cb_height (hd ref_sized))"
    by (auto simp: ref_sized_first ref_rows_def ref_row_def split: sum.splits option.splits)
qed auto


section \<open>Properties\<close>

text \<open>
  C23: a snapshot reproduces the publisher's chain. Take a publisher whose cache holds a linked chain with
  growing tree sizes and no digest yet, and whose maintenance has made one pass per completed epoch; and an
  importer whose cache holds that chain below some height (nothing, or what an interrupted import left),
  whose own node is on the same chain and whose store does not fail. The importer, reading the publisher's
  routes over a network that may cut the bodies anywhere and a publisher that may be busy twice for each
  epoch, ends with exactly the publisher's blocks below the first height of the publisher's last, incomplete
  epoch, or what it held if that was more, and reports that height.
\<close>

theorem snapshot_reproduces_chain:
  assumes "cache_contract E" and "parse_contract X" and "publishable E d cached chain"
    and "chained cached" and "grown cached" and "undigested E d"
    and "d' = maintain E X chain (length (completed cached)) d"
    and "\<forall>m body. to_json m = Some body \<longrightarrow> from_slice body = Inr m"
    and "\<forall>chunks. concat (net chunks) = concat chunks"
    and "\<forall>m. manifest_of E X no_faults no_faults d' d' chain = Inr m \<longrightarrow>
      (\<exists>body. to_json m = Some body \<and> length body \<le> MAX_MANIFEST_BYTES)"
    and "\<forall>i \<in> set (completed cached). length (span_body E d chain (max (epoch_first_height i) (cb_height (hd cached)))
      (epoch_last_height i)) \<le> MAX_EPOCH_BYTES"
    and "\<forall>i. \<exists>k \<in> {1..3}. 0 < slots i k"
    and "rpc_get_blockchain_info node = Inr info" and "gbi_chain info = chain"
    and "cb_height (last cached) \<le> gbi_blocks info" and "node_follows X env cached"
    and "healthy E d2 (below cached h)" and "cb_height (hd cached) \<le> h" and "h \<le> Suc (cb_height (last cached))"
    and "h' = max h (epoch_first_height (epoch_index (cb_height (last cached))))"
  shows "\<exists>d2'. import_snapshot E X (peer_source E X to_json from_slice net slots d' chain) node no_faults env d2 =
      (d2', Inr (if below cached h' = [] then None else Some (h' - 1))) \<and>
    healthy E d2' (below cached h')"
proof -
  obtain rows where rows: "\<forall>i \<in> set (completed cached).
      compute_epoch_digest E X no_faults no_faults d d chain i = Inr (Some (rows i)) \<and>
      er_start (rows i) = max (epoch_first_height i) (cb_height (hd cached))"
    using cache_contract.compute_digest_complete [OF assms(1,3)] by metis
  have "honest_peer E X d' cached chain rows to_json from_slice net slots"
    by (rule published_peer [OF assms(1-9) rows assms(10-12)])
  from honest_peer.import_reproduces [OF this assms(13-20)] show ?thesis .
qed

theorem snapshot_reproduces_chain_witness:
  "\<exists>d. import_snapshot ref_cache ref_parse
        (peer_source ref_cache ref_parse ref_to_json ref_from_slice (\<lambda>chunks. chunks) (\<lambda>_ _. 1) ref_publisher ''main'')
        ref_import_node no_faults ref_following ref_empty = (d, Inr (Some 9999)) \<and>
     healthy ref_cache d [sized_block 9999 [1] [0]]"
proof -
  have h: "(10000 :: nat) = max 9999 (epoch_first_height (epoch_index (cb_height (last ref_sized))))" by code_simp
  have held: "below ref_sized 10000 = [sized_block 9999 [1] [0]]" by (simp add: below_def ref_sized_def sized_block_def)
  have empty: "healthy ref_cache ref_empty (below ref_sized 9999)" using ref_empty_healthy by (simp add: ref_sized_first)
  have ends: "cb_height (hd ref_sized) = 9999" "cb_height (last ref_sized) = 10000"
    by (simp_all add: ref_sized_def sized_block_def)
  obtain info where info: "rpc_get_blockchain_info ref_import_node = Inr info" "gbi_chain info = ''main''" "gbi_blocks info = 10000"
    by (simp add: ref_import_node_def)
  have free: "\<forall>i :: u64. \<exists>k \<in> {1..3 :: nat}. 0 < (1 :: nat)" by (auto intro: exI [of _ 1])
  from snapshot_reproduces_chain [OF rc.cache_contract_axioms rp.parse_contract_axioms ref_sized_publishable
      ref_sized_chain ref_sized_undigested ref_publisher_def ref_serializes(1) _ ref_serializes(2) ref_bodies_fit free
      info(1,2) _ ref_node_follows empty _ _ h, of "\<lambda>chunks. chunks"]
  show ?thesis by (simp add: held ends info(3))
qed

end
