(* ===== verification/Program.thy ===== *)
theory Program
  imports Transport Snapshot_Serve Node_Client Service_Chain
begin

text \<open>
  The program as a whole: \<^verbatim>\<open>main\<close> of src/main.rs with its logging, \<^verbatim>\<open>run\<close> of src/lib.rs from the resolved
  configuration to a server, what ends it, the construction of its HTTP clients (src/node/mod.rs,
  src/snapshot/import.rs), the router of src/snapshot/serve.rs and the commit stamp of build.rs. Files,
  sockets, the TLS library and reqwest's builder are arguments.
\<close>

section \<open>HTTP clients\<close>

text \<open>Timeouts in seconds; a client is what reqwest's builder makes of them.\<close>

record client_timeouts =
  ct_total :: "nat option"
  ct_read :: "nat option"
  ct_connect :: nat

definition REQUEST_TIMEOUT :: nat where
  "REQUEST_TIMEOUT = 30"

definition NODE_CONNECT_TIMEOUT :: nat where
  "NODE_CONNECT_TIMEOUT = 5"

record 'h node_client =
  cl_http :: 'h
  cl_url :: string
  cl_user :: string
  cl_password :: string

definition with_timeouts ::
    "(client_timeouts \<Rightarrow> (string, 'h) result) \<Rightarrow> node_config \<Rightarrow> nat \<Rightarrow> nat \<Rightarrow> (string, 'h node_client) result" where
  "with_timeouts build config request_timeout connect_timeout =
     bindE (build \<lparr>ct_total = Some request_timeout, ct_read = None, ct_connect = connect_timeout\<rparr>) (\<lambda>http.
       Inr \<lparr>cl_http = http, cl_url = nc_url config, cl_user = nc_user config, cl_password = nc_password config\<rparr>)"

definition node_client_new ::
    "(client_timeouts \<Rightarrow> (string, 'h) result) \<Rightarrow> node_config \<Rightarrow> (string, 'h node_client) result" where
  "node_client_new build config = with_timeouts build config REQUEST_TIMEOUT NODE_CONNECT_TIMEOUT"

definition node_client_debug :: "'h node_client \<Rightarrow> string \<times> (string \<times> string) list" where
  "node_client_debug c = (''NodeClient'', [(''url'', cl_url c), (''user'', cl_user c), (''password'', ''***'')])"

definition READ_TIMEOUT :: nat where
  "READ_TIMEOUT = 60"

definition PEER_CONNECT_TIMEOUT :: nat where
  "PEER_CONNECT_TIMEOUT = 10"

record 'h http_epoch_source =
  hs_client :: 'h
  hs_base_url :: string
  hs_attempts :: u32

definition trim_end_slashes :: "string \<Rightarrow> string" where
  "trim_end_slashes url = rev (dropWhile (\<lambda>c. c = CHR ''/'') (rev url))"

definition http_epoch_source_new ::
    "(client_timeouts \<Rightarrow> (string, 'h) result) \<Rightarrow> string \<Rightarrow> (string, 'h http_epoch_source) result" where
  "http_epoch_source_new build url =
     bindE (build \<lparr>ct_total = None, ct_read = Some READ_TIMEOUT, ct_connect = PEER_CONNECT_TIMEOUT\<rparr>) (\<lambda>client.
       Inr \<lparr>hs_client = client, hs_base_url = trim_end_slashes url, hs_attempts = FETCH_ATTEMPTS\<rparr>)"

definition manifest_url :: "'h http_epoch_source \<Rightarrow> string" where
  "manifest_url s = hs_base_url s @ ''/snapshot/manifest''"

definition epoch_url :: "'h http_epoch_source \<Rightarrow> u64 \<Rightarrow> string" where
  "epoch_url s index = hs_base_url s @ ''/snapshot/epoch/'' @ dec_string index"


section \<open>The snapshot server\<close>

record compression =
  co_zstd :: bool
  co_gzip :: bool
  co_quality :: int

datatype snapshot_handler = ManifestHandler | EpochHandler "compression option"

record ('b, 'm) snapshot_app =
  sa_cache :: "('b, 'm) db"
  sa_chain :: string
  sa_downloads :: nat
  sa_routes :: "(string \<times> snapshot_handler) list"

definition snapshot_serve_on ::
    "('b, 'm) db \<Rightarrow> string \<Rightarrow> snapshot_serve_config \<Rightarrow> ('b, 'm) snapshot_app" where
  "snapshot_serve_on cache chain config = \<lparr>
     sa_cache = cache, sa_chain = chain, sa_downloads = ss_max_concurrent_downloads config,
     sa_routes =
       [(''/snapshot/manifest'', ManifestHandler),
        (''/snapshot/epoch/{index}'', EpochHandler
           (if ss_compression_level config > 0
            then Some \<lparr>co_zstd = True, co_gzip = True, co_quality = ss_compression_level config\<rparr>
            else None))]\<rparr>"

definition snapshot_serve ::
    "(string \<Rightarrow> (string, unit) result) \<Rightarrow> ('b, 'm) db \<Rightarrow> string \<Rightarrow> snapshot_serve_config \<Rightarrow> (string, ('b, 'm) snapshot_app) result" where
  "snapshot_serve bind_listener cache chain config =
     bindE (bind_listener (ss_bind config)) (\<lambda>_. Inr (snapshot_serve_on cache chain config))"


section \<open>Logging\<close>

record 'f log_world =
  env_filter :: "(string, 'f) result"
  parse_filter :: "string \<Rightarrow> (string, 'f) result"
  open_append :: "string \<Rightarrow> (string, unit) result"

datatype log_output = TextToStderr | JsonToFile string

definition init_logging :: "'f log_world \<Rightarrow> string \<Rightarrow> string option \<Rightarrow> (detail, 'f \<times> log_output) result" where
  "init_logging L log_level log_file =
     bindE (case env_filter L of
              Inr directives \<Rightarrow> Inr directives
            | Inl _ \<Rightarrow> map_err (\<lambda>_. (''invalid --log-level {:?}'', [Str log_level])) (parse_filter L log_level)) (\<lambda>directives.
       case log_file of
         Some path \<Rightarrow>
           bindE (map_err (\<lambda>_. (''opening --log-file at {}'', [Str path])) (open_append L path)) (\<lambda>_.
             Inr (directives, JsonToFile path))
       | None \<Rightarrow> Inr (directives, TextToStderr))"


section \<open>What ends a server\<close>

text \<open>
  Times in milliseconds from the moment the server listens. A signal may never arrive; installing its
  handler may fail, which ends the wait for SIGINT at once and leaves the wait for SIGTERM pending.
\<close>

record os_signals =
  sg_int :: "(string, nat option) result"
  sg_term :: "(string, nat option) result"

fun earliest :: "nat option \<Rightarrow> nat option \<Rightarrow> nat option" where
  "earliest None b = b"
| "earliest a None = a"
| "earliest (Some a) (Some b) = Some (min a b)"

definition shutdown_signal :: "os_signals \<Rightarrow> nat option" where
  "shutdown_signal signals =
     earliest (case sg_int signals of Inl _ \<Rightarrow> Some 0 | Inr t \<Rightarrow> t)
       (case sg_term signals of Inl _ \<Rightarrow> None | Inr t \<Rightarrow> t)"

text \<open>The notifier of the mock server: its timeout, and each call of Stop once its reply had time to leave.\<close>

definition STOP_REPLY_GRACE :: nat where
  "STOP_REPLY_GRACE = 500"

definition notified :: "config \<Rightarrow> nat list \<Rightarrow> nat option" where
  "notified config stops =
     fold (\<lambda>t. earliest (Some (t + STOP_REPLY_GRACE))) stops (Some (cf_darkside_timeout config * 1000))"

definition darkside_shutdown :: "config \<Rightarrow> nat list \<Rightarrow> os_signals \<Rightarrow> nat option" where
  "darkside_shutdown config stops signals = earliest (shutdown_signal signals) (notified config stops)"


section \<open>Run\<close>

text \<open>
  What the program meets outside of its own logic: the data directory, the decoded descriptor set, the files
  of the certificate and what the TLS library says to them, the HTTP client and the JSON library behind the
  node client, the node's replies while the program waits for it, zebra's state, the startup of the cache,
  the reflection service and the socket.
\<close>

record ('h, 'v) run_env =
  rn_data_dir :: "string \<Rightarrow> (string, unit) result"
  rn_served :: "(string, string set) result"
  rn_read :: "string \<Rightarrow> (string, bytes) result"
  rn_identity :: "bytes \<Rightarrow> bytes \<Rightarrow> (string, unit) result"
  rn_build :: "client_timeouts \<Rightarrow> (string, 'h) result"
  rn_rpc :: "'h node_client \<Rightarrow> 'v client_ext"
  rn_replies :: "(node_error, get_blockchain_info) result list"
  rn_readstate :: bool
  rn_open_state :: "network_kind \<Rightarrow> string option \<Rightarrow> string \<Rightarrow> (string, zebra_ext) result"
  rn_startup :: startup_env
  rn_darkside_open :: faults
  rn_reflection :: "(string, unit) result"
  rn_bind :: "string \<Rightarrow> (string, unit) result"

datatype run_error =
    DataDir string
  | Descriptors string
  | TlsFile string
  | TlsIdentity string
  | ClientBuild string
  | BackendFailed string
  | StartupFailed startup_error
  | DarksideCache cache_error
  | Reflection string
  | BindFailed string

text \<open>The identity the listener presents, if any.\<close>

definition tls_identity :: "('h, 'v) run_env \<Rightarrow> tls_config \<Rightarrow> (run_error, (bytes \<times> bytes) option) result" where
  "tls_identity env tls =
     (case tls of
        TlsEnabled cert key \<Rightarrow>
          bindE (map_err TlsFile (rn_read env cert)) (\<lambda>cert.
          bindE (map_err TlsFile (rn_read env key)) (\<lambda>key.
          bindE (map_err TlsIdentity (rn_identity env cert key)) (\<lambda>_.
            Inr (Some (cert, key)))))
      | GeneratedInsecure cert_pem key_pem \<Rightarrow>
          bindE (map_err TlsIdentity (rn_identity env (str_bytes cert_pem) (str_bytes key_pem))) (\<lambda>_.
            Inr (Some (str_bytes cert_pem, str_bytes key_pem)))
      | TlsDisabled \<Rightarrow> Inr None)"

text \<open>
  How far a run has come: still waiting for the node, stopped during the bootstrap with the database it
  leaves, or serving: the middleware stack, the identity and the components.
\<close>

datatype ('b, 'm) running =
    AwaitingNode
  | StoppedEarly "('b, 'm) db"
  | ServingLive server_stack "(bytes \<times> bytes) option" "('b, 'm) server"
  | ServingDarkside server_stack "(bytes \<times> bytes) option" "('b, 'm) darkside_server"

definition listening :: "('h, 'v) run_env \<Rightarrow> config \<Rightarrow> ('b, 'm) running \<Rightarrow> (run_error, ('b, 'm) running) result" where
  "listening env config r =
     bindE (map_err Reflection (rn_reflection env)) (\<lambda>_.
     bindE (map_err BindFailed (rn_bind env (cf_grpc_bind config))) (\<lambda>_. Inr r))"

definition run ::
    "('b, 'm) cache_ext \<Rightarrow> 'x parse_ext_scheme \<Rightarrow> chain_params \<Rightarrow> ('h, 'v) run_env \<Rightarrow> config \<Rightarrow> 'b option \<Rightarrow> 'm option
      \<Rightarrow> (run_error, ('b, 'm) running) result" where
  "run E X P env config stored_blocks stored_meta =
     bindE (map_err DataDir (rn_data_dir env (cf_data_dir config))) (\<lambda>_.
     bindE (map_err Descriptors (run_server (rn_served env) config)) (\<lambda>stack.
     bindE (tls_identity env (cf_tls config)) (\<lambda>identity.
       if cf_darkside config then
     bindE (map_err DarksideCache (run_darkside E (rn_darkside_open env) config stored_blocks stored_meta)) (\<lambda>ds.
         listening env config (ServingDarkside stack identity ds))
       else
     bindE (map_err ClientBuild (node_client_new (rn_build env) (cf_node config))) (\<lambda>rpc_client.
       let rpc = client_node X (rn_rpc env rpc_client) in
       case fst (connect_with_retry (rn_replies env)) of
         None \<Rightarrow> Inr AwaitingNode
       | Some chain_info \<Rightarrow>
     bindE (map_err BackendFailed
              (select_node X (rn_readstate env) (rn_open_state env) config rpc chain_info)) (\<lambda>node.
     bindE (map_err StartupFailed
              (startup E X P (rn_startup env) config node chain_info stored_blocks stored_meta)) (\<lambda>(db, server).
       case server of
         None \<Rightarrow> Inr (StoppedEarly db)
       | Some server \<Rightarrow> listening env config (ServingLive stack identity server)))))))"

datatype program_error = LoggingFailed detail | ResolveFailed detail | RunFailed run_error

definition main_program ::
    "('b, 'm) cache_ext \<Rightarrow> 'x parse_ext_scheme \<Rightarrow> chain_params \<Rightarrow> 'f log_world \<Rightarrow> config_world \<Rightarrow> ('h, 'v) run_env \<Rightarrow> cli
      \<Rightarrow> 'b option \<Rightarrow> 'm option \<Rightarrow> (program_error, ('b, 'm) running) result" where
  "main_program E X P L W env cli stored_blocks stored_meta =
     bindE (map_err LoggingFailed (init_logging L (cli_log_level cli) (cli_log_file cli))) (\<lambda>_.
     bindE (map_err ResolveFailed (cli_resolve W cli)) (\<lambda>config.
       map_err RunFailed (run E X P env config stored_blocks stored_meta)))"


section \<open>The commit stamp of the build\<close>

text \<open>What git printed, if it ran, and whether it succeeded; the files whose change asks for another build.\<close>

definition git_commit_stamp :: "(bool \<times> bytes) option \<Rightarrow> string" where
  "git_commit_stamp output =
     (case output of
        Some (True, stdout) \<Rightarrow> (case from_utf8 stdout of Some hash \<Rightarrow> str_trim hash | None \<Rightarrow> [])
      | _ \<Rightarrow> [])"

definition rerun_if_changed :: "string option \<Rightarrow> (string \<Rightarrow> bool) \<Rightarrow> string list" where
  "rerun_if_changed head exists =
     (case head of
        None \<Rightarrow> []
      | Some head \<Rightarrow>
          ''.git/HEAD'' #
          (case strip_prefix ''ref: '' head of
             None \<Rightarrow> []
           | Some reference \<Rightarrow>
               (let ref_path = ''.git/'' @ str_trim reference in if exists ref_path then [ref_path] else [])))"

definition emit_git_commit :: "string option \<Rightarrow> (string \<Rightarrow> bool) \<Rightarrow> (bool \<times> bytes) option \<Rightarrow> string list" where
  "emit_git_commit head exists output =
     map (\<lambda>path. ''cargo:rerun-if-changed='' @ path) (rerun_if_changed head exists) @
     [''cargo:rustc-env=GIT_COMMIT='' @ git_commit_stamp output]"


section \<open>Lemmas\<close>

lemma trim_end_slashes_ends: "trim_end_slashes url = [] \<or> last (trim_end_slashes url) \<noteq> CHR ''/''"
  using hd_dropWhile [of "\<lambda>c. c = CHR ''/''" "rev url"] by (auto simp: trim_end_slashes_def last_rev)

lemma trim_end_slashes_more: "trim_end_slashes (url @ replicate n (CHR ''/'')) = trim_end_slashes url"
  using dropWhile_append2 [of "replicate n (CHR ''/'')" "\<lambda>c. c = CHR ''/''" "rev url"] by (simp add: trim_end_slashes_def)

text \<open>The URLs the client asks for are the routes the publisher declares, with the index filled in.\<close>

definition fill_index :: "string \<Rightarrow> u64 \<Rightarrow> string" where
  "fill_index pattern index = takeWhile (\<lambda>c. c \<noteq> CHR ''{'') pattern @ dec_string index"

lemma client_urls_are_routes:
  "sa_routes (snapshot_serve_on cache chain config) = [(m, hm), (e, he)] \<Longrightarrow>
     manifest_url s = hs_base_url s @ m \<and> epoch_url s index = hs_base_url s @ fill_index e index"
  by (auto simp: snapshot_serve_on_def manifest_url_def epoch_url_def fill_index_def)

lemma earliest_le: "earliest a (Some b) = Some t \<Longrightarrow> t \<le> b"
  by (cases a) auto

lemma notified_by_timeout: "\<exists>t \<le> cf_darkside_timeout config * 1000. notified config stops = Some t"
proof -
  have "\<exists>t \<le> b. fold (\<lambda>t. earliest (Some (t + STOP_REPLY_GRACE))) stops (Some b) = Some t" for b
    by (induction stops arbitrary: b) (auto, meson le_trans min.cobounded2)
  then show ?thesis by (simp add: notified_def)
qed

text \<open>A mock server ends by its timeout, whatever else happens.\<close>

lemma darkside_ends: "\<exists>t \<le> cf_darkside_timeout config * 1000. darkside_shutdown config stops signals = Some t"
proof -
  obtain b where b: "b \<le> cf_darkside_timeout config * 1000" "notified config stops = Some b"
    using notified_by_timeout by blast
  then show ?thesis
    by (cases "shutdown_signal signals") (auto simp: darkside_shutdown_def min.coboundedI2)
qed

text \<open>Where SIGINT cannot be handled the server stops as soon as it listens.\<close>

lemma shutdown_without_handler: "sg_int signals = Inl e \<Longrightarrow> shutdown_signal signals = Some 0"
  by (cases "case sg_term signals of Inl _ \<Rightarrow> None | Inr t \<Rightarrow> t") (simp_all add: shutdown_signal_def)

lemma connect_after_failures:
  assumes "\<forall>r \<in> set failures. \<not> is_ok r"
  shows "fst (connect_loop delay (failures @ Inr info # later)) = Some info \<and>
    length (snd (connect_loop delay (failures @ Inr info # later))) = length failures"
  using assms by (induction failures arbitrary: delay) (auto simp: Let_def split_beta is_ok_def split: sum.splits)

lemma tls_identity_present: "tls_identity env tls = Inr identity \<Longrightarrow> identity = None \<longleftrightarrow> tls = TlsDisabled"
  by (auto simp: tls_identity_def result_simps split: tls_config.splits)

lemma resolved_fields:
  assumes "cli_resolve W cli = Inr cf"
  shows "cf_darkside cf = cli_darkside cli" and "cf_nocache cf = cli_nocache cli" and "cf_tls cf = TlsDisabled \<longleftrightarrow> cli_no_tls cli"
    and "bulkhead_new (cf_client_node cf) = (cli_client_scan_concurrency cli, cli_client_node_concurrency cli)"
proof -
  from cli_resolve_parts [OF assms] obtain snapshot grpc_web conf tls backend where
    tls: "resolve_tls W cli = Inr tls" and limits: "check_limits W cli = Inr ()"
    and cf: "cf = config_of cli conf snapshot grpc_web tls backend" by blast
  show "cf_darkside cf = cli_darkside cli" "cf_nocache cf = cli_nocache cli" by (simp_all add: cf config_of_def)
  show "cf_tls cf = TlsDisabled \<longleftrightarrow> cli_no_tls cli"
    using tls by (auto simp: cf config_of_def resolve_tls_def result_simps split: if_splits)
  show "bulkhead_new (cf_client_node cf) = (cli_client_scan_concurrency cli, cli_client_node_concurrency cli)"
    using check_limits_ok [OF limits] by (simp add: cf config_of_def bulkhead_new_def)
qed

text \<open>No server is ever in the clear unless the command line asked for it.\<close>

lemma program_encrypted:
  assumes "main_program E X P L W env cli blocks meta = Inr r"
    and "r = ServingLive stack identity server \<or> r = ServingDarkside stack identity ds"
  shows "identity = None \<longleftrightarrow> cli_no_tls cli"
proof -
  obtain cf where cf: "cli_resolve W cli = Inr cf" and run: "run E X P env cf blocks meta = Inr r"
    using assms(1) by (auto simp: main_program_def result_simps)
  have "tls_identity env (cf_tls cf) = Inr identity"
    using run assms(2) by (auto simp: run_def listening_def result_simps Let_def split: if_splits option.splits)
  then show ?thesis using tls_identity_present resolved_fields(3) [OF cf] by blast
qed


section \<open>Properties\<close>

text \<open>
  C36: the program comes up. Given a command line that resolves to a live server with a cache, an environment
  in which what the program needs from outside works, a node that answers after any number of failures and
  names a known chain, and a healthy cache on disk whose store does not fail, \<^verbatim>\<open>main\<close> ends up serving, after one
  wait of at most thirty seconds per failed call to the node: in the clear exactly when that was asked for,
  with pools of the configured sizes, over a healthy cache that holds what the levers keep of the blocks on
  disk followed only by blocks the node vouches for, and with one floor for the ingestor and the service.
  Nothing that a snapshot peer does prevents it.
\<close>

theorem program_comes_up:
  assumes "cache_contract E" and "healthy E d bs" and "fault_free (rn_startup env)" and "su_stop (rn_startup env) = None"
    and "is_ok (init_logging L (cli_log_level cli) (cli_log_file cli))" and "cli_resolve W cli = Inr cf"
    and "\<not> cli_darkside cli" and "\<not> cli_nocache cli"
    and "rn_data_dir env (cf_data_dir cf) = Inr ()" and "rn_served env = Inr served"
    and "tls_identity env (cf_tls cf) = Inr identity" and "node_client_new (rn_build env) (cf_node cf) = Inr client"
    and "rn_replies env = failures @ Inr info # later" and "\<forall>r \<in> set failures. \<not> is_ok r"
    and "select_node X (rn_readstate env) (rn_open_state env) cf (client_node X (rn_rpc env client)) info = Inr node"
    and "local_sapling_activation P (gbi_chain info) = Some activation"
    and "\<forall>i. rpc_get_blockchain_info node = Inr i \<longrightarrow> gbi_blocks i < u64_max"
    and "rn_reflection env = Inr ()" and "rn_bind env (cf_grpc_bind cf) = Inr ()"
  shows "\<exists>stack server new floor.
    main_program E X P L W env cli (Some (db_blocks d)) (Some (db_meta d)) = Inr (ServingLive stack identity server) \<and>
    (identity = None \<longleftrightarrow> cli_no_tls cli) \<and>
    srv_pools server = (cli_client_scan_concurrency cli, cli_client_node_concurrency cli) \<and>
    healthy E (srv_db server) (kept cf bs @ new) \<and>
    (\<forall>b \<in> set new. \<exists>epoch. vouched X (ie_node (su_import (rn_startup env)) epoch) b) \<and>
    srv_ingestor server = Some (floor, cf_ingest cf) \<and> sr_ingest_floor (srv_streamer server) = Some floor \<and>
    length (snd (connect_with_retry (rn_replies env))) = length failures \<and>
    (\<forall>s \<in> set (snd (connect_with_retry (rn_replies env))). s \<le> 30)"
proof -
  note fields = resolved_fields [OF assms(6)]
  have "\<not> cf_nocache cf" using assms(8) fields(2) by simp
  from startup_ready [OF assms(1-3,16,17) this, of X] obtain d' srv new where
    up: "startup E X P (rn_startup env) cf node info (Some (db_blocks d)) (Some (db_meta d)) = Inr (d', srv)"
    and ok: "healthy E d' (kept cf bs @ new)" "\<forall>b \<in> set new. \<exists>epoch. vouched X (ie_node (su_import (rn_startup env)) epoch) b"
    and stop: "srv = None \<longrightarrow> cf_snapshot_url cf \<noteq> None \<and> su_stop (rn_startup env) \<noteq> None"
    and srv: "\<forall>s. srv = Some s \<longrightarrow> srv_db s = d' \<and> (\<exists>base floor. snapshot_base_height E no_faults d' = Inr base \<and>
       floor = max (case cf_start_height cf of Some h \<Rightarrow> h | None \<Rightarrow> activation) (case base of None \<Rightarrow> 0 | Some b \<Rightarrow> b) \<and>
       srv_ingestor s = Some (floor, cf_ingest cf) \<and> sr_ingest_floor (srv_streamer s) = Some floor \<and>
       sr_repair (srv_streamer s))" by (elim exE conjE) (rule that)
  from stop assms(4) have "srv \<noteq> None" by blast
  then obtain server where server: "srv = Some server" by blast
  then have pools: "srv_pools server = (cli_client_scan_concurrency cli, cli_client_node_concurrency cli)"
    using startup_server up fields(4) by (fastforce simp: server_of_def)
  obtain stack where stack: "run_server (rn_served env) cf = Inr stack"
    using assms(10) by (cases "cf_metrics_bind cf") (simp_all add: run_server_def server_builder_def)
  note found = connect_after_failures [OF assms(14), of 1 info later]
  have "run E X P env cf (Some (db_blocks d)) (Some (db_meta d)) = Inr (ServingLive stack identity server)"
    using assms(7,9,11,12,13,15,18,19) fields(1) stack found up server
    by (simp add: run_def connect_with_retry_def listening_def Let_def)
  then have "main_program E X P L W env cli (Some (db_blocks d)) (Some (db_meta d)) = Inr (ServingLive stack identity server)"
    using assms(5,6) by (auto simp: main_program_def elim: is_okE)
  moreover have "identity = None \<longleftrightarrow> cli_no_tls cli" using tls_identity_present [OF assms(11)] fields(3) by simp
  moreover have "\<forall>s \<in> set (snd (connect_with_retry (rn_replies env))). s \<le> 30"
    using connect_sleeps [of 1] by (simp add: connect_with_retry_def)
  moreover obtain floor where "srv_ingestor server = Some (floor, cf_ingest cf)" "sr_ingest_floor (srv_streamer server) = Some floor"
    and "srv_db server = d'" using srv server by blast
  moreover have "length (snd (connect_with_retry (rn_replies env))) = length failures"
    using found assms(13) by (simp add: connect_with_retry_def)
  ultimately show ?thesis
    using ok pools by (intro exI [of _ stack] exI [of _ server] exI [of _ new] exI [of _ floor]) simp
qed

definition ref_run_env :: "(unit, string) run_env" where
  "ref_run_env = \<lparr>
     rn_data_dir = (\<lambda>_. Inr ()), rn_served = Inr {''/rpc.Streamer/Ping''}, rn_read = (\<lambda>path. Inr (str_bytes path)),
     rn_identity = (\<lambda>_ _. Inr ()), rn_build = (\<lambda>_. Inr ()), rn_rpc = (\<lambda>_. ref_client),
     rn_replies = [Inl (Http ''refused''), Inl EmptyResult, Inr ref_chain_info], rn_readstate = False,
     rn_open_state = (\<lambda>_ _ _. Inl []),
     rn_startup = \<lparr>su_tempdir = Inr (), su_open = no_faults, su_validate = no_faults, su_scan = no_faults,
       su_reorg = no_faults, su_truncate = no_faults, su_source = Inl (UnknownEpoch 0), su_import_tip = no_faults,
       su_import = ref_import_env, su_stop = None, su_base = no_faults\<rparr>,
     rn_darkside_open = no_faults, rn_reflection = Inr (), rn_bind = (\<lambda>_. Inr ())\<rparr>"

theorem program_comes_up_witness:
  "\<exists>stack server new floor.
     main_program ref_cache ref_parse \<lparr>main_sapling = Some 419200, test_sapling = Some 280000\<rparr>
       \<lparr>env_filter = Inl ''unset'', parse_filter = Inr, open_append = (\<lambda>_. Inr ())\<rparr> ref_world ref_run_env ref_cli
       (Some (db_blocks ref_empty)) (Some (db_meta ref_empty)) =
     Inr (ServingLive stack (Some (str_bytes ''cert.pem'', str_bytes ''key.pem'')) server) \<and>
     srv_pools server = (2, 8) \<and> healthy ref_cache (srv_db server) new \<and> sr_ingest_floor (srv_streamer server) = Some floor"
proof -
  let ?P = "\<lparr>main_sapling = Some 419200, test_sapling = Some 280000\<rparr>"
    and ?L = "\<lparr>env_filter = Inl ''unset'', parse_filter = Inr, open_append = (\<lambda>_. Inr ())\<rparr> :: string log_world"
  obtain cf where cf: "cli_resolve ref_world ref_cli = Inr cf" using ref_cli_resolves by (auto elim: is_okE)
  have sel: "cf_tls cf = TlsEnabled ''cert.pem'' ''key.pem''" "cf_backend cf = RpcBackend" "kept cf [] = []"
    using ref_cli_parts cf by (simp_all add: kept_def)
  let ?node = "client_node ref_parse ref_client"
  have low: "\<forall>i. rpc_get_blockchain_info ?node = Inr i \<longrightarrow> gbi_blocks i < u64_max"
    by (simp add: client_node_def request_def raw_request_def ref_client_def)
  have free: "fault_free (rn_startup ref_run_env)" "su_stop (rn_startup ref_run_env) = None"
    by (simp_all add: ref_run_env_def fault_free_def)
  have flags: "is_ok (init_logging ?L (cli_log_level ref_cli) (cli_log_file ref_cli))" "\<not> cli_darkside ref_cli" "\<not> cli_nocache ref_cli"
    "\<not> cli_no_tls ref_cli" "cli_client_scan_concurrency ref_cli = 2" "cli_client_node_concurrency ref_cli = 8"
    by (simp_all add: ref_cli_def init_logging_def is_ok_def)
  have outside: "rn_data_dir ref_run_env (cf_data_dir cf) = Inr ()" "rn_served ref_run_env = Inr {''/rpc.Streamer/Ping''}"
    "tls_identity ref_run_env (cf_tls cf) = Inr (Some (str_bytes ''cert.pem'', str_bytes ''key.pem''))"
    "node_client_new (rn_build ref_run_env) (cf_node cf) =
       Inr \<lparr>cl_http = (), cl_url = nc_url (cf_node cf), cl_user = nc_user (cf_node cf), cl_password = nc_password (cf_node cf)\<rparr>"
    "rn_replies ref_run_env = [Inl (Http ''refused''), Inl EmptyResult] @ Inr ref_chain_info # []"
    "\<forall>r \<in> set [Inl (Http ''refused''), Inl EmptyResult]. \<not> is_ok r"
    "select_node ref_parse (rn_readstate ref_run_env) (rn_open_state ref_run_env) cf
       (client_node ref_parse (rn_rpc ref_run_env c)) ref_chain_info = Inr ?node"
    "local_sapling_activation ?P (gbi_chain ref_chain_info) = Some 419200"
    "rn_reflection ref_run_env = Inr ()" "rn_bind ref_run_env (cf_grpc_bind cf) = Inr ()" for c
    by (simp_all add: ref_run_env_def tls_identity_def sel node_client_new_def with_timeouts_def is_ok_def select_node_def
        local_sapling_activation_def ref_chain_info_def)
  from program_comes_up [OF rc.cache_contract_axioms ref_empty_healthy free flags(1) cf flags(2,3) outside(1-8) low outside(9,10)]
  show ?thesis
    unfolding sel(3) append_Nil flags by (elim exE conjE) (intro exI conjI; assumption)
qed

end
