(* ===== verification/Fake_Node.thy ===== *)
theory Fake_Node
  imports Fetch Rust_Text
begin

text \<open>
  src/testutil.rs: the fake node the module tests run against. A method answers what its field was set to, or
  panics when it was not, and several record how they were called; so a method maps the fake to the fake it
  leaves and to its answer, None for the panic. How long the two delayed methods sleep is part of what they
  return. Counters stay far below their width. The fixture that serves raw blocks is shown to be a node the fetch accepts.
\<close>

section \<open>The fake\<close>

record fake_node =
  fn_info :: "get_info option"
  fn_blockchain_info :: "get_blockchain_info option"
  fn_blockchain_info_failures :: u32
  fn_block_verbose :: "get_block_verbose option"
  fn_block_verbose_err :: "(int \<times> string) option"
  fn_block_count :: "u64 option"
  fn_block_raw :: "bytes option"
  fn_hash_by_height :: "u64 \<rightharpoonup> string"
  fn_verbose_by_height :: "u64 \<rightharpoonup> get_block_verbose"
  fn_block_verbose_calls :: u32
  fn_raw_by_hash :: "string \<rightharpoonup> bytes"
  fn_raw_transaction :: "get_raw_transaction option"
  fn_raw_transaction_err :: "(int \<times> string) option"
  fn_send_ok :: "string option"
  fn_send_err :: "(int \<times> string) option"
  fn_treestate :: "get_tree_state option"
  fn_address_balance :: "get_address_balance option"
  fn_address_balance_err :: "(int \<times> string) option"
  fn_address_utxos :: "address_utxo list option"
  fn_address_utxos_err :: "(int \<times> string) option"
  fn_address_txids :: "string list option"
  fn_address_txids_err :: "(int \<times> string) option"
  fn_subtrees :: "subtree list option"
  fn_subtrees_err :: "(int \<times> string) option"
  fn_requested_subtree_params :: "(string \<times> u32 \<times> u32) option"
  fn_subtrees_delay :: "nat option"
  fn_block_hash_delay :: "nat option"
  fn_block_hash_calls :: u32
  fn_raw_mempool :: "string list option"
  fn_requested_txid :: "string option"
  fn_requested_txid_range :: "(u64 \<times> u64) option"
  fn_requested_treestate_id :: "string option"
  fn_treestate_err :: "(int \<times> string) option"

definition fake_default :: fake_node where
  "fake_default = \<lparr>
     fn_info = None, fn_blockchain_info = None, fn_blockchain_info_failures = 0, fn_block_verbose = None,
     fn_block_verbose_err = None, fn_block_count = None, fn_block_raw = None, fn_hash_by_height = Map.empty,
     fn_verbose_by_height = Map.empty, fn_block_verbose_calls = 0, fn_raw_by_hash = Map.empty,
     fn_raw_transaction = None, fn_raw_transaction_err = None, fn_send_ok = None, fn_send_err = None,
     fn_treestate = None, fn_address_balance = None, fn_address_balance_err = None, fn_address_utxos = None,
     fn_address_utxos_err = None, fn_address_txids = None, fn_address_txids_err = None, fn_subtrees = None,
     fn_subtrees_err = None, fn_requested_subtree_params = None, fn_subtrees_delay = None, fn_block_hash_delay = None,
     fn_block_hash_calls = 0, fn_raw_mempool = None, fn_requested_txid = None, fn_requested_txid_range = None,
     fn_requested_treestate_id = None, fn_treestate_err = None\<rparr>"

text \<open>The configured error, if any, and else the configured answer, whose absence is a panic.\<close>

definition canned :: "(int \<times> string) option \<Rightarrow> 'a option \<Rightarrow> (node_error, 'a) result option" where
  "canned err ok =
     (case err of Some (code, message) \<Rightarrow> Some (Inl (Rpc code message)) | None \<Rightarrow> map_option Inr ok)"

definition fake_get_info :: "fake_node \<Rightarrow> fake_node \<times> (node_error, get_info) result option" where
  "fake_get_info f = (f, canned None (fn_info f))"

definition fake_get_blockchain_info :: "fake_node \<Rightarrow> fake_node \<times> (node_error, get_blockchain_info) result option" where
  "fake_get_blockchain_info f =
     (if fn_blockchain_info_failures f > 0
      then (f\<lparr>fn_blockchain_info_failures := fn_blockchain_info_failures f - 1\<rparr>, Some (Inl EmptyResult))
      else (f, canned None (fn_blockchain_info f)))"

definition fake_get_block_verbose :: "fake_node \<Rightarrow> u64 \<Rightarrow> fake_node \<times> (node_error, get_block_verbose) result option" where
  "fake_get_block_verbose f height =
     (f\<lparr>fn_block_verbose_calls := fn_block_verbose_calls f + 1\<rparr>,
      case fn_block_verbose_err f of
        Some (code, message) \<Rightarrow> Some (Inl (Rpc code message))
      | None \<Rightarrow>
          if dom (fn_verbose_by_height f) \<noteq> {} then
            Some (ok_or (Rpc (-8) (''Block not found: '' @ dec_string height)) (fn_verbose_by_height f height))
          else canned None (fn_block_verbose f))"

definition fake_get_block_count :: "fake_node \<Rightarrow> fake_node \<times> (node_error, u64) result option" where
  "fake_get_block_count f = (f, canned None (fn_block_count f))"

definition fake_get_block_hash :: "fake_node \<Rightarrow> u64 \<Rightarrow> fake_node \<times> nat option \<times> (node_error, string) result" where
  "fake_get_block_hash f height =
     (f\<lparr>fn_block_hash_calls := fn_block_hash_calls f + 1\<rparr>, fn_block_hash_delay f,
      ok_or (Rpc (-1) ''Provided index is greater than the current tip'') (fn_hash_by_height f height))"

text \<open>The trait's default for a batch: one lookup per height, up to the first that fails.\<close>

primrec fake_get_block_hashes :: "fake_node \<Rightarrow> u64 list \<Rightarrow> fake_node \<times> (node_error, string list) result" where
  "fake_get_block_hashes f [] = (f, Inr [])"
| "fake_get_block_hashes f (height # heights) =
     (let (f, _, hash) = fake_get_block_hash f height in
      case hash of
        Inl e \<Rightarrow> (f, Inl e)
      | Inr hash \<Rightarrow>
          (let (f, hashes) = fake_get_block_hashes f heights in (f, bindE hashes (\<lambda>hs. Inr (hash # hs)))))"

definition fake_get_block_raw :: "fake_node \<Rightarrow> string \<Rightarrow> fake_node \<times> (node_error, bytes) result option" where
  "fake_get_block_raw f hash =
     (f,
      if dom (fn_raw_by_hash f) \<noteq> {} then
        Some (ok_or (Rpc (-8) (''Block not found: '' @ hash)) (fn_raw_by_hash f hash))
      else canned None (fn_block_raw f))"

definition fake_get_raw_transaction :: "fake_node \<Rightarrow> string \<Rightarrow> fake_node \<times> (node_error, get_raw_transaction) result option" where
  "fake_get_raw_transaction f txid_hex =
     (f\<lparr>fn_requested_txid := Some txid_hex\<rparr>, canned (fn_raw_transaction_err f) (fn_raw_transaction f))"

definition fake_send_raw_transaction :: "fake_node \<Rightarrow> string \<Rightarrow> fake_node \<times> (node_error, string) result option" where
  "fake_send_raw_transaction f hex = (f, canned (fn_send_err f) (fn_send_ok f))"

definition fake_get_treestate :: "fake_node \<Rightarrow> string \<Rightarrow> fake_node \<times> (node_error, get_tree_state) result option" where
  "fake_get_treestate f block =
     (f\<lparr>fn_requested_treestate_id := Some block\<rparr>, canned (fn_treestate_err f) (fn_treestate f))"

definition fake_get_address_balance :: "fake_node \<Rightarrow> string list \<Rightarrow> fake_node \<times> (node_error, get_address_balance) result option" where
  "fake_get_address_balance f addresses = (f, canned (fn_address_balance_err f) (fn_address_balance f))"

definition fake_get_address_utxos :: "fake_node \<Rightarrow> string list \<Rightarrow> fake_node \<times> (node_error, address_utxo list) result option" where
  "fake_get_address_utxos f addresses = (f, canned (fn_address_utxos_err f) (fn_address_utxos f))"

definition fake_get_address_txids ::
    "fake_node \<Rightarrow> string list \<Rightarrow> u64 \<Rightarrow> u64 \<Rightarrow> fake_node \<times> (node_error, string list) result option" where
  "fake_get_address_txids f addresses start end =
     (f\<lparr>fn_requested_txid_range := Some (start, end)\<rparr>, canned (fn_address_txids_err f) (fn_address_txids f))"

definition fake_get_subtrees ::
    "fake_node \<Rightarrow> string \<Rightarrow> u32 \<Rightarrow> u32 \<Rightarrow> fake_node \<times> nat option \<times> (node_error, subtree list) result option" where
  "fake_get_subtrees f protocol start_index max_entries =
     (f\<lparr>fn_requested_subtree_params := Some (protocol, start_index, max_entries)\<rparr>, fn_subtrees_delay f,
      canned (fn_subtrees_err f) (fn_subtrees f))"

definition fake_get_raw_mempool :: "fake_node \<Rightarrow> fake_node \<times> (node_error, string list) result option" where
  "fake_get_raw_mempool f = (f, canned None (fn_raw_mempool f))"


section \<open>A fake that serves blocks\<close>

text \<open>None stands for the panic of an unwrap on a block that does not parse.\<close>

definition verbose_for_raw_block :: "'x parse_ext_scheme \<Rightarrow> bytes \<Rightarrow> (string \<times> get_block_verbose) option" where
  "verbose_for_raw_block X raw =
     (case to_compact_block X raw of
        Inl _ \<Rightarrow> None
      | Inr block \<Rightarrow>
          (let hash = wire_to_display_hex X (cb_hash block) in
           Some (hash, \<lparr>gbv_hash = hash, gbv_tx = [],
             gbv_trees = \<lparr>tr_sapling = 0, tr_orchard = 0, tr_ironwood = 0\<rparr>\<rparr>)))"

primrec serving_maps ::
    "'x parse_ext_scheme \<Rightarrow> bytes list \<Rightarrow> (u64 \<rightharpoonup> get_block_verbose) \<times> (string \<rightharpoonup> bytes)
      \<Rightarrow> ((u64 \<rightharpoonup> get_block_verbose) \<times> (string \<rightharpoonup> bytes)) option" where
  "serving_maps X [] maps = Some maps"
| "serving_maps X (raw # raws) maps =
     (case to_compact_block X raw of
        Inl _ \<Rightarrow> None
      | Inr block \<Rightarrow>
          (case verbose_for_raw_block X raw of
             None \<Rightarrow> None
           | Some (hash, verbose) \<Rightarrow>
               serving_maps X raws ((fst maps)(cb_height block \<mapsto> verbose), (snd maps)(hash \<mapsto> raw))))"

definition fake_node_serving :: "'x parse_ext_scheme \<Rightarrow> bytes list \<Rightarrow> fake_node option" where
  "fake_node_serving X raws =
     map_option (\<lambda>(verbose_by_height, raw_by_hash).
         fake_default\<lparr>fn_verbose_by_height := verbose_by_height, fn_raw_by_hash := raw_by_hash\<rparr>)
       (serving_maps X raws (Map.empty, Map.empty))"


section \<open>Properties\<close>

text \<open>A node that answers as the fake does wherever the fake answers at all.\<close>

definition answers_as :: "fake_node \<Rightarrow> node_rpc \<Rightarrow> bool" where
  "answers_as f node \<longleftrightarrow>
     (\<forall>h r. snd (fake_get_block_verbose f h) = Some r \<longrightarrow> rpc_get_block_verbose node h = r) \<and>
     (\<forall>hash r. snd (fake_get_block_raw f hash) = Some r \<longrightarrow> rpc_get_block_raw node hash = r)"

definition zero_verbose :: "'x hex_ext_scheme \<Rightarrow> compact_block \<Rightarrow> get_block_verbose" where
  "zero_verbose X b = \<lparr>gbv_hash = wire_to_display_hex X (cb_hash b), gbv_tx = [],
     gbv_trees = \<lparr>tr_sapling = 0, tr_orchard = 0, tr_ironwood = 0\<rparr>\<rparr>"

lemma map_add_first: "k \<notin> dom n \<Longrightarrow> m(k \<mapsto> v) ++ n = m ++ n(k \<mapsto> v)"
  by (auto simp: map_add_def fun_eq_iff split: option.splits)

lemma serving_maps_eq:
  assumes "list_all2 (\<lambda>raw b. to_compact_block X raw = Inr b) raws bs"
    and "distinct (map cb_height bs)" and "distinct (map (\<lambda>b. wire_to_display_hex X (cb_hash b)) bs)"
  shows "serving_maps X raws (m, n) =
    Some (m ++ map_of (map (\<lambda>b. (cb_height b, zero_verbose X b)) bs),
          n ++ map_of (zip (map (\<lambda>b. wire_to_display_hex X (cb_hash b)) bs) raws))"
  using assms
proof (induction arbitrary: m n rule: list_all2_induct)
  case (Cons raw raws b bs)
  let ?hash = "\<lambda>b. wire_to_display_hex X (cb_hash b)"
  have fresh: "cb_height b \<notin> dom (map_of (map (\<lambda>b. (cb_height b, zero_verbose X b)) bs))"
    "?hash b \<notin> dom (map_of (zip (map ?hash bs) raws))"
    using Cons.prems list_all2_lengthD [OF Cons.hyps(2)]
    by (simp add: dom_map_of_conv_image_fst image_image, simp)
  have "verbose_for_raw_block X raw = Some (?hash b, zero_verbose X b)"
    using Cons.hyps(1) by (simp add: verbose_for_raw_block_def zero_verbose_def Let_def)
  then show ?case
    using Cons.IH Cons.prems Cons.hyps(1) map_add_first [OF fresh(1)] map_add_first [OF fresh(2)]
    by (simp del: map_add_upd fun_upd_apply)
qed simp

text \<open>
  The fixture serves what it was given. When raw blocks with different heights and hashes all parse,
  the fake built from them answers, without a panic, every lookup of the fetch: over any node that answers
  as it does, fetching the height of one of them is parsing that block, byte for byte, and fetching any
  other height fails as a node past its tip.
\<close>

theorem fake_node_serves:
  assumes "list_all2 (\<lambda>raw b. to_compact_block X raw = Inr b) raws bs" and "raws \<noteq> []"
    and "distinct (map cb_height bs)" and "distinct (map (\<lambda>b. wire_to_display_hex X (cb_hash b)) bs)"
  shows "\<exists>f. fake_node_serving X raws = Some f \<and> (\<forall>node. answers_as f node \<longrightarrow>
    (\<forall>i < length raws. compact_block_fetch X None node (cb_height (bs ! i)) = map_err FetchParse (to_compact_block X (raws ! i))) \<and>
    (\<forall>h. h \<notin> cb_height ` set bs \<longrightarrow>
       compact_block_fetch X None node h = Inl (FetchNode (Rpc (-8) (''Block not found: '' @ dec_string h)))))"
proof -
  let ?hash = "\<lambda>b. wire_to_display_hex X (cb_hash b)"
  define verbose where "verbose = map_of (map (\<lambda>b. (cb_height b, zero_verbose X b)) bs)"
  define raw_of where "raw_of = map_of (zip (map ?hash bs) raws)"
  define f where "f = fake_default\<lparr>fn_verbose_by_height := verbose, fn_raw_by_hash := raw_of\<rparr>"
  have len: "length raws = length bs" using assms(1) by (rule list_all2_lengthD)
  have f: "fake_node_serving X raws = Some f"
    using serving_maps_eq [OF assms(1,3,4), of Map.empty Map.empty]
    by (simp add: fake_node_serving_def f_def verbose_def raw_of_def)
  have ne: "dom verbose \<noteq> {}" "dom raw_of \<noteq> {}"
    using assms(2) len by (auto simp: verbose_def raw_of_def dom_map_of_conv_image_fst)
  have at: "verbose (cb_height (bs ! i)) = Some (zero_verbose X (bs ! i))" "raw_of (?hash (bs ! i)) = Some (raws ! i)"
    if "i < length bs" for i
  proof -
    show "verbose (cb_height (bs ! i)) = Some (zero_verbose X (bs ! i))"
      using that assms(3) by (auto simp: verbose_def comp_def intro!: map_of_is_SomeI)
    show "raw_of (?hash (bs ! i)) = Some (raws ! i)"
      using map_of_zip_nth [of "map ?hash bs" raws i] that assms(4) len by (simp add: raw_of_def)
  qed
  have "(\<forall>i < length raws. compact_block_fetch X None node (cb_height (bs ! i)) = map_err FetchParse (to_compact_block X (raws ! i))) \<and>
    (\<forall>h. h \<notin> cb_height ` set bs \<longrightarrow>
       compact_block_fetch X None node h = Inl (FetchNode (Rpc (-8) (''Block not found: '' @ dec_string h))))"
    if node: "answers_as f node" for node
  proof (intro conjI allI impI)
    have calls: "rpc_get_block_verbose node h = ok_or (Rpc (-8) (''Block not found: '' @ dec_string h)) (verbose h)"
      "rpc_get_block_raw node hash = ok_or (Rpc (-8) (''Block not found: '' @ hash)) (raw_of hash)" for h hash
      using node ne by (simp_all add: answers_as_def fake_get_block_verbose_def fake_get_block_raw_def f_def fake_default_def)
    show "compact_block_fetch X None node (cb_height (bs ! i)) = map_err FetchParse (to_compact_block X (raws ! i))" if "i < length raws" for i
    proof -
      have b: "to_compact_block X (raws ! i) = Inr (bs ! i)" using list_all2_nthD [OF assms(1) that] .
      then show ?thesis
        using at [of i] that len to_compact_block_metadata [OF b]
        by (simp add: compact_block_fetch_def calls zero_verbose_def)
    qed
    show "compact_block_fetch X None node h = Inl (FetchNode (Rpc (-8) (''Block not found: '' @ dec_string h)))"
      if "h \<notin> cb_height ` set bs" for h
    proof -
      have "verbose h = None" using that by (auto simp: verbose_def map_of_eq_None_iff)
      then show ?thesis by (simp add: compact_block_fetch_def calls)
    qed
  qed
  then show ?thesis using f by blast
qed

theorem fake_node_serves_witness:
  "\<exists>f node b. fake_node_serving ref_parse [ref_raw_block] = Some f \<and> answers_as f node \<and>
     to_compact_block ref_parse ref_raw_block = Inr b \<and> compact_block_fetch ref_parse None node 42 = Inr b"
proof -
  have "map_err (\<lambda>_. ()) (bindE (to_compact_block ref_parse ref_raw_block) (\<lambda>b. Inr (cb_height b))) = Inr 42" by code_simp
  then obtain b where b: "to_compact_block ref_parse ref_raw_block = Inr b" "cb_height b = 42"
    by (cases "to_compact_block ref_parse ref_raw_block") auto
  then have parsed: "list_all2 (\<lambda>raw b. to_compact_block ref_parse raw = Inr b) [ref_raw_block] [b]" by simp
  from fake_node_serves [OF parsed] obtain f where f: "fake_node_serving ref_parse [ref_raw_block] = Some f"
    "answers_as f node \<Longrightarrow> compact_block_fetch ref_parse None node (cb_height b) = map_err FetchParse (Inr b)" for node
    using b by auto
  define node where "node = dead_node\<lparr>
    rpc_get_block_verbose := (\<lambda>h. case snd (fake_get_block_verbose f h) of Some r \<Rightarrow> r | None \<Rightarrow> Inl EmptyResult),
    rpc_get_block_raw := (\<lambda>hash. case snd (fake_get_block_raw f hash) of Some r \<Rightarrow> r | None \<Rightarrow> Inl EmptyResult)\<rparr>"
  have "answers_as f node" by (simp add: answers_as_def node_def)
  with f(2) [OF this] show ?thesis using f(1) b by auto
qed

end
