(* ===== verification/Float64.thy ===== *)
theory Float64
  imports Complex_Main Prelude
begin

text \<open>
  The f64 arithmetic of the measuring tools: a finite double is the rational it stands for, and every
  operation is the exact one rounded to the nearest double, ties to even. Only non-negative values of the
  normal range occur (counts, sizes, fractions and their quotients), so there are no infinities, no signed
  zeros and no subnormal numbers here.
\<close>

section \<open>Rounding\<close>

text \<open>The exponent of the leading bit.\<close>

fun lg :: "nat \<Rightarrow> nat" where
  "lg n = (if n < 2 then 0 else Suc (lg (n div 2)))"

declare lg.simps [simp del]

definition exponent :: "rat \<Rightarrow> int" where
  "exponent x = (if 1 \<le> x then int (lg (nat \<lfloor>x\<rfloor>)) else - int (Suc (lg (nat (\<lceil>1 / x\<rceil> - 1)))))"

definition pow2 :: "int \<Rightarrow> rat" where
  "pow2 e = (if 0 \<le> e then 2 ^ nat e else 1 / 2 ^ nat (- e))"

definition round_even :: "rat \<Rightarrow> int" where
  "round_even x =
     (let n = \<lfloor>x\<rfloor>; r = x - of_int n in
      if r < 1 / 2 then n else if r > 1 / 2 then n + 1 else if even n then n else n + 1)"

text \<open>The nearest double: 53 significant bits.\<close>

definition f64 :: "rat \<Rightarrow> rat" where
  "f64 x = (if x \<le> 0 then 0
            else let unit = pow2 (exponent x - 52) in of_int (round_even (x / unit)) * unit)"

text \<open>f64::round, half away from zero; and the cast of the result to usize.\<close>

definition round_usize :: "rat \<Rightarrow> usize" where
  "round_usize x = nat \<lfloor>x + 1 / 2\<rfloor>"

text \<open>The cast of any non-negative double to usize drops the fraction and saturates.\<close>

definition f64_as_usize :: "rat \<Rightarrow> usize" where
  "f64_as_usize x = min (nat \<lfloor>x\<rfloor>) u64_max"


section \<open>Lemmas\<close>

lemma lg_bounds: "0 < n \<Longrightarrow> 2 ^ lg n \<le> n \<and> n < 2 ^ Suc (lg n)"
proof (induction n rule: lg.induct)
  case (1 n)
  show ?case
  proof (cases "n < 2")
    case True
    then show ?thesis using "1.prems" by (simp add: lg.simps [of n])
  next
    case False
    then have "2 ^ lg (n div 2) \<le> n div 2 \<and> n div 2 < 2 ^ Suc (lg (n div 2))" using "1.IH" by simp
    then show ?thesis using False by (simp add: lg.simps [of n]) linarith
  qed
qed

lemma pow2_pos [simp]: "0 < pow2 e"
  by (simp add: pow2_def)

lemma pow2_nat: "pow2 (int n) = 2 ^ n"
  by (simp add: pow2_def)

lemma pow2_Suc: "pow2 (e + 1) = 2 * pow2 e"
proof (cases "0 \<le> e")
  case True
  then have "nat (e + 1) = Suc (nat e)" by simp
  then show ?thesis using True by (simp add: pow2_def)
next
  case False
  then have "nat (- e) = Suc (nat (- (e + 1)))" by simp
  then show ?thesis using False by (cases "e = -1") (simp_all add: pow2_def)
qed

lemma pow2_add_nat: "pow2 (e + int n) = pow2 e * 2 ^ n"
proof (induction n)
  case (Suc n)
  have "pow2 (e + int (Suc n)) = pow2 (e + int n + 1)" by (simp add: algebra_simps)
  then show ?case using Suc by (simp add: pow2_Suc)
qed simp

lemma pow2_mono: "d \<le> e \<Longrightarrow> pow2 d \<le> pow2 e"
  using pow2_add_nat [of d "nat (e - d)"] pow2_pos [of d] one_le_power [of "2 :: rat" "nat (e - d)"]
  by (simp add: mult_le_cancel_left1 less_le_not_le)

lemma exponent_bounds:
  assumes "0 < x"
  shows "pow2 (exponent x) \<le> x" and "x < pow2 (exponent x + 1)"
proof -
  have "pow2 (exponent x) \<le> x \<and> x < pow2 (exponent x + 1)"
  proof (cases "1 \<le> x")
    case True
    define n where "n = nat \<lfloor>x\<rfloor>"
    have n: "0 < n" "of_nat n \<le> x" "x < of_nat n + 1"
      using True by (simp_all add: n_def) linarith
    have "2 ^ lg n \<le> n" "Suc n \<le> 2 ^ Suc (lg n)" using lg_bounds [OF n(1)] by simp_all
    then have "(2 :: rat) ^ lg n \<le> of_nat n" "of_nat n + 1 \<le> (2 :: rat) ^ Suc (lg n)"
      by (metis of_nat_le_iff of_nat_numeral of_nat_power, metis of_nat_Suc of_nat_le_iff of_nat_numeral of_nat_power add.commute)
    then have "2 ^ lg n \<le> x" "x < 2 ^ Suc (lg n)" using n by linarith+
    then show ?thesis using True by (simp add: exponent_def n_def [symmetric] pow2_Suc pow2_nat)
  next
    case False
    define n where "n = nat (\<lceil>1 / x\<rceil> - 1)"
    have "1 < 1 / x" using assms False by simp
    then have c: "2 \<le> \<lceil>1 / x\<rceil>" by linarith
    then have n: "0 < n" "of_nat n < 1 / x" "1 / x \<le> of_nat n + 1"
      by (auto simp: n_def) linarith+
    have "2 ^ lg n \<le> n" "Suc n \<le> 2 ^ Suc (lg n)" using lg_bounds [OF n(1)] by simp_all
    then have p: "(2 :: rat) ^ lg n \<le> of_nat n" "of_nat n + 1 \<le> (2 :: rat) ^ Suc (lg n)"
      by (metis of_nat_le_iff of_nat_numeral of_nat_power, metis of_nat_Suc of_nat_le_iff of_nat_numeral of_nat_power add.commute)
    have e: "exponent x = - int (Suc (lg n))" using False by (simp add: exponent_def n_def)
    have "1 / x \<le> 2 ^ Suc (lg n)" "2 ^ lg n < 1 / x" using n p by linarith+
    then have "1 / 2 ^ Suc (lg n) \<le> x" "x < 1 / 2 ^ lg n"
      using assms by (simp_all add: field_simps)
    moreover have "pow2 (exponent x) = 1 / 2 ^ Suc (lg n)" "pow2 (exponent x + 1) = 1 / 2 ^ lg n"
      by (simp_all add: e pow2_def nat_add_distrib)
    ultimately show ?thesis by simp
  qed
  then show "pow2 (exponent x) \<le> x" and "x < pow2 (exponent x + 1)" by blast+
qed

lemma exponent_unique: "pow2 e \<le> x \<Longrightarrow> x < pow2 (e + 1) \<Longrightarrow> exponent x = e"
proof -
  assume a: "pow2 e \<le> x" "x < pow2 (e + 1)"
  then have pos: "0 < x" using pow2_pos [of e] by linarith
  have "\<not> exponent x < e" using pow2_mono [of "exponent x + 1" e] exponent_bounds(2) [OF pos] a(1) by linarith
  moreover have "\<not> e < exponent x" using pow2_mono [of "e + 1" "exponent x"] exponent_bounds(1) [OF pos] a(2) by linarith
  ultimately show ?thesis by simp
qed

lemma round_even_of_int [simp]: "round_even (of_int n) = n"
  by (simp add: round_even_def)

lemma round_even_bounds: "\<lfloor>x\<rfloor> \<le> round_even x" "round_even x \<le> \<lceil>x\<rceil>"
proof -
  show "\<lfloor>x\<rfloor> \<le> round_even x" by (simp add: round_even_def Let_def)
  show "round_even x \<le> \<lceil>x\<rceil>"
  proof (cases "x = of_int \<lfloor>x\<rfloor>")
    case True
    then show ?thesis by (metis ceiling_of_int order_refl round_even_of_int)
  next
    case False
    then have "\<lceil>x\<rceil> = \<lfloor>x\<rfloor> + 1" by (simp add: ceiling_altdef)
    then show ?thesis by (simp add: round_even_def Let_def)
  qed
qed

lemma round_even_mono: "x \<le> y \<Longrightarrow> round_even x \<le> round_even y"
proof (cases "\<lfloor>x\<rfloor> = \<lfloor>y\<rfloor>")
  case True
  assume "x \<le> y"
  then show ?thesis using True by (simp add: round_even_def Let_def)
next
  case False
  assume "x \<le> y"
  then have "\<lfloor>x\<rfloor> < \<lfloor>y\<rfloor>" using False floor_mono [of x y] by simp
  moreover have "\<lceil>x\<rceil> \<le> \<lfloor>x\<rfloor> + 1" by (simp add: ceiling_altdef)
  ultimately show ?thesis using round_even_bounds(2) [of x] round_even_bounds(1) [of y] by linarith
qed

lemma f64_pos: "0 < x \<Longrightarrow> f64 x = of_int (round_even (x / pow2 (exponent x - 52))) * pow2 (exponent x - 52)"
  by (simp add: f64_def Let_def)

text \<open>A value stays between the powers of two around it.\<close>

lemma f64_range:
  assumes "0 < x"
  shows "pow2 (exponent x) \<le> f64 x" and "f64 x \<le> pow2 (exponent x + 1)"
proof -
  let ?u = "pow2 (exponent x - 52)"
  have e: "pow2 (exponent x) = of_int (2 ^ 52) * ?u" "pow2 (exponent x + 1) = of_int (2 ^ 53) * ?u"
    using pow2_add_nat [of "exponent x - 52" 52] pow2_add_nat [of "exponent x - 52" 53] by (simp_all add: mult.commute add.commute)
  have "of_int (2 ^ 52) \<le> x / ?u" "x / ?u \<le> of_int (2 ^ 53)"
    using exponent_bounds [OF assms] unfolding e by (simp_all add: pos_le_divide_eq pos_divide_le_eq)
  from round_even_mono [OF this(1)] round_even_mono [OF this(2)]
  have "2 ^ 52 \<le> round_even (x / ?u)" "round_even (x / ?u) \<le> 2 ^ 53" by (simp_all only: round_even_of_int)
  then have "of_int (2 ^ 52) * ?u \<le> f64 x" "f64 x \<le> of_int (2 ^ 53) * ?u"
    unfolding f64_pos [OF assms] by (intro mult_right_mono; simp only: of_int_le_iff; simp add: less_imp_le)+
  then show "pow2 (exponent x) \<le> f64 x" "f64 x \<le> pow2 (exponent x + 1)" by (simp_all only: e)
qed

lemma f64_mono: "x \<le> y \<Longrightarrow> f64 x \<le> f64 y"
proof (cases "0 < x")
  case True
  assume le: "x \<le> y"
  then have y: "0 < y" using True by simp
  have "\<not> exponent y < exponent x"
    using pow2_mono [of "exponent y + 1" "exponent x"] exponent_bounds(1) [OF True] exponent_bounds(2) [OF y] le by linarith
  then consider "exponent x = exponent y" | "exponent x + 1 \<le> exponent y" by linarith
  then show ?thesis
  proof cases
    case 1
    have "x / pow2 (exponent y - 52) \<le> y / pow2 (exponent y - 52)" using le by (simp add: divide_right_mono less_imp_le)
    then have "round_even (x / pow2 (exponent y - 52)) \<le> round_even (y / pow2 (exponent y - 52))" by (rule round_even_mono)
    then show ?thesis unfolding f64_pos [OF True] f64_pos [OF y] 1 by (simp add: mult_right_mono less_imp_le)
  next
    case 2
    then show ?thesis using f64_range(2) [OF True] f64_range(1) [OF y] pow2_mono [OF 2] by linarith
  qed
next
  case False
  moreover have "0 \<le> f64 y"
    using f64_range(1) [of y] pow2_pos [of "exponent y"] by (cases "0 < y") (linarith, simp add: f64_def)
  ultimately show ?thesis by (simp add: f64_def)
qed

text \<open>Integers of up to 53 bits are doubles.\<close>

lemma f64_of_nat: "n < 2 ^ 53 \<Longrightarrow> f64 (of_nat n) = of_nat n"
proof (cases "n = 0")
  case False
  assume "n < 2 ^ 53"
  let ?x = "of_nat n :: rat"
  have pos: "0 < ?x" using False by simp
  have e: "exponent ?x = int (lg n)" using False by (simp add: exponent_def)
  have "(2 :: nat) ^ lg n < 2 ^ 53" using lg_bounds [of n] False \<open>n < 2 ^ 53\<close> by linarith
  then have "lg n < 53" using power_less_imp_less_exp [of "2 :: nat" "lg n" 53] by simp
  then have u: "pow2 (exponent ?x - 52) = 1 / 2 ^ (52 - lg n)"
    by (cases "lg n = 52") (simp_all add: e pow2_def nat_diff_distrib)
  have "?x / pow2 (exponent ?x - 52) = of_int (int n * 2 ^ (52 - lg n))" by (simp add: u)
  then have "round_even (?x / pow2 (exponent ?x - 52)) = int n * 2 ^ (52 - lg n)" by (simp only: round_even_of_int)
  then show ?thesis unfolding f64_pos [OF pos] by (simp add: u)
qed (simp add: f64_def)

lemma f64_nonneg: "0 \<le> f64 x"
  using f64_mono [of 0 x] by (cases "0 \<le> x") (simp_all add: f64_def)

lemma f64_le_nat: "x \<le> of_nat n \<Longrightarrow> n < 2 ^ 53 \<Longrightarrow> f64 x \<le> of_nat n"
  using f64_mono f64_of_nat by metis

lemma round_usize_le: "0 \<le> x \<Longrightarrow> x \<le> of_nat n \<Longrightarrow> round_usize x \<le> n"
proof -
  assume "0 \<le> x" "x \<le> of_nat n"
  then have "\<lfloor>x + 1 / 2\<rfloor> \<le> int n" by (simp add: floor_le_iff)
  then show ?thesis by (simp add: round_usize_def)
qed

lemma round_usize_mono: "x \<le> y \<Longrightarrow> round_usize x \<le> round_usize y"
  by (simp add: round_usize_def nat_mono floor_mono)

end
