(* ===== verification/Wire_Size.thy ===== *)
theory Wire_Size
  imports Snapshot_Publish Float64 Rust_Text
begin

text \<open>
  examples/wire_size.rs: what a range of cached blocks costs on the wire. The compressor and the dump file are
  arguments; the report is a record of the numbers the program prints. Byte counts of stored blocks stay
  below 64 bits, so the sums are plain.
\<close>

section \<open>The statistics\<close>

definition PACKET_PAYLOAD :: usize where
  "PACKET_PAYLOAD = 2048"

definition GRPC_FRAMING :: usize where
  "GRPC_FRAMING = 5"

definition RANGE_WIDTHS :: "usize list" where
  "RANGE_WIDTHS = [100, 1000, 10000, 100000]"

text \<open>None is the panic of an index out of bounds.\<close>

definition percentile :: "usize list \<Rightarrow> rat \<Rightarrow> usize option" where
  "percentile xs fraction =
     (if xs = [] then Some 0
      else let index = round_usize (f64 (f64 (of_nat (length xs - 1)) * fraction)) in
           if index < length xs then Some (xs ! index) else None)"

fun human_loop :: "rat \<Rightarrow> string list \<Rightarrow> rat \<times> string" where
  "human_loop value [] = (value, [])"
| "human_loop value [unit] = (value, unit)"
| "human_loop value (unit # units) =
     (if value \<ge> 1024 then human_loop (f64 (value / 1024)) units else (value, unit))"

text \<open>A double with one decimal: the exact value rounded, ties to even.\<close>

definition fixed1 :: "rat \<Rightarrow> string" where
  "fixed1 x = (let tenths = nat (round_even (x * 10)) in dec_string (tenths div 10) @ ''.'' @ dec_string (tenths mod 10))"

definition human_bytes :: "usize \<Rightarrow> string" where
  "human_bytes bytes =
     (let (value, unit) = human_loop (f64 (of_nat bytes)) [''B'', ''KiB'', ''MiB'', ''GiB''] in
      fixed1 value @ '' '' @ unit)"

definition div_ceil :: "usize \<Rightarrow> usize \<Rightarrow> usize" where
  "div_ceil a b = (a + b - 1) div b"


section \<open>The measurement\<close>

record wire_args =
  wa_from :: "u64 option"
  wa_to :: "u64 option"
  wa_dump :: "string option"

record 'z wire_world =
  encode_all :: "bytes \<Rightarrow> (string, bytes) result"
  encoder_new :: "(string, 'z) result"
  encoder_write :: "'z \<Rightarrow> bytes \<Rightarrow> (string, 'z) result"
  encoder_finish :: "'z \<Rightarrow> (string, usize) result"
  create_file :: "string \<Rightarrow> (string, unit) result"
  write_file :: "bytes \<Rightarrow> (string, unit) result"

datatype wire_error =
    WireCache cache_error
  | CacheIsEmpty
  | EmptyWireRange u64 u64 u64 u64
  | WireContext string string
  | NoBlocksIn u64 u64
  | WirePanic

record 'z wire_state =
  ws_sizes :: "usize list"
  ws_per_message :: usize
  ws_encoder :: 'z
  ws_dumped :: bytes

definition wire_visit :: "'z wire_world \<Rightarrow> wire_args \<Rightarrow> u64 \<Rightarrow> bytes \<Rightarrow> 'z wire_state \<Rightarrow> (wire_error, 'z wire_state) result" where
  "wire_visit W args height bytes s =
     bindE (map_err (WireContext ''zstd per message'') (encode_all W bytes)) (\<lambda>compressed.
     bindE (map_err (WireContext ''zstd over the stream'') (encoder_write W (ws_encoder s) bytes)) (\<lambda>encoder.
     bindE (if wa_dump args \<noteq> None then map_err (WireContext ''writing the payload dump'') (write_file W bytes) else Inr ()) (\<lambda>_.
       Inr \<lparr>ws_sizes = ws_sizes s @ [length bytes], ws_per_message = ws_per_message s + length compressed,
            ws_encoder = encoder, ws_dumped = (if wa_dump args \<noteq> None then ws_dumped s @ bytes else ws_dumped s)\<rparr>)))"

record wire_report =
  wr_first :: u64
  wr_last :: u64
  wr_count :: usize
  wr_min :: usize
  wr_p50 :: usize
  wr_mean :: usize
  wr_p90 :: usize
  wr_p99 :: usize
  wr_max :: usize
  wr_mean_wire :: usize
  wr_widths :: "(usize \<times> string \<times> usize) list"
  wr_payload :: string
  wr_per_message_row :: "string \<times> rat"
  wr_stream_row :: "string \<times> rat"

text \<open>The row of a range width: its bytes at the mean size, and the packets they fill.\<close>

definition width_row :: "rat \<Rightarrow> usize \<Rightarrow> usize \<times> string \<times> usize" where
  "width_row mean_wire width =
     (let bytes = f64_as_usize (f64 (mean_wire * f64 (of_nat width))) in
      (width, human_bytes bytes, div_ceil bytes PACKET_PAYLOAD))"

definition ratio :: "usize \<Rightarrow> usize \<Rightarrow> rat" where
  "ratio payload compressed = f64 (f64 (of_nat payload) / f64 (of_nat (max compressed 1)))"

definition wire_report_of :: "u64 \<Rightarrow> u64 \<Rightarrow> usize list \<Rightarrow> usize \<Rightarrow> usize \<Rightarrow> wire_report option" where
  "wire_report_of low high block_sizes per_message_total stream_total =
     (let block_count = length block_sizes;
          payload_total = sum_list block_sizes;
          wire_total = payload_total + block_count * GRPC_FRAMING;
          ordered = sort block_sizes;
          mean_wire = f64 (f64 (of_nat wire_total) / f64 (of_nat block_count)) in
      case (percentile ordered (f64 (1 / 2)), percentile ordered (f64 (9 / 10)), percentile ordered (f64 (99 / 100))) of
        (Some p50, Some p90, Some p99) \<Rightarrow>
          Some \<lparr>wr_first = low, wr_last = high, wr_count = block_count,
            wr_min = (case ordered of [] \<Rightarrow> 0 | x # _ \<Rightarrow> x), wr_p50 = p50, wr_mean = payload_total div block_count,
            wr_p90 = p90, wr_p99 = p99, wr_max = (if ordered = [] then 0 else last ordered),
            wr_mean_wire = wire_total div block_count,
            wr_widths = map (width_row mean_wire) RANGE_WIDTHS,
            wr_payload = human_bytes payload_total,
            wr_per_message_row = (human_bytes per_message_total, ratio payload_total per_message_total),
            wr_stream_row = (human_bytes stream_total, ratio payload_total stream_total)\<rparr>
      | _ \<Rightarrow> None)"

definition wire_size ::
    "('b, 'm) cache_ext \<Rightarrow> faults \<Rightarrow> 'b option \<Rightarrow> 'm option \<Rightarrow> 'z wire_world \<Rightarrow> wire_args \<Rightarrow> (wire_error, wire_report) result" where
  "wire_size E flt stored_blocks stored_meta W args =
     bindE (map_err WireCache (cache_open E flt stored_blocks stored_meta)) (\<lambda>cache.
     bindE (map_err WireCache (cache_range E flt cache)) (\<lambda>cached.
     bindE (ok_or CacheIsEmpty cached) (\<lambda>(cached_first, cached_last).
       let low = max (case wa_from args of Some h \<Rightarrow> h | None \<Rightarrow> cached_first) cached_first;
           high = min (case wa_to args of Some h \<Rightarrow> h | None \<Rightarrow> cached_last) cached_last in
     bindE (failIf (\<not> low \<le> high) (EmptyWireRange low high cached_first cached_last)) (\<lambda>_.
     bindE (map_err (WireContext ''starting the stream compressor'') (encoder_new W)) (\<lambda>encoder.
     bindE (case wa_dump args of
              Some path \<Rightarrow> map_err (WireContext ''creating the payload dump'') (create_file W path)
            | None \<Rightarrow> Inr ()) (\<lambda>_.
     bindE (for_each_raw E flt cache low high WireCache (wire_visit W args)
              \<lparr>ws_sizes = [], ws_per_message = 0, ws_encoder = encoder, ws_dumped = []\<rparr>) (\<lambda>s.
     bindE (map_err (WireContext ''finishing the stream compressor'') (encoder_finish W (ws_encoder s))) (\<lambda>stream_total.
     bindE (failIf (ws_sizes s = []) (NoBlocksIn low high)) (\<lambda>_.
       ok_or WirePanic (wire_report_of low high (ws_sizes s) (ws_per_message s) stream_total))))))))))"


section \<open>Lemmas\<close>

lemma percentile_total:
  assumes "length xs < 2 ^ 53" and "0 \<le> fraction" and "fraction \<le> 1" and "xs \<noteq> []" and n: "length xs = Suc n"
  shows "\<exists>i < length xs. percentile xs fraction = Some (xs ! i) \<and> i = round_usize (f64 (of_nat n * fraction))"
proof -
  have small: "n < 2 ^ 53" using assms(1) n by simp
  have "of_nat n * fraction \<le> of_nat n" using assms(3) by (simp add: mult_left_le)
  then have "f64 (of_nat n * fraction) \<le> of_nat n" by (rule f64_le_nat [OF _ small])
  then have "round_usize (f64 (of_nat n * fraction)) \<le> n" by (rule round_usize_le [OF f64_nonneg])
  then show ?thesis using f64_of_nat [OF small] assms(4) n by (simp add: percentile_def Let_def)
qed

lemma percentiles_ordered:
  assumes "sorted xs" and "xs \<noteq> []" and "length xs < 2 ^ 53" and "0 \<le> a" and "a \<le> b" and "b \<le> 1"
  shows "\<exists>p q. percentile xs a = Some p \<and> percentile xs b = Some q \<and> {p, q} \<subseteq> set xs \<and> p \<le> q"
proof -
  obtain n where n: "length xs = Suc n" using assms(2) by (cases xs) simp_all
  obtain i where i: "i < length xs" "percentile xs a = Some (xs ! i)" "i = round_usize (f64 (of_nat n * a))"
    using percentile_total [OF assms(3,4) order_trans [OF assms(5,6)] assms(2) n] by blast
  obtain j where j: "j < length xs" "percentile xs b = Some (xs ! j)" "j = round_usize (f64 (of_nat n * b))"
    using percentile_total [OF assms(3) order_trans [OF assms(4,5)] assms(6,2) n] by blast
  have "i \<le> j" unfolding i(3) j(3) using assms(5) by (intro round_usize_mono f64_mono mult_left_mono) simp_all
  then show ?thesis using i(1,2) j(1,2) sorted_nth_mono [OF assms(1)] by simp
qed

text \<open>The three fractions printed, as doubles.\<close>

lemma f64_fractions:
  "0 \<le> f64 (1 / 2)" "f64 (1 / 2) \<le> f64 (9 / 10)" "f64 (9 / 10) \<le> f64 (99 / 100)" "f64 (99 / 100) \<le> 1"
  using f64_le_nat [of "99 / 100" 1] by (simp_all add: f64_nonneg f64_mono)

text \<open>A compressor and a file that do not fail.\<close>

definition world_works :: "'z wire_world \<Rightarrow> bool" where
  "world_works W \<longleftrightarrow> (\<forall>b. is_ok (encode_all W b)) \<and> is_ok (encoder_new W) \<and> (\<forall>z b. is_ok (encoder_write W z b)) \<and>
     (\<forall>z. is_ok (encoder_finish W z)) \<and> (\<forall>path. is_ok (create_file W path)) \<and> (\<forall>b. is_ok (write_file W b))"

lemma wire_visit_works:
  assumes "world_works W"
  shows "\<exists>s'. wire_visit W args h bytes s = Inr s' \<and> ws_sizes s' = ws_sizes s @ [length bytes]"
proof -
  obtain c z where "encode_all W bytes = Inr c" "encoder_write W (ws_encoder s) bytes = Inr z" "write_file W bytes = Inr ()"
    using assms by (auto simp: world_works_def elim!: is_okE dest!: spec [of _ bytes] spec [of _ "ws_encoder s"])
  then show ?thesis by (simp add: wire_visit_def)
qed

lemma wire_fold:
  assumes "world_works W"
  shows "\<exists>s'. foldE (\<lambda>(height, value) s. wire_visit W args height value s) es s = Inr s' \<and>
    ws_sizes s' = ws_sizes s @ map (length \<circ> snd) es"
proof (induction es arbitrary: s)
  case (Cons e es)
  obtain s1 where s1: "wire_visit W args (fst e) (snd e) s = Inr s1" "ws_sizes s1 = ws_sizes s @ [length (snd e)]"
    using wire_visit_works [OF assms] by blast
  from Cons [of s1] s1 show ?case by (auto simp: split_beta)
qed simp

lemma sorted_ends:
  fixes xs :: "nat list"
  assumes "sorted xs" and "xs \<noteq> []"
  shows "hd xs = Min (set xs)" and "last xs = Max (set xs)"
proof -
  have "\<forall>x \<in> set xs. hd xs \<le> x" using assms by (cases xs) auto
  then show "hd xs = Min (set xs)" using assms(2) by (intro Min_eqI [symmetric]) auto
  have "\<forall>x \<in> set xs. x \<le> last xs" using assms by (cases xs rule: rev_cases) (auto simp: sorted_append)
  then show "last xs = Max (set xs)" using assms(2) by (intro Max_eqI [symmetric]) auto
qed

lemma wire_report_total:
  assumes "sizes \<noteq> []" and "length sizes < 2 ^ 53"
  shows "\<exists>r. wire_report_of low high sizes per_message stream = Some r \<and> wr_count r = length sizes \<and>
    wr_min r = Min (set sizes) \<and> wr_max r = Max (set sizes) \<and> wr_mean r = sum_list sizes div length sizes \<and>
    {wr_p50 r, wr_p90 r, wr_p99 r} \<subseteq> set sizes \<and> wr_p50 r \<le> wr_p90 r \<and> wr_p90 r \<le> wr_p99 r"
proof -
  let ?xs = "sort sizes"
  have "?xs \<noteq> []" using assms(1) by (metis length_0_conv length_sort)
  then have xs: "sorted ?xs" "?xs \<noteq> []" "length ?xs < 2 ^ 53" using assms(2) by simp_all
  note ordered = percentiles_ordered [OF xs]
  obtain p q where pq: "percentile ?xs (f64 (1 / 2)) = Some p" "percentile ?xs (f64 (9 / 10)) = Some q" "{p, q} \<subseteq> set sizes" "p \<le> q"
    using ordered [OF f64_fractions(1,2) order_trans [OF f64_fractions(3,4)]] by auto
  obtain q' t where qt: "percentile ?xs (f64 (9 / 10)) = Some q'" "percentile ?xs (f64 (99 / 100)) = Some t" "t \<in> set sizes" "q' \<le> t"
    using ordered [OF f64_nonneg f64_fractions(3,4)] by auto
  have "(case ?xs of [] \<Rightarrow> 0 | x # _ \<Rightarrow> x) = hd ?xs" using xs(2) by (cases ?xs) simp_all
  then show ?thesis
    using pq qt sorted_ends [OF xs(1,2)] xs(2) by (simp add: wire_report_of_def Let_def)
qed


section \<open>Properties\<close>

text \<open>
  The measurement of a cache. Over a cache that holds a chain, with a compressor and a dump that work,
  the asked range is clamped to what is cached; if nothing is left of it the program says so with both
  ranges, and otherwise it prints a report, without a panic, over exactly one size per height: its extremes
  and mean are those of the stored sizes, and the three percentiles are stored sizes in order.
\<close>

theorem wire_size_reports:
  assumes "cache_contract E" and "stores E (db_blocks d) bs" and "bs \<noteq> []" and "length bs < 2 ^ 53" and "world_works W"
    and low: "low = max (case wa_from args of Some h \<Rightarrow> h | None \<Rightarrow> cb_height (hd bs)) (cb_height (hd bs))"
    and high: "high = min (case wa_to args of Some h \<Rightarrow> h | None \<Rightarrow> cb_height (last bs)) (cb_height (last bs))"
    and sizes: "sizes = map (length \<circ> snd) (span_entries E d low high)"
  shows "(high < low \<longrightarrow> wire_size E no_faults (Some (db_blocks d)) (Some (db_meta d)) W args =
      Inl (EmptyWireRange low high (cb_height (hd bs)) (cb_height (last bs)))) \<and>
    (low \<le> high \<longrightarrow> (\<exists>r. wire_size E no_faults (Some (db_blocks d)) (Some (db_meta d)) W args = Inr r \<and> wr_count r = Suc (high - low) \<and>
      wr_min r = Min (set sizes) \<and> wr_max r = Max (set sizes) \<and> wr_mean r = sum_list sizes div Suc (high - low) \<and>
      {wr_p50 r, wr_p90 r, wr_p99 r} \<subseteq> set sizes \<and> wr_p50 r \<le> wr_p90 r \<and> wr_p90 r \<le> wr_p99 r))"
proof (intro conjI impI)
  have opened: "cache_open E no_faults (Some (db_blocks d)) (Some (db_meta d)) = Inr d" by (simp add: cache_open_def)
  have cached: "cache_range E no_faults d = Inr (Some (cb_height (hd bs), cb_height (last bs)))"
    using cache_contract.cache_range_eq [OF assms(1,2)] assms(3) by simp
  have step: "wire_size E no_faults (Some (db_blocks d)) (Some (db_meta d)) W args =
      bindE (failIf (\<not> low \<le> high) (EmptyWireRange low high (cb_height (hd bs)) (cb_height (last bs)))) (\<lambda>_.
      bindE (map_err (WireContext ''starting the stream compressor'') (encoder_new W)) (\<lambda>encoder.
      bindE (case wa_dump args of
               Some path \<Rightarrow> map_err (WireContext ''creating the payload dump'') (create_file W path)
             | None \<Rightarrow> Inr ()) (\<lambda>_.
      bindE (for_each_raw E no_faults d low high WireCache (wire_visit W args)
               \<lparr>ws_sizes = [], ws_per_message = 0, ws_encoder = encoder, ws_dumped = []\<rparr>) (\<lambda>s.
      bindE (map_err (WireContext ''finishing the stream compressor'') (encoder_finish W (ws_encoder s))) (\<lambda>stream_total.
      bindE (failIf (ws_sizes s = []) (NoBlocksIn low high)) (\<lambda>_.
        ok_or WirePanic (wire_report_of low high (ws_sizes s) (ws_per_message s) stream_total)))))))"
    by (simp only: wire_size_def opened cached map_err.simps bindE.simps ok_or_def option.case prod.case Let_def low high)
  show "wire_size E no_faults (Some (db_blocks d)) (Some (db_meta d)) W args = Inl (EmptyWireRange low high (cb_height (hd bs)) (cb_height (last bs)))" if "high < low"
    unfolding step using that by simp
  assume le: "low \<le> high"
  obtain z where z: "encoder_new W = Inr z" using assms(5) by (auto simp: world_works_def elim: is_okE)
  have dump: "create_file W path = Inr ()" for path
    using assms(5) by (auto simp: world_works_def dest!: spec [of _ path] elim: is_okE)
  obtain s where s: "foldE (\<lambda>(height, value) s. wire_visit W args height value s) (span_entries E d low high)
      \<lparr>ws_sizes = [], ws_per_message = 0, ws_encoder = z, ws_dumped = []\<rparr> = Inr s" "ws_sizes s = sizes"
    using wire_fold [OF assms(5)] sizes by fastforce
  obtain n where n: "encoder_finish W (ws_encoder s) = Inr n" 
    using assms(5) by (auto simp: world_works_def dest!: spec [of _ "ws_encoder s"] elim: is_okE)
  have "map fst (span_entries E d low high) = [low..<Suc high]"
    using low high by (intro cache_contract.span_heights [OF assms(1,2,3) le]) simp_all
  then have len: "length sizes = Suc (high - low)"
    using le by (metis length_map length_upt sizes Suc_diff_le)
  have "length sizes \<le> length bs"
    using list_all2_lengthD [OF cache_contract.span_decodes [OF assms(1,2), of low high]] sizes
    by (metis length_filter_le length_map)
  then obtain r where r: "wire_report_of low high sizes (ws_per_message s) n = Some r" "wr_count r = Suc (high - low)"
    "wr_min r = Min (set sizes)" "wr_max r = Max (set sizes)" "wr_mean r = sum_list sizes div Suc (high - low)"
    "{wr_p50 r, wr_p90 r, wr_p99 r} \<subseteq> set sizes" "wr_p50 r \<le> wr_p90 r" "wr_p90 r \<le> wr_p99 r"
    using wire_report_total [of sizes low high "ws_per_message s" n] len assms(4) by fastforce
  have "for_each_raw E no_faults d low high WireCache (wire_visit W args)
      \<lparr>ws_sizes = [], ws_per_message = 0, ws_encoder = z, ws_dumped = []\<rparr> = Inr s"
    using s(1) by (simp add: for_each_raw_def span_entries_def split_beta)
  moreover have "sizes \<noteq> []" using len by auto
  ultimately have "wire_size E no_faults (Some (db_blocks d)) (Some (db_meta d)) W args = Inr r"
    unfolding step using le z dump n s(2) r(1) by (simp add: ok_or_def split: option.splits)
  then show "\<exists>r. wire_size E no_faults (Some (db_blocks d)) (Some (db_meta d)) W args = Inr r \<and> wr_count r = Suc (high - low) \<and>
      wr_min r = Min (set sizes) \<and> wr_max r = Max (set sizes) \<and> wr_mean r = sum_list sizes div Suc (high - low) \<and>
      {wr_p50 r, wr_p90 r, wr_p99 r} \<subseteq> set sizes \<and> wr_p50 r \<le> wr_p90 r \<and> wr_p90 r \<le> wr_p99 r"
    using r(2-8) by blast
qed

definition ref_wire_world :: "usize wire_world" where
  "ref_wire_world = \<lparr>encode_all = Inr, encoder_new = Inr 0, encoder_write = (\<lambda>n b. Inr (n + length b)),
     encoder_finish = Inr, create_file = (\<lambda>_. Inr ()), write_file = (\<lambda>_. Inr ())\<rparr>"

theorem wire_size_reports_witness:
  "\<exists>r. wire_size ref_cache no_faults (Some (db_blocks (ref_db [ref_block 5 [1] [0], ref_block 6 [2] [1]])))
     (Some (db_meta (ref_db [ref_block 5 [1] [0], ref_block 6 [2] [1]]))) ref_wire_world
     \<lparr>wa_from = Some 6, wa_to = Some 900, wa_dump = None\<rparr> = Inr r \<and> wr_count r = 1 \<and> wr_p50 r \<le> wr_p99 r"
proof -
  let ?bs = "[ref_block 5 [1] [0], ref_block 6 [2] [1]]"
  have stored: "stores ref_cache (db_blocks (ref_db ?bs)) ?bs" by (rule ref_db_stores) (simp_all add: u64_max_def)
  have works: "world_works ref_wire_world" by (simp add: world_works_def ref_wire_world_def is_ok_def)
  let ?args = "\<lparr>wa_from = Some 6, wa_to = Some 900, wa_dump = None\<rparr>"
  have low: "6 = max (case wa_from ?args of Some h \<Rightarrow> h | None \<Rightarrow> cb_height (hd ?bs)) (cb_height (hd ?bs))" by simp
  have high: "6 = min (case wa_to ?args of Some h \<Rightarrow> h | None \<Rightarrow> cb_height (last ?bs)) (cb_height (last ?bs))" by simp
  have some: "?bs \<noteq> []" and few: "length ?bs < 2 ^ 53" by simp_all
  obtain r where "wire_size ref_cache no_faults (Some (db_blocks (ref_db ?bs))) (Some (db_meta (ref_db ?bs)))
      ref_wire_world ?args = Inr r" "wr_count r = 1" "wr_p50 r \<le> wr_p90 r" "wr_p90 r \<le> wr_p99 r"
    using wire_size_reports [OF rc.cache_contract_axioms stored some few works low high refl] by auto
  then have "wire_size ref_cache no_faults (Some (db_blocks (ref_db ?bs))) (Some (db_meta (ref_db ?bs)))
      ref_wire_world ?args = Inr r \<and> wr_count r = 1 \<and> wr_p50 r \<le> wr_p99 r" by simp
  then show ?thesis ..
qed

end
