(* ===== verification/Nym_Repro.thy ===== *)
theory Nym_Repro
  imports Wire_Size
begin

text \<open>
  contrib/nym/src/bin/repro.rs: the experiment that counts failing mixnet streams. The SDK, its clients and the
  clock are arguments: what each connection attempt, each trial and each dial of the dead peer came to. The
  echo side is a step relation over its tasks, and the result is the tally the program prints.
\<close>

section \<open>Budgets\<close>

definition PAYLOAD :: usize where
  "PAYLOAD = 64"

type_synonym budget = "u32 option"

definition parse_u32 :: "string \<Rightarrow> u32 option" where
  "parse_u32 s =
     (let digits = (case s of c # cs \<Rightarrow> if c = CHR ''+'' then cs else s | [] \<Rightarrow> []) in
      if digits = [] then None
      else (case parse_digits 0 digits of
              None \<Rightarrow> None
            | Some v \<Rightarrow> if v \<le> u32_max then Some v else None))"

definition parse_budget :: "string \<Rightarrow> (string, budget) result" where
  "parse_budget token =
     (let t = str_trim token in
      if t = ''default'' \<or> t = ''d'' then Inr None
      else bindE (ok_or ''parsing a reply-block budget'' (parse_u32 t)) (\<lambda>number. Inr (Some number)))"

definition budget_label :: "budget \<Rightarrow> string" where
  "budget_label b = (case b of Some n \<Rightarrow> ''b'' @ dec_string n | None \<Rightarrow> ''bdef'')"


section \<open>The echo side\<close>

record echo_stages =
  es_accepted :: usize
  es_read :: usize
  es_written :: usize
  es_last_error :: "string option"

definition stages_default :: echo_stages where
  "stages_default = \<lparr>es_accepted = 0, es_read = 0, es_written = 0, es_last_error = None\<rparr>"

datatype echo_task = EchoReading | EchoWriting | EchoDone

text \<open>One task per accepted stream: it reads the payload, writes it back and flushes, or stops at the first error.\<close>

inductive echo_step :: "echo_stages \<times> echo_task list \<Rightarrow> echo_stages \<times> echo_task list \<Rightarrow> bool" where
  accept: "echo_step (st, ts) (st\<lparr>es_accepted := es_accepted st + 1\<rparr>, ts @ [EchoReading])"
| read: "i < length ts \<Longrightarrow> ts ! i = EchoReading \<Longrightarrow>
    echo_step (st, ts) (st\<lparr>es_read := es_read st + 1\<rparr>, ts[i := EchoWriting])"
| read_error: "i < length ts \<Longrightarrow> ts ! i = EchoReading \<Longrightarrow>
    echo_step (st, ts) (st\<lparr>es_last_error := Some (''read: '' @ e)\<rparr>, ts[i := EchoDone])"
| write_error: "i < length ts \<Longrightarrow> ts ! i = EchoWriting \<Longrightarrow>
    echo_step (st, ts) (st\<lparr>es_last_error := Some (''write: '' @ e)\<rparr>, ts[i := EchoDone])"
| flush_error: "i < length ts \<Longrightarrow> ts ! i = EchoWriting \<Longrightarrow>
    echo_step (st, ts) (st\<lparr>es_last_error := Some (''flush: '' @ e)\<rparr>, ts[i := EchoDone])"
| written: "i < length ts \<Longrightarrow> ts ! i = EchoWriting \<Longrightarrow>
    echo_step (st, ts) (st\<lparr>es_written := es_written st + 1\<rparr>, ts[i := EchoDone])"

definition snapshot :: "echo_stages \<Rightarrow> usize \<times> usize \<times> usize" where
  "snapshot st = (es_accepted st, es_read st, es_written st)"


section \<open>Trials\<close>

text \<open>How the timed attempt ended: the deadline, an error of the stream, or the bytes read back.\<close>

datatype attempt = TimedOut | AttemptError string | ReadBack bytes

text \<open>
  What the steps of an attempt come to, and the step at which the deadline falls, if it does: opening the
  stream, waiting for the acknowledgement (when asked to), writing, flushing, reading back. The wait's own
  failure is recorded and not an end.
\<close>

record attempt_env =
  ae_deadline :: "nat option"
  ae_open :: "(string, unit) result"
  ae_wait :: "(string, nat) result"
  ae_write :: "(string, unit) result"
  ae_flush :: "(string, unit) result"
  ae_read :: "(string, bytes) result"

definition cut_at :: "attempt_env \<Rightarrow> nat \<Rightarrow> bool" where
  "cut_at a k = (case ae_deadline a of Some d \<Rightarrow> d \<le> k | None \<Rightarrow> False)"

definition attempt_step :: "attempt_env \<Rightarrow> nat \<Rightarrow> (string, 'a) result \<Rightarrow> (attempt, 'a) result" where
  "attempt_step a k r = (if cut_at a k then Inl TimedOut else map_err AttemptError r)"

definition run_attempt :: "bool \<Rightarrow> attempt_env \<Rightarrow> (string, nat) result option \<times> attempt" where
  "run_attempt wait_established a =
     (case attempt_step a 0 (ae_open a) of
        Inl end_of \<Rightarrow> (None, end_of)
      | Inr _ \<Rightarrow>
          if wait_established \<and> cut_at a 1 then (None, TimedOut)
          else
            (if wait_established then Some (ae_wait a) else None,
             case bindE (attempt_step a 2 (ae_write a)) (\<lambda>_.
                  bindE (attempt_step a 3 (ae_flush a)) (\<lambda>_.
                    attempt_step a 4 (ae_read a))) of
               Inl end_of \<Rightarrow> end_of
             | Inr back_bytes \<Rightarrow> ReadBack back_bytes))"

record trial_obs =
  to_before :: "usize \<times> usize \<times> usize"
  to_after :: "usize \<times> usize \<times> usize"
  to_attempt :: attempt
  to_elapsed :: nat
  to_establishment :: "(string, nat) result option"

record trial_env =
  te_before :: "usize \<times> usize \<times> usize"
  te_after :: "usize \<times> usize \<times> usize"
  te_elapsed :: nat
  te_attempt :: attempt_env

definition observe :: "bool \<Rightarrow> trial_env \<Rightarrow> trial_obs" where
  "observe wait_established e =
     (let (establishment, attempt) = run_attempt wait_established (te_attempt e) in
      \<lparr>to_before = te_before e, to_after = te_after e, to_attempt = attempt, to_elapsed = te_elapsed e,
       to_establishment = establishment\<rparr>)"

datatype verdict = TrialOk | Corrupt | TrialError | LostOut | EchoWrite | LostBack | NoAccept

definition verdict_of :: "bytes \<Rightarrow> trial_obs \<Rightarrow> verdict" where
  "verdict_of payload t =
     (let accepted = fst (to_after t) > fst (to_before t);
          read = fst (snd (to_after t)) > fst (snd (to_before t));
          written = snd (snd (to_after t)) > snd (snd (to_before t)) in
      case to_attempt t of
        ReadBack back_bytes \<Rightarrow> if back_bytes = payload then TrialOk else Corrupt
      | AttemptError _ \<Rightarrow> TrialError
      | TimedOut \<Rightarrow>
          if accepted \<and> \<not> read then LostOut
          else if read \<and> \<not> written then EchoWrite
          else if written then LostBack
          else NoAccept)"

definition echoed :: "bytes \<Rightarrow> trial_obs \<Rightarrow> bool" where
  "echoed payload t \<longleftrightarrow> to_attempt t = ReadBack payload"

text \<open>
  The counters of a run. The matrix holds acknowledged or not against echoed or not.
\<close>

record tally =
  tl_ok :: usize
  tl_outbound_loss :: usize
  tl_echo_write_failed :: usize
  tl_return_loss :: usize
  tl_dial_errors :: usize
  tl_latencies :: "nat list"
  tl_establish_latencies :: "nat list"
  tl_matrix :: "bool \<Rightarrow> bool \<Rightarrow> usize"
  tl_per_budget :: "string \<rightharpoonup> usize \<times> usize \<times> nat list"

definition tally_new :: "budget list \<Rightarrow> tally" where
  "tally_new budgets = \<lparr>tl_ok = 0, tl_outbound_loss = 0, tl_echo_write_failed = 0, tl_return_loss = 0, tl_dial_errors = 0,
     tl_latencies = [], tl_establish_latencies = [], tl_matrix = (\<lambda>_ _. 0),
     tl_per_budget = (\<lambda>label. if label \<in> budget_label ` set budgets then Some (0, 0, []) else None)\<rparr>"

definition count_budget :: "bytes \<Rightarrow> string \<Rightarrow> trial_obs \<Rightarrow> tally \<Rightarrow> tally" where
  "count_budget payload label t s =
     (let (good, bad, samples) = (case tl_per_budget s label of Some entry \<Rightarrow> entry | None \<Rightarrow> (0, 0, [])) in
      s\<lparr>tl_per_budget := (tl_per_budget s)(label \<mapsto>
        (if echoed payload t then (good + 1, bad, samples @ [to_elapsed t]) else (good, bad + 1, samples)))\<rparr>)"

definition count_establishment :: "bytes \<Rightarrow> trial_obs \<Rightarrow> tally \<Rightarrow> tally" where
  "count_establishment payload t s =
     (case to_establishment t of
        None \<Rightarrow> s
      | Some (Inr waited) \<Rightarrow>
          s\<lparr>tl_establish_latencies := tl_establish_latencies s @ [waited],
            tl_matrix := (\<lambda>ack ok. tl_matrix s ack ok + (if ack \<and> ok = echoed payload t then 1 else 0))\<rparr>
      | Some (Inl _) \<Rightarrow>
          s\<lparr>tl_matrix := (\<lambda>ack ok. tl_matrix s ack ok + (if \<not> ack \<and> ok = echoed payload t then 1 else 0))\<rparr>)"

definition count_verdict :: "bytes \<Rightarrow> trial_obs \<Rightarrow> tally \<Rightarrow> tally" where
  "count_verdict payload t s =
     (case verdict_of payload t of
        TrialOk \<Rightarrow> s\<lparr>tl_ok := tl_ok s + 1, tl_latencies := tl_latencies s @ [to_elapsed t]\<rparr>
      | Corrupt \<Rightarrow> s\<lparr>tl_dial_errors := tl_dial_errors s + 1\<rparr>
      | TrialError \<Rightarrow> s\<lparr>tl_dial_errors := tl_dial_errors s + 1\<rparr>
      | LostOut \<Rightarrow> s\<lparr>tl_outbound_loss := tl_outbound_loss s + 1\<rparr>
      | EchoWrite \<Rightarrow> s\<lparr>tl_echo_write_failed := tl_echo_write_failed s + 1\<rparr>
      | LostBack \<Rightarrow> s\<lparr>tl_return_loss := tl_return_loss s + 1\<rparr>
      | NoAccept \<Rightarrow> s\<lparr>tl_outbound_loss := tl_outbound_loss s + 1\<rparr>)"

definition tally_trial :: "bytes \<Rightarrow> string \<Rightarrow> trial_obs \<Rightarrow> tally \<Rightarrow> tally" where
  "tally_trial payload label t s =
     count_verdict payload t (count_establishment payload t (count_budget payload label t s))"


section \<open>The run\<close>

record repro_args =
  ra_trials :: usize
  ra_budgets :: "string list"
  ra_fresh_dialler :: bool
  ra_wait_established :: bool
  ra_dead_peer_trials :: usize

datatype dial_outcome = DialAcknowledged | DialNoAck | DialRefused

record repro_env =
  rx_echo :: "(string, unit) result"
  rx_listener :: "(string, unit) result"
  rx_dial :: "(string, unit) result"
  rx_absent :: "(string, unit) result"
  rx_dead :: "nat \<Rightarrow> dial_outcome"
  rx_reconnect :: "nat \<Rightarrow> nat \<Rightarrow> (string, unit) result"
  rx_trial :: "nat \<Rightarrow> budget \<Rightarrow> trial_env"
  rx_final :: echo_stages

datatype repro_error = BadBudget string | ReproContext string string | ReproPanic

text \<open>A fresh dialler: up to five registrations, the failed ones counted.\<close>

function reconnect :: "(nat \<Rightarrow> (string, unit) result) \<Rightarrow> nat \<Rightarrow> usize \<Rightarrow> usize \<times> (repro_error, unit) result" where
  "reconnect connect attempt retries =
     (case connect attempt of
        Inr _ \<Rightarrow> (retries, Inr ())
      | Inl e \<Rightarrow>
          if attempt < 5 then reconnect connect (attempt + 1) (retries + 1)
          else (retries, Inl (ReproContext ''reconnecting the dialling client, five attempts'' e)))"
  by pat_completeness auto
termination
  by (relation "measure (\<lambda>(_, attempt, _). 5 - attempt)") auto

declare reconnect.simps [simp del]

definition run_trial ::
    "repro_args \<Rightarrow> repro_env \<Rightarrow> bytes \<Rightarrow> budget list \<Rightarrow> nat \<Rightarrow> usize \<times> tally \<Rightarrow> (repro_error, usize \<times> tally) result" where
  "run_trial args env payload budgets trial st =
     (if budgets = [] then Inl ReproPanic
      else
        let budget = budgets ! ((trial - 1) mod length budgets);
            (retries, connected) =
              (if ra_fresh_dialler args \<and> trial > 1 then reconnect (rx_reconnect env trial) 1 (fst st) else (fst st, Inr ())) in
        bindE connected (\<lambda>_.
          Inr (retries, tally_trial payload (budget_label budget)
            (observe (ra_wait_established args) (rx_trial env trial budget)) (snd st))))"

text \<open>The dials of an address with nobody behind it: how many were refused and how many acknowledged.\<close>

definition dead_peer_arm :: "repro_env \<Rightarrow> usize \<Rightarrow> (repro_error, usize \<times> usize) result" where
  "dead_peer_arm env trials =
     bindE (map_err (ReproContext ''connecting the client that is about to leave'') (rx_absent env)) (\<lambda>_.
       Inr (fold (\<lambda>trial (refused, acknowledged).
           case rx_dead env trial of
             DialAcknowledged \<Rightarrow> (refused, acknowledged + 1)
           | DialNoAck \<Rightarrow> (refused, acknowledged)
           | DialRefused \<Rightarrow> (refused + 1, acknowledged)) [1..<Suc trials] (0, 0)))"

record repro_report =
  rr_dead_peer :: "(usize \<times> usize) option"
  rr_retries :: usize
  rr_tally :: tally
  rr_failures :: usize
  rr_failure_rate :: rat
  rr_latency :: "nat \<times> nat \<times> nat"
  rr_ack_latency :: "nat \<times> nat \<times> nat \<times> nat"
  rr_rows :: "(string \<times> usize \<times> usize \<times> usize \<times> rat \<times> nat) list"
  rr_stages :: "usize \<times> usize \<times> usize"
  rr_last_error :: "string option"

text \<open>The percentiles of a list of samples, sorted first; None is an index out of bounds.\<close>

definition quantiles :: "nat list \<Rightarrow> (nat \<times> nat \<times> nat) option" where
  "quantiles samples =
     (case (percentile (sort samples) (f64 (1 / 2)), percentile (sort samples) (f64 (9 / 10)),
            percentile (sort samples) (f64 (99 / 100))) of
        (Some p50, Some p90, Some p99) \<Rightarrow> Some (p50, p90, p99)
      | _ \<Rightarrow> None)"

text \<open>The row of a budget; the program prints the rows in the order of their labels.\<close>

definition budget_row :: "usize \<times> usize \<times> nat list \<Rightarrow> (usize \<times> usize \<times> usize \<times> rat \<times> nat) option" where
  "budget_row entry =
     (let (good, bad, samples) = entry; total_trials = good + bad in
      map_option (\<lambda>p50. (total_trials, good, bad,
          f64 (f64 (100 * f64 (of_nat bad)) / f64 (of_nat (max total_trials 1))), p50))
        (percentile (sort samples) (f64 (1 / 2))))"

definition repro_summary ::
    "usize \<Rightarrow> string list \<Rightarrow> echo_stages \<Rightarrow> (usize \<times> usize) option \<Rightarrow> usize \<times> tally \<Rightarrow> (repro_error, repro_report) result" where
  "repro_summary trials labels stages dead st =
     (let s = snd st;
          failures = tl_outbound_loss s + tl_echo_write_failed s + tl_return_loss s + tl_dial_errors s in
      bindE (ok_or ReproPanic (quantiles (tl_latencies s))) (\<lambda>latency.
      bindE (ok_or ReproPanic (quantiles (tl_establish_latencies s))) (\<lambda>(p50, p90, p99).
      bindE (mapE (\<lambda>label. ok_or ReproPanic
               (Option.bind (tl_per_budget s label) (\<lambda>entry. map_option (Pair label) (budget_row entry)))) labels) (\<lambda>rows.
        Inr \<lparr>rr_dead_peer = dead, rr_retries = fst st, rr_tally = s, rr_failures = failures,
             rr_failure_rate = f64 (f64 (100 * f64 (of_nat failures)) / f64 (of_nat (max trials 1))),
             rr_latency = latency,
             rr_ack_latency = (p50, p90, p99,
               if tl_establish_latencies s = [] then 0 else last (sort (tl_establish_latencies s))),
             rr_rows = rows, rr_stages = snapshot stages, rr_last_error = es_last_error stages\<rparr>))))"

definition repro :: "repro_args \<Rightarrow> repro_env \<Rightarrow> (repro_error, repro_report) result" where
  "repro args env =
     bindE (map_err BadBudget (mapE parse_budget (ra_budgets args))) (\<lambda>budgets.
     bindE (map_err (ReproContext ''connecting the echo client'') (rx_echo env)) (\<lambda>_.
     bindE (map_err (ReproContext ''taking the listener'') (rx_listener env)) (\<lambda>_.
     bindE (map_err (ReproContext ''connecting the dialling client'') (rx_dial env)) (\<lambda>_.
     bindE (if ra_dead_peer_trials args > 0
            then bindE (dead_peer_arm env (ra_dead_peer_trials args)) (\<lambda>counts. Inr (Some counts))
            else Inr None) (\<lambda>dead.
       let payload = replicate PAYLOAD 0xA5 in
     bindE (foldE (run_trial args env payload budgets) [1..<Suc (ra_trials args)] (0, tally_new budgets)) (\<lambda>st.
       repro_summary (ra_trials args) (sort (remdups (map budget_label budgets))) (rx_final env) dead st))))))"


section \<open>Lemmas\<close>

lemma count_list_update:
  "i < length ts \<Longrightarrow> count_list (ts[i := x]) y + (if ts ! i = y then 1 else 0) = count_list ts y + (if x = y then 1 else 0)"
proof (induction ts arbitrary: i)
  case (Cons t ts)
  show ?case
  proof (cases i)
    case (Suc j)
    then show ?thesis using Cons.IH [of j] Cons.prems by auto
  qed auto
qed simp

lemma count_list_moves:
  assumes "i < length ts" and "ts ! i = a" and "a \<noteq> x"
  shows "Suc (count_list (ts[i := x]) a) = count_list ts a" and "count_list (ts[i := x]) x = Suc (count_list ts x)"
    and "b \<noteq> a \<Longrightarrow> b \<noteq> x \<Longrightarrow> count_list (ts[i := x]) b = count_list ts b"
  using count_list_update [OF assms(1), of x a] count_list_update [OF assms(1), of x x] count_list_update [OF assms(1), of x b]
    assms(2,3) by simp_all

text \<open>Over any interleaving the stages of the echo side nest.\<close>

definition stages_nest :: "echo_stages \<Rightarrow> echo_task list \<Rightarrow> bool" where
  "stages_nest st ts \<longleftrightarrow> es_accepted st = length ts \<and> es_read st + count_list ts EchoReading \<le> es_accepted st \<and>
     es_written st + count_list ts EchoWriting \<le> es_read st"

lemma echo_step_nests: "echo_step c c' \<Longrightarrow> stages_nest (fst c) (snd c) \<Longrightarrow> stages_nest (fst c') (snd c')"
  by (induction rule: echo_step.induct)
    (auto simp: stages_nest_def count_list_moves dest: count_list_moves(1))

lemma echo_stages_nest:
  "echo_step\<^sup>*\<^sup>* (stages_default, []) c \<Longrightarrow> stages_nest (fst c) (snd c)"
proof (induction rule: rtranclp_induct)
  case base
  then show ?case by (simp add: stages_nest_def stages_default_def)
qed (rule echo_step_nests)

text \<open>
  The tally as a function of the trials. A trial that timed out is lost on the way out when the echo side did
  not read it (unless it only wrote), on the way back when the echo side wrote, and failed at the echo side's
  write when it read and did not write; one that did not time out and was not echoed is an error of the
  dialler.
\<close>

definition advanced :: "(usize \<times> usize \<times> usize \<Rightarrow> usize) \<Rightarrow> trial_obs \<Rightarrow> bool" where
  "advanced stage t \<longleftrightarrow> stage (to_before t) < stage (to_after t)"

definition trials_where :: "(trial_obs \<Rightarrow> bool) \<Rightarrow> (string \<times> trial_obs) list \<Rightarrow> trial_obs list" where
  "trials_where P past = filter P (map snd past)"

definition tally_spec :: "bytes \<Rightarrow> string set \<Rightarrow> (string \<times> trial_obs) list \<Rightarrow> tally" where
  "tally_spec payload labels past =
     (let accepted = advanced fst; read = advanced (fst \<circ> snd); written = advanced (snd \<circ> snd);
          timed_out = (\<lambda>t. to_attempt t = TimedOut); ok = (\<lambda>t. to_attempt t = ReadBack payload) in
      \<lparr>tl_ok = length (trials_where ok past),
       tl_outbound_loss = length (trials_where (\<lambda>t. timed_out t \<and> \<not> read t \<and> (accepted t \<or> \<not> written t)) past),
       tl_echo_write_failed = length (trials_where (\<lambda>t. timed_out t \<and> read t \<and> \<not> written t) past),
       tl_return_loss = length (trials_where (\<lambda>t. timed_out t \<and> written t \<and> (read t \<or> \<not> accepted t)) past),
       tl_dial_errors = length (trials_where (\<lambda>t. \<not> timed_out t \<and> \<not> ok t) past),
       tl_latencies = map to_elapsed (trials_where ok past),
       tl_establish_latencies =
         concat (map (\<lambda>t. case to_establishment t of Some (Inr waited) \<Rightarrow> [waited] | _ \<Rightarrow> []) (map snd past)),
       tl_matrix = (\<lambda>ack echo. length (trials_where (\<lambda>t. \<exists>r. to_establishment t = Some r \<and> is_ok r = ack \<and> ok t = echo) past)),
       tl_per_budget = (\<lambda>l.
         if l \<in> labels \<or> l \<in> fst ` set past
         then (let own = filter (\<lambda>(l', _). l' = l) past in
           Some (length (trials_where ok own), length (trials_where (\<lambda>t. \<not> ok t) own), map to_elapsed (trials_where ok own)))
         else None)\<rparr>)"

lemma trials_where_simps [simp]:
  "trials_where P [] = []"
  "trials_where P (past @ [(l, t)]) = trials_where P past @ (if P t then [t] else [])"
  by (simp_all add: trials_where_def)

lemma tally_spec_new: "tally_new budgets = tally_spec payload (budget_label ` set budgets) []"
  by (auto simp: tally_new_def tally_spec_def Let_def fun_eq_iff)

lemma verdict_cases:
  "verdict_of payload t = TrialOk \<longleftrightarrow> to_attempt t = ReadBack payload"
  "verdict_of payload t = Corrupt \<or> verdict_of payload t = TrialError \<longleftrightarrow> to_attempt t \<noteq> TimedOut \<and> to_attempt t \<noteq> ReadBack payload"
  "verdict_of payload t = LostOut \<or> verdict_of payload t = NoAccept \<longleftrightarrow> to_attempt t = TimedOut \<and> \<not> advanced (fst \<circ> snd) t \<and>
     (advanced fst t \<or> \<not> advanced (snd \<circ> snd) t)"
  "verdict_of payload t = EchoWrite \<longleftrightarrow> to_attempt t = TimedOut \<and> advanced (fst \<circ> snd) t \<and> \<not> advanced (snd \<circ> snd) t"
  "verdict_of payload t = LostBack \<longleftrightarrow> to_attempt t = TimedOut \<and> advanced (snd \<circ> snd) t \<and> (advanced (fst \<circ> snd) t \<or> \<not> advanced fst t)"
  by (auto simp: verdict_of_def advanced_def Let_def split: attempt.splits)

lemma count_verdict_fields:
  "tl_ok (count_verdict payload t s) = tl_ok s + (if verdict_of payload t = TrialOk then 1 else 0)"
  "tl_latencies (count_verdict payload t s) = tl_latencies s @ (if verdict_of payload t = TrialOk then [to_elapsed t] else [])"
  "tl_dial_errors (count_verdict payload t s) =
     tl_dial_errors s + (if verdict_of payload t = Corrupt \<or> verdict_of payload t = TrialError then 1 else 0)"
  "tl_outbound_loss (count_verdict payload t s) =
     tl_outbound_loss s + (if verdict_of payload t = LostOut \<or> verdict_of payload t = NoAccept then 1 else 0)"
  "tl_echo_write_failed (count_verdict payload t s) = tl_echo_write_failed s + (if verdict_of payload t = EchoWrite then 1 else 0)"
  "tl_return_loss (count_verdict payload t s) = tl_return_loss s + (if verdict_of payload t = LostBack then 1 else 0)"
  "tl_matrix (count_verdict payload t s) = tl_matrix s"
  "tl_establish_latencies (count_verdict payload t s) = tl_establish_latencies s"
  "tl_per_budget (count_verdict payload t s) = tl_per_budget s"
  by (simp_all add: count_verdict_def split: verdict.splits)

lemma count_establishment_fields:
  "tl_ok (count_establishment payload t s) = tl_ok s"
  "tl_latencies (count_establishment payload t s) = tl_latencies s"
  "tl_dial_errors (count_establishment payload t s) = tl_dial_errors s"
  "tl_outbound_loss (count_establishment payload t s) = tl_outbound_loss s"
  "tl_echo_write_failed (count_establishment payload t s) = tl_echo_write_failed s"
  "tl_return_loss (count_establishment payload t s) = tl_return_loss s"
  "tl_matrix (count_establishment payload t s) ack echo = tl_matrix s ack echo +
     (if \<exists>r. to_establishment t = Some r \<and> is_ok r = ack \<and> (to_attempt t = ReadBack payload) = echo then 1 else 0)"
  "tl_establish_latencies (count_establishment payload t s) =
     tl_establish_latencies s @ (case to_establishment t of Some (Inr waited) \<Rightarrow> [waited] | _ \<Rightarrow> [])"
  "tl_per_budget (count_establishment payload t s) = tl_per_budget s"
  by (auto simp: count_establishment_def echoed_def is_ok_def split: option.splits sum.splits)

text \<open>One trial more.\<close>

lemma tally_spec_budget:
  "tl_per_budget (count_budget payload l t (tally_spec payload labels past)) =
     tl_per_budget (tally_spec payload labels (past @ [(l, t)]))"
proof -
  have none: "trials_where P (filter (\<lambda>(l', _). l' = l) past) = []" if "l \<notin> fst ` set past" for P
    using that by (force simp: trials_where_def filter_empty_conv)
  show ?thesis
    by (auto simp: count_budget_def tally_spec_def echoed_def Let_def none fun_eq_iff)
qed

lemma count_budget_fields:
  "count_budget payload l t s = s\<lparr>tl_per_budget := tl_per_budget (count_budget payload l t s)\<rparr>"
  by (simp add: count_budget_def split_beta)

lemma tally_spec_trial:
  "tally_trial payload l t (tally_spec payload labels past) = tally_spec payload labels (past @ [(l, t)])"
proof -
  define s where "s = tally_spec payload labels past"
  obtain b where b: "count_budget payload l t s = s\<lparr>tl_per_budget := b\<rparr>" "b = tl_per_budget (tally_spec payload labels (past @ [(l, t)]))"
    using count_budget_fields [of payload l t s] tally_spec_budget [of payload l t labels past] by (simp add: s_def)
  note fields = count_verdict_fields count_establishment_fields verdict_cases
  have "tl_matrix (tally_trial payload l t s) = tl_matrix (tally_spec payload labels (past @ [(l, t)]))"
    by (intro ext) (simp add: tally_trial_def b(1) fields, simp add: s_def tally_spec_def Let_def)
  then show ?thesis
    unfolding s_def [symmetric]
    by (intro tally.equality)
      (simp_all add: tally_trial_def b(1) fields, simp_all add: b(2), simp_all add: s_def tally_spec_def Let_def)
qed

lemma tally_spec_total:
  assumes "s = tally_spec payload labels past"
  shows "tl_ok s + tl_outbound_loss s + tl_echo_write_failed s + tl_return_loss s + tl_dial_errors s = length past"
  unfolding assms
proof (induction past rule: rev_induct)
  case (snoc x past)
  then show ?case by (cases x) (auto simp: tally_spec_def Let_def)
qed (simp add: tally_spec_def Let_def)

text \<open>The registrations that fail before one of five succeeds.\<close>

definition failed_registrations :: "(nat \<Rightarrow> (string, unit) result) \<Rightarrow> nat \<Rightarrow> nat" where
  "failed_registrations connect attempt = length (takeWhile (\<lambda>k. \<not> is_ok (connect k)) [attempt..<6])"

lemma reconnect_succeeds:
  assumes "is_ok (connect k)" and "attempt \<le> k" and "k \<le> 5"
  shows "reconnect connect attempt retries = (retries + failed_registrations connect attempt, Inr ())"
  using assms(2)
proof (induction "5 - attempt" arbitrary: attempt retries)
  case 0
  then have "attempt = k" using assms(3) by simp
  moreover obtain u where "connect k = Inr u" using assms(1) by (auto elim: is_okE)
  ultimately show ?case
    using assms(3) by (simp add: reconnect.simps [of connect k] failed_registrations_def upt_rec [of k] is_ok_def)
next
  case (Suc n)
  have next6: "[attempt..<6] = attempt # [Suc attempt..<6]" using Suc.hyps(2) by (simp add: upt_rec [of attempt])
  show ?case
  proof (cases "connect attempt")
    case (Inl e)
    then have "attempt \<noteq> k" using assms(1) by (auto simp: is_ok_def)
    then have "reconnect connect (attempt + 1) (retries + 1) =
        (retries + 1 + failed_registrations connect (attempt + 1), Inr ())"
      using Suc.prems Suc.hyps(2) by (intro Suc.hyps(1)) auto
    then show ?thesis
      using Inl Suc.hyps(2) next6 by (simp add: reconnect.simps [of connect attempt] failed_registrations_def is_ok_def)
  qed (simp add: reconnect.simps [of connect attempt] failed_registrations_def next6 is_ok_def)
qed

lemma quantiles_total: "length xs < 2 ^ 53 \<Longrightarrow> \<exists>q. quantiles xs = Some q"
proof (cases "xs = []")
  case False
  assume small: "length xs < 2 ^ 53"
  have "sort xs \<noteq> []" using False by (metis length_0_conv length_sort)
  then have p: "\<exists>p. percentile (sort xs) f = Some p" if "0 \<le> f" "f \<le> 1" for f
    using percentiles_ordered [of "sort xs" f f] that small by auto
  have le: "f64 (1 / 2) \<le> 1" "f64 (9 / 10) \<le> 1" "f64 (99 / 100) \<le> 1" using f64_fractions by linarith+
  show ?thesis
    using p [OF f64_nonneg le(1)] p [OF f64_nonneg le(2)] p [OF f64_nonneg le(3)] by (auto simp: quantiles_def)
qed (simp add: quantiles_def percentile_def)

text \<open>The loop over the trials, when every fresh dialler registers in the end.\<close>

definition registration_retries :: "repro_args \<Rightarrow> repro_env \<Rightarrow> nat \<Rightarrow> nat" where
  "registration_retries args env n =
     (if ra_fresh_dialler args then sum_list (map (\<lambda>t. failed_registrations (rx_reconnect env t) 1) [2..<Suc n]) else 0)"

lemma trials_tallied:
  assumes "budgets \<noteq> []" and "obs = (\<lambda>t. observe (ra_wait_established args) (rx_trial env t (budgets ! ((t - 1) mod length budgets))))"
    and "label = (\<lambda>t. budget_label (budgets ! ((t - 1) mod length budgets)))"
    and "ra_fresh_dialler args \<longrightarrow> (\<forall>t \<in> {2..n}. \<exists>k \<in> {1..5}. is_ok (rx_reconnect env t k))"
  shows "foldE (run_trial args env payload budgets) [1..<Suc n] (0, tally_new budgets) =
    Inr (registration_retries args env n,
      tally_spec payload (budget_label ` set budgets) (map (\<lambda>t. (label t, obs t)) [1..<Suc n]))"
  using assms(4)
proof (induction n)
  case 0
  then show ?case by (simp add: registration_retries_def tally_spec_new [of budgets payload])
next
  case (Suc n)
  let ?s = "tally_spec payload (budget_label ` set budgets) (map (\<lambda>t. (label t, obs t)) [1..<Suc n])"
  have "(if ra_fresh_dialler args \<and> Suc n > 1 then reconnect (rx_reconnect env (Suc n)) 1 (registration_retries args env n)
      else (registration_retries args env n, Inr ())) = (registration_retries args env (Suc n), Inr ())"
  proof (cases "ra_fresh_dialler args \<and> Suc n > 1")
    case True
    then have "Suc n \<in> {2..Suc n}" by auto
    then obtain k where "k \<in> {1..5}" "is_ok (rx_reconnect env (Suc n) k)" using Suc.prems True by blast
    then show ?thesis using True by (simp add: reconnect_succeeds [of _ k] registration_retries_def)
  next
    case False
    then show ?thesis by (auto simp: registration_retries_def)
  qed
  then have "run_trial args env payload budgets (Suc n) (registration_retries args env n, ?s) =
      Inr (registration_retries args env (Suc n), tally_trial payload (label (Suc n)) (obs (Suc n)) ?s)"
    unfolding run_trial_def fst_conv using assms(1-3) by (simp add: Let_def)
  then show ?case using Suc by (simp add: foldE_append tally_spec_trial)
qed

lemma dead_peer_counts:
  "rx_absent env = Inr () \<Longrightarrow> dead_peer_arm env n =
     Inr (length (filter (\<lambda>t. rx_dead env t = DialRefused) [1..<Suc n]),
          length (filter (\<lambda>t. rx_dead env t = DialAcknowledged) [1..<Suc n]))"
  by (induction n) (auto simp: dead_peer_arm_def split: dial_outcome.splits)

lemma filter_trials:
  "trials_where P (map (\<lambda>t. (label t, obs t)) ts) = map obs (filter (\<lambda>t. P (obs t)) ts)"
  "trials_where P (filter (\<lambda>(l', _). l' = l) (map (\<lambda>t. (label t, obs t)) ts)) = map obs (filter (\<lambda>t. label t = l \<and> P (obs t)) ts)"
  by (simp_all add: trials_where_def filter_map comp_def conj_commute)

text \<open>The row of a budget.\<close>

lemma budget_rows:
  assumes "l \<in> budget_label ` set budgets" and "length trials < 2 ^ 53"
  shows "\<exists>row. Option.bind
      (tl_per_budget (tally_spec payload (budget_label ` set budgets) (map (\<lambda>t. (label t, obs t)) trials)) l)
      (\<lambda>entry. map_option (Pair l) (budget_row entry)) = Some (l, row) \<and>
    fst row = length (filter (\<lambda>t. label t = l) trials) \<and>
    fst (snd row) = length (filter (\<lambda>t. label t = l \<and> to_attempt (obs t) = ReadBack payload) trials) \<and>
    fst (snd (snd row)) = length (filter (\<lambda>t. label t = l \<and> to_attempt (obs t) \<noteq> ReadBack payload) trials)"
proof -
  let ?good = "filter (\<lambda>t. label t = l \<and> to_attempt (obs t) = ReadBack payload) trials"
  let ?bad = "filter (\<lambda>t. label t = l \<and> to_attempt (obs t) \<noteq> ReadBack payload) trials"
  have entry: "tl_per_budget (tally_spec payload (budget_label ` set budgets) (map (\<lambda>t. (label t, obs t)) trials)) l =
      Some (length ?good, length ?bad, map to_elapsed (map obs ?good))"
    using assms(1) by (simp add: tally_spec_def Let_def filter_trials)
  have "length (map to_elapsed (map obs ?good)) < 2 ^ 53"
    by (rule le_less_trans [OF _ assms(2)]) simp
  then obtain p50 where p50: "percentile (sort (map to_elapsed (map obs ?good))) (f64 (1 / 2)) = Some p50"
    using quantiles_total by (force simp: quantiles_def split: option.splits)
  have "length ?good + length ?bad = length (filter (\<lambda>t. label t = l) trials)" by (induction trials) auto
  then show ?thesis using p50 by (simp add: entry budget_row_def Let_def)
qed


section \<open>Properties\<close>

text \<open>
  C40: every trial is accounted for. Once the budgets parse, the clients connect and, where a fresh dialler is
  asked for, one of five registrations per trial succeeds, the experiment ends with a report whose tally is the
  one the observations of the trials define: how many were echoed, lost on the way out or back, failed at the
  echo side or at the dialler, their latencies in order, the matrix of acknowledged against echoed, and the
  same per budget, of the trials that rotated to it. Each trial is in exactly one class, so that the echoed
  ones and the failures add up to the trials. The rows of the budgets repeat these counts, the failed
  registrations are counted one by one, and so are the dials of the dead peer.
\<close>

theorem trials_accounted:
  assumes "mapE parse_budget (ra_budgets args) = Inr budgets" and "budgets \<noteq> []"
    and "rx_echo env = Inr ()" and "rx_listener env = Inr ()" and "rx_dial env = Inr ()" and "rx_absent env = Inr ()"
    and "ra_fresh_dialler args \<longrightarrow> (\<forall>t \<in> {2..ra_trials args}. \<exists>k \<in> {1..5}. is_ok (rx_reconnect env t k))"
    and "ra_trials args < 2 ^ 53" and "payload = replicate PAYLOAD 0xA5"
    and "obs = (\<lambda>t. observe (ra_wait_established args) (rx_trial env t (budgets ! ((t - 1) mod length budgets))))"
    and "label = (\<lambda>t. budget_label (budgets ! ((t - 1) mod length budgets)))"
    and "trials = [1..<Suc (ra_trials args)]"
  shows "\<exists>r. repro args env = Inr r \<and>
    rr_tally r = tally_spec payload (budget_label ` set budgets) (map (\<lambda>t. (label t, obs t)) trials) \<and>
    tl_ok (rr_tally r) = length (filter (\<lambda>t. to_attempt (obs t) = ReadBack payload) trials) \<and>
    tl_ok (rr_tally r) + rr_failures r = ra_trials args \<and>
    map (\<lambda>(l, total_trials, good, bad, _, _). (l, total_trials, good, bad)) (rr_rows r) =
      map (\<lambda>l. (l, length (filter (\<lambda>t. label t = l) trials),
                length (filter (\<lambda>t. label t = l \<and> to_attempt (obs t) = ReadBack payload) trials),
                length (filter (\<lambda>t. label t = l \<and> to_attempt (obs t) \<noteq> ReadBack payload) trials)))
        (sort (remdups (map budget_label budgets))) \<and>
    rr_retries r = registration_retries args env (ra_trials args) \<and>
    rr_dead_peer r = (if ra_dead_peer_trials args = 0 then None
      else Some (length (filter (\<lambda>t. rx_dead env t = DialRefused) [1..<Suc (ra_dead_peer_trials args)]),
                 length (filter (\<lambda>t. rx_dead env t = DialAcknowledged) [1..<Suc (ra_dead_peer_trials args)])))"
proof -
  define past where "past = map (\<lambda>t. (label t, obs t)) trials"
  define s where "s = tally_spec payload (budget_label ` set budgets) past"
  let ?retries = "registration_retries args env (ra_trials args)"
  have loop: "foldE (run_trial args env payload budgets) trials (0, tally_new budgets) = Inr (?retries, s)"
    using trials_tallied [OF assms(2,10,11,7), of payload] by (simp only: assms(12) s_def past_def)
  have n: "length trials = ra_trials args" by (simp add: assms(12))
  have small: "length (tl_latencies s) < 2 ^ 53" "length (tl_establish_latencies s) < 2 ^ 53"
  proof -
    have "length (tl_latencies s) \<le> length trials"
      by (simp add: s_def past_def tally_spec_def Let_def filter_trials)
    then show "length (tl_latencies s) < 2 ^ 53" using assms(8) n by linarith
    have "length (concat (map (\<lambda>t. case to_establishment t of Some (Inr waited) \<Rightarrow> [waited] | _ \<Rightarrow> []) ts)) \<le> length ts"
      for ts :: "trial_obs list"
      by (induction ts) (auto split: option.splits sum.splits)
    from this [of "map snd past"] have "length (tl_establish_latencies s) \<le> length trials"
      by (simp add: s_def past_def tally_spec_def Let_def del: map_map)
    then show "length (tl_establish_latencies s) < 2 ^ 53" using assms(8) n by linarith
  qed
  obtain q p50 p90 p99 where q: "quantiles (tl_latencies s) = Some q" "quantiles (tl_establish_latencies s) = Some (p50, p90, p99)"
    using quantiles_total [OF small(1)] quantiles_total [OF small(2)] by (metis prod_cases3)
  define dead where "dead = (if ra_dead_peer_trials args = 0 then None
      else Some (length (filter (\<lambda>t. rx_dead env t = DialRefused) [1..<Suc (ra_dead_peer_trials args)]),
                 length (filter (\<lambda>t. rx_dead env t = DialAcknowledged) [1..<Suc (ra_dead_peer_trials args)])))"
  have dead: "(if ra_dead_peer_trials args > 0
      then bindE (dead_peer_arm env (ra_dead_peer_trials args)) (\<lambda>counts. Inr (Some counts)) else Inr None) = Inr dead"
    using dead_peer_counts [OF assms(6), of "ra_dead_peer_trials args"] by (simp add: dead_def del: upt_Suc)
  let ?labels = "sort (remdups (map budget_label budgets))"
  have "\<forall>l \<in> set ?labels. \<exists>row.
      Option.bind (tl_per_budget s l) (\<lambda>entry. map_option (Pair l) (budget_row entry)) = Some (l, row) \<and>
      fst row = length (filter (\<lambda>t. label t = l) trials) \<and>
      fst (snd row) = length (filter (\<lambda>t. label t = l \<and> to_attempt (obs t) = ReadBack payload) trials) \<and>
      fst (snd (snd row)) = length (filter (\<lambda>t. label t = l \<and> to_attempt (obs t) \<noteq> ReadBack payload) trials)"
    unfolding s_def past_def using assms(8) n by (intro ballI budget_rows) simp_all
  from bchoice [OF this] obtain row where row: "\<forall>l \<in> set ?labels.
      Option.bind (tl_per_budget s l) (\<lambda>entry. map_option (Pair l) (budget_row entry)) = Some (l, row l) \<and>
      fst (row l) = length (filter (\<lambda>t. label t = l) trials) \<and>
      fst (snd (row l)) = length (filter (\<lambda>t. label t = l \<and> to_attempt (obs t) = ReadBack payload) trials) \<and>
      fst (snd (snd (row l))) = length (filter (\<lambda>t. label t = l \<and> to_attempt (obs t) \<noteq> ReadBack payload) trials)" by blast
  then have rows: "mapE (\<lambda>label. ok_or ReproPanic
      (Option.bind (tl_per_budget s label) (\<lambda>entry. map_option (Pair label) (budget_row entry)))) ?labels =
      Inr (map (\<lambda>l. (l, row l)) ?labels)"
    by (intro mapE_all_Inr) (drule (1) bspec, simp add: ok_or_def)
  obtain r where r: "repro_summary (ra_trials args) ?labels (rx_final env) dead (?retries, s) = Inr r" "rr_tally r = s"
    "rr_retries r = ?retries" "rr_dead_peer r = dead" "rr_rows r = map (\<lambda>l. (l, row l)) ?labels"
    "rr_failures r = tl_outbound_loss s + tl_echo_write_failed s + tl_return_loss s + tl_dial_errors s"
    using q rows by (simp add: repro_summary_def Let_def ok_or_def)
  have "repro args env = Inr r"
    using assms(1,3-5,9,12) dead loop r(1) by (simp add: repro_def Let_def del: upt_Suc)
  moreover have "tl_ok s = length (filter (\<lambda>t. to_attempt (obs t) = ReadBack payload) trials)"
    by (simp add: s_def past_def tally_spec_def Let_def filter_trials)
  moreover have "tl_ok s + rr_failures r = ra_trials args"
    using tally_spec_total [OF s_def] n by (simp add: r(6) past_def)
  moreover have "map (\<lambda>(l, total_trials, good, bad, _, _). (l, total_trials, good, bad)) (rr_rows r) =
      map (\<lambda>l. (l, length (filter (\<lambda>t. label t = l) trials),
                length (filter (\<lambda>t. label t = l \<and> to_attempt (obs t) = ReadBack payload) trials),
                length (filter (\<lambda>t. label t = l \<and> to_attempt (obs t) \<noteq> ReadBack payload) trials))) ?labels"
    unfolding r(5) map_map by (rule map_cong [OF refl]) (drule bspec [OF row], simp add: split_beta)
  ultimately show ?thesis using r(2-4) by (intro exI [of _ r]) (simp add: s_def past_def dead_def)
qed

text \<open>Three trials over two budgets, the second of them lost on the way back.\<close>

definition ref_repro_args :: repro_args where
  "ref_repro_args = \<lparr>ra_trials = 3, ra_budgets = [''1'', '' default ''], ra_fresh_dialler = False,
     ra_wait_established = True, ra_dead_peer_trials = 1\<rparr>"

definition ref_repro_env :: repro_env where
  "ref_repro_env = \<lparr>rx_echo = Inr (), rx_listener = Inr (), rx_dial = Inr (), rx_absent = Inr (), rx_dead = (\<lambda>_. DialNoAck),
     rx_reconnect = (\<lambda>_ _. Inl []), rx_trial = (\<lambda>trial _. \<lparr>te_before = (0, 0, 0), te_after = (1, 1, 1),
       te_elapsed = 2000 + trial, te_attempt = \<lparr>ae_deadline = (if trial = 2 then Some 4 else None), ae_open = Inr (),
         ae_wait = Inr 7, ae_write = Inr (), ae_flush = Inr (), ae_read = Inr (replicate PAYLOAD 0xA5)\<rparr>\<rparr>),
     rx_final = stages_default\<rparr>"

theorem trials_accounted_witness:
  "\<exists>r. repro ref_repro_args ref_repro_env = Inr r \<and> tl_ok (rr_tally r) = 2 \<and> rr_failures r = 1 \<and>
     map fst (rr_rows r) = [''b1'', ''bdef''] \<and> rr_retries r = 0 \<and> rr_dead_peer r = Some (0, 0)"
proof -
  have parsed: "mapE parse_budget (ra_budgets ref_repro_args) = Inr [Some 1, None]" by code_simp
  have trials: "[1..<Suc (ra_trials ref_repro_args)] = [1, 2, 3]" by (simp add: ref_repro_args_def upt_rec)
  have labels: "sort (remdups (map budget_label [Some 1, None])) = [''b1'', ''bdef'']" by code_simp
  have ok: "length (filter (\<lambda>t. to_attempt (observe (ra_wait_established ref_repro_args)
      (rx_trial ref_repro_env t ([Some 1, None] ! ((t - 1) mod length [Some 1, None])))) =
      ReadBack (replicate PAYLOAD 0xA5)) [1, 2, 3]) = 2"
    by (simp add: ref_repro_args_def ref_repro_env_def observe_def run_attempt_def attempt_step_def cut_at_def)
  have dead: "[1..<Suc (ra_dead_peer_trials ref_repro_args)] = [1]" "ra_dead_peer_trials ref_repro_args \<noteq> 0"
    by (simp_all add: ref_repro_args_def)
  have fst_row: "map fst rows = map fst (map (\<lambda>(l, a, b, c, _, _). (l, a, b, c)) rows)" for rows :: "(string \<times> usize \<times> usize \<times> usize \<times> rat \<times> nat) list"
    by (induction rows) auto
  show ?thesis
    using trials_accounted [OF parsed _ _ _ _ _ _ _ refl refl refl refl, of ref_repro_env] ok
    unfolding trials labels dead(1)
    by (auto simp: ref_repro_args_def ref_repro_env_def registration_retries_def fst_row)
qed

end
