(* ===== verification/Spec2Isabelle.thy ===== *)
theory Spec2Isabelle
  imports Pool_Filter Cache_Props Ingestor_Props Import_Props Export_Props Blocks_Props Service_Address Service_Chain
    Service_Subtrees Service_Mempool Darkside_Props Snapshot_Serve Node_Client Bulkhead Startup Config_Props
    Blocks_Complete Readstate_Props Metrics Transport Service Snapshot_Sync Program Fake_Node Nym_Repro
begin

text \<open>
  A verification development for lightwalletd-rs, the server between a Zcash full node and light wallets.
  Paths are relative to the crate's \<^verbatim>\<open>src/\<close>; the messages are those of \<^verbatim>\<open>proto/\<close>.

  \<^bold>\<open>The program.\<close> The ingestor (\<^verbatim>\<open>ingestor.rs\<close>) follows the node's chain: it fetches raw blocks, checks and
  parses them (\<^verbatim>\<open>fetch.rs\<close>, \<^verbatim>\<open>compact.rs\<close>) and appends them to an on-disk store (\<^verbatim>\<open>cache.rs\<close>), rolling back on a
  reorganization. The gRPC service (\<^verbatim>\<open>service/\<close>) answers wallets from that store and, for what the store does
  not hold, from the node; when it meets a cached block that does not connect it reports the height
  (\<^verbatim>\<open>repair.rs\<close>) and the ingestor cuts the store back. The mempool has one monitor that all streams read. A
  store can be published and bootstrapped in epochs (\<^verbatim>\<open>snapshot/\<close>). The node is reached over JSON-RPC
  (\<^verbatim>\<open>node/mod.rs\<close>), behind a bulkhead for the calls of wallets (\<^verbatim>\<open>node/bulkhead.rs\<close>), or through the state of a
  zebrad on the same machine (\<^verbatim>\<open>node/readstate.rs\<close>); a mock chain (\<^verbatim>\<open>darkside/\<close>) can stand in for it.
  \<^verbatim>\<open>config.rs\<close> resolves the command line and \<^verbatim>\<open>lib.rs\<close> wires everything, with the labels and the gauge of
  \<^verbatim>\<open>metrics.rs\<close> around the server; \<^verbatim>\<open>main.rs\<close> starts it. Beside the server the repository has a measuring example
  (\<^verbatim>\<open>examples/wire_size.rs\<close>), a mixnet experiment (\<^verbatim>\<open>contrib/nym/\<close>) and a scripted node for its tests
  (\<^verbatim>\<open>testutil.rs\<close>).

  \<^bold>\<open>The theories.\<close>

  \<^item> \<^verbatim>\<open>Prelude\<close>, \<^verbatim>\<open>Rust_Text\<close>: machine integers, Result, the loops over it, byte encodings; lines, trimming and
    decimal numbers of Rust strings.
  \<^item> \<^verbatim>\<open>Encoding\<close>, \<^verbatim>\<open>Compact_Formats\<close>, \<^verbatim>\<open>Compact\<close>, \<^verbatim>\<open>Pool_Filter\<close> (\<^verbatim>\<open>encoding.rs\<close>, \<^verbatim>\<open>compact_formats.proto\<close>, \<^verbatim>\<open>compact.rs\<close>,
    \<^verbatim>\<open>filter.rs\<close>): byte order, the two block parsers, which agree and invert serialization, and the pool filters.
  \<^item> \<^verbatim>\<open>Redb\<close>, \<^verbatim>\<open>Cache\<close>, \<^verbatim>\<open>Cache_Laws\<close>, \<^verbatim>\<open>Cache_Ref\<close>, \<^verbatim>\<open>Cache_Props\<close> (\<^verbatim>\<open>cache.rs\<close>): a database is the record of its two
    tables; each operation maps a database and the failures of its store calls to a database or an error.
    Appending refines list concatenation, truncation a prefix, chunked reads cover what they say they cover,
    and the open-time check and the localization of corruption agree.
  \<^item> \<^verbatim>\<open>Node_Rpc\<close>, \<^verbatim>\<open>Node_Calls\<close>, \<^verbatim>\<open>Node_Client\<close>, \<^verbatim>\<open>Bulkhead\<close>, \<^verbatim>\<open>Readstate\<close>, \<^verbatim>\<open>Readstate_Props\<close>, \<^verbatim>\<open>Fetch\<close> (\<^verbatim>\<open>node/\<close>,
    \<^verbatim>\<open>fetch.rs\<close>): a node is the record of its replies, and a call of it a value, so that a theorem can quantify
    over the calls. The JSON-RPC client and the state backend are two such records; the bulkhead wraps one, and
    its two pools of permits, with the calls that wait for one, are a step relation over those calls. A fetched
    block is the block the node names, and a call of the state backend asks exactly the requests it needs.
  \<^item> \<^verbatim>\<open>Repair\<close>, \<^verbatim>\<open>Ingestor\<close>, \<^verbatim>\<open>Ingestor_Laws\<close>, \<^verbatim>\<open>Ingestor_Sync\<close>, \<^verbatim>\<open>Ingestor_Props\<close> (\<^verbatim>\<open>repair.rs\<close>, \<^verbatim>\<open>ingestor.rs\<close>): one pass of the
    loop is a function of what it meets. A step is one of four moves on the cached chain, every run keeps the
    store a chain, and against a node that serves one chain the loop reaches its tip.
  \<^item> \<^verbatim>\<open>Grpc_Status\<close>, \<^verbatim>\<open>Service_Errors\<close>, \<^verbatim>\<open>Streamer\<close>, \<^verbatim>\<open>Framing\<close>, \<^verbatim>\<open>Service_Blocks\<close>, \<^verbatim>\<open>Blocks_Props\<close>, \<^verbatim>\<open>Blocks_Complete\<close>,
    \<^verbatim>\<open>Service_Address\<close>, \<^verbatim>\<open>Service_Chain\<close>, \<^verbatim>\<open>Service_Subtrees\<close>, \<^verbatim>\<open>Mempool_Monitor\<close>, \<^verbatim>\<open>Service_Mempool\<close>, \<^verbatim>\<open>Service\<close>
    (\<^verbatim>\<open>service/\<close>): every handler, and the protocol's methods dispatched to them; no method shows a client the
    private part of a node failure. A range stream is an unbroken chain whatever the store and the node do while it runs, it ends, and
    it is complete when the two agree on one chain.
  \<^item> \<^verbatim>\<open>Snapshot_Format\<close>, \<^verbatim>\<open>Snapshot_Export\<close>, \<^verbatim>\<open>Snapshot_Export_Laws\<close>, \<^verbatim>\<open>Export_Props\<close>, \<^verbatim>\<open>Snapshot_Serve\<close>, \<^verbatim>\<open>Snapshot_Import\<close>,
    \<^verbatim>\<open>Import_Laws\<close>, \<^verbatim>\<open>Import_Props\<close>, \<^verbatim>\<open>Snapshot_Publish\<close>, \<^verbatim>\<open>Snapshot_Sync\<close> (\<^verbatim>\<open>snapshot/\<close>): framing and digests, the
    publisher, its HTTP routes, and the importer, which adds only blocks the operator's node vouches for. Put
    together, an importer that reads an honest publisher's routes ends with the publisher's chain.
  \<^item> \<^verbatim>\<open>Darkside_Block\<close>, \<^verbatim>\<open>Darkside_State\<close>, \<^verbatim>\<open>Darkside_Node\<close>, \<^verbatim>\<open>Darkside_Service\<close>, \<^verbatim>\<open>Darkside_Laws\<close>,
    \<^verbatim>\<open>Darkside_Presented\<close>, \<^verbatim>\<open>Darkside_Props\<close> (\<^verbatim>\<open>darkside/\<close>): the mock chain, its control plane and the node it
    presents. A specification on the bytes of the calls says what each call stages and which chain an
    ApplyStaged makes of it (\<^verbatim>\<open>staged_by\<close>, \<^verbatim>\<open>presents\<close>), and the control plane refines it.
  \<^item> \<^verbatim>\<open>Config\<close>, \<^verbatim>\<open>Config_Props\<close>, \<^verbatim>\<open>Startup\<close>, \<^verbatim>\<open>Metrics\<close>, \<^verbatim>\<open>Transport\<close> (\<^verbatim>\<open>config.rs\<close>, \<^verbatim>\<open>lib.rs\<close>, \<^verbatim>\<open>metrics.rs\<close>): the resolved
    configuration, the way from it to a running server in both modes, the recorded labels and the CORS policy.
  \<^item> \<^verbatim>\<open>Program\<close> (\<^verbatim>\<open>main.rs\<close>, \<^verbatim>\<open>run\<close> and the shutdown futures of \<^verbatim>\<open>lib.rs\<close>, the constructors of the HTTP clients, the
    router of \<^verbatim>\<open>snapshot/serve.rs\<close>, \<^verbatim>\<open>build.rs\<close>): the whole way from the command line to a listening server, which
    comes up whenever what it needs from outside works, and what ends it.
  \<^item> \<^verbatim>\<open>Float64\<close>, \<^verbatim>\<open>Wire_Size\<close>, \<^verbatim>\<open>Nym_Repro\<close>, \<^verbatim>\<open>Fake_Node\<close>: the rounding of \<^verbatim>\<open>f64\<close>; the measuring example over the cache, the
    mixnet experiment with its echo side as a step relation, whose tallies add up, and the scripted node, which
    serves the blocks it was given through every check of the fetch.

  \<^bold>\<open>Interfaces.\<close> Code that is not in the repository is a record of functions that the definitions take as an
  argument, and a locale states what its documentation promises. \<^verbatim>\<open>hex_contract\<close> (the hex crate), extended by
  \<^verbatim>\<open>parse_contract\<close> (SHA-256, CompactSize and transaction readers), extended by \<^verbatim>\<open>state_contract\<close> (zebra's hashes and
  identifiers); \<^verbatim>\<open>ordered_table\<close> (a redb table), of which \<^verbatim>\<open>cache_contract\<close> has two, with the protobuf codec;
  \<^verbatim>\<open>codec\<close> for the reference codec. The interpretations \<^verbatim>\<open>rh\<close>, \<^verbatim>\<open>rp\<close>, \<^verbatim>\<open>rz\<close>, \<^verbatim>\<open>ot\<close> and \<^verbatim>\<open>rc\<close> give each a reference
  instance, so the contracts can hold and the closed examples have something to run on. Between the parts of
  the program, \<^verbatim>\<open>chain_node\<close> is what the ingestor and the range methods need of a node, and the state backend
  (\<^verbatim>\<open>state_chain\<close>) and the mock node (\<^verbatim>\<open>staged_chain\<close>) are sublocales of it; \<^verbatim>\<open>honest_peer\<close> is what the importer
  needs of a publisher, and a publisher whose maintenance caught up is one (\<^verbatim>\<open>published_peer\<close>).

  \<^bold>\<open>Modelling decisions.\<close> Unsigned integers are natural numbers, with each operation that can wrap, saturate or
  truncate written out. Bytes are 8-bit words, strings are lists of bytes as characters. A Result is a sum;
  every early return, panic and failure of a store call is a branch. The text of an error is its format string
  with its arguments. An operation that changes shared state and may fail returns the state it leaves beside
  the result. What depends on time, on scheduling or on a peer (task endings and their order, the database
  each read transaction sees, clock readings, deadlines, the chunks of a body) is an argument, so a theorem
  holds for all of it; runs of concurrent parts are step relations. A stream is the list of its items.

  \<^bold>\<open>Fuel and bounds.\<close> \<^verbatim>\<open>range_loop\<close> takes as fuel the number of heights of the range: each chunk covers one at least,
  and the loop is proved to return with it. \<^verbatim>\<open>ingest_until_idle\<close> takes a number of steps, and
  \<^term>\<open>length bs + tip + 2\<close> of them are proved enough. Every other loop is structural or has a termination proof.

  \<^bold>\<open>Not modelled.\<close> The libraries behind the contracts, and what is only a call into one: sockets, the TLS
  handshake, reflection, the metrics registry, log output. \<^verbatim>\<open>proto.rs\<close>, which includes the code generated from
  the schemas (the messages themselves are modelled from the schemas). The mixnet proxies \<^verbatim>\<open>dial.rs\<close> and
  \<^verbatim>\<open>sp.rs\<close>, which hand two streams to a library copy loop. The fixtures of \<^verbatim>\<open>testutil.rs\<close> that read files, and the
  tests.
\<close>

section \<open>From the node to the wallet\<close>

text \<open>
  C1: what the node serves is what a wallet reads. Against a node that serves one linked chain, the
  ingestor fills an empty cache up to the node's tip within \<^term>\<open>tip + 2\<close> steps, and from then on a
  request for any range of at most 10000 heights between the ingest floor and the tip, in either
  direction, yields exactly the node's blocks of those heights in that order, filtered to the pools asked
  for, with no error and no repair reported: whatever the node answers by then, as every block comes from
  the cache.
\<close>

theorem synced_range_served:
  assumes "cache_contract E" and "healthy E d []" and "all_run tasks" and "0 < start" and "start \<le> tip"
    and "tip < u64_max" and "serves X node C start tip"
    and "br_start rng = Some a" and "br_end rng = Some b"
    and "bi_height a \<in> {start..tip}" and "bi_height b \<in> {start..tip}"
    and "abs_diff (bi_height a) (bi_height b) < 10000" and "validate_pool_types (br_pool_types rng) = Inr ()"
    and "heights = (if bi_height a \<le> bi_height b then [bi_height a..<Suc (bi_height b)]
                    else rev [bi_height b..<Suc (bi_height a)])"
  shows "\<exists>d'. ingest_until_idle E X node tasks start config (tip + 2) d = Some d' \<and>
    (\<forall>later ends s encoded_len.
       get_block_range E X encoded_len
         \<lparr>re_view = (\<lambda>_. (no_faults, d')), re_floor = (no_faults, d'), re_node = later, re_task = ends\<rparr> s rng =
       Inr (Some \<lparr>rs_items =
         map (\<lambda>h. Inr (filter_block_to_pools (C h) (from_pool_types (br_pool_types rng)))) heights, rs_report = None\<rparr>))"
proof -
  have "distance C tip [] < tip + 2" by (simp add: distance_def synced_def)
  from cache_contract.until_idle_reaches [OF assms(1-3,5-7) _ this, of config] obtain d' bs where
    run: "ingest_until_idle E X node tasks start config (tip + 2) d = Some d'"
    and d': "healthy E d' bs" "bs \<noteq> []" "rooted start bs" "\<forall>b \<in> set bs. cb_height b \<le> tip \<and> b = C (cb_height b)"
    and idle: "cb_height (last bs) = tip \<or> tip < cb_height (last bs)"
    by (auto simp: above_floor_def rooted_def simp del: ingest_until_idle.simps)
  have "cb_height (last bs) \<le> tip" using d'(4) last_in_set [OF d'(2)] by blast
  then have bs: "stores E (db_blocks d') bs" "contiguous bs" "cb_height (hd bs) = start" "cb_height (last bs) = tip"
    using d'(1-3) idle by (auto simp: healthy_def stores_def rooted_def)
  have held: "\<exists>b \<in> set bs. cb_height b = h" if "h \<in> {start..tip}" for h
    using that contiguous_holds [OF bs(2) d'(2)] bs(3,4) by simp
  have H: "set heights \<subseteq> {start..tip}" using assms(10,11,14) by auto
  have "get_block_range E X encoded_len
      \<lparr>re_view = (\<lambda>_. (no_faults, d')), re_floor = (no_faults, d'), re_node = later, re_task = ends\<rparr> s rng =
    Inr (Some \<lparr>rs_items =
      map (\<lambda>h. Inr (filter_block_to_pools (C h) (from_pool_types (br_pool_types rng)))) heights, rs_report = None\<rparr>)"
    (is "get_block_range E X encoded_len ?env s rng = _") for later ends s encoded_len
  proof (rule range_methods_complete(1) [OF assms(1,8,9) _ _ _ _ _ assms(13) _ assms(14)])
    show "agrees_with E X ?env C (set heights)"
      using held subsetD [OF H] d'(4) by (intro chain_node.serves_agrees [OF chain_node.intro [OF assms(7)] H _ bs(1)]) (simp, blast, blast)
    show "check_ingest_floor E (fst (re_floor ?env)) (snd (re_floor ?env)) s rpc_method
        (min (bi_height a) (bi_height b)) = Inr ()" for rpc_method
      using assms(10,11) bs(3) by (simp add: cache_contract.floor_admits [OF assms(1) bs(1) d'(2)])
  qed (use assms(4,6,10-12) in \<open>auto simp: MAX_BLOCK_RANGE_def\<close>)
  then show ?thesis using run by blast
qed

theorem synced_range_served_witness:
  "\<exists>d' r. ingest_until_idle ref_cache ref_parse ref_node ref_env 42 ref_config 44 ref_empty = Some d' \<and>
     get_block_range ref_cache ref_parse (\<lambda>_. 10)
       \<lparr>re_view = (\<lambda>_. (no_faults, d')), re_floor = (no_faults, d'), re_node = (\<lambda>_. dead_node), re_task = (\<lambda>_. None)\<rparr>
       ref_service (ref_range 42 42) = Inr (Some r) \<and> length (rs_items r) = 1 \<and> rs_report r = None"
proof -
  obtain C where "serves ref_parse ref_node C 42 42" by (rule ref_node_serves)
  from synced_range_served [OF rc.cache_contract_axioms ref_empty_healthy ref_env_all_run(1) _ _ _ this, of
      "ref_range 42 42" "\<lparr>bi_height = 42, bi_hash = []\<rparr>" "\<lparr>bi_height = 42, bi_hash = []\<rparr>" _ ref_config]
  show ?thesis
    by (auto simp: ref_range_def u64_max_def abs_diff_def validate_pool_types_def)
qed

text \<open>
  C27: a staged chain is what a darkside wallet reads. On a mock server started over a fresh cache, after an
  ApplyStaged that succeeds a range request within the presented heights yields exactly the blocks of the
  staged chain, in order and filtered to the pools asked for: the block at a height is the compact form of
  the staged block there, linked to the block before, with its own transactions and then those staged for
  that height. The staged transactions are ones the reader consumes to their last byte, and no two blocks
  of the chain share a hash nor has one more transactions than a block can hold.
\<close>

theorem darkside_range_served:
  assumes "cache_contract E" and "run_darkside E flt config None None = Inr ds" and "parse_contract X"
    and "\<forall>call \<in> set calls. stages_exact X call"
    and "apply_staged X target (control_run X calls) = (st, Inr ())" and "presentable X st"
    and "br_start rng = Some a" and "br_end rng = Some b" and "0 < bi_height a" and "0 < bi_height b"
    and "bi_height a \<in> {dk_start_height st..nat (dk_latest_height st)}"
    and "bi_height b \<in> {dk_start_height st..nat (dk_latest_height st)}"
    and "bi_height a \<le> u64_max" and "bi_height b \<le> u64_max"
    and "abs_diff (bi_height a) (bi_height b) < 10000" and "validate_pool_types (br_pool_types rng) = Inr ()"
    and "heights = (if bi_height a \<le> bi_height b then [bi_height a..<Suc (bi_height b)]
                    else rev [bi_height b..<Suc (bi_height a)])"
  shows "presents X (control_run X calls) st \<and>
    get_block_range E X encoded_len
      \<lparr>re_view = (\<lambda>_. (no_faults, ds_cache ds)), re_floor = (no_faults, ds_cache ds),
       re_node = (\<lambda>_. darkside_node X display st), re_task = (\<lambda>_. None)\<rparr> (ds_streamer ds) rng =
    Inr (Some \<lparr>rs_items =
      map (\<lambda>h. Inr (filter_block_to_pools (compact_of X h (dk_active st ! (h - dk_start_height st)))
                      (from_pool_types (br_pool_types rng)))) heights,
      rs_report = None\<rparr>)"
    (is "_ \<and> get_block_range E X encoded_len ?env _ rng = _")
  unfolding dark_block_def [symmetric]
proof (rule conjI [OF _ range_methods_complete(1) [OF assms(1,7-10,13,14) _ assms(16) _ assms(17)]])
  show "presents X (control_run X calls) st"
    by (rule parse_contract.apply_staged_presents [OF assms(3) parse_contract.control_run_inv [OF assms(3,4)] assms(5)])
  have "staged_chain X st"
    by (rule parse_contract.control_run_staged [OF assms(3-6)])
  then show "agrees_with E X ?env (dark_block X st) (set heights)"
    by (intro chain_node.serves_agrees [OF staged_chain.staged_chain_node _ _ run_darkside_fresh(1) [OF assms(1,2)]])
      (use assms(11,12,17) in auto)
qed (use assms(15) run_darkside_fresh(2) [OF assms(1,2)] in \<open>simp_all add: MAX_BLOCK_RANGE_def check_ingest_floor_def\<close>)

theorem darkside_range_served_witness:
  "\<exists>ds st r. run_darkside ref_cache no_faults ref_startup_config None None = Inr ds \<and>
     apply_staged ref_parse 50 (control_run ref_parse (ref_calls ref_mined_tx)) = (st, Inr ()) \<and>
     get_block_range ref_cache ref_parse (\<lambda>_. 10)
       \<lparr>re_view = (\<lambda>_. (no_faults, ds_cache ds)), re_floor = (no_faults, ds_cache ds),
        re_node = (\<lambda>_. darkside_node ref_parse (\<lambda>_. []) st), re_task = (\<lambda>_. None)\<rparr>
       (ds_streamer ds) (ref_range 43 42) = Inr (Some r) \<and> length (rs_items r) = 2"
proof -
  obtain st where st: "apply_staged ref_parse 50 (control_run ref_parse (ref_calls ref_mined_tx)) = (st, Inr ())"
    "presentable ref_parse st" "dk_latest_height st = 43" "dk_start_height st = 42"
    by (rule ref_applied)
  obtain ds where ds: "run_darkside ref_cache no_faults ref_startup_config None None = Inr ds"
    by (simp add: run_darkside_def darkside_components_def cache_open_def)
  from darkside_range_served [OF rc.cache_contract_axioms ds rp.parse_contract_axioms ref_calls_exact st(1,2),
      of "ref_range 43 42" "\<lparr>bi_height = 43, bi_hash = []\<rparr>" "\<lparr>bi_height = 42, bi_hash = []\<rparr>"] st ds
  show ?thesis by (auto simp: ref_range_def u64_max_def abs_diff_def validate_pool_types_def)
qed

end
